(* ===== verification/Ccmcp_Prelude.thy ===== *)
theory Ccmcp_Prelude
  imports
    Main
    "HOL-Library.Word"
    "HOL-Library.Char_ord"
    "HOL-Library.List_Lexorder"
begin

text \<open>
  The shared vocabulary of the development.

  \<^item> \<open>('e, 'a) result\<close> is \<open>ccmcp::core::Result<T, E>\<close> (\<open>include/ccmcp/core/result.h\<close>):
    \<open>Inl e\<close> is \<open>Result::err(e)\<close>, \<open>Inr a\<close> is \<open>Result::ok(a)\<close>.
  \<^item> \<open>std::string\<close> is \<open>string\<close>, a list of 8-bit \<open>char\<close>s. Its order is the
    byte-wise lexicographic order of \<open>std::string::operator<\<close> (\<open>Char_ord\<close> compares bytes
    as unsigned numbers and \<open>List_Lexorder\<close> compares lists lexicographically).
  \<^item> \<open>std::set<std::string>\<close> read in iteration order is the strictly sorted list
    \<open>std_set_of xs\<close> of the inserted elements.
  \<^item> \<open>std::to_string\<close> and the \<open>std::hex\<close>/\<open>std::setw\<close> stream output are
    written out as functions on numbers.
\<close>

named_theorems ccmcp_sorted "strictly sorted lists, as std::set and std::unique produce them"
named_theorems ccmcp_text "lengths, characters and injectivity of printed numbers"

type_synonym ('e, 'a) result = "'e + 'a"

text \<open>\<open>Result\<close> (\<open>core/result.h\<close>), with the error first; and what goes on with its value.\<close>

fun result_bind :: "('e, 'a) result \<Rightarrow> ('a \<Rightarrow> ('e, 'b) result) \<Rightarrow> ('e, 'b) result" where
  "result_bind (Inl e) f = Inl e"
| "result_bind (Inr a) f = f a"

lemma result_bind_Inr_iff: "result_bind r f = Inr b \<longleftrightarrow> (\<exists>a. r = Inr a \<and> f a = Inr b)"
  by (cases r) auto

lemma result_bind_Inl_iff:
  "result_bind r f = Inl e \<longleftrightarrow> r = Inl e \<or> (\<exists>a. r = Inr a \<and> f a = Inl e)"
  by (cases r) auto

text \<open>A loop that stops at the first exception.\<close>

fun result_map :: "('a \<Rightarrow> ('e, 'b) result) \<Rightarrow> 'a list \<Rightarrow> ('e, 'b list) result" where
  "result_map f [] = Inr []"
| "result_map f (x # xs) = result_bind (f x) (\<lambda>y. result_bind (result_map f xs) (\<lambda>ys. Inr (y # ys)))"

lemma result_map_inverse:
  "(\<And>x. x \<in> set xs \<Longrightarrow> f (g x) = Inr x) \<Longrightarrow> result_map f (map g xs) = Inr xs"
  by (induction xs) auto

text \<open>\<open>Result::has_value\<close>.\<close>

definition has_value :: "('e, 'a) result \<Rightarrow> bool" where
  "has_value r = (case r of Inl _ \<Rightarrow> False | Inr _ \<Rightarrow> True)"

lemma has_value_simps [simp]:
  "has_value (Inl e) = False"
  "has_value (Inr a) = True"
  by (simp_all add: has_value_def)

text \<open>The apostrophe, which a string literal cannot end with.\<close>

abbreviation squote :: string where
  "squote \<equiv> [CHR 0x27]"

section \<open>Ordered sets of strings\<close>

text \<open>
  \<open>std::set\<close> keeps its elements strictly sorted. Inserting a range and reading the set
  back gives the sorted list of the distinct elements.
\<close>

definition std_set_of :: "'a::linorder list \<Rightarrow> 'a list" where
  "std_set_of xs = sort (remdups xs)"

definition sorted_set :: "'a::linorder list \<Rightarrow> bool" where
  "sorted_set xs = (sorted xs \<and> distinct xs)"

lemma set_std_set_of [simp]: "set (std_set_of xs) = set xs"
  by (simp add: std_set_of_def)

lemma sorted_set_std_set_of [simp, ccmcp_sorted]: "sorted_set (std_set_of xs)"
  by (simp add: std_set_of_def sorted_set_def)

lemma sorted_set_unique:
  assumes "sorted_set xs" and "sorted_set ys" and "set xs = set ys"
  shows "xs = ys"
  using assms by (auto simp: sorted_set_def intro: sorted_distinct_set_unique)

lemma std_set_of_id [ccmcp_sorted]: "sorted_set xs \<Longrightarrow> std_set_of xs = xs"
  by (rule sorted_set_unique) auto

lemma std_set_of_idem [simp]: "std_set_of (std_set_of xs) = std_set_of xs"
  by (rule std_set_of_id) simp

lemma std_set_of_cong: "set xs = set ys \<Longrightarrow> std_set_of xs = std_set_of ys"
  by (rule sorted_set_unique) auto

lemma std_set_of_Nil [simp]: "std_set_of [] = []"
  by (simp add: std_set_of_def)

lemma std_set_of_eq_Nil [simp]: "std_set_of xs = [] \<longleftrightarrow> xs = []"
  by (metis set_empty set_std_set_of)

lemma sorted_set_remdups_adj: "sorted xs \<Longrightarrow> sorted_set (remdups_adj xs)"
proof (induction xs rule: remdups_adj.induct)
  case (3 x y xs)
  then show ?case
    by (cases "x = y") (auto simp: sorted_set_def)
qed (auto simp: sorted_set_def)

text \<open>Sort, then \<open>std::unique\<close>, then erase: the same list that a \<open>std::set\<close> gives.\<close>

lemma sort_unique_eq_std_set_of: "remdups_adj (sort xs) = std_set_of xs"
  by (rule sorted_set_unique) (auto simp: sorted_set_remdups_adj)

lemma sorted_set_filter [ccmcp_sorted]: "sorted_set xs \<Longrightarrow> sorted_set (filter P xs)"
  by (simp add: sorted_set_def sorted_wrt_filter)

lemma std_set_of_snoc_cong: "std_set_of (std_set_of xs @ ys) = std_set_of (xs @ ys)"
  by (rule std_set_of_cong) simp

section \<open>Numbers as text\<close>

definition digit_char :: "nat \<Rightarrow> char" where
  "digit_char d = char_of (48 + d)"

definition is_digit :: "char \<Rightarrow> bool" where
  "is_digit c = (CHR ''0'' \<le> c \<and> c \<le> CHR ''9'')"

definition digit_value :: "char \<Rightarrow> nat" where
  "digit_value c = of_char c - 48"

fun to_string_nat :: "nat \<Rightarrow> string" where
  "to_string_nat n =
     (if n < 10 then [digit_char n] else to_string_nat (n div 10) @ [digit_char (n mod 10)])"

declare to_string_nat.simps [simp del]

definition to_string_int :: "int \<Rightarrow> string" where
  "to_string_int i = (if i < 0 then CHR ''-'' # to_string_nat (nat (- i)) else to_string_nat (nat i))"

fun digits_value :: "nat \<Rightarrow> string \<Rightarrow> nat" where
  "digits_value acc [] = acc"
| "digits_value acc (c # cs) = digits_value (10 * acc + digit_value c) cs"

lemma of_char_digit_char: "d < 10 \<Longrightarrow> (of_char (digit_char d) :: nat) = 48 + d"
  by (simp add: digit_char_def)

lemma digit_value_digit_char [simp]: "d < 10 \<Longrightarrow> digit_value (digit_char d) = d"
  by (simp add: digit_value_def of_char_digit_char)

lemma is_digit_iff: "is_digit c \<longleftrightarrow> 48 \<le> (of_char c :: nat) \<and> (of_char c :: nat) \<le> 57"
  by (simp add: is_digit_def less_eq_char_def)

lemma is_digit_digit_char [simp]: "d < 10 \<Longrightarrow> is_digit (digit_char d)"
  by (simp add: is_digit_iff of_char_digit_char)

lemma digits_value_append:
  "digits_value acc (xs @ ys) = digits_value (digits_value acc xs) ys"
  by (induction xs arbitrary: acc) auto

lemma to_string_nat_digits [ccmcp_text]: "\<forall>c \<in> set (to_string_nat n). is_digit c"
proof (induction n rule: to_string_nat.induct)
  case (1 n)
  then show ?case
    by (cases "n < 10") (auto simp: to_string_nat.simps [of n])
qed

lemma to_string_nat_nonempty [simp]: "to_string_nat n \<noteq> []"
  by (subst to_string_nat.simps) simp

lemma digits_value_to_string_nat [simp]: "digits_value 0 (to_string_nat n) = n"
proof (induction n rule: to_string_nat.induct)
  case (1 n)
  then show ?case
    by (cases "n < 10") (auto simp: to_string_nat.simps [of n] digits_value_append)
qed

lemma to_string_nat_inj [ccmcp_text]: "to_string_nat m = to_string_nat n \<longleftrightarrow> m = n"
  by (metis digits_value_to_string_nat)

lemma to_string_nat_no_char: "\<not> is_digit c \<Longrightarrow> c \<notin> set (to_string_nat n)"
  using to_string_nat_digits by blast

section \<open>Hexadecimal stream output\<close>

definition hex_char :: "nat \<Rightarrow> char" where
  "hex_char d = (if d < 10 then char_of (48 + d) else char_of (87 + d))"

definition hex_value :: "char \<Rightarrow> nat" where
  "hex_value c = (if of_char c < (58::nat) then of_char c - 48 else of_char c - 87)"

fun hex_nat :: "nat \<Rightarrow> string" where
  "hex_nat n = (if n < 16 then [hex_char n] else hex_nat (n div 16) @ [hex_char (n mod 16)])"

declare hex_nat.simps [simp del]

text \<open>\<open>std::setfill('0') << std::setw(k)\<close>: left-pad with zeros to at least \<open>k\<close> characters.\<close>

definition setw0 :: "nat \<Rightarrow> string \<Rightarrow> string" where
  "setw0 k s = replicate (k - length s) CHR ''0'' @ s"

fun hex_digits_value :: "nat \<Rightarrow> string \<Rightarrow> nat" where
  "hex_digits_value acc [] = acc"
| "hex_digits_value acc (c # cs) = hex_digits_value (16 * acc + hex_value c) cs"

definition is_hex_lower :: "char \<Rightarrow> bool" where
  "is_hex_lower c = (is_digit c \<or> (CHR ''a'' \<le> c \<and> c \<le> CHR ''f''))"

lemma hex_value_hex_char [simp]: "d < 16 \<Longrightarrow> hex_value (hex_char d) = d"
  by (simp add: hex_value_def hex_char_def)

lemma is_hex_lower_hex_char [simp]: "d < 16 \<Longrightarrow> is_hex_lower (hex_char d)"
  by (auto simp: is_hex_lower_def is_digit_iff hex_char_def less_eq_char_def)

lemma hex_char_table:
  "hex_char 0 = CHR ''0''" "hex_char (Suc 0) = CHR ''1''" "hex_char 2 = CHR ''2''" "hex_char 3 = CHR ''3''"
  "hex_char 4 = CHR ''4''" "hex_char 5 = CHR ''5''" "hex_char 6 = CHR ''6''" "hex_char 7 = CHR ''7''"
  "hex_char 8 = CHR ''8''" "hex_char 9 = CHR ''9''" "hex_char 10 = CHR ''a''" "hex_char 11 = CHR ''b''"
  "hex_char 12 = CHR ''c''" "hex_char 13 = CHR ''d''" "hex_char 14 = CHR ''e''" "hex_char 15 = CHR ''f''"
  by code_simp+
lemma hex_digits_value_append:
  "hex_digits_value acc (xs @ ys) = hex_digits_value (hex_digits_value acc xs) ys"
  by (induction xs arbitrary: acc) auto

lemma hex_digits_value_hex_nat [simp]: "hex_digits_value 0 (hex_nat n) = n"
proof (induction n rule: hex_nat.induct)
  case (1 n)
  then show ?case
    by (cases "n < 16") (auto simp: hex_nat.simps [of n] hex_digits_value_append)
qed

lemma hex_nat_lower: "\<forall>c \<in> set (hex_nat n). is_hex_lower c"
proof (induction n rule: hex_nat.induct)
  case (1 n)
  then show ?case
    by (cases "n < 16") (auto simp: hex_nat.simps [of n])
qed

lemma length_hex_nat_le: "0 < k \<Longrightarrow> n < 16 ^ k \<Longrightarrow> length (hex_nat n) \<le> k"
proof (induction k arbitrary: n)
  case 0
  then show ?case by simp
next
  case (Suc k)
  show ?case
  proof (cases "n < 16")
    case True
    then show ?thesis by (simp add: hex_nat.simps [of n])
  next
    case False
    then have "0 < k"
      using Suc.prems by (cases k) auto
    moreover have "n div 16 < 16 ^ k"
      using Suc.prems by (simp add: less_mult_imp_div_less mult.commute)
    ultimately have "length (hex_nat (n div 16)) \<le> k"
      by (rule Suc.IH)
    then show ?thesis
      using False by (simp add: hex_nat.simps [of n])
  qed
qed

lemma hex_digits_value_zeros [simp]: "hex_digits_value 0 (replicate k CHR ''0'' @ s) = hex_digits_value 0 s"
  by (induction k) (auto simp: hex_value_def)

lemma setw0_value [simp]: "hex_digits_value 0 (setw0 k (hex_nat n)) = n"
  by (simp add: setw0_def)

lemma length_setw0 [ccmcp_text]: "0 < k \<Longrightarrow> n < 16 ^ k \<Longrightarrow> length (setw0 k (hex_nat n)) = k"
  using length_hex_nat_le [of k n] by (simp add: setw0_def)

lemma setw0_lower [ccmcp_text]: "\<forall>c \<in> set (setw0 k (hex_nat n)). is_hex_lower c"
  using hex_nat_lower [of n]
  by (auto simp: setw0_def is_hex_lower_def is_digit_iff)

lemma setw0_inj [ccmcp_text]: "setw0 k (hex_nat m) = setw0 k (hex_nat n) \<longleftrightarrow> m = n"
  by (metis setw0_value)

section \<open>Lists\<close>

lemma foldl_snoc_map: "foldl (\<lambda>acc x. acc @ f x) acc xs = acc @ concat (map f xs)"
  by (induction xs arbitrary: acc) auto

lemma append_same_length_inj: "length ys = length ys' \<Longrightarrow> xs @ ys = xs' @ ys' \<longleftrightarrow> xs = xs' \<and> ys = ys'"
  by (metis append_eq_append_conv)

text \<open>
  A \<open>for\<close> loop that writes consecutive cells of an array is one \<open>map\<close> over its range.
\<close>

lemma foldl_update_range:
  "a + k \<le> length m \<Longrightarrow>
     foldl (\<lambda>m i. m[a + i := f i]) m [0..<k] = take a m @ map f [0..<k] @ drop (a + k) m"
proof (induction k)
  case (Suc k)
  let ?m = "take a m @ map f [0..<k] @ drop (a + k) m"
  have "?m[a + k := f k] = take a m @ map f [0..<k] @ (drop (a + k) m)[0 := f k]"
    using Suc.prems by (simp add: list_update_append)
  moreover have "drop (a + k) m = m ! (a + k) # drop (Suc (a + k)) m"
    using Suc.prems by (simp add: Cons_nth_drop_Suc)
  ultimately show ?case
    using Suc by simp
qed simp

lemma length_foldl_update [simp]:
  "length (foldl (\<lambda>m i. m[g i := f m i]) m is) = length m"
  by (induction "is" arbitrary: m) simp_all

end
