(* ===== verification/Normalization.thy ===== *)
theory Normalization
  imports Ccmcp_Prelude
begin

text \<open>
  ASCII text normalisation, \<open>include/ccmcp/core/normalization.h\<close>: \<open>normalize_ascii_lower\<close>,
  \<open>tokenize_ascii\<close>, \<open>normalize_tags\<close> and \<open>trim\<close>. Every component that compares text
  (atoms, requirements, the matcher, the tokenizers, the token rules) goes through these
  functions, so their lemmas (what a token looks like, idempotence, the shape of a trimmed
  string) are the base of the rest of the development. The contract the callers rely on is the
  locale \<open>normalizer\<close>: a function whose results are its own fixed points.
\<close>

section \<open>The normalizer contract\<close>

locale normalizer =
  fixes norm :: "'a \<Rightarrow> 'a"
  assumes norm_idem: "norm (norm x) = norm x"
begin

lemma normal_iff: "norm x = x \<longleftrightarrow> (\<exists>y. x = norm y)"
  using norm_idem by metis

lemma norm_image: "range norm = {x. norm x = x}"
  using normal_iff by auto

lemma norm_eq_trans: "norm x = norm y \<Longrightarrow> norm (norm x) = norm y"
  using norm_idem by simp

lemma norm_map_idem: "map norm (map norm xs) = map norm xs"
  using norm_idem by simp

lemma norm_funpow: "0 < n \<Longrightarrow> (norm ^^ n) x = norm x"
proof (induction n)
  case (Suc n)
  then show ?case by (cases "n = 0") (auto simp: norm_idem)
qed simp

end

section \<open>Characters\<close>

definition is_upper :: "char \<Rightarrow> bool" where
  "is_upper ch = (CHR ''A'' \<le> ch \<and> ch \<le> CHR ''Z'')"

definition is_lower_alnum :: "char \<Rightarrow> bool" where
  "is_lower_alnum ch =
     ((CHR ''a'' \<le> ch \<and> ch \<le> CHR ''z'') \<or> (CHR ''0'' \<le> ch \<and> ch \<le> CHR ''9''))"

text \<open>\<open>static_cast<char>(ch + ('a' - 'A'))\<close>.\<close>

definition case_offset :: "char \<Rightarrow> char" where
  "case_offset ch = char_of (of_char ch + (32::nat))"

definition is_trim_space :: "char \<Rightarrow> bool" where
  "is_trim_space ch =
     (ch = CHR '' '' \<or> ch = CHR 0x09 \<or> ch = CHR 0x0A \<or> ch = CHR 0x0D)"

lemma is_upper_iff: "is_upper c \<longleftrightarrow> 65 \<le> (of_char c :: nat) \<and> (of_char c :: nat) \<le> 90"
  by (simp add: is_upper_def less_eq_char_def)

lemma is_lower_alnum_iff:
  "is_lower_alnum c \<longleftrightarrow>
     (97 \<le> (of_char c :: nat) \<and> (of_char c :: nat) \<le> 122) \<or>
     (48 \<le> (of_char c :: nat) \<and> (of_char c :: nat) \<le> 57)"
  by (simp add: is_lower_alnum_def less_eq_char_def)

lemma of_char_case_offset: "is_upper c \<Longrightarrow> (of_char (case_offset c) :: nat) = of_char c + 32"
  by (simp add: case_offset_def is_upper_iff)

lemma case_offset_lower_alnum [simp]: "is_upper c \<Longrightarrow> is_lower_alnum (case_offset c)"
  by (simp add: is_lower_alnum_iff of_char_case_offset) (simp add: is_upper_iff)

lemma lower_alnum_not_upper [simp]: "is_lower_alnum c \<Longrightarrow> \<not> is_upper c"
  by (auto simp: is_lower_alnum_iff is_upper_iff)

lemma space_not_alnum [simp]: "\<not> is_lower_alnum CHR '' ''" "\<not> is_upper CHR '' ''"
  by (simp_all add: is_lower_alnum_iff is_upper_iff)

section \<open>normalize_ascii_lower\<close>

definition ascii_lower :: "char \<Rightarrow> char" where
  "ascii_lower ch = (if is_upper ch then case_offset ch else ch)"

definition normalize_ascii_lower :: "string \<Rightarrow> string" where
  "normalize_ascii_lower input = map ascii_lower input"

lemma ascii_lower_not_upper [simp]: "\<not> is_upper (ascii_lower c)"
  by (simp add: ascii_lower_def)

lemma ascii_lower_idem [simp]: "ascii_lower (ascii_lower c) = ascii_lower c"
  by (simp add: ascii_lower_def [of "ascii_lower c"])

lemma normalize_ascii_lower_idem:
  "normalize_ascii_lower (normalize_ascii_lower s) = normalize_ascii_lower s"
  by (simp add: normalize_ascii_lower_def)

lemma normalize_ascii_lower_fixed_iff:
  "normalize_ascii_lower s = s \<longleftrightarrow> (\<forall>c \<in> set s. \<not> is_upper c)"
proof -
  have "ascii_lower c = c \<longleftrightarrow> \<not> is_upper c" for c
    by (metis ascii_lower_def ascii_lower_not_upper)
  then show ?thesis
    by (simp add: normalize_ascii_lower_def map_idI list_eq_iff_nth_eq all_set_conv_all_nth)
qed

interpretation lower: normalizer normalize_ascii_lower
  by unfold_locales (rule normalize_ascii_lower_idem)

section \<open>tokenize_ascii\<close>

text \<open>
  First pass: lower-case letters and digits are kept, upper-case letters lowered, every other
  byte becomes the space delimiter. Second pass: the loop over the normalised text with the
  current token as its accumulator; a delimiter flushes the token when it is long enough, and
  the final token is flushed after the loop.
\<close>

definition token_char :: "char \<Rightarrow> char" where
  "token_char ch =
     (if is_lower_alnum ch then ch else if is_upper ch then case_offset ch else CHR '' '')"

fun split_tokens :: "nat \<Rightarrow> string \<Rightarrow> string \<Rightarrow> string list" where
  "split_tokens min_length current [] =
     (if current \<noteq> [] \<and> min_length \<le> length current then [current] else [])"
| "split_tokens min_length current (ch # rest) =
     (if ch = CHR '' '' then
        (if current \<noteq> [] \<and> min_length \<le> length current
         then current # split_tokens min_length [] rest
         else split_tokens min_length [] rest)
      else split_tokens min_length (current @ [ch]) rest)"

definition tokenize_ascii_min :: "nat \<Rightarrow> string \<Rightarrow> string list" where
  "tokenize_ascii_min min_length input = split_tokens min_length [] (map token_char input)"

text \<open>The default argument \<open>min_length = 2\<close>.\<close>

definition tokenize_ascii :: "string \<Rightarrow> string list" where
  "tokenize_ascii input = tokenize_ascii_min 2 input"

text \<open>A well-formed token: lower-case alphanumeric and at least \<open>m\<close> characters, never empty.\<close>

definition is_token :: "nat \<Rightarrow> string \<Rightarrow> bool" where
  "is_token m t = (t \<noteq> [] \<and> m \<le> length t \<and> (\<forall>c \<in> set t. is_lower_alnum c))"

lemma token_char_cases: "token_char c = CHR '' '' \<or> is_lower_alnum (token_char c)"
  by (simp add: token_char_def)

lemma token_char_lower_alnum [simp]: "is_lower_alnum c \<Longrightarrow> token_char c = c"
  by (simp add: token_char_def)

lemma token_char_space [simp]: "token_char CHR '' '' = CHR '' ''"
  by (simp add: token_char_def)

lemma token_char_ascii_lower [simp]: "token_char (ascii_lower c) = token_char c"
  by (auto simp: token_char_def ascii_lower_def)

lemma split_tokens_are_tokens:
  assumes "\<forall>c \<in> set text. c = CHR '' '' \<or> is_lower_alnum c"
    and "\<forall>c \<in> set current. is_lower_alnum c"
  shows "\<forall>t \<in> set (split_tokens m current text). is_token m t"
  using assms
proof (induction m current "text" rule: split_tokens.induct)
  case (1 m current)
  then show ?case by (simp add: is_token_def)
next
  case (2 m current ch rest)
  have rest: "\<forall>c \<in> set rest. c = CHR '' '' \<or> is_lower_alnum c"
    using "2.prems"(1) by simp
  show ?case
  proof (cases "ch = CHR '' ''")
    case True
    have "\<forall>t \<in> set (split_tokens m [] rest). is_token m t"
      using "2.IH"(1,2) True rest by (cases "current \<noteq> [] \<and> m \<le> length current") simp_all
    with True "2.prems"(2) show ?thesis by (simp add: is_token_def)
  next
    case False
    then have "is_lower_alnum ch" using "2.prems"(1) by simp
    with "2.IH"(3) False rest "2.prems"(2) show ?thesis by simp
  qed
qed

lemma tokenize_ascii_min_tokens: "t \<in> set (tokenize_ascii_min m s) \<Longrightarrow> is_token m t"
proof -
  have "\<forall>c \<in> set (map token_char s). c = CHR '' '' \<or> is_lower_alnum c"
    by (simp add: token_char_cases)
  then have "\<forall>t \<in> set (tokenize_ascii_min m s). is_token m t"
    unfolding tokenize_ascii_min_def by (rule split_tokens_are_tokens) simp
  then show "t \<in> set (tokenize_ascii_min m s) \<Longrightarrow> is_token m t" by blast
qed

lemma tokenize_ascii_tokens: "t \<in> set (tokenize_ascii s) \<Longrightarrow> is_token 2 t"
  unfolding tokenize_ascii_def by (rule tokenize_ascii_min_tokens)

lemma tokenize_ascii_min_lower [simp]:
  "tokenize_ascii_min m (normalize_ascii_lower s) = tokenize_ascii_min m s"
  by (simp add: tokenize_ascii_min_def normalize_ascii_lower_def comp_def)

text \<open>
  The specification of the splitter: the tokens are the long enough pieces of the text between
  the delimiters.
\<close>

fun split_spaces :: "string \<Rightarrow> string list" where
  "split_spaces [] = [[]]"
| "split_spaces (c # cs) =
     (if c = CHR '' '' then [] # split_spaces cs
      else (case split_spaces cs of [] \<Rightarrow> [[c]] | p # ps \<Rightarrow> (c # p) # ps))"

lemma split_spaces_nonempty [simp]: "split_spaces s \<noteq> []"
  by (induction s) (auto split: list.splits)

lemma split_tokens_eq_filter:
  "split_tokens m current text =
     filter (\<lambda>t. t \<noteq> [] \<and> m \<le> length t)
       (case split_spaces text of [] \<Rightarrow> [] | p # ps \<Rightarrow> (current @ p) # ps)"
proof (induction m current "text" rule: split_tokens.induct)
  case (2 m current ch rest)
  then show ?case
    by (cases "split_spaces rest") auto
qed simp

lemma tokenize_ascii_min_eq_filter:
  "tokenize_ascii_min m s =
     filter (\<lambda>t. t \<noteq> [] \<and> m \<le> length t) (split_spaces (map token_char s))"
  by (simp add: tokenize_ascii_min_def split_tokens_eq_filter split: list.splits)

lemma split_tokens_token:
  "\<forall>c \<in> set t. c \<noteq> CHR '' '' \<Longrightarrow> split_tokens m current (t @ text) = split_tokens m (current @ t) text"
  by (induction t arbitrary: current) auto

fun join_spaces :: "string list \<Rightarrow> string" where
  "join_spaces [] = []"
| "join_spaces [t] = t"
| "join_spaces (t # u # ts) = t @ CHR '' '' # join_spaces (u # ts)"

lemma tokenize_join_aux:
  assumes "\<forall>t \<in> set ts. is_token m t"
  shows "split_tokens m [] (map token_char (join_spaces ts)) = ts"
  using assms
proof (induction ts rule: join_spaces.induct)
  case (2 t)
  then have "map token_char t = t" and "\<forall>c \<in> set t. c \<noteq> CHR '' ''"
    by (auto simp: is_token_def intro: map_idI)
  then show ?case
    using split_tokens_token [of t m "[]" "[]"] "2" by (simp add: is_token_def)
next
  case (3 t u ts)
  then have "map token_char t = t" and "\<forall>c \<in> set t. c \<noteq> CHR '' ''"
    by (auto simp: is_token_def intro: map_idI)
  then show ?case
    using split_tokens_token [of t m "[]"] "3" by (simp add: is_token_def)
qed simp

lemma tokenize_join: "\<forall>t \<in> set ts. is_token m t \<Longrightarrow> tokenize_ascii_min m (join_spaces ts) = ts"
  by (simp add: tokenize_ascii_min_def tokenize_join_aux)

lemma tokenize_single_token: "is_token m t \<Longrightarrow> tokenize_ascii_min m t = [t]"
  using tokenize_join [of "[t]" m] by simp

section \<open>normalize_tags\<close>

definition normalize_tags :: "string list \<Rightarrow> string list" where
  "normalize_tags input_tags =
     (let all_tokens = concat (map tokenize_ascii input_tags)
      in remdups_adj (sort all_tokens))"

lemma normalize_tags_eq: "normalize_tags ts = std_set_of (concat (map tokenize_ascii ts))"
  by (simp add: normalize_tags_def sort_unique_eq_std_set_of)

lemma set_normalize_tags: "set (normalize_tags ts) = (\<Union>t \<in> set ts. set (tokenize_ascii t))"
  by (simp add: normalize_tags_eq)

lemma normalize_tags_tokens: "t \<in> set (normalize_tags ts) \<Longrightarrow> is_token 2 t"
  by (auto simp: set_normalize_tags dest: tokenize_ascii_tokens)

lemma sorted_set_normalize_tags [simp, ccmcp_sorted]: "sorted_set (normalize_tags ts)"
  by (simp add: normalize_tags_eq)

lemma normalize_tags_fixed:
  assumes "sorted_set ts" and "\<forall>t \<in> set ts. is_token 2 t"
  shows "normalize_tags ts = ts"
proof -
  have "concat (map tokenize_ascii ts) = ts"
    using assms(2) by (induction ts) (auto simp: tokenize_ascii_def tokenize_single_token)
  then show ?thesis
    using assms(1) by (simp add: normalize_tags_eq std_set_of_id)
qed

lemma normalize_tags_fixed_iff:
  "normalize_tags ts = ts \<longleftrightarrow> sorted_set ts \<and> (\<forall>t \<in> set ts. is_token 2 t)"
  by (metis normalize_tags_fixed normalize_tags_tokens sorted_set_normalize_tags)

lemma normalize_tags_idem: "normalize_tags (normalize_tags ts) = normalize_tags ts"
  by (rule normalize_tags_fixed) (auto dest: normalize_tags_tokens)

interpretation tags: normalizer normalize_tags
  by unfold_locales (rule normalize_tags_idem)

section \<open>trim\<close>

text \<open>The two index loops of \<open>trim\<close>.\<close>

function trim_start :: "string \<Rightarrow> nat \<Rightarrow> nat" where
  "trim_start input start =
     (if start < length input \<and> is_trim_space (input ! start)
      then trim_start input (Suc start) else start)"
  by pat_completeness auto
termination
  by (relation "measure (\<lambda>(input, start). length input - start)") auto

declare trim_start.simps [simp del]

fun trim_end :: "string \<Rightarrow> nat \<Rightarrow> nat \<Rightarrow> nat" where
  "trim_end input start 0 = 0"
| "trim_end input start (Suc e) =
     (if start < Suc e \<and> is_trim_space (input ! e) then trim_end input start e else Suc e)"

definition trim :: "string \<Rightarrow> string" where
  "trim input =
     (if input = [] then []
      else let start = trim_start input 0
           in if start = length input then []
              else take (trim_end input start (length input) - start) (drop start input))"

lemma trim_start_eq:
  "start \<le> length s \<Longrightarrow>
     trim_start s start = start + length (takeWhile is_trim_space (drop start s))"
proof (induction s start rule: trim_start.induct)
  case (1 s start)
  show ?case
  proof (cases "start < length s \<and> is_trim_space (s ! start)")
    case True
    then have "drop start s = s ! start # drop (Suc start) s"
      by (simp add: Cons_nth_drop_Suc)
    with True 1 show ?thesis
      by (simp add: trim_start.simps [of s start])
  next
    case False
    then have "takeWhile is_trim_space (drop start s) = []"
      by (cases "start < length s") (simp_all add: Cons_nth_drop_Suc [symmetric])
    with False show ?thesis by (auto simp: trim_start.simps [of s start])
  qed
qed

lemma trim_end_eq:
  assumes "start \<le> e" and "e \<le> length s"
  shows "take (trim_end s start e - start) (drop start s) =
     rev (dropWhile is_trim_space (rev (take (e - start) (drop start s))))"
  using assms
proof (induction e)
  case 0
  then show ?case by simp
next
  case (Suc e)
  show ?case
  proof (cases "start < Suc e")
    case True
    then have "take (Suc e - start) (drop start s) = take (e - start) (drop start s) @ [s ! e]"
      using Suc.prems by (simp add: Suc_diff_le take_Suc_conv_app_nth)
    with Suc True show ?thesis by (auto simp: less_Suc_eq_le)
  next
    case False
    with Suc.prems show ?thesis by simp
  qed
qed

lemma trim_eq:
  "trim s = rev (dropWhile is_trim_space (rev (dropWhile is_trim_space s)))"
proof (cases "s = []")
  case True
  then show ?thesis by (simp add: trim_def)
next
  case False
  let ?n = "length (takeWhile is_trim_space s)"
  have start: "trim_start s 0 = ?n"
    using trim_start_eq [of 0 s] by simp
  have drop: "drop ?n s = dropWhile is_trim_space s"
    by (simp add: dropWhile_eq_drop)
  have len: "?n + length (dropWhile is_trim_space s) = length s"
    by (metis length_append takeWhile_dropWhile_id)
  show ?thesis
  proof (cases "?n = length s")
    case True
    with len have "dropWhile is_trim_space s = []" by simp
    then have "trim s = []" and "rev (dropWhile is_trim_space (rev (dropWhile is_trim_space s))) = []"
      using False True start by (simp_all only: trim_def Let_def if_False if_True refl rev.simps dropWhile.simps)
    then show ?thesis by simp
  next
    case ne: False
    have "take (trim_end s ?n (length s) - ?n) (drop ?n s) =
        rev (dropWhile is_trim_space (rev (take (length s - ?n) (drop ?n s))))"
      by (rule trim_end_eq) (simp_all add: length_takeWhile_le)
    moreover have "take (length s - ?n) (drop ?n s) = dropWhile is_trim_space s"
      using len drop by simp
    ultimately show ?thesis
      using False ne start drop by (simp add: trim_def Let_def)
  qed
qed

definition trimmed :: "string \<Rightarrow> bool" where
  "trimmed s = (s = [] \<or> (\<not> is_trim_space (hd s) \<and> \<not> is_trim_space (last s)))"

lemma trim_Nil [simp]: "trim [] = []"
  by (simp add: trim_eq)

lemma trim_trimmed: "trimmed s \<Longrightarrow> trim s = s"
proof (cases s rule: rev_cases)
  case (snoc xs x)
  assume "trimmed s"
  with snoc have "\<not> is_trim_space (hd s)" "\<not> is_trim_space x"
    by (auto simp: trimmed_def)
  then have "dropWhile is_trim_space s = s"
    by (cases s) auto
  with snoc \<open>\<not> is_trim_space x\<close> show ?thesis by (simp add: trim_eq)
qed simp

lemma trim_decompose:
  "\<exists>pre suf. s = pre @ trim s @ suf \<and> (\<forall>c \<in> set pre \<union> set suf. is_trim_space c)"
proof (intro exI conjI)
  let ?d = "dropWhile is_trim_space s"
  have "?d = trim s @ rev (takeWhile is_trim_space (rev ?d))"
    by (metis rev_append rev_rev_ident takeWhile_dropWhile_id trim_eq)
  then show "s = takeWhile is_trim_space s @ trim s @ rev (takeWhile is_trim_space (rev ?d))"
    by (metis takeWhile_dropWhile_id)
  show "\<forall>c \<in> set (takeWhile is_trim_space s) \<union> set (rev (takeWhile is_trim_space (rev ?d))).
      is_trim_space c"
    by (auto dest: set_takeWhileD)
qed

lemma trimmed_trim [simp]: "trimmed (trim s)"
proof (cases "trim s = []")
  case False
  let ?d = "dropWhile is_trim_space s"
  have d: "?d = trim s @ rev (takeWhile is_trim_space (rev ?d))"
    by (metis rev_append rev_rev_ident takeWhile_dropWhile_id trim_eq)
  then have "?d \<noteq> []" and "hd ?d = hd (trim s)"
    using False by (metis append_is_Nil_conv) (metis False d hd_append2)
  then have "\<not> is_trim_space (hd (trim s))"
    by (metis hd_dropWhile)
  moreover have "\<not> is_trim_space (last (trim s))"
    using False by (simp add: trim_eq last_rev hd_dropWhile)
  ultimately show ?thesis by (simp add: trimmed_def)
qed (simp add: trimmed_def)

lemma trim_idem: "trim (trim s) = trim s"
  by (rule trim_trimmed) simp

lemma trim_fixed_iff: "trim s = s \<longleftrightarrow> trimmed s"
  by (metis trim_trimmed trimmed_trim)

interpretation trim: normalizer trim
  by unfold_locales (rule trim_idem)

lemma is_trim_space_ascii_lower [simp]: "is_trim_space (ascii_lower c) = is_trim_space c"
proof (cases "is_upper c")
  case True
  then have u: "65 \<le> (of_char c :: nat)" "(of_char (ascii_lower c) :: nat) = of_char c + 32"
    by (simp_all add: is_upper_iff ascii_lower_def of_char_case_offset)
  then have "\<not> is_trim_space c" "\<not> is_trim_space (ascii_lower c)"
    by (auto simp: is_trim_space_def)
  then show ?thesis by simp
qed (simp add: ascii_lower_def)

lemma trimmed_lower [simp]: "trimmed (normalize_ascii_lower s) = trimmed s"
  by (cases s rule: rev_cases)
    (auto simp: trimmed_def normalize_ascii_lower_def hd_append hd_map)

end
