(* ===== verification/Hashing.thy ===== *)
theory Hashing
  imports Normalization
begin

text \<open>
  \<open>src/core/hashing.cpp\<close> (64-bit FNV-1a, \<open>stable_hash64\<close> and its hexadecimal form) and
  \<open>src/core/id_generator.cpp\<close>. The hash is 64-bit arithmetic with wrap-around. Each step is
  a bijection of the 64-bit state (the prime is odd, hence invertible), so a change of one byte
  always changes the hash; the printed form is 16 lower-case hexadecimal digits and determines
  the hash. An identifier is a prefix, a dash and the counter.
\<close>

unbundle bit_operations_syntax

section \<open>FNV-1a\<close>

definition fnv_offset :: "64 word" where
  "fnv_offset = 14695981039346656037"

definition fnv_prime :: "64 word" where
  "fnv_prime = 1099511628211"

definition fnv_step :: "64 word \<Rightarrow> char \<Rightarrow> 64 word" where
  "fnv_step hash ch = (hash XOR of_char ch) * fnv_prime"

definition stable_hash64 :: "string \<Rightarrow> 64 word" where
  "stable_hash64 input = foldl fnv_step fnv_offset input"

definition stable_hash64_hex :: "string \<Rightarrow> string" where
  "stable_hash64_hex input = setw0 16 (hex_nat (unat (stable_hash64 input)))"

text \<open>The multiplicative inverse of the prime modulo \<open>2 ^ 64\<close>.\<close>

lemma fnv_prime_inverse: "fnv_prime * 14886173955864302971 = 1"
  by (simp add: fnv_prime_def)

lemma fnv_mult_inj: "x * fnv_prime = y * fnv_prime \<longleftrightarrow> x = y"
proof
  assume "x * fnv_prime = y * fnv_prime"
  then have "x * (fnv_prime * 14886173955864302971) = y * (fnv_prime * 14886173955864302971)"
    by (simp only: mult.assoc [symmetric])
  then show "x = y" by (simp add: fnv_prime_inverse)
qed simp

lemma xor_inj_left: "(x :: 64 word) XOR z = y XOR z \<longleftrightarrow> x = y"
proof
  assume "x XOR z = y XOR z"
  then have "(x XOR z) XOR z = (y XOR z) XOR z" by simp
  then show "x = y" by (simp add: xor.assoc)
qed simp

lemma xor_inj_right: "z XOR (x :: 64 word) = z XOR y \<longleftrightarrow> x = y"
  by (simp add: xor.commute [of z] xor_inj_left)

lemma of_nat_word64_inj: "m < 2 ^ 64 \<Longrightarrow> n < 2 ^ 64 \<Longrightarrow> (of_nat m :: 64 word) = of_nat n \<longleftrightarrow> m = n"
  by (simp add: word_of_nat_eq_iff take_bit_nat_def)

lemma of_char_word64_inj: "(of_char c :: 64 word) = of_char d \<longleftrightarrow> c = d"
proof -
  have small: "(of_char x :: nat) < 2 ^ 64" for x
    by (rule less_le_trans [OF nat_of_char_less_256]) simp
  have conv: "(of_char x :: 64 word) = of_nat (of_char x)" for x
    by (simp only: of_nat_of_char)
  have "(of_char c :: 64 word) = of_char d \<longleftrightarrow> (of_char c :: nat) = of_char d"
    unfolding conv by (rule of_nat_word64_inj [OF small small])
  then show ?thesis by simp
qed

lemma fnv_step_inj_state: "fnv_step h c = fnv_step h' c \<longleftrightarrow> h = h'"
  by (simp add: fnv_step_def fnv_mult_inj xor_inj_left)

lemma fnv_step_inj_char: "fnv_step h c = fnv_step h d \<longleftrightarrow> c = d"
  by (simp add: fnv_step_def fnv_mult_inj xor_inj_right of_char_word64_inj)

lemma fnv_foldl_inj_state: "foldl fnv_step h s = foldl fnv_step h' s \<longleftrightarrow> h = h'"
  by (induction s arbitrary: h h') (simp_all add: fnv_step_inj_state)

lemma stable_hash64_append: "stable_hash64 (s @ t) = foldl fnv_step (stable_hash64 s) t"
  by (simp add: stable_hash64_def)

lemma stable_hash64_substitute:
  "stable_hash64 (pre @ c # suf) = stable_hash64 (pre @ d # suf) \<longleftrightarrow> c = d"
  by (simp add: stable_hash64_append fnv_foldl_inj_state fnv_step_inj_char)

lemma length_stable_hash64_hex [simp, ccmcp_text]: "length (stable_hash64_hex s) = 16"
proof -
  have "unat (stable_hash64 s) < 16 ^ 16"
    using unsigned_less [of "stable_hash64 s", where ?'a = nat] by simp
  then show ?thesis
    by (simp add: stable_hash64_hex_def length_setw0)
qed

lemma stable_hash64_hex_lower: "\<forall>c \<in> set (stable_hash64_hex s). is_hex_lower c"
  by (simp add: stable_hash64_hex_def setw0_lower)

lemma stable_hash64_hex_eq_iff: "stable_hash64_hex s = stable_hash64_hex t \<longleftrightarrow> stable_hash64 s = stable_hash64 t"
  by (simp add: stable_hash64_hex_def setw0_inj word_unat_eq_iff)

section \<open>Identifier generators\<close>

text \<open>
  \<open>std::atomic<unsigned long long> counter_\<close>: \<open>fetch_add(1)\<close> returns the old value and wraps.
  The system generator also prints the microseconds of the clock, which it reads in the call and
  which are an argument here.
\<close>

type_synonym id_counter = "64 word"

definition deterministic_next :: "string \<Rightarrow> id_counter \<Rightarrow> string \<times> id_counter" where
  "deterministic_next prefix counter =
     (prefix @ ''-'' @ to_string_nat (unat counter), counter + 1)"

definition system_next :: "int \<Rightarrow> string \<Rightarrow> id_counter \<Rightarrow> string \<times> id_counter" where
  "system_next micros prefix counter =
     (prefix @ ''-'' @ to_string_int micros @ ''-'' @ to_string_nat (unat counter), counter + 1)"

lemma dash_not_digit [simp]: "\<not> is_digit CHR ''-''"
  by (simp add: is_digit_iff)

text \<open>The digits after the last dash and the text before it are determined by the whole.\<close>

lemma dash_suffix_inj:
  assumes "p @ CHR ''-'' # to_string_nat m = q @ CHR ''-'' # to_string_nat n"
  shows "p = q \<and> m = n"
proof -
  have dw: "dropWhile is_digit (rev (p @ CHR ''-'' # to_string_nat m)) = CHR ''-'' # rev p" for p m
    using to_string_nat_digits [of m] by (simp add: dropWhile_append3)
  have "rev p = rev q"
    using dw [of p m] dw [of q n] assms by simp
  with assms show ?thesis by (simp add: to_string_nat_inj)
qed

lemma deterministic_next_inj:
  "fst (deterministic_next p c) = fst (deterministic_next q d) \<longleftrightarrow> p = q \<and> c = d"
  using dash_suffix_inj [of p "unat c" q "unat d"]
  by (auto simp: deterministic_next_def word_unat_eq_iff)

lemma system_next_inj_counter:
  assumes "fst (system_next t p c) = fst (system_next u q d)"
  shows "c = d"
  using dash_suffix_inj [of "p @ ''-'' @ to_string_int t" "unat c" "q @ ''-'' @ to_string_int u" "unat d"] assms
  by (auto simp: system_next_def word_unat_eq_iff)

text \<open>A run of \<open>n\<close> calls: the counters are consecutive, so the identifiers are distinct.\<close>

fun deterministic_run :: "string list \<Rightarrow> id_counter \<Rightarrow> string list" where
  "deterministic_run [] counter = []"
| "deterministic_run (p # ps) counter =
     (let (x, counter') = deterministic_next p counter in x # deterministic_run ps counter')"

lemma deterministic_run_nth:
  "i < length ps \<Longrightarrow>
     deterministic_run ps c ! i = fst (deterministic_next (ps ! i) (c + of_nat i))"
proof (induction ps arbitrary: c i)
  case (Cons p ps)
  then show ?case
    by (cases i) (simp_all add: deterministic_next_def add.assoc)
qed simp

lemma length_deterministic_run [simp]: "length (deterministic_run ps c) = length ps"
  by (induction ps arbitrary: c) (simp_all add: deterministic_next_def)

text \<open>Identifiers never repeat: up to \<open>2 ^ 64\<close> calls of the deterministic generator, with
  any prefixes and from any counter, return pairwise distinct identifiers.\<close>
theorem deterministic_run_distinct:
  assumes "length ps \<le> 2 ^ 64"
  shows "distinct (deterministic_run ps c)"
proof (unfold distinct_conv_nth, intro allI impI)
  fix i j
  assume i: "i < length (deterministic_run ps c)" and j: "j < length (deterministic_run ps c)"
    and "i \<noteq> j"
  then have "(of_nat i :: 64 word) \<noteq> of_nat j"
    using assms of_nat_word64_inj [of i j] by simp
  with i j show "deterministic_run ps c ! i \<noteq> deterministic_run ps c ! j"
    by (simp add: deterministic_run_nth deterministic_next_inj)
qed

theorem deterministic_run_distinct_witness:
  "distinct (deterministic_run [''atom'', ''evt'', ''atom''] 0)"
  by (rule deterministic_run_distinct) simp

end
