(* ===== verification/Sha256.thy ===== *)
theory Sha256
  imports Hashing
begin

text \<open>
  SHA-256 as \<open>src/core/sha256.cpp\<close> computes it: 32-bit words with wrap-around addition, the
  padding written into a zeroed buffer, the message schedule filled by two index loops, 64 rounds
  over the eight working variables, and the digest printed as eight zero-padded hexadecimal words.
  The lemmas give the buffer as a list and the schedule loops as a recurrence, and show that the digest always
  has 64 lower-case hexadecimal digits. \<open>Sha256_Standard\<close> compares it with FIPS 180-4.
\<close>

unbundle bit_operations_syntax

type_synonym byte = "8 word"

section \<open>Constants and word functions\<close>

definition kH0 :: "32 word list" where
  "kH0 =
     [0x6a09e667, 0xbb67ae85, 0x3c6ef372, 0xa54ff53a,
      0x510e527f, 0x9b05688c, 0x1f83d9ab, 0x5be0cd19]"

text \<open>The rows are the rows of the source.\<close>

definition kK :: "32 word list" where
  "kK = concat
     [[0x428a2f98, 0x71374491, 0xb5c0fbcf, 0xe9b5dba5, 0x3956c25b, 0x59f111f1, 0x923f82a4],
      [0xab1c5ed5, 0xd807aa98, 0x12835b01, 0x243185be, 0x550c7dc3, 0x72be5d74, 0x80deb1fe],
      [0x9bdc06a7, 0xc19bf174, 0xe49b69c1, 0xefbe4786, 0x0fc19dc6, 0x240ca1cc, 0x2de92c6f],
      [0x4a7484aa, 0x5cb0a9dc, 0x76f988da, 0x983e5152, 0xa831c66d, 0xb00327c8, 0xbf597fc7],
      [0xc6e00bf3, 0xd5a79147, 0x06ca6351, 0x14292967, 0x27b70a85, 0x2e1b2138, 0x4d2c6dfc],
      [0x53380d13, 0x650a7354, 0x766a0abb, 0x81c2c92e, 0x92722c85, 0xa2bfe8a1, 0xa81a664b],
      [0xc24b8b70, 0xc76c51a3, 0xd192e819, 0xd6990624, 0xf40e3585, 0x106aa070, 0x19a4c116],
      [0x1e376c08, 0x2748774c, 0x34b0bcb5, 0x391c0cb3, 0x4ed8aa4a, 0x5b9cca4f, 0x682e6ff3],
      [0x748f82ee, 0x78a5636f, 0x84c87814, 0x8cc70208, 0x90befffa, 0xa4506ceb, 0xbef9a3f7],
      [0xc67178f2]]"

text \<open>Called with \<open>0 < n < 32\<close> only; a shift by 32 would be undefined in the source.\<close>

definition rotr32 :: "32 word \<Rightarrow> nat \<Rightarrow> 32 word" where
  "rotr32 x n = (drop_bit n x) OR (push_bit (32 - n) x)"

definition sha_ch :: "32 word \<Rightarrow> 32 word \<Rightarrow> 32 word \<Rightarrow> 32 word" where
  "sha_ch x y z = (x AND y) XOR (NOT x AND z)"

definition sha_maj :: "32 word \<Rightarrow> 32 word \<Rightarrow> 32 word \<Rightarrow> 32 word" where
  "sha_maj x y z = (x AND y) XOR (x AND z) XOR (y AND z)"

definition sigma0_big :: "32 word \<Rightarrow> 32 word" where
  "sigma0_big x = rotr32 x 2 XOR rotr32 x 13 XOR rotr32 x 22"

definition sigma1_big :: "32 word \<Rightarrow> 32 word" where
  "sigma1_big x = rotr32 x 6 XOR rotr32 x 11 XOR rotr32 x 25"

definition sigma0_small :: "32 word \<Rightarrow> 32 word" where
  "sigma0_small x = rotr32 x 7 XOR rotr32 x 18 XOR drop_bit 3 x"

definition sigma1_small :: "32 word \<Rightarrow> 32 word" where
  "sigma1_small x = rotr32 x 17 XOR rotr32 x 19 XOR drop_bit 10 x"

section \<open>process_block\<close>

definition load_be32 :: "byte list \<Rightarrow> nat \<Rightarrow> 32 word" where
  "load_be32 block i =
     push_bit 24 (ucast (block ! (i * 4 + 0))) OR
     push_bit 16 (ucast (block ! (i * 4 + 1))) OR
     push_bit 8 (ucast (block ! (i * 4 + 2))) OR
     ucast (block ! (i * 4 + 3))"

definition schedule_word :: "32 word list \<Rightarrow> nat \<Rightarrow> 32 word" where
  "schedule_word w i =
     sigma1_small (w ! (i - 2)) + w ! (i - 7) + sigma0_small (w ! (i - 15)) + w ! (i - 16)"

definition message_schedule :: "byte list \<Rightarrow> 32 word list" where
  "message_schedule block =
     (let w = foldl (\<lambda>w i. w[0 + i := load_be32 block i]) (replicate 64 0) [0..<16]
      in foldl (\<lambda>w i. w[i := schedule_word w i]) w [16..<64])"

type_synonym working =
  "32 word \<times> 32 word \<times> 32 word \<times> 32 word \<times> 32 word \<times> 32 word \<times> 32 word \<times> 32 word"

definition sha_round :: "32 word list \<Rightarrow> working \<Rightarrow> nat \<Rightarrow> working" where
  "sha_round w = (\<lambda>(a, b, c, d, e, f, g, h) i.
     let t1 = h + sigma1_big e + sha_ch e f g + kK ! i + w ! i;
         t2 = sigma0_big a + sha_maj a b c
     in (t1 + t2, a, b, c, d + t1, e, f, g))"

definition process_block :: "32 word list \<Rightarrow> byte list \<Rightarrow> 32 word list" where
  "process_block state block =
     (let w = message_schedule block;
          (a, b, c, d, e, f, g, h) =
            foldl (sha_round w)
              (state ! 0, state ! 1, state ! 2, state ! 3,
               state ! 4, state ! 5, state ! 6, state ! 7) [0..<64]
      in [state ! 0 + a, state ! 1 + b, state ! 2 + c, state ! 3 + d,
          state ! 4 + e, state ! 5 + f, state ! 6 + g, state ! 7 + h])"

section \<open>sha256_hex\<close>

text \<open>
  The buffer of \<open>padded_size\<close> zero bytes, the copied message, the byte \<open>0x80\<close> and the
  64-bit big-endian bit length. \<open>size_t\<close> arithmetic on the length of a string in memory does
  not wrap; the bit length is the 64-bit product.
\<close>

definition padded_size :: "nat \<Rightarrow> nat" where
  "padded_size n = ((n + 9 + 63) div 64) * 64"

definition sha_bit_len :: "nat \<Rightarrow> 64 word" where
  "sha_bit_len n = of_nat n * 8"

definition string_bytes :: "string \<Rightarrow> byte list" where
  "string_bytes s = map of_char s"

definition sha_padded :: "string \<Rightarrow> byte list" where
  "sha_padded input =
     (let n = length input;
          padded = padded_size n;
          msg = replicate padded 0;
          msg = string_bytes input @ drop n msg;
          msg = msg[n := 0x80]
      in foldl (\<lambda>msg i. msg[(padded - 8) + i := ucast (drop_bit ((7 - i) * 8) (sha_bit_len n))])
           msg [0..<8])"

function sha_blocks :: "32 word list \<Rightarrow> byte list \<Rightarrow> nat \<Rightarrow> 32 word list" where
  "sha_blocks state msg offset =
     (if offset < length msg
      then sha_blocks (process_block state (drop offset msg)) msg (offset + 64)
      else state)"
  by pat_completeness auto
termination
  by (relation "measure (\<lambda>(state, msg, offset). length msg - offset)") auto

declare sha_blocks.simps [simp del]

definition sha_digest_hex :: "32 word list \<Rightarrow> string" where
  "sha_digest_hex state = concat (map (\<lambda>word. setw0 8 (hex_nat (unat word))) state)"

definition sha256_hex :: "string \<Rightarrow> string" where
  "sha256_hex input = sha_digest_hex (sha_blocks kH0 (sha_padded input) 0)"

section \<open>The padded buffer\<close>

text \<open>The message, one bit, the least number of zero bytes, the length: as FIPS 180-4, 5.1.1.\<close>

definition be64 :: "64 word \<Rightarrow> byte list" where
  "be64 w = map (\<lambda>i. ucast (drop_bit ((7 - i) * 8) w)) [0..<8]"

lemma padded_size_bounds: "n + 9 \<le> padded_size n" "padded_size n < n + 9 + 64" "64 dvd padded_size n"
  unfolding padded_size_def by (presburger, presburger, simp)

lemma length_string_bytes [simp]: "length (string_bytes s) = length s"
  by (simp add: string_bytes_def)

lemma length_be64 [simp]: "length (be64 w) = 8"
  by (simp add: be64_def)

lemma sha_padded_eq:
  "sha_padded s =
     string_bytes s @ 0x80 # replicate (padded_size (length s) - length s - 9) 0 @ be64 (sha_bit_len (length s))"
proof -
  let ?n = "length s" and ?p = "padded_size (length s)"
  let ?f = "\<lambda>i. ucast (drop_bit ((7 - i) * 8) (sha_bit_len ?n)) :: byte"
  define k where "k = ?p - ?n - 9"
  have p: "?p = ?n + 9 + k"
    using padded_size_bounds(1) [of ?n] by (simp add: k_def)
  let ?pre = "string_bytes s @ (0x80::byte) # replicate k 0"
  have "drop ?n (replicate ?p (0::byte)) = 0 # replicate k 0 @ replicate 8 0"
  proof -
    have "?p - ?n = Suc (k + 8)" unfolding p by simp
    then show ?thesis by (simp only: drop_replicate replicate_Suc replicate_add)
  qed
  then have m: "(string_bytes s @ drop ?n (replicate ?p (0::byte)))[?n := 0x80] = ?pre @ replicate 8 0"
    by (simp add: list_update_append)
  have len: "?p - 8 = length ?pre" unfolding p by simp
  have "foldl (\<lambda>m i. m[length ?pre + i := ?f i]) (?pre @ replicate 8 0) [0..<8] =
      take (length ?pre) (?pre @ replicate 8 0) @ map ?f [0..<8] @ drop (length ?pre + 8) (?pre @ replicate 8 0)"
    by (rule foldl_update_range) simp
  also have "\<dots> = ?pre @ be64 (sha_bit_len ?n)"
    by (simp add: be64_def del: upt_rec_numeral)
  finally show ?thesis
    unfolding sha_padded_def Let_def m len by (simp add: k_def)
qed


lemma ucast_drop_bit_inj:
  fixes w v :: "64 word"
  assumes "be64 w = be64 v"
  shows "w = v"
proof (rule bit_word_eqI)
  fix n assume n: "n < LENGTH(64)"
  define i where "i = 7 - n div 8"
  have i: "i < 8" "(7 - i) * 8 = 8 * (n div 8)"
    using n by (auto simp: i_def)
  have "be64 w ! i = be64 v ! i" using assms by simp
  then have "(ucast (drop_bit (8 * (n div 8)) w) :: byte) = ucast (drop_bit (8 * (n div 8)) v)"
    using i by (simp add: be64_def del: upt_rec_numeral)
  then have "bit (ucast (drop_bit (8 * (n div 8)) w) :: byte) (n mod 8) =
      bit (ucast (drop_bit (8 * (n div 8)) v) :: byte) (n mod 8)" by simp
  then show "bit w n = bit v n"
    by (simp add: bit_simps)
qed

lemma sha_bit_len_inj:
  "m < 2 ^ 61 \<Longrightarrow> n < 2 ^ 61 \<Longrightarrow> sha_bit_len m = sha_bit_len n \<longleftrightarrow> m = n"
  using of_nat_word64_inj [of "m * 8" "n * 8"] by (simp add: sha_bit_len_def)

lemma string_bytes_inj: "string_bytes s = string_bytes t \<longleftrightarrow> s = t"
proof -
  have "inj (of_char :: char \<Rightarrow> byte)"
  proof (rule injI)
    fix c d :: char
    assume eq: "(of_char c :: byte) = of_char d"
    have conv: "(of_char x :: byte) = of_nat (of_char x)" for x
      by (simp only: of_nat_of_char)
    from eq have "(of_char c :: nat) mod 256 = of_char d mod 256"
      unfolding conv by (simp add: word_of_nat_eq_iff take_bit_eq_mod)
    then show "c = d" by simp
  qed
  then show ?thesis by (simp add: string_bytes_def inj_map_eq_map)
qed

lemma sha_padded_inj:
  assumes "length s < 2 ^ 61" and "length t < 2 ^ 61" and "sha_padded s = sha_padded t"
  shows "s = t"
proof -
  let ?tail = "\<lambda>s. replicate (padded_size (length s) - length s - 9) (0::byte)"
  have "(string_bytes s @ 0x80 # ?tail s) @ be64 (sha_bit_len (length s)) =
      (string_bytes t @ 0x80 # ?tail t) @ be64 (sha_bit_len (length t))"
    using assms(3) by (simp add: sha_padded_eq)
  then have body: "string_bytes s @ 0x80 # ?tail s = string_bytes t @ 0x80 # ?tail t"
    and len: "be64 (sha_bit_len (length s)) = be64 (sha_bit_len (length t))"
    by (simp_all only: append_same_length_inj length_be64)
  from len have "length s = length t"
    using assms(1,2) sha_bit_len_inj ucast_drop_bit_inj by blast
  with body have "string_bytes s = string_bytes t"
    by (metis append_eq_append_conv length_string_bytes)
  then show ?thesis by (simp add: string_bytes_inj)
qed

section \<open>The message schedule by recurrence\<close>

function schedule_at :: "byte list \<Rightarrow> nat \<Rightarrow> 32 word" where
  "schedule_at M t =
     (if t < 16 then load_be32 M t
      else sigma1_small (schedule_at M (t - 2)) + schedule_at M (t - 7) +
           sigma0_small (schedule_at M (t - 15)) + schedule_at M (t - 16))"
  by pat_completeness auto
termination
  by (relation "measure snd") auto

declare schedule_at.simps [simp del]

lemma message_schedule_eq: "message_schedule block = map (schedule_at block) [0..<64]"
proof -
  let ?w = "foldl (\<lambda>w i. w[0 + i := load_be32 block i]) (replicate 64 0) [0..<16]"
  let ?u = "\<lambda>n. foldl (\<lambda>w i. w[i := schedule_word w i]) ?w [16..<n]"
  have w: "?w = map (load_be32 block) [0..<16] @ replicate 48 0"
    using foldl_update_range [of 0 16 "replicate 64 0" "load_be32 block"] by (simp del: upt_rec_numeral)
  have len: "length (?u n) = 64" for n
    by (simp del: upt_rec_numeral)
  have prefix: "16 \<le> n \<Longrightarrow> n \<le> 64 \<Longrightarrow> i < n \<Longrightarrow> ?u n ! i = schedule_at block i" for n i
  proof (induction n arbitrary: i)
    case (Suc n)
    show ?case
    proof (cases "16 \<le> n")
      case False
      then have "Suc n = 16" using Suc.prems by simp
      then show ?thesis using Suc.prems w
        by (simp add: nth_append schedule_at.simps [of _ i] del: upt_rec_numeral)
    next
      case True
      then have step: "?u (Suc n) = (?u n)[n := schedule_word (?u n) n]"
        by (simp add: upt_Suc_append del: upt_rec_numeral)
      have "schedule_word (?u n) n = schedule_at block n"
        using True Suc.prems Suc.IH by (simp add: schedule_word_def schedule_at.simps [of _ n] del: upt_rec_numeral)
      then show ?thesis
        using Suc True len [of n] unfolding step
        by (cases "i = n") (simp_all del: upt_rec_numeral)
    qed
  qed simp
  have "message_schedule block = ?u 64" by (simp add: message_schedule_def del: upt_rec_numeral)
  also have "\<dots> = map (schedule_at block) [0..<64]"
    by (rule nth_equalityI) (use len [of 64] prefix [of 64] in \<open>simp_all del: upt_rec_numeral\<close>)
  finally show ?thesis .
qed

lemma length_process_block [simp]: "length (process_block st block) = 8"
  by (simp add: process_block_def Let_def split: prod.splits)

lemma length_sha_blocks: "length st = 8 \<Longrightarrow> length (sha_blocks st msg off) = 8"
proof (induction st msg off rule: sha_blocks.induct)
  case (1 state msg offset)
  then show ?case by (subst sha_blocks.simps) simp
qed

lemma length_sha_digest_hex: "length (sha_digest_hex st) = 8 * length st"
proof (induction st)
  case (Cons w st)
  have "unat w < 16 ^ 8" using unsigned_less [of w, where ?'a = nat] by simp
  with Cons show ?case by (simp add: sha_digest_hex_def length_setw0)
qed (simp add: sha_digest_hex_def)

lemma length_sha256_hex [simp]: "length (sha256_hex s) = 64"
  by (simp add: sha256_hex_def length_sha_digest_hex length_sha_blocks kH0_def)

lemma sha256_hex_lower: "\<forall>c \<in> set (sha256_hex s). is_hex_lower c"
  using setw0_lower by (auto simp: sha256_hex_def sha_digest_hex_def)

lemma length_sha_padded: "length (sha_padded s) = padded_size (length s)"
  using padded_size_bounds(1) [of "length s"] by (simp add: sha_padded_eq)

lemma sha_digest_hex_inj:
  "length st = length st' \<Longrightarrow> sha_digest_hex st = sha_digest_hex st' \<longleftrightarrow> st = st'"
proof (induction st st' rule: list_induct2)
  case (Cons w st v st')
  have "length (setw0 8 (hex_nat (unat x))) = 8" for x :: "32 word"
    using unsigned_less [of x, where ?'a = nat] by (intro length_setw0) simp_all
  with Cons show ?case
    by (simp add: sha_digest_hex_def setw0_inj word_unat_eq_iff)
qed simp


section \<open>A test vector of FIPS 180-4, evaluated in stages\<close>

lemma abc_words:
  "setw0 8 (hex_nat 0xba7816bf) = ''ba7816bf''"
  "setw0 8 (hex_nat 0x8f01cfea) = ''8f01cfea''"
  "setw0 8 (hex_nat 0x414140de) = ''414140de''"
  "setw0 8 (hex_nat 0x5dae2223) = ''5dae2223''"
  "setw0 8 (hex_nat 0xb00361a3) = ''b00361a3''"
  "setw0 8 (hex_nat 0x96177a9c) = ''96177a9c''"
  "setw0 8 (hex_nat 0xb410ff61) = ''b410ff61''"
  "setw0 8 (hex_nat 0xf20015ad) = ''f20015ad''"
  by (simp_all add: setw0_def hex_nat.simps hex_char_table)

lemma abc_digest:
  "sha_digest_hex [0xba7816bf, 0x8f01cfea, 0x414140de, 0x5dae2223,
       0xb00361a3, 0x96177a9c, 0xb410ff61, 0xf20015ad] =
     ''ba7816bf8f01cfea414140de5dae2223b00361a396177a9cb410ff61f20015ad''"
  by (simp add: sha_digest_hex_def abc_words)

definition abc_schedule :: "32 word list" where
  "abc_schedule =
     [0x61626380, 0x00000000, 0x00000000, 0x00000000, 0x00000000, 0x00000000, 0x00000000,
      0x00000000, 0x00000000, 0x00000000, 0x00000000, 0x00000000, 0x00000000, 0x00000000,
      0x00000000, 0x00000018, 0x61626380, 0x000f0000, 0x7da86405, 0x600003c6, 0x3e9d7b78,
      0x0183fc00, 0x12dcbfdb, 0xe2e2c38e, 0xc8215c1a, 0xb73679a2, 0xe5bc3909, 0x32663c5b,
      0x9d209d67, 0xec8726cb, 0x702138a4, 0xd3b7973b, 0x93f5997f, 0x3b68ba73, 0xaff4ffc1,
      0xf10a5c62, 0x0a8b3996, 0x72af830a, 0x9409e33e, 0x24641522, 0x9f47bf94, 0xf0a64f5a,
      0x3e246a79, 0x27333ba3, 0x0c4763f2, 0x840abf27, 0x7a290d5d, 0x065c43da, 0xfb3e89cb,
      0xcc7617db, 0xb9e66c34, 0xa9993667, 0x84badedd, 0xc21462bc, 0x1487472c, 0xb20f7a99,
      0xef57b9cd, 0xebe6b238, 0x9fe3095e, 0x78bc8d4b, 0xa43fcf15, 0x668b2ff8, 0xeeaba2cc,
      0x12b1edeb]"

lemma abc_message_schedule: "message_schedule (sha_padded ''abc'') = abc_schedule"
  by code_simp

lemma abc_rounds_0:
  "foldl (sha_round abc_schedule) (0x6a09e667, 0xbb67ae85, 0x3c6ef372, 0xa54ff53a,
       0x510e527f, 0x9b05688c, 0x1f83d9ab, 0x5be0cd19) [0..<16] =
     (0xb0fa238e, 0xc0645fde, 0xd932eb16, 0x87912990,
       0x07590dcd, 0x0b92f20c, 0x745a48de, 0x1e578218)"
  by code_simp

lemma abc_rounds_1:
  "foldl (sha_round abc_schedule) (0xb0fa238e, 0xc0645fde, 0xd932eb16, 0x87912990,
       0x07590dcd, 0x0b92f20c, 0x745a48de, 0x1e578218) [16..<32] =
     (0x73b33bf5, 0xea992a22, 0xa0060b30, 0x363482c9,
       0xba591112, 0x0109ab3a, 0xade79437, 0x6112a3b7)"
  by code_simp

lemma abc_rounds_2:
  "foldl (sha_round abc_schedule) (0x73b33bf5, 0xea992a22, 0xa0060b30, 0x363482c9,
       0xba591112, 0x0109ab3a, 0xade79437, 0x6112a3b7) [32..<48] =
     (0x4172328d, 0xa14c14b0, 0x72ab4b91, 0x26628815,
       0xfecf0bc6, 0xd57b94a9, 0xb7755da1, 0xa80f11f0)"
  by code_simp

lemma abc_rounds_3:
  "foldl (sha_round abc_schedule) (0x4172328d, 0xa14c14b0, 0x72ab4b91, 0x26628815,
       0xfecf0bc6, 0xd57b94a9, 0xb7755da1, 0xa80f11f0) [48..<64] =
     (0x506e3058, 0xd39a2165, 0x04d24d6c, 0xb85e2ce9,
       0x5ef50f24, 0xfb121210, 0x948d25b6, 0x961f4894)"
  by code_simp

lemma abc_padded_length: "length (sha_padded ''abc'') = 64"
  by (simp add: length_sha_padded padded_size_def)

lemma abc_process_block:
  "process_block kH0 (sha_padded ''abc'') =
     [0xba7816bf, 0x8f01cfea, 0x414140de, 0x5dae2223, 0xb00361a3, 0x96177a9c, 0xb410ff61, 0xf20015ad]"
proof -
  have split: "[0..<64] = [0..<16] @ [16..<32] @ [32..<48] @ [48..<64 :: nat]"
    by code_simp
  show ?thesis
    unfolding process_block_def abc_message_schedule Let_def split
    by (simp add: kH0_def abc_rounds_0 abc_rounds_1 abc_rounds_2 abc_rounds_3 del: upt_rec_numeral)
qed

lemma sha256_hex_abc:
  "sha256_hex ''abc'' = ''ba7816bf8f01cfea414140de5dae2223b00361a396177a9cb410ff61f20015ad''"
  by (simp add: sha256_hex_def sha_blocks.simps abc_padded_length abc_process_block abc_digest)

end
