(* ===== verification/Fips_180_4.thy ===== *)
theory Fips_180_4
  imports Complex_Main "HOL-Library.Word"
begin

text \<open>
  SHA-256 after the text of FIPS 180-4, for comparison with \<open>src/core/sha256.cpp\<close>. It uses nothing of
  the model of the code: a message is a string of bits, a word is given by its bits, the initial hash value
  and the round constants are the fractional parts of roots of primes. Numbers in brackets are sections of
  the standard.
\<close>

section \<open>Words and functions [2.2.2, 3.2, 4.1.2]\<close>

definition word_of_bits :: "(nat \<Rightarrow> bool) \<Rightarrow> 32 word" where
  "word_of_bits f = horner_sum of_bool 2 (map f [0..<32])"

definition ROTR :: "nat \<Rightarrow> 32 word \<Rightarrow> 32 word" where
  "ROTR n x = word_of_bits (\<lambda>i. bit x ((i + n) mod 32))"

definition SHR :: "nat \<Rightarrow> 32 word \<Rightarrow> 32 word" where
  "SHR n x = word_of_bits (\<lambda>i. i + n < 32 \<and> bit x (i + n))"

definition exclusive_or :: "32 word \<Rightarrow> 32 word \<Rightarrow> 32 word" where
  "exclusive_or x y = word_of_bits (\<lambda>i. bit x i \<noteq> bit y i)"

definition Ch :: "32 word \<Rightarrow> 32 word \<Rightarrow> 32 word \<Rightarrow> 32 word" where
  "Ch x y z = word_of_bits (\<lambda>i. if bit x i then bit y i else bit z i)"

definition Maj :: "32 word \<Rightarrow> 32 word \<Rightarrow> 32 word \<Rightarrow> 32 word" where
  "Maj x y z = word_of_bits (\<lambda>i. 2 \<le> length (filter (\<lambda>w. bit w i) [x, y, z]))"

definition Sigma0 :: "32 word \<Rightarrow> 32 word" where
  "Sigma0 x = exclusive_or (ROTR 2 x) (exclusive_or (ROTR 13 x) (ROTR 22 x))"

definition Sigma1 :: "32 word \<Rightarrow> 32 word" where
  "Sigma1 x = exclusive_or (ROTR 6 x) (exclusive_or (ROTR 11 x) (ROTR 25 x))"

definition sigma0 :: "32 word \<Rightarrow> 32 word" where
  "sigma0 x = exclusive_or (ROTR 7 x) (exclusive_or (ROTR 18 x) (SHR 3 x))"

definition sigma1 :: "32 word \<Rightarrow> 32 word" where
  "sigma1 x = exclusive_or (ROTR 17 x) (exclusive_or (ROTR 19 x) (SHR 10 x))"

section \<open>Constants [4.2.2, 5.3.3]\<close>

definition is_prime :: "nat \<Rightarrow> bool" where
  "is_prime n \<longleftrightarrow> 1 < n \<and> (\<forall>d. d dvd n \<longrightarrow> d = 1 \<or> d = n)"

text \<open>The 64th prime is 311.\<close>

definition first_primes :: "nat \<Rightarrow> nat list" where
  "first_primes k = take k (filter is_prime [2..<312])"

text \<open>The first 32 bits of the fractional part.\<close>

definition fraction_bits :: "real \<Rightarrow> 32 word" where
  "fraction_bits x = word_of_int \<lfloor>frac x * 2 ^ 32\<rfloor>"

definition H_initial :: "32 word list" where
  "H_initial = map (\<lambda>p. fraction_bits (sqrt (real p))) (first_primes 8)"

definition K_constants :: "32 word list" where
  "K_constants = map (\<lambda>p. fraction_bits (root 3 (real p))) (first_primes 64)"

section \<open>Preprocessing [5.1.1, 5.2.1]\<close>

text \<open>The bits of a number, the most significant first.\<close>

definition bits_of :: "nat \<Rightarrow> nat \<Rightarrow> bool list" where
  "bits_of n x = map (\<lambda>i. bit x (n - 1 - i)) [0..<n]"

definition message_bits :: "string \<Rightarrow> bool list" where
  "message_bits s = concat (map (\<lambda>c. bits_of 8 (of_char c)) s)"

text \<open>A one, the least number \<open>k\<close> of zeros with \<open>l + 1 + k\<close> congruent to 448 modulo 512, and the length
  \<open>l\<close> in 64 bits.\<close>

definition padded_bits :: "bool list \<Rightarrow> bool list" where
  "padded_bits M =
     (let l = length M; k = nat ((448 - (int l + 1)) mod 512)
      in M @ [True] @ replicate k False @ bits_of 64 l)"

function parse_blocks :: "bool list \<Rightarrow> bool list list" where
  "parse_blocks M = (if M = [] then [] else take 512 M # parse_blocks (drop 512 M))"
  by pat_completeness auto
termination
  by (relation "measure length") auto

declare parse_blocks.simps [simp del]

text \<open>Word \<open>t\<close> of a block.\<close>

definition block_word :: "bool list \<Rightarrow> nat \<Rightarrow> 32 word" where
  "block_word M t = word_of_bits (\<lambda>i. M ! (32 * t + (31 - i)))"

section \<open>Hash computation [6.2.2]\<close>

function W_schedule :: "bool list \<Rightarrow> nat \<Rightarrow> 32 word" where
  "W_schedule M t =
     (if t \<le> 15 then block_word M t
      else sigma1 (W_schedule M (t - 2)) + W_schedule M (t - 7) + sigma0 (W_schedule M (t - 15)) + W_schedule M (t - 16))"
  by pat_completeness auto
termination
  by (relation "measure snd") auto

declare W_schedule.simps [simp del]

text \<open>The eight working variables before step \<open>t\<close> of the loop.\<close>

fun working_variables :: "bool list \<Rightarrow> 32 word list \<Rightarrow> nat \<Rightarrow> 32 word list" where
  "working_variables M H 0 = H"
| "working_variables M H (Suc t) =
     (case working_variables M H t of
        [a, b, c, d, e, f, g, h] \<Rightarrow>
          (let T1 = h + Sigma1 e + Ch e f g + K_constants ! t + W_schedule M t;
               T2 = Sigma0 a + Maj a b c
           in [T1 + T2, a, b, c, d + T1, e, f, g])
      | _ \<Rightarrow> [])"

definition next_hash :: "32 word list \<Rightarrow> bool list \<Rightarrow> 32 word list" where
  "next_hash H M = map2 (+) (working_variables M H 64) H"

text \<open>The digest as a text of hexadecimal digits, four bits each.\<close>

definition hexadecimal :: "32 word \<Rightarrow> string" where
  "hexadecimal w = map (\<lambda>i. ''0123456789abcdef'' ! (unat w div 16 ^ (7 - i) mod 16)) [0..<8]"

definition fips_sha256 :: "string \<Rightarrow> string" where
  "fips_sha256 s = concat (map hexadecimal (foldl next_hash H_initial (parse_blocks (padded_bits (message_bits s)))))"

section \<open>Bits\<close>

lemma bit_word_of_bits [simp]: "bit (word_of_bits f) i \<longleftrightarrow> i < 32 \<and> f i"
  by (auto simp: word_of_bits_def bit_horner_sum_bit_word_iff simp del: upt_rec_numeral)

lemma length_bits_of [simp]: "length (bits_of n x) = n"
  by (simp add: bits_of_def)

lemma nth_bits_of: "i < n \<Longrightarrow> bits_of n x ! i \<longleftrightarrow> bit x (n - 1 - i)"
  by (simp add: bits_of_def)

section \<open>The constants as numbers\<close>

lemma scaled_zero: "word_of_int (m * 2 ^ 32) = (0 :: 32 word)"
proof -
  have "take_bit 32 (m * 2 ^ 32) = take_bit 32 (0 :: int)" by (simp add: take_bit_eq_mod del: take_bit_of_0)
  then have "word_of_int (m * 2 ^ 32) = (word_of_int 0 :: 32 word)" unfolding word_of_int_eq_iff by simp
  then show ?thesis by (simp only: word_of_int_0)
qed

text \<open>The first bits of a fraction are those of the scaled number.\<close>

lemma fraction_bits_eq:
  assumes "of_int n \<le> x * 2 ^ 32" "x * 2 ^ 32 < of_int n + 1"
  shows "fraction_bits x = word_of_int n"
proof -
  have "frac x * 2 ^ 32 = x * 2 ^ 32 - of_int (\<lfloor>x\<rfloor> * 2 ^ 32)" by (simp add: frac_def algebra_simps)
  then have "\<lfloor>frac x * 2 ^ 32\<rfloor> = \<lfloor>x * 2 ^ 32\<rfloor> - \<lfloor>x\<rfloor> * 2 ^ 32" by (metis floor_diff_of_int)
  moreover have "\<lfloor>x * 2 ^ 32\<rfloor> = n" using assms by (simp add: floor_eq_iff)
  ultimately have "fraction_bits x = word_of_int n - word_of_int (\<lfloor>x\<rfloor> * 2 ^ 32)"
    by (simp only: fraction_bits_def wi_hom_sub)
  then show ?thesis by (simp only: scaled_zero diff_zero)
qed

lemma sqrt_bits:
  assumes "n\<^sup>2 \<le> int p * 2 ^ 64" "int p * 2 ^ 64 < (n + 1)\<^sup>2" "0 \<le> n"
  shows "fraction_bits (sqrt (real p)) = word_of_int n"
proof (rule fraction_bits_eq)
  have s: "sqrt (real p) * 2 ^ 32 = sqrt (of_int (int p * 2 ^ 64))"
    by (simp add: real_sqrt_mult)
  have "(of_int n :: real)\<^sup>2 \<le> of_int (int p * 2 ^ 64)" using assms(1) by (metis of_int_le_iff of_int_power)
  then show "of_int n \<le> sqrt (real p) * 2 ^ 32" unfolding s by (rule real_le_rsqrt)
  have "of_int (int p * 2 ^ 64) < (of_int n + 1 :: real)\<^sup>2"
    using assms(2) by (metis of_int_less_iff of_int_power of_int_add of_int_1)
  then show "sqrt (real p) * 2 ^ 32 < of_int n + 1" unfolding s using assms(3) by (intro real_less_lsqrt) simp_all
qed

lemma cbrt_bits:
  assumes "n ^ 3 \<le> int p * 2 ^ 96" "int p * 2 ^ 96 < (n + 1) ^ 3"
  shows "fraction_bits (root 3 (real p)) = word_of_int n"
proof (rule fraction_bits_eq)
  have r: "root 3 (real p) * 2 ^ 32 = root 3 (of_int (int p * 2 ^ 96))"
  proof -
    have "root 3 (of_int (int p * 2 ^ 96)) = root 3 (real p) * root 3 ((2 ^ 32) ^ 3)" by (simp add: real_root_mult)
    also have "root 3 ((2 ^ 32) ^ 3) = (2 ^ 32 :: real)" by (rule real_root_power_cancel) simp_all
    finally show ?thesis by simp
  qed
  have c: "root 3 (x ^ 3) = x" for x :: real by (rule odd_real_root_power_cancel) simp
  have "(of_int n :: real) ^ 3 \<le> of_int (int p * 2 ^ 96)" using assms(1) by (metis of_int_le_iff of_int_power)
  then have "root 3 ((of_int n) ^ 3) \<le> root 3 (of_int (int p * 2 ^ 96))" by (subst real_root_le_iff) simp_all
  then show "of_int n \<le> root 3 (real p) * 2 ^ 32" unfolding r c .
  have "of_int (int p * 2 ^ 96) < (of_int n + 1 :: real) ^ 3"
    using assms(2) by (metis of_int_less_iff of_int_power of_int_add of_int_1)
  then have "root 3 (of_int (int p * 2 ^ 96)) < root 3 ((of_int n + 1) ^ 3)" by (subst real_root_less_iff) simp_all
  then show "root 3 (real p) * 2 ^ 32 < of_int n + 1" unfolding r c .
qed

text \<open>Below 324 it is enough to divide by the primes below 18.\<close>

lemma small_divisor:
  assumes "2 \<le> m" "m < (18 :: nat)"
  shows "\<exists>d \<in> {2, 3, 5, 7, 11, 13, 17}. d dvd m"
proof -
  have "m \<in> {2, 3, 4, 5, 6, 7, 8, 9, 10, 11, 12, 13, 14, 15, 16, 17}" using assms by simp presburger
  then show ?thesis by auto
qed

lemma is_prime_trial:
  assumes "n < 324"
  shows "is_prime n \<longleftrightarrow> 1 < n \<and> list_all (\<lambda>d. n = d \<or> n mod d \<noteq> 0) [2, 3, 5, 7, 11, 13, 17]"
proof -
  have "d = 1 \<or> d = n" if n: "1 < n" "\<forall>d \<in> {2, 3, 5, 7, 11, 13, 17}. n = d \<or> \<not> d dvd n" and d: "d dvd n" for d
  proof (rule ccontr)
    assume no: "\<not> (d = 1 \<or> d = n)"
    obtain e where e: "n = d * e" using d by (rule dvdE)
    have big: "2 \<le> d" "2 \<le> e" using no e n(1) by (cases d; cases "d - 1"; cases e; cases "e - 1"; auto)+
    have "18 * 18 \<le> d * e" if "18 \<le> d" "18 \<le> e" using that by (rule mult_le_mono)
    then have "d < 18 \<or> e < 18" using assms e by linarith
    then obtain m where m: "2 \<le> m" "m < 18" "m dvd n" "m \<noteq> n" using big e no by fastforce
    obtain k where k: "k \<in> {2, 3, 5, 7, 11, 13, 17}" "k dvd m" using small_divisor [OF m(1,2)] by blast
    have "k dvd n" using k(2) m(3) by (rule dvd_trans)
    then have "n = k" using n(2) k(1) by blast
    then have "n \<le> m" using k(2) m(1) by (auto dest: dvd_imp_le)
    then show False using dvd_imp_le [OF m(3)] n(1) m(4) by simp
  qed
  then show ?thesis by (auto simp: is_prime_def mod_eq_0_iff_dvd)
qed

lemma first_primes_eq:
  "first_primes k = take k (filter (\<lambda>n. 1 < n \<and> list_all (\<lambda>d. n = d \<or> n mod d \<noteq> 0) [2, 3, 5, 7, 11, 13, 17]) [2..<312])"
  unfolding first_primes_def
  by (rule arg_cong [where f = "take k"], rule filter_cong) (auto simp: is_prime_trial simp del: upt_rec_numeral)

lemma first_primes_8: "first_primes 8 = [2, 3, 5, 7, 11, 13, 17, 19]"
  by (simp add: first_primes_eq)

lemma first_primes_64:
  "first_primes 64 =
     [2, 3, 5, 7, 11, 13, 17, 19, 23, 29, 31, 37, 41, 43, 47, 53, 59, 61, 67, 71, 73, 79, 83, 89, 97, 101, 103, 107,
      109, 113, 127, 131, 137, 139, 149, 151, 157, 163, 167, 173, 179, 181, 191, 193, 197, 199, 211, 223, 227, 229,
      233, 239, 241, 251, 257, 263, 269, 271, 277, 281, 283, 293, 307, 311]"
  by (simp add: first_primes_eq)

text \<open>A list of constants is right if each is right up to a multiple \<open>m\<close> of \<open>2 ^ 32\<close>, the integral part
  of the root.\<close>

definition sqrt_ok :: "nat \<Rightarrow> 32 word \<Rightarrow> bool" where
  "sqrt_ok p k \<longleftrightarrow> list_ex (\<lambda>m. let n = m * 2 ^ 32 + uint k in n\<^sup>2 \<le> int p * 2 ^ 64 \<and> int p * 2 ^ 64 < (n + 1)\<^sup>2) [1, 2, 3, 4]"

definition cbrt_ok :: "nat \<Rightarrow> 32 word \<Rightarrow> bool" where
  "cbrt_ok p k \<longleftrightarrow> list_ex (\<lambda>m. let n = m * 2 ^ 32 + uint k in n ^ 3 \<le> int p * 2 ^ 96 \<and> int p * 2 ^ 96 < (n + 1) ^ 3)
     [1, 2, 3, 4, 5, 6]"

lemma word_of_scaled: "word_of_int (m * 2 ^ 32 + uint k) = (k :: 32 word)"
  by (simp only: wi_hom_add [symmetric] scaled_zero word_of_int_uint add_0_left)

lemma sqrt_ok_bits: "sqrt_ok p k \<Longrightarrow> fraction_bits (sqrt (real p)) = k"
  unfolding sqrt_ok_def list_ex_iff Let_def
proof clarify
  fix m :: int assume m: "m \<in> set [1, 2, 3, 4]" "(m * 2 ^ 32 + uint k)\<^sup>2 \<le> int p * 2 ^ 64"
    "int p * 2 ^ 64 < (m * 2 ^ 32 + uint k + 1)\<^sup>2"
  have "0 \<le> m * 2 ^ 32 + uint k" using m(1) by auto
  from sqrt_bits [OF m(2,3) this] show "fraction_bits (sqrt (real p)) = k" by (simp only: word_of_scaled)
qed

lemma cbrt_ok_bits: "cbrt_ok p k \<Longrightarrow> fraction_bits (root 3 (real p)) = k"
  unfolding cbrt_ok_def list_ex_iff Let_def using cbrt_bits word_of_scaled by metis

lemma map_eq_all2: "list_all2 P ps ks \<Longrightarrow> (\<And>p k. P p k \<Longrightarrow> f p = k) \<Longrightarrow> map f ps = ks"
  by (induction rule: list_all2_induct) simp_all

end
