(* ===== verification/Sha256_Standard.thy ===== *)
theory Sha256_Standard
  imports Sha256 Fips_180_4
begin

text \<open>
  \<open>sha256_hex\<close> of \<open>src/core/sha256.cpp\<close> computes the digest of FIPS 180-4, which
  \<open>Fips_180_4\<close> states without using the model: the tables of the code are the fractional parts of
  roots, its shifts and masks the functions of the standard on bits, its buffer the padded string of bits.
\<close>

unbundle bit_operations_syntax

section \<open>Constants\<close>

lemma kH0_roots: "kH0 = H_initial"
proof -
  have "list_all2 sqrt_ok (first_primes 8) kH0"
    unfolding first_primes_8 kH0_def by (simp add: sqrt_ok_def)
  then show ?thesis unfolding H_initial_def by (rule map_eq_all2 [symmetric]) (rule sqrt_ok_bits)
qed

lemma kK_roots: "kK = K_constants"
proof -
  have "list_all2 cbrt_ok (first_primes 64) kK"
    unfolding first_primes_64 kK_def by (simp add: cbrt_ok_def)
  then show ?thesis unfolding K_constants_def by (rule map_eq_all2 [symmetric]) (rule cbrt_ok_bits)
qed

section \<open>Functions\<close>

lemma exclusive_or_XOR: "exclusive_or x y = x XOR y"
  by (rule bit_word_eqI) (simp add: exclusive_or_def bit_simps)

lemma rotr32_ROTR:
  assumes "0 < n" "n < 32"
  shows "rotr32 x n = ROTR n x"
proof (rule bit_word_eqI)
  fix i assume i: "i < LENGTH(32)"
  show "bit (rotr32 x n) i \<longleftrightarrow> bit (ROTR n x) i"
  proof (cases "i + n < 32")
    case True
    then have "\<not> 32 - n \<le> i" by linarith
    then show ?thesis using i True by (simp add: rotr32_def ROTR_def bit_simps add.commute)
  next
    case False
    then have "(i + n) mod 32 = i - (32 - n)" "32 - n \<le> i" using assms i by (simp_all add: mod_if)
    moreover have "\<not> bit x (n + i)" using False by (auto dest: bit_imp_le_length)
    ultimately show ?thesis using i by (simp add: rotr32_def ROTR_def bit_simps)
  qed
qed

lemma drop_bit_SHR: "drop_bit n x = SHR n x"
  by (rule bit_word_eqI) (auto simp: SHR_def bit_simps add.commute dest: bit_imp_le_length)

lemma sigmas:
  "sigma0_big x = Sigma0 x" "sigma1_big x = Sigma1 x" "sigma0_small x = sigma0 x" "sigma1_small x = sigma1 x"
  by (simp_all add: sigma0_big_def sigma1_big_def sigma0_small_def sigma1_small_def Sigma0_def Sigma1_def sigma0_def
      sigma1_def rotr32_ROTR drop_bit_SHR exclusive_or_XOR xor.assoc)

lemma sha_ch_Ch: "sha_ch x y z = Ch x y z"
  by (rule bit_word_eqI) (auto simp: sha_ch_def Ch_def bit_simps)

lemma sha_maj_Maj: "sha_maj x y z = Maj x y z"
  by (rule bit_word_eqI) (auto simp: sha_maj_def Maj_def bit_simps)

section \<open>Bits of a list of bytes\<close>

definition bits_of_bytes :: "byte list \<Rightarrow> bool list" where
  "bits_of_bytes bs = concat (map (\<lambda>b. map (\<lambda>i. bit b (7 - i)) [0..<8]) bs)"

lemma bits_of_bytes_simps [simp]:
  "bits_of_bytes [] = []" "bits_of_bytes (b # bs) = map (\<lambda>i. bit b (7 - i)) [0..<8] @ bits_of_bytes bs"
  "bits_of_bytes (bs @ cs) = bits_of_bytes bs @ bits_of_bytes cs"
  by (simp_all add: bits_of_bytes_def del: upt_rec_numeral)

lemma length_bits_of_bytes [simp]: "length (bits_of_bytes bs) = 8 * length bs"
  by (induction bs) (simp_all del: upt_rec_numeral)

lemma nth_bits_of_bytes: "j < 8 * length bs \<Longrightarrow> bits_of_bytes bs ! j \<longleftrightarrow> bit (bs ! (j div 8)) (7 - j mod 8)"
proof (induction bs arbitrary: j)
  case (Cons b bs)
  show ?case
  proof (cases "j < 8")
    case True
    then show ?thesis by (simp add: nth_append del: upt_rec_numeral)
  next
    case False
    have "j div 8 = Suc ((j - 8) div 8)" "(j - 8) mod 8 = j mod 8" using False by (simp_all add: le_div_geq le_mod_geq)
    then show ?thesis using Cons False by (simp add: nth_append del: upt_rec_numeral)
  qed
qed simp

lemma take_drop_bits:
  "take (8 * n) (bits_of_bytes bs) = bits_of_bytes (take n bs)" "drop (8 * n) (bits_of_bytes bs) = bits_of_bytes (drop n bs)"
proof (induction bs arbitrary: n)
  case (Cons b bs)
  { case 1 show ?case using Cons(1) [of "n - 1"] by (cases n) (simp_all del: upt_rec_numeral) }
  { case 2 show ?case using Cons(2) [of "n - 1"] by (cases n) (simp_all del: upt_rec_numeral) }
qed simp_all

section \<open>Padding\<close>

lemma message_bytes: "message_bits s = bits_of_bytes (string_bytes s)"
proof -
  have "bits_of 8 (of_char c) = map (\<lambda>i. bit (of_char c :: byte) (7 - i)) [0..<8]" for c :: char
  proof (rule nth_equalityI)
    fix i assume i: "i < length (bits_of 8 (of_char c))"
    have "(of_char c :: byte) = of_nat (of_char c)" by (simp only: of_nat_of_char)
    moreover have "7 - i < 8" by simp
    ultimately show "bits_of 8 (of_char c) ! i \<longleftrightarrow> map (\<lambda>i. bit (of_char c :: byte) (7 - i)) [0..<8] ! i"
      using i by (simp add: nth_bits_of bit_simps del: upt_rec_numeral of_nat_of_char)
  qed simp
  then show ?thesis by (simp add: message_bits_def bits_of_bytes_def string_bytes_def comp_def del: upt_rec_numeral)
qed

lemma round_up_64: "((m + 63) div 64) * 64 - m = (64 - m mod 64) mod (64 :: nat)"
proof -
  define q r where "q = m div 64" and "r = m mod 64"
  have m: "m = q * 64 + r" and "r < 64"
    by (simp_all add: q_def r_def)
  show ?thesis
  proof (cases "r = 0")
    case True
    then show ?thesis by (simp add: m)
  next
    case False
    have "m + 63 = (q + 1) * 64 + (r - 1)" using False by (simp add: m)
    then have "(m + 63) div 64 = q + 1" using \<open>r < 64\<close> False
      by (metis div_mult_self3 div_less add.right_neutral less_imp_diff_less zero_neq_numeral)
    with False show ?thesis by (simp add: m \<open>r < 64\<close>)
  qed
qed

lemma nth_be64: "q < 8 \<Longrightarrow> be64 w ! q = ucast (drop_bit ((7 - q) * 8) w)"
  by (simp add: be64_def del: upt_rec_numeral)

lemma be64_bits: "bits_of_bytes (be64 (of_nat n * 8)) = bits_of 64 (8 * n)"
proof (rule nth_equalityI)
  fix j assume "j < length (bits_of_bytes (be64 (of_nat n * 8)))"
  then have j: "j < 64" by simp
  have w: "of_nat n * 8 = (of_nat (8 * n) :: 64 word)" by simp
  have k: "(7 - j div 8) * 8 + (7 - j mod 8) = 63 - j"
  proof -
    have "j = 8 * (j div 8) + j mod 8" "j div 8 < 8" "j mod 8 < 8" using j by simp_all
    then show ?thesis by linarith
  qed
  have "bits_of_bytes (be64 (of_nat n * 8)) ! j \<longleftrightarrow> bit (be64 (of_nat n * 8) ! (j div 8)) (7 - j mod 8)"
    by (rule nth_bits_of_bytes) (use j in simp)
  also have "\<dots> \<longleftrightarrow> bit (of_nat n * 8 :: 64 word) (63 - j)"
  proof -
    have "j div 8 < 8" "7 - j mod 8 < 8" using j by simp_all
    then show ?thesis by (simp add: nth_be64 bit_simps k del: upt_rec_numeral mult_Suc_right)
  qed
  also have "\<dots> \<longleftrightarrow> bit (8 * n) (63 - j)" 
  proof -
    have "bit (of_nat m :: 64 word) i \<longleftrightarrow> i < 64 \<and> bit m i" for m i by (simp add: bit_simps)
    moreover have "63 - j < 64" by simp
    ultimately show ?thesis unfolding w by blast
  qed
  finally show "bits_of_bytes (be64 (of_nat n * 8)) ! j \<longleftrightarrow> bits_of 64 (8 * n) ! j" using j by (simp add: nth_bits_of)
qed simp

lemma zero_bits: "bits_of_bytes (replicate k 0) = replicate (8 * k) False"
  by (induction k) (simp_all add: replicate_add map_replicate_const del: upt_rec_numeral)

lemma padding_bits: "padded_bits (message_bits s) = bits_of_bytes (sha_padded s)"
proof -
  let ?n = "length s"
  define k where "k = padded_size ?n - ?n - 9"
  have k: "k = (64 - (?n + 9) mod 64) mod 64"
    using round_up_64 [of "?n + 9"] by (simp add: k_def padded_size_def add.assoc)
  have zeros: "nat ((448 - (int (8 * ?n) + 1)) mod 512) = 7 + 8 * k"
  proof -
    have eight: "(8 * x + 7) mod 512 = 8 * (x mod 64) + 7" for x :: int
    proof -
      have "8 * x + 7 = (8 * (x mod 64) + 7) + (x div 64) * 512" using div_mult_mod_eq [of x 64] by linarith
      then have "(8 * x + 7) mod 512 = (8 * (x mod 64) + 7) mod 512" by (simp only: mod_mult_self1)
      moreover have "0 \<le> x mod 64" "x mod 64 < 64" by simp_all
      ultimately show ?thesis by simp
    qed
    have "(448 - (int (8 * ?n) + 1)) mod 512 = 8 * ((55 - int ?n) mod 64) + 7"
      using eight [of "55 - int ?n"] by (simp add: algebra_simps)
    moreover have "(55 - int ?n) mod 64 = int k"
    proof -
      define m q where "m = (?n + 9) mod 64" and "q = (?n + 9) div 64"
      have n: "?n + 9 = q * 64 + m" "m < 64" by (simp_all add: m_def q_def)
      have "55 - int ?n = (64 - int m) + (- int q) * 64" using n(1) by linarith
      then have "(55 - int ?n) mod 64 = (64 - int m) mod 64" by (simp only: mod_mult_self1)
      also have "\<dots> = int ((64 - m) mod 64)" using n(2) by (simp only: of_nat_mod of_nat_diff less_imp_le of_nat_numeral)
      finally show ?thesis by (simp only: k m_def)
    qed
    ultimately show ?thesis by simp
  qed
  have one: "map (\<lambda>i. bit (0x80 :: byte) (7 - i)) [0..<8] = True # replicate 7 False"
    by code_simp
  have "bits_of_bytes (sha_padded s) =
      message_bits s @ (True # replicate 7 False) @ replicate (8 * k) False @ bits_of 64 (8 * ?n)"
    by (simp only: sha_padded_eq bits_of_bytes_simps message_bytes one zero_bits be64_bits sha_bit_len_def k_def append_assoc)
  also have "\<dots> = message_bits s @ [True] @ replicate (7 + 8 * k) False @ bits_of 64 (8 * ?n)"
    by (simp add: replicate_add)
  finally show ?thesis by (simp only: padded_bits_def Let_def message_bytes length_bits_of_bytes length_string_bytes zeros)
qed

section \<open>Blocks and rounds\<close>

lemma load_word:
  assumes "t < 16" "64 \<le> length block"
  shows "load_be32 block t = block_word (take 512 (bits_of_bytes block)) t"
proof (rule bit_word_eqI)
  fix i assume "i < LENGTH(32)"
  then have i: "i < 32" by simp
  define j where "j = 32 * t + (31 - i)"
  have j: "j < 512" "j < 8 * length block" using assms i by (simp_all add: j_def)
  have "bit (block_word (take 512 (bits_of_bytes block)) t) i \<longleftrightarrow> bits_of_bytes block ! j"
    using i j(1) by (simp add: block_word_def flip: j_def)
  also have "\<dots> \<longleftrightarrow> bit (block ! (j div 8)) (7 - j mod 8)" by (rule nth_bits_of_bytes [OF j(2)])
  finally have b: "bit (block_word (take 512 (bits_of_bytes block)) t) i \<longleftrightarrow> bit (block ! (j div 8)) (7 - j mod 8)" .
  have eight: "j div 8 = q \<and> j mod 8 = 7 - m" if "j = 8 * q + (7 - m)" for q m using that by simp
  consider "i < 8" | "8 \<le> i" "i < 16" | "16 \<le> i" "i < 24" | "24 \<le> i" "i < 32" using i by linarith
  then show "bit (load_be32 block t) i \<longleftrightarrow> bit (block_word (take 512 (bits_of_bytes block)) t) i"
  proof cases
    case 1
    then have "j = 8 * (t * 4 + 3) + (7 - (i))" by (simp add: j_def)
    note q = eight [OF this, simplified]
    then show ?thesis unfolding b using 1 q by (auto simp: load_be32_def bit_simps dest: bit_imp_le_length)
  next
    case 2
    then have "j = 8 * (t * 4 + 2) + (7 - (i - 8))" by (simp add: j_def)
    note q = eight [OF this, simplified]
    then show ?thesis unfolding b using 2 q by (auto simp: load_be32_def bit_simps dest: bit_imp_le_length)
  next
    case 3
    then have "j = 8 * (t * 4 + 1) + (7 - (i - 16))" by (simp add: j_def)
    note q = eight [OF this, simplified]
    then show ?thesis unfolding b using 3 q by (auto simp: load_be32_def bit_simps dest: bit_imp_le_length)
  next
    case 4
    then have "j = 8 * (t * 4) + (7 - (i - 24))" by (simp add: j_def)
    note q = eight [OF this, simplified]
    then show ?thesis unfolding b using 4 q by (auto simp: load_be32_def bit_simps dest: bit_imp_le_length)
  qed
qed

lemma schedule_words:
  "64 \<le> length block \<Longrightarrow> schedule_at block t = W_schedule (take 512 (bits_of_bytes block)) t"
proof (induction t rule: less_induct)
  case (less t)
  then show ?case
    by (cases "t < 16") (simp_all add: schedule_at.simps [of _ t] W_schedule.simps [of _ t] load_word sigmas)
qed

lemma rounds_variables:
  assumes "64 \<le> length block" "n \<le> 64"
    "foldl (sha_round (message_schedule block)) (a, b, c, d, e, f, g, h) [0..<n] = (a', b', c', d', e', f', g', h')"
  shows "working_variables (take 512 (bits_of_bytes block)) [a, b, c, d, e, f, g, h] n = [a', b', c', d', e', f', g', h']"
  using assms(2,3)
proof (induction n arbitrary: a' b' c' d' e' f' g' h')
  case (Suc n)
  obtain p q r s t u v x where i: "foldl (sha_round (message_schedule block)) (a, b, c, d, e, f, g, h) [0..<n] =
      (p, q, r, s, t, u, v, x)" using prod_cases3 by (metis surj_pair)
  have "message_schedule block ! n = W_schedule (take 512 (bits_of_bytes block)) n"
    using Suc.prems(1) by (simp add: message_schedule_eq schedule_words [OF assms(1)] del: upt_rec_numeral)
  then show ?case using Suc.prems Suc.IH [OF _ i] i
    by (auto simp: sha_round_def Let_def sigmas sha_ch_Ch sha_maj_Maj kK_roots)
qed simp

lemma process_block_next:
  assumes "64 \<le> length block" "length state = 8"
  shows "process_block state block = next_hash state (take 512 (bits_of_bytes block))"
proof -
  obtain a b c d e f g h where st: "state = [a, b, c, d, e, f, g, h]"
    using assms(2) by (auto simp: length_Suc_conv eval_nat_numeral)
  obtain a' b' c' d' e' f' g' h' where r: "foldl (sha_round (message_schedule block)) (a, b, c, d, e, f, g, h) [0..<64] =
      (a', b', c', d', e', f', g', h')" using prod_cases3 by (metis surj_pair)
  show ?thesis
    using rounds_variables [OF assms(1) _ r] r
    by (simp add: process_block_def next_hash_def st Let_def add.commute del: upt_rec_numeral)
qed

lemma blocks_bits:
  "length state = 8 \<Longrightarrow> 64 dvd length msg \<Longrightarrow> 64 dvd offset \<Longrightarrow>
   sha_blocks state msg offset = foldl next_hash state (parse_blocks (bits_of_bytes (drop offset msg)))"
proof (induction state msg offset rule: sha_blocks.induct)
  case (1 state msg offset)
  show ?case
  proof (cases "offset < length msg")
    case True
    then have len: "64 \<le> length (drop offset msg)"
      using 1(3,4) by (metis dvd_diff_nat dvd_imp_le length_drop zero_less_diff)
    let ?b = "drop offset msg"
    have "bits_of_bytes ?b \<noteq> []" using len by (metis length_bits_of_bytes length_0_conv mult_eq_0_iff not_one_le_zero numeral_le_one_iff le_zero_eq zero_neq_numeral)
    moreover have "drop 512 (bits_of_bytes ?b) = bits_of_bytes (drop (offset + 64) msg)"
      using take_drop_bits(2) [of 64 ?b] by (simp add: add.commute)
    ultimately have "parse_blocks (bits_of_bytes ?b) =
        take 512 (bits_of_bytes ?b) # parse_blocks (bits_of_bytes (drop (offset + 64) msg))"
      by (simp add: parse_blocks.simps [of "bits_of_bytes ?b"])
    then show ?thesis using True 1 process_block_next [OF len 1(2)] length_process_block [of state ?b]
      by (simp add: sha_blocks.simps [of state])
  next
    case False
    then show ?thesis by (simp add: sha_blocks.simps [of state] parse_blocks.simps [of "[]"])
  qed
qed

section \<open>The digest\<close>

lemma hex_char_nth: "d < 16 \<Longrightarrow> hex_char d = ''0123456789abcdef'' ! d"
proof -
  assume "d < 16"
  then have "d \<in> {0, 1, 2, 3, 4, 5, 6, 7, 8, 9, 10, 11, 12, 13, 14, 15}" by simp presburger
  then show ?thesis by (auto simp: hex_char_table)
qed

lemma padded_hex_step:
  assumes "0 < k" "n < 16 ^ Suc k"
  shows "setw0 (Suc k) (hex_nat n) = setw0 k (hex_nat (n div 16)) @ [hex_char (n mod 16)]"
proof (cases "n < 16")
  case True
  then show ?thesis using assms(1)
    by (cases k) (simp_all add: setw0_def hex_nat.simps [of n] hex_nat.simps [of 0] hex_char_table replicate_append_same [symmetric])
next
  case False
  then show ?thesis by (simp add: setw0_def hex_nat.simps [of n])
qed

lemma padded_hex:
  "0 < k \<Longrightarrow> n < 16 ^ k \<Longrightarrow> setw0 k (hex_nat n) = map (\<lambda>i. hex_char (n div 16 ^ (k - 1 - i) mod 16)) [0..<k]"
proof (induction k arbitrary: n)
  case (Suc k)
  show ?case
  proof (cases "k = 0")
    case True
    then show ?thesis using Suc.prems by (simp add: setw0_def hex_nat.simps [of n])
  next
    case False
    have "n div 16 < 16 ^ k" using Suc.prems(2) by (simp add: less_mult_imp_div_less mult.commute)
    moreover have "n div 16 ^ (Suc k - 1 - i) = n div 16 div 16 ^ (k - 1 - i)" if "i < k" for i
    proof -
      have "Suc k - 1 - i = Suc (k - 1 - i)" using that by simp
      then show ?thesis by (simp add: div_mult2_eq)
    qed
    ultimately show ?thesis using Suc False padded_hex_step [of k n] by simp
  qed
qed simp

lemma digest_hex: "sha_digest_hex H = concat (map hexadecimal H)"
proof -
  have "setw0 8 (hex_nat (unat w)) = hexadecimal w" for w :: "32 word"
  proof -
    have "unat w < 16 ^ 8" using unsigned_less [of w, where ?'a = nat] by simp
    then have "setw0 8 (hex_nat (unat w)) = map (\<lambda>i. hex_char (unat w div 16 ^ (8 - 1 - i) mod 16)) [0..<8]"
      by (rule padded_hex [rotated]) simp
    also have "\<dots> = hexadecimal w"
      unfolding hexadecimal_def by (rule map_cong) (simp_all add: hex_char_nth del: upt_rec_numeral)
    finally show ?thesis .
  qed
  then show ?thesis by (simp add: sha_digest_hex_def)
qed

section \<open>The property\<close>

text \<open>C10. \<open>sha256_hex\<close> computes SHA-256 as FIPS 180-4 defines it, on every input. The reference shares
  no definition with the model of the code: it works on a string of bits, gives each function on words by its
  effect on bits, takes the initial value from the square roots and the round constants from the cube
  roots of the first primes, and prints four bits as a digit.\<close>
theorem sha256_hex_fips: "sha256_hex s = fips_sha256 s"
proof -
  have "64 dvd length (sha_padded s)" using padded_size_bounds(3) by (simp add: length_sha_padded)
  then have "sha_blocks kH0 (sha_padded s) 0 = foldl next_hash H_initial (parse_blocks (padded_bits (message_bits s)))"
    using blocks_bits [of kH0 "sha_padded s" 0] by (simp add: kH0_def padding_bits flip: kH0_roots)
  then show ?thesis by (simp add: sha256_hex_def fips_sha256_def digest_hex)
qed

end
