(* ===== verification/Domain_Model.thy ===== *)
theory Domain_Model
  imports Normalization
begin

text \<open>
  The domain entities of \<open>include/ccmcp/domain\<close> and \<open>src/domain\<close>: the strong identifier
  types of \<open>core/ids.h\<close>, experience atoms, requirements and opportunities, with their
  \<open>validate\<close> and \<open>normalize_*\<close> functions. \<open>validate\<close> returns \<open>ok(true)\<close> or the message of
  the first violated rule. The lemmas show that normalisation is idempotent and that the normalised
  entities are exactly the ones the tag and case checks accept.
\<close>

section \<open>Identifiers\<close>

text \<open>Each identifier is a struct around a string with the defaulted three-way comparison.\<close>

datatype atom_id = AtomId (atom_id_value: string)
datatype opportunity_id = OpportunityId (opportunity_id_value: string)
datatype contact_id = ContactId (contact_id_value: string)
datatype interaction_id = InteractionId (interaction_id_value: string)
datatype resume_id = ResumeId (resume_id_value: string)

instantiation atom_id :: linorder
begin
definition less_eq_atom_id :: "atom_id \<Rightarrow> atom_id \<Rightarrow> bool" where
  "a \<le> b \<longleftrightarrow> atom_id_value a \<le> atom_id_value b"
definition less_atom_id :: "atom_id \<Rightarrow> atom_id \<Rightarrow> bool" where
  "a < b \<longleftrightarrow> atom_id_value a < atom_id_value b"
instance
  by standard (auto simp: less_eq_atom_id_def less_atom_id_def intro: atom_id.expand)
end

instantiation opportunity_id :: linorder
begin
definition less_eq_opportunity_id :: "opportunity_id \<Rightarrow> opportunity_id \<Rightarrow> bool" where
  "a \<le> b \<longleftrightarrow> opportunity_id_value a \<le> opportunity_id_value b"
definition less_opportunity_id :: "opportunity_id \<Rightarrow> opportunity_id \<Rightarrow> bool" where
  "a < b \<longleftrightarrow> opportunity_id_value a < opportunity_id_value b"
instance
  by standard
    (auto simp: less_eq_opportunity_id_def less_opportunity_id_def intro: opportunity_id.expand)
end

instantiation interaction_id :: linorder
begin
definition less_eq_interaction_id :: "interaction_id \<Rightarrow> interaction_id \<Rightarrow> bool" where
  "a \<le> b \<longleftrightarrow> interaction_id_value a \<le> interaction_id_value b"
definition less_interaction_id :: "interaction_id \<Rightarrow> interaction_id \<Rightarrow> bool" where
  "a < b \<longleftrightarrow> interaction_id_value a < interaction_id_value b"
instance
  by standard
    (auto simp: less_eq_interaction_id_def less_interaction_id_def intro: interaction_id.expand)
end

section \<open>Experience atoms\<close>

record experience_atom =
  atom_id :: atom_id
  atom_domain :: string
  atom_title :: string
  atom_claim :: string
  atom_tags :: "string list"
  atom_verified :: bool
  atom_evidence_refs :: "string list"

definition atom_verify :: "experience_atom \<Rightarrow> bool" where
  "atom_verify atom = atom_verified atom"

definition validate_atom :: "experience_atom \<Rightarrow> (string, bool) result" where
  "validate_atom atom =
     (if atom_id_value (atom_id atom) = [] then Inl ''atom_id must not be empty''
      else if atom_claim atom = [] then Inl ''claim must not be empty''
      else let normalized_tags = normalize_tags (atom_tags atom)
        in if atom_tags atom \<noteq> normalized_tags
           then Inl ''tags must be normalized (lowercase, sorted, deduplicated)''
           else let normalized_domain = normalize_ascii_lower (atom_domain atom)
             in if atom_domain atom \<noteq> normalized_domain
                then Inl ''domain must be normalized (lowercase)''
                else Inr True)"

text \<open>The loop over the evidence references keeps the non-empty trimmed ones, in order.\<close>

fun trim_refs :: "string list \<Rightarrow> string list" where
  "trim_refs [] = []"
| "trim_refs (ref # refs) =
     (let trimmed = trim ref
      in if trimmed \<noteq> [] then trimmed # trim_refs refs else trim_refs refs)"

definition normalize_atom :: "experience_atom \<Rightarrow> experience_atom" where
  "normalize_atom atom =
     atom\<lparr>atom_domain := normalize_ascii_lower (trim (atom_domain atom)),
          atom_title := trim (atom_title atom),
          atom_claim := trim (atom_claim atom),
          atom_tags := normalize_tags (atom_tags atom),
          atom_evidence_refs := trim_refs (atom_evidence_refs atom)\<rparr>"

section \<open>Requirements\<close>

record requirement =
  req_text :: string
  req_tags :: "string list"
  req_required :: bool

definition validate_requirement :: "requirement \<Rightarrow> (string, bool) result" where
  "validate_requirement req =
     (if req_text req = [] then Inl ''requirement text must not be empty''
      else if req_tags req \<noteq> [] \<and> req_tags req \<noteq> normalize_tags (req_tags req)
        then Inl ''tags must be normalized (lowercase, sorted, deduplicated)''
      else Inr True)"

definition normalize_requirement :: "requirement \<Rightarrow> requirement" where
  "normalize_requirement req =
     req\<lparr>req_text := trim (req_text req), req_tags := normalize_tags (req_tags req)\<rparr>"

section \<open>Opportunities\<close>

record opportunity =
  opportunity_id :: opportunity_id
  opp_company :: string
  opp_role_title :: string
  opp_requirements :: "requirement list"
  opp_source :: string

fun validate_requirements :: "requirement list \<Rightarrow> (string, bool) result" where
  "validate_requirements [] = Inr True"
| "validate_requirements (req # reqs) =
     (case validate_requirement req of
        Inl e \<Rightarrow> Inl (''invalid requirement: '' @ e)
      | Inr _ \<Rightarrow> validate_requirements reqs)"

definition validate_opportunity :: "opportunity \<Rightarrow> (string, bool) result" where
  "validate_opportunity opp =
     (if opportunity_id_value (opportunity_id opp) = [] then Inl ''opportunity_id must not be empty''
      else if opp_company opp = [] then Inl ''company must not be empty''
      else if opp_role_title opp = [] then Inl ''role_title must not be empty''
      else validate_requirements (opp_requirements opp))"

definition normalize_opportunity :: "opportunity \<Rightarrow> opportunity" where
  "normalize_opportunity opp =
     opp\<lparr>opp_company := trim (opp_company opp),
         opp_role_title := trim (opp_role_title opp),
         opp_source := trim (opp_source opp),
         opp_requirements := map normalize_requirement (opp_requirements opp)\<rparr>"

section \<open>Validation\<close>

lemma validate_atom_ok_iff:
  "validate_atom a = Inr b \<longleftrightarrow>
     b \<and> atom_id_value (atom_id a) \<noteq> [] \<and> atom_claim a \<noteq> [] \<and>
     sorted_set (atom_tags a) \<and> (\<forall>t \<in> set (atom_tags a). is_token 2 t) \<and>
     (\<forall>c \<in> set (atom_domain a). \<not> is_upper c)"
  using normalize_tags_fixed_iff [of "atom_tags a"] normalize_ascii_lower_fixed_iff [of "atom_domain a"]
  by (auto simp: validate_atom_def Let_def)

lemma validate_requirement_ok_iff:
  "validate_requirement r = Inr b \<longleftrightarrow>
     b \<and> req_text r \<noteq> [] \<and> sorted_set (req_tags r) \<and> (\<forall>t \<in> set (req_tags r). is_token 2 t)"
  using normalize_tags_fixed_iff [of "req_tags r"]
  by (auto simp: validate_requirement_def sorted_set_def)

lemma validate_requirements_ok_iff:
  "validate_requirements rs = Inr b \<longleftrightarrow> b \<and> (\<forall>r \<in> set rs. validate_requirement r = Inr True)"
proof (induction rs)
  case (Cons r rs)
  then show ?case
    by (cases "validate_requirement r") (auto simp: validate_requirement_def split: if_splits)
qed auto

lemma validate_requirements_first_error:
  assumes "\<forall>r \<in> set rs. validate_requirement r = Inr True"
    and "validate_requirement q = Inl e"
  shows "validate_requirements (rs @ q # qs) = Inl (''invalid requirement: '' @ e)"
  using assms by (induction rs) auto

lemma validate_opportunity_ok_iff:
  "validate_opportunity opp = Inr b \<longleftrightarrow>
     b \<and> opportunity_id_value (opportunity_id opp) \<noteq> [] \<and> opp_company opp \<noteq> [] \<and>
     opp_role_title opp \<noteq> [] \<and> (\<forall>r \<in> set (opp_requirements opp). validate_requirement r = Inr True)"
  by (auto simp: validate_opportunity_def validate_requirements_ok_iff)

section \<open>Normalisation\<close>

lemma trim_refs_eq: "trim_refs refs = filter (\<lambda>r. r \<noteq> []) (map trim refs)"
  by (induction refs) (auto simp: Let_def)

lemma trim_refs_idem: "trim_refs (trim_refs refs) = trim_refs refs"
  by (induction refs) (auto simp: Let_def trim_idem)

lemma trim_lower_trim: "trim (normalize_ascii_lower (trim s)) = normalize_ascii_lower (trim s)"
  by (rule trim_trimmed) simp

lemma normalize_atom_idem: "normalize_atom (normalize_atom a) = normalize_atom a"
  by (simp add: normalize_atom_def trim_lower_trim normalize_ascii_lower_idem trim_idem
      normalize_tags_idem trim_refs_idem)

lemma normalize_requirement_idem: "normalize_requirement (normalize_requirement r) = normalize_requirement r"
  by (simp add: normalize_requirement_def trim_idem normalize_tags_idem)

lemma normalize_opportunity_idem: "normalize_opportunity (normalize_opportunity opp) = normalize_opportunity opp"
  by (simp add: normalize_opportunity_def trim_idem normalize_requirement_idem comp_def)

interpretation norm_atom: normalizer normalize_atom
  by unfold_locales (rule normalize_atom_idem)

interpretation norm_req: normalizer normalize_requirement
  by unfold_locales (rule normalize_requirement_idem)

interpretation norm_opp: normalizer normalize_opportunity
  by unfold_locales (rule normalize_opportunity_idem)

lemma normalize_atom_fields [simp]:
  "atom_id (normalize_atom a) = atom_id a"
  "atom_verified (normalize_atom a) = atom_verified a"
  "atom_tags (normalize_atom a) = normalize_tags (atom_tags a)"
  "atom_claim (normalize_atom a) = trim (atom_claim a)"
  "atom_domain (normalize_atom a) = normalize_ascii_lower (trim (atom_domain a))"
  by (simp_all add: normalize_atom_def)

text \<open>A normalised atom is rejected only for an empty identifier or a claim of white space; its
  tags and its domain always pass.\<close>
theorem validate_normalize_atom:
  "validate_atom (normalize_atom a) =
     (if atom_id_value (atom_id a) = [] then Inl ''atom_id must not be empty''
      else if trim (atom_claim a) = [] then Inl ''claim must not be empty'' else Inr True)"
  by (simp add: validate_atom_def normalize_tags_idem normalize_ascii_lower_idem)

lemma validate_normalize_requirement:
  "validate_requirement (normalize_requirement r) =
     (if trim (req_text r) = [] then Inl ''requirement text must not be empty'' else Inr True)"
  by (simp add: validate_requirement_def normalize_requirement_def normalize_tags_idem)

text \<open>C22. A normalised opportunity is valid exactly when its identifier is non-empty and its company, its
  role title and the text of each requirement are not all white space.\<close>
theorem validate_normalize_opportunity:
  "validate_opportunity (normalize_opportunity opp) = Inr True \<longleftrightarrow>
     opportunity_id_value (opportunity_id opp) \<noteq> [] \<and> trim (opp_company opp) \<noteq> [] \<and>
     trim (opp_role_title opp) \<noteq> [] \<and> (\<forall>r \<in> set (opp_requirements opp). trim (req_text r) \<noteq> [])"
  by (auto simp: validate_opportunity_ok_iff normalize_opportunity_def validate_normalize_requirement)

theorem validate_normalize_opportunity_witness:
  "validate_opportunity (normalize_opportunity
     \<lparr>opportunity_id = OpportunityId ''o1'', opp_company = '' Acme'', opp_role_title = ''Engineer '',
      opp_requirements = [\<lparr>req_text = '' C++ '', req_tags = [''CPP'', ''cpp''], req_required = True\<rparr>],
      opp_source = ''''\<rparr>) = Inr True"
  by (subst validate_normalize_opportunity) (simp, code_simp)

end
