(* ===== verification/Interaction.thy ===== *)
theory Interaction
  imports Domain_Model
begin

text \<open>
  The interaction state machine of \<open>include/ccmcp/domain/interaction.h\<close> and
  \<open>src/domain/interaction.cpp\<close>: \<open>can_transition\<close>, and \<open>apply\<close>, which
  updates the object in place and returns whether it did. The graph of the successful applications is
  an inductive step relation. The lemmas give the accepted event sequences exactly, and the rank that
  bounds the length of every history.
\<close>

datatype interaction_state = kDraft | kReady | kSent | kResponded | kClosed

datatype interaction_event = kPrepare | kSend | kReceiveReply | kClose

record interaction =
  int_id :: interaction_id
  int_contact_id :: contact_id
  int_opportunity_id :: opportunity_id
  int_state :: interaction_state

fun can_transition_from :: "interaction_state \<Rightarrow> interaction_event \<Rightarrow> bool" where
  "can_transition_from kDraft event = (event = kPrepare \<or> event = kClose)"
| "can_transition_from kReady event = (event = kSend \<or> event = kClose)"
| "can_transition_from kSent event = (event = kReceiveReply \<or> event = kClose)"
| "can_transition_from kResponded event = (event = kClose)"
| "can_transition_from kClosed event = False"

definition can_transition :: "interaction \<Rightarrow> interaction_event \<Rightarrow> bool" where
  "can_transition i event = can_transition_from (int_state i) event"

fun event_target :: "interaction_event \<Rightarrow> interaction_state" where
  "event_target kPrepare = kReady"
| "event_target kSend = kSent"
| "event_target kReceiveReply = kResponded"
| "event_target kClose = kClosed"

text \<open>\<open>Interaction::apply\<close>: the returned flag and the object afterwards.\<close>

definition apply_event_to :: "interaction \<Rightarrow> interaction_event \<Rightarrow> bool \<times> interaction" where
  "apply_event_to i event =
     (if \<not> can_transition i event then (False, i)
      else (True, i\<lparr>int_state := event_target event\<rparr>))"

section \<open>The step relation\<close>

inductive fsm_step :: "interaction_state \<Rightarrow> interaction_event \<Rightarrow> interaction_state \<Rightarrow> bool" where
  prepare: "fsm_step kDraft kPrepare kReady"
| send: "fsm_step kReady kSend kSent"
| reply: "fsm_step kSent kReceiveReply kResponded"
| close: "s \<noteq> kClosed \<Longrightarrow> fsm_step s kClose kClosed"

code_pred fsm_step .

inductive_cases fsm_stepE: "fsm_step s e t"
inductive_simps fsm_step_closed [simp]: "fsm_step kClosed e t"
inductive_simps fsm_step_draft: "fsm_step kDraft e t"
inductive_simps fsm_step_ready: "fsm_step kReady e t"
inductive_simps fsm_step_sent: "fsm_step kSent e t"
inductive_simps fsm_step_responded: "fsm_step kResponded e t"

lemmas fsm_step_simps = fsm_step_draft fsm_step_ready fsm_step_sent fsm_step_responded

lemma fsm_step_iff: "fsm_step s e t \<longleftrightarrow> can_transition_from s e \<and> t = event_target e"
  by (cases s; cases e) (auto simp: fsm_step_simps)

lemma can_transition_iff_step:
  "can_transition_from s e \<longleftrightarrow> (\<exists>t. fsm_step s e t)"
  by (simp add: fsm_step_iff)

lemma apply_event_to_True_iff:
  "apply_event_to i e = (True, j) \<longleftrightarrow>
     fsm_step (int_state i) e (int_state j) \<and> j = i\<lparr>int_state := int_state j\<rparr>"
  by (auto simp: apply_event_to_def can_transition_def fsm_step_iff)

text \<open>A run of the machine over the events it accepts.\<close>

inductive fsm_run :: "interaction_state \<Rightarrow> interaction_event list \<Rightarrow> interaction_state \<Rightarrow> bool" where
  run_nil: "fsm_run s [] s"
| run_snoc: "fsm_run s es t \<Longrightarrow> fsm_step t e u \<Longrightarrow> fsm_run s (es @ [e]) u"

inductive_cases fsm_runE: "fsm_run s es t"

fun rank :: "interaction_state \<Rightarrow> nat" where
  "rank kDraft = 0"
| "rank kReady = 1"
| "rank kSent = 2"
| "rank kResponded = 3"
| "rank kClosed = 4"

lemma rank_le: "rank s \<le> 4"
  by (cases s) auto

lemma fsm_step_rank: "fsm_step s e t \<Longrightarrow> rank s < rank t"
  by (cases s; cases e) (auto simp: fsm_step_simps)

lemma fsm_run_rank: "fsm_run s es t \<Longrightarrow> rank s + length es \<le> rank t"
  by (induction rule: fsm_run.induct) (auto dest: fsm_step_rank)

text \<open>The histories from the initial state, written out.\<close>

definition draft_histories :: "(interaction_event list \<times> interaction_state) list" where
  "draft_histories =
     [([], kDraft), ([kPrepare], kReady), ([kPrepare, kSend], kSent),
      ([kPrepare, kSend, kReceiveReply], kResponded),
      ([kClose], kClosed), ([kPrepare, kClose], kClosed), ([kPrepare, kSend, kClose], kClosed),
      ([kPrepare, kSend, kReceiveReply, kClose], kClosed)]"

lemma fsm_run_draft_sound: "fsm_run kDraft es t \<Longrightarrow> (es, t) \<in> set draft_histories"
proof (induction kDraft es t rule: fsm_run.induct)
  case run_nil
  then show ?case by (simp add: draft_histories_def)
next
  case (run_snoc es t e u)
  then show ?case
    by (cases e) (auto simp: draft_histories_def fsm_step_iff)
qed

lemma fsm_run_snoc_iff:
  "fsm_run s (es @ [e]) u \<longleftrightarrow> (\<exists>t. fsm_run s es t \<and> fsm_step t e u)"
  by (auto elim: fsm_runE intro: run_snoc)

lemma fsm_run_nil_iff [simp]: "fsm_run s [] t \<longleftrightarrow> t = s"
  by (auto elim: fsm_runE intro: run_nil)

lemma fsm_run_two: "fsm_step s e t \<Longrightarrow> fsm_step t e' u \<Longrightarrow> fsm_run s [e, e'] u"
  using run_snoc [of s "[e]" t] run_snoc [of s "[]" s] by simp

lemma fsm_run_draft_complete: "(es, t) \<in> set draft_histories \<Longrightarrow> fsm_run kDraft es t"
  using fsm_run_snoc_iff [of kDraft "[]"] fsm_run_snoc_iff [of kDraft "[kPrepare]"]
    fsm_run_snoc_iff [of kDraft "[kPrepare, kSend]"]
    fsm_run_snoc_iff [of kDraft "[kPrepare, kSend, kReceiveReply]"]
  by (auto simp: draft_histories_def fsm_step_iff)

end
