(* ===== verification/Coordinator.thy ===== *)
theory Coordinator
  imports Interaction
begin

text \<open>
  The coordination interface of \<open>include/ccmcp/interaction/interaction_coordinator.h\<close> and its
  in-memory implementation (\<open>inmemory_interaction_coordinator.h/.cpp\<close>). Every operation of the
  implementation runs under one mutex, so an operation is one state transformer. The interface is the
  locale \<open>coordinator\<close>, extended by the replay law to \<open>idempotent_coordinator\<close>;
  what a client may rely on over arbitrary sequences of operations is proved in the locales, and both
  are interpreted on the in-memory model.
\<close>

datatype transition_outcome =
  kApplied | kAlreadyApplied | kConflict | kNotFound | kInvalidTransition | kBackendError

record transition_result =
  tr_outcome :: transition_outcome
  tr_before_state :: interaction_state
  tr_after_state :: interaction_state
  tr_transition_index :: int
  tr_error_message :: string

record state_info =
  si_state :: interaction_state
  si_transition_index :: int

section \<open>Sequences of operations\<close>

text \<open>
  A client's calls. \<open>coord_run\<close> performs them and logs the calls that returned
  \<open>kApplied\<close>, oldest first.
\<close>

datatype coord_op =
  OpCreate interaction_id contact_id opportunity_id
| OpApply interaction_id interaction_event string

fun op_id :: "coord_op \<Rightarrow> interaction_id" where
  "op_id (OpCreate i ct opp) = i"
| "op_id (OpApply i e k) = i"

type_synonym applied_log = "(interaction_id \<times> interaction_event \<times> string) list"

type_synonym 'c apply_fn =
  "'c \<Rightarrow> interaction_id \<Rightarrow> interaction_event \<Rightarrow> string \<Rightarrow> transition_result \<times> 'c"

type_synonym 'c create_fn =
  "'c \<Rightarrow> interaction_id \<Rightarrow> contact_id \<Rightarrow> opportunity_id \<Rightarrow> bool \<times> 'c"

fun coord_step :: "'c apply_fn \<Rightarrow> 'c create_fn \<Rightarrow> coord_op \<Rightarrow> 'c \<Rightarrow> applied_log \<times> 'c" where
  "coord_step app cre (OpCreate i ct opp) c = ([], snd (cre c i ct opp))"
| "coord_step app cre (OpApply i e k) c =
     (let (r, c') = app c i e k
      in (if tr_outcome r = kApplied then [(i, e, k)] else [], c'))"

fun coord_run :: "'c apply_fn \<Rightarrow> 'c create_fn \<Rightarrow> coord_op list \<Rightarrow> 'c \<Rightarrow> applied_log \<times> 'c" where
  "coord_run app cre [] c = ([], c)"
| "coord_run app cre (x # xs) c =
     (let (l, c') = coord_step app cre x c; (ls, c'') = coord_run app cre xs c' in (l @ ls, c''))"

fun events_of :: "interaction_id \<Rightarrow> applied_log \<Rightarrow> interaction_event list" where
  "events_of i [] = []"
| "events_of i ((j, e, k) # l) = (if j = i then e # events_of i l else events_of i l)"

lemma events_of_append [simp]: "events_of i (l @ m) = events_of i l @ events_of i m"
  by (induction i l rule: events_of.induct) auto

lemma coord_run_append:
  "coord_run app cre (xs @ ys) c =
     (let (l, c') = coord_run app cre xs c; (m, c'') = coord_run app cre ys c' in (l @ m, c''))"
  by (induction xs arbitrary: c) (auto split: prod.splits)

text \<open>The interactions a run creates, and the log counted per interaction.\<close>

definition created :: "coord_op list \<Rightarrow> interaction_id set" where
  "created xs = {i. \<exists>ct opp. OpCreate i ct opp \<in> set xs}"

lemma created_Cons [simp]:
  "created [] = {}" "created (OpCreate i ct opp # xs) = insert i (created xs)" "created (OpApply i e k # xs) = created xs"
  by (auto simp: created_def)

lemma finite_created [simp]: "finite (created xs)"
proof (induction xs)
  case (Cons x xs)
  then show ?case by (cases x) simp_all
qed simp

lemma events_of_member: "(i, e, k) \<in> set l \<Longrightarrow> events_of i l \<noteq> []"
  by (induction i l rule: events_of.induct) auto

lemma events_of_count: "finite S \<Longrightarrow> fst ` set l \<subseteq> S \<Longrightarrow> length l = (\<Sum>i \<in> S. length (events_of i l))"
proof (induction l)
  case (Cons x l)
  obtain j e k where x: "x = (j, e, k)" by (cases x)
  have "(\<Sum>i \<in> S. length (events_of i (x # l))) = (\<Sum>i \<in> S. (if i = j then 1 else 0) + length (events_of i l))"
    by (intro sum.cong) (auto simp: x)
  also have "\<dots> = 1 + (\<Sum>i \<in> S. length (events_of i l))"
    using Cons.prems by (simp add: sum.distrib x)
  finally show ?case using Cons by simp
qed simp

text \<open>
  What the log says of one interaction: its applied events are a run of the state machine to the
  state the coordinator reports, and the transition index counts them.
\<close>

definition log_matches ::
  "('c \<Rightarrow> interaction_id \<Rightarrow> state_info option) \<Rightarrow> applied_log \<Rightarrow> 'c \<Rightarrow> interaction_id \<Rightarrow> bool" where
  "log_matches get l c i \<longleftrightarrow>
     (case get c i of
        None \<Rightarrow> events_of i l = []
      | Some si \<Rightarrow> fsm_run kDraft (events_of i l) (si_state si) \<and>
          si_transition_index si = int (length (events_of i l)))"

section \<open>The interface\<close>

text \<open>
  \<open>ok_id\<close> is the set of identifiers the implementation keeps apart; the in-memory coordinator
  has no restriction, the Redis one builds its keys by concatenation and has one.
\<close>

locale coordinator =
  fixes app :: "'c apply_fn"
    and get :: "'c \<Rightarrow> interaction_id \<Rightarrow> state_info option"
    and cre :: "'c create_fn"
    and inv :: "'c \<Rightarrow> bool"
    and ok_id :: "interaction_id \<Rightarrow> bool"
  assumes inv_app: "inv c \<Longrightarrow> ok_id i \<Longrightarrow> inv (snd (app c i e k))"
    and inv_cre: "inv c \<Longrightarrow> ok_id i \<Longrightarrow> inv (snd (cre c i ct opp))"
    and cre_result: "inv c \<Longrightarrow> ok_id i \<Longrightarrow> fst (cre c i ct opp) \<longleftrightarrow> get c i = None"
    and cre_get: "inv c \<Longrightarrow> ok_id i \<Longrightarrow> ok_id j \<Longrightarrow>
      get (snd (cre c i ct opp)) j =
        (if j = i \<and> get c i = None
         then Some \<lparr>si_state = kDraft, si_transition_index = 0\<rparr> else get c j)"
    and app_applied: "inv c \<Longrightarrow> ok_id i \<Longrightarrow> app c i e k = (r, c') \<Longrightarrow> tr_outcome r = kApplied \<Longrightarrow>
      \<exists>s n. get c i = Some \<lparr>si_state = s, si_transition_index = n\<rparr> \<and>
        fsm_step s e (tr_after_state r) \<and> tr_before_state r = s \<and>
        tr_transition_index r = n + 1 \<and>
        get c' i = Some \<lparr>si_state = tr_after_state r, si_transition_index = n + 1\<rparr>"
    and app_frame: "inv c \<Longrightarrow> ok_id i \<Longrightarrow> ok_id j \<Longrightarrow> app c i e k = (r, c') \<Longrightarrow>
      j \<noteq> i \<or> tr_outcome r \<noteq> kApplied \<Longrightarrow> get c' j = get c j"
    and app_not_found: "inv c \<Longrightarrow> ok_id i \<Longrightarrow>
      tr_outcome (fst (app c i e k)) = kNotFound \<longleftrightarrow> get c i = None"
begin

lemma log_matches_step:
  assumes "inv c" "\<forall>i. ok_id i \<longrightarrow> log_matches get l c i" "ok_id (op_id x)"
    and "coord_step app cre x c = (m, c')"
  shows "inv c' \<and> (\<forall>i. ok_id i \<longrightarrow> log_matches get (l @ m) c' i)"
proof (cases x)
  case (OpCreate i ct opp)
  then have c': "c' = snd (cre c i ct opp)" and m: "m = []" and i: "ok_id i"
    using assms(3,4) by auto
  have e: "get c i = None \<Longrightarrow> events_of i l = []"
    using assms(2) [rule_format, OF i] by (simp add: log_matches_def)
  have "log_matches get (l @ m) c' j" if j: "ok_id j" for j
    using assms(2) [rule_format, OF j] cre_get [OF assms(1) i j, of ct opp] e
    by (auto simp: c' m log_matches_def)
  then show ?thesis using inv_cre [OF assms(1) i] by (simp add: c')
next
  case (OpApply i e k)
  then have i: "ok_id i" using assms(3) by simp
  obtain r where r: "app c i e k = (r, c')"
    and m: "m = (if tr_outcome r = kApplied then [(i, e, k)] else [])"
    using assms(4) OpApply by (auto split: prod.splits)
  have i': "inv c'" using inv_app [OF assms(1) i, of e k] r by simp
  have other: "log_matches get (l @ m) c' j"
    if "ok_id j" "j \<noteq> i \<or> tr_outcome r \<noteq> kApplied" for j
    using assms(2) [rule_format, OF that(1)] app_frame [OF assms(1) i that(1) r that(2)] that(2)
    by (auto simp: log_matches_def m split: option.splits)
  have "log_matches get (l @ m) c' i" if True: "tr_outcome r = kApplied"
  proof -
    from app_applied [OF assms(1) i r True] obtain s n where
      g: "get c i = Some \<lparr>si_state = s, si_transition_index = n\<rparr>" and
      st: "fsm_step s e (tr_after_state r)" and
      g': "get c' i = Some \<lparr>si_state = tr_after_state r, si_transition_index = n + 1\<rparr>"
      by blast
    have "fsm_run kDraft (events_of i l) s" "n = int (length (events_of i l))"
      using assms(2) [rule_format, OF i] g by (auto simp: log_matches_def)
    then show ?thesis using True st by (auto simp: log_matches_def g' m intro: run_snoc)
  qed
  with other i' show ?thesis by metis
qed

lemma log_matches_run:
  assumes "inv c" "\<forall>i. ok_id i \<longrightarrow> log_matches get l c i" "\<forall>x \<in> set xs. ok_id (op_id x)"
    and "coord_run app cre xs c = (m, c')"
  shows "inv c' \<and> (\<forall>i. ok_id i \<longrightarrow> log_matches get (l @ m) c' i)"
  using assms
proof (induction xs arbitrary: c l m)
  case (Cons x xs)
  obtain l1 c1 where s: "coord_step app cre x c = (l1, c1)" by (cases "coord_step app cre x c")
  obtain l2 where r: "coord_run app cre xs c1 = (l2, c')" and m: "m = l1 @ l2"
    using Cons.prems(4) s by (auto split: prod.splits)
  from log_matches_step [OF Cons.prems(1,2) _ s] Cons.IH [OF _ _ _ r, of "l @ l1"] Cons.prems(3)
  show ?case by (simp add: m)
qed auto

lemma run_history:
  assumes "inv c" "\<forall>i. get c i = None" "\<forall>x \<in> set xs. ok_id (op_id x)"
    and "coord_run app cre xs c = (l, c')" "ok_id i" "get c' i = Some si"
  shows "fsm_run kDraft (events_of i l) (si_state si)"
    and "si_transition_index si = int (length (events_of i l))"
    and "0 \<le> si_transition_index si" and "si_transition_index si \<le> int (rank (si_state si))"
proof -
  have "\<forall>i. ok_id i \<longrightarrow> log_matches get [] c i" using assms(2) by (simp add: log_matches_def)
  from log_matches_run [OF assms(1) this assms(3,4)] assms(5,6)
  have *: "fsm_run kDraft (events_of i l) (si_state si)
    \<and> si_transition_index si = int (length (events_of i l))"
    by (auto simp: log_matches_def split: option.splits)
  then show "fsm_run kDraft (events_of i l) (si_state si)"
    and "si_transition_index si = int (length (events_of i l))" by auto
  with fsm_run_rank show "0 \<le> si_transition_index si"
    and "si_transition_index si \<le> int (rank (si_state si))" by fastforce+
qed

text \<open>Only created interactions are applied to, and each at most four times.\<close>

lemma reported_created:
  assumes "inv c" "\<forall>x \<in> set xs. ok_id (op_id x)" "coord_run app cre xs c = (l, c')" "ok_id i" "get c' i \<noteq> None"
  shows "get c i \<noteq> None \<or> i \<in> created xs"
  using assms
proof (induction xs arbitrary: c l)
  case (Cons x xs)
  obtain l1 c1 where s: "coord_step app cre x c = (l1, c1)" by fastforce
  obtain l2 where r: "coord_run app cre xs c1 = (l2, c')" using Cons.prems(3) s by (auto split: prod.splits)
  have x: "ok_id (op_id x)" using Cons.prems(2) by simp
  have "inv c1"
  proof (cases x)
    case (OpCreate j ct opp)
    then show ?thesis using s x inv_cre [OF Cons.prems(1)] by auto
  next
    case (OpApply j e k)
    then show ?thesis using s x inv_app [OF Cons.prems(1), of j e k] by (auto split: prod.splits)
  qed
  with Cons.IH [OF _ _ r Cons.prems(4,5)] Cons.prems(2) have "get c1 i \<noteq> None \<or> i \<in> created xs" by simp
  then show ?case
  proof
    assume g: "get c1 i \<noteq> None"
    show ?thesis
    proof (cases x)
      case (OpCreate j ct opp)
      then show ?thesis using g s x cre_get [OF Cons.prems(1) _ Cons.prems(4), of j ct opp]
        by (auto split: if_splits)
    next
      case (OpApply j e k)
      then obtain r where a: "app c j e k = (r, c1)" using s by (auto split: prod.splits)
      show ?thesis
      proof (cases "i = j \<and> tr_outcome r = kApplied")
        case True
        then show ?thesis using app_applied [OF Cons.prems(1) _ a] x OpApply by auto
      next
        case False
        then show ?thesis using app_frame [OF Cons.prems(1) _ Cons.prems(4) a] x OpApply g by auto
      qed
    qed
  qed (auto simp: created_def)
qed simp

lemma applied_bounded:
  assumes "inv c" "\<forall>i. get c i = None" "\<forall>x \<in> set xs. ok_id (op_id x)" "coord_run app cre xs c = (l, c')"
    and "\<forall>i. ok_id i"
  shows "length l \<le> 4 * card (created xs)"
proof -
  have m: "log_matches get l c' i" for i
    using log_matches_run [OF assms(1) _ assms(3,4), of "[]"] assms(2,5) by (simp add: log_matches_def)
  have "i \<in> created xs" if "events_of i l \<noteq> []" for i
    using that m [of i] reported_created [OF assms(1,3,4), of i] assms(2,5) by (auto simp: log_matches_def split: option.splits)
  then have "length l = (\<Sum>i \<in> created xs. length (events_of i l))"
    by (intro events_of_count) (auto simp: events_of_member)
  also have "length (events_of i l) \<le> 4" for i
  proof (cases "get c' i")
    case (Some si)
    then show ?thesis using m [of i] fsm_run_rank rank_le [of "si_state si"]
      by (fastforce simp: log_matches_def)
  qed (use m [of i] in \<open>simp add: log_matches_def\<close>)
  then have "(\<Sum>i \<in> created xs. length (events_of i l)) \<le> (\<Sum>i \<in> created xs. 4)" by (intro sum_mono)
  finally show ?thesis by (simp add: mult.commute)
qed

text \<open>Two calls that race: whichever is serialised first, both are applied only if they are
  consecutive steps of the machine, so no update is lost.\<close>

lemma race_serialised:
  assumes "inv c" "ok_id i" "app c i e1 k1 = (r1, c1)" "tr_outcome r1 = kApplied"
    and "app c1 i e2 k2 = (r2, c2)" "tr_outcome r2 = kApplied"
  shows "tr_before_state r2 = tr_after_state r1"
    and "tr_transition_index r2 = tr_transition_index r1 + 1"
    and "fsm_run (tr_before_state r1) [e1, e2] (tr_after_state r2)"
proof -
  have i1: "inv c1" using inv_app [OF assms(1,2), of e1 k1] assms(3) by simp
  from app_applied [OF assms(1-4)] obtain s n where
    1: "fsm_step s e1 (tr_after_state r1)" "tr_before_state r1 = s" "tr_transition_index r1 = n + 1"
      "get c1 i = Some \<lparr>si_state = tr_after_state r1, si_transition_index = n + 1\<rparr>"
    by blast
  from app_applied [OF i1 assms(2,5,6)] 1 show "tr_before_state r2 = tr_after_state r1"
    and "tr_transition_index r2 = tr_transition_index r1 + 1" by auto
  from app_applied [OF i1 assms(2,5,6)] 1
  show "fsm_run (tr_before_state r1) [e1, e2] (tr_after_state r2)"
    by (auto intro: fsm_run_two)
qed

end

locale idempotent_coordinator = coordinator app get cre inv ok_id
  for app :: "'c apply_fn" and get cre inv ok_id +
  fixes receipt :: "'c \<Rightarrow> interaction_id \<Rightarrow> string \<Rightarrow> state_info option"
  assumes receipt_replay: "inv c \<Longrightarrow> ok_id i \<Longrightarrow> get c i \<noteq> None \<Longrightarrow> receipt c i k = Some si \<Longrightarrow>
      app c i e k =
        (\<lparr>tr_outcome = kAlreadyApplied, tr_before_state = si_state si, tr_after_state = si_state si,
          tr_transition_index = si_transition_index si, tr_error_message = []\<rparr>, c)"
    and receipt_recorded: "inv c \<Longrightarrow> ok_id i \<Longrightarrow> app c i e k = (r, c') \<Longrightarrow>
      tr_outcome r = kApplied \<Longrightarrow>
      receipt c i k = None \<and>
      receipt c' i k = Some \<lparr>si_state = tr_after_state r, si_transition_index = tr_transition_index r\<rparr>"
    and receipt_kept: "inv c \<Longrightarrow> ok_id i \<Longrightarrow> receipt c j k' = Some si \<Longrightarrow>
      receipt (snd (app c i e k)) j k' = Some si"
    and receipt_kept_cre: "inv c \<Longrightarrow> ok_id i \<Longrightarrow> receipt c j k' = Some si \<Longrightarrow>
      receipt (snd (cre c i ct opp)) j k' = Some si"
begin

lemma step_kept:
  assumes "inv c" "ok_id i" "ok_id (op_id x)" "get c i \<noteq> None" "receipt c i k = Some si"
    and "coord_step app cre x c = (l, c')"
  shows "inv c' \<and> get c' i \<noteq> None \<and> receipt c' i k = Some si"
proof (cases x)
  case (OpCreate j ct opp)
  then have j: "ok_id j" and c': "c' = snd (cre c j ct opp)" using assms(3,6) by auto
  show ?thesis
    using cre_get [OF assms(1) j assms(2), of ct opp] assms(4) inv_cre [OF assms(1) j]
      receipt_kept_cre [OF assms(1) j assms(5)]
    by (auto simp: c')
next
  case (OpApply j e k')
  then obtain r where j: "ok_id j" and r: "app c j e k' = (r, c')"
    using assms(3,6) by (auto split: prod.splits)
  have "get c' i \<noteq> None"
    using app_frame [OF assms(1) j assms(2) r] app_applied [OF assms(1) j r] assms(4) by force
  then show ?thesis
    using inv_app [OF assms(1) j, of e k'] receipt_kept [OF assms(1) j assms(5), of e k'] r by simp
qed

lemma run_kept:
  assumes "inv c" "ok_id i" "\<forall>x \<in> set xs. ok_id (op_id x)" "get c i \<noteq> None"
    and "receipt c i k = Some si" "coord_run app cre xs c = (l, c')"
  shows "inv c' \<and> get c' i \<noteq> None \<and> receipt c' i k = Some si"
  using assms
proof (induction xs arbitrary: c l)
  case (Cons x xs)
  obtain l1 c1 where s: "coord_step app cre x c = (l1, c1)" by (cases "coord_step app cre x c")
  obtain l2 where r: "coord_run app cre xs c1 = (l2, c')"
    using Cons.prems(6) s by (auto split: prod.splits)
  have "inv c1 \<and> get c1 i \<noteq> None \<and> receipt c1 i k = Some si"
    using step_kept [OF Cons.prems(1,2) _ Cons.prems(4,5) s] Cons.prems(3) by simp
  then show ?case using Cons.IH [OF _ Cons.prems(2) _ _ _ r] Cons.prems(3) by simp
qed auto

text \<open>Replaying a key returns the recorded outcome, whatever happened in between and whatever event
  the replay carries.\<close>

lemma replay_after:
  assumes "inv c" "ok_id i" "app c i e k = (r, c1)" "tr_outcome r = kApplied"
    and "\<forall>x \<in> set xs. ok_id (op_id x)" "coord_run app cre xs c1 = (l, c2)"
  shows "app c2 i e' k =
    (\<lparr>tr_outcome = kAlreadyApplied, tr_before_state = tr_after_state r,
      tr_after_state = tr_after_state r, tr_transition_index = tr_transition_index r,
      tr_error_message = []\<rparr>, c2)"
proof -
  have 1: "inv c1" using inv_app [OF assms(1,2), of e k] assms(3) by simp
  have 2: "get c1 i \<noteq> None" using app_applied [OF assms(1-4)] by auto
  have 3: "receipt c1 i k =
      Some \<lparr>si_state = tr_after_state r, si_transition_index = tr_transition_index r\<rparr>"
    using receipt_recorded [OF assms(1-4)] by simp
  from run_kept [OF 1 assms(2,5) 2 3 assms(6)] show ?thesis
    by (auto dest!: receipt_replay [OF _ assms(2)])
qed

lemma step_receipt_mono:
  assumes "inv c" "ok_id (op_id x)" "coord_step app cre x c = (l, c')" "receipt c' j k' = None"
  shows "receipt c j k' = None"
proof (cases "receipt c j k'")
  case (Some si)
  then have "receipt c' j k' = Some si"
    using assms(2,3) receipt_kept [OF assms(1) _ Some] receipt_kept_cre [OF assms(1) _ Some]
    by (cases x) (auto split: prod.splits, metis snd_conv)
  then show ?thesis using assms(4) by simp
qed simp

lemma applied_once_aux:
  assumes "inv c" "\<forall>x \<in> set xs. ok_id (op_id x)" "coord_run app cre xs c = (l, c')"
  shows "distinct (map (\<lambda>(i, e, k). (i, k)) l) \<and> (\<forall>(i, e, k) \<in> set l. receipt c i k = None)"
  using assms
proof (induction xs arbitrary: c l)
  case (Cons x xs)
  obtain l1 c1 where s: "coord_step app cre x c = (l1, c1)" by (cases "coord_step app cre x c")
  obtain l2 where r: "coord_run app cre xs c1 = (l2, c')" and l: "l = l1 @ l2"
    using Cons.prems(3) s by (auto split: prod.splits)
  have x: "ok_id (op_id x)" using Cons.prems(2) by simp
  have i1: "inv c1"
    using s x inv_app [OF Cons.prems(1)] inv_cre [OF Cons.prems(1)]
    by (cases x) (auto split: prod.splits, metis snd_conv)
  have IH: "distinct (map (\<lambda>(i, e, k). (i, k)) l2) \<and> (\<forall>(i, e, k) \<in> set l2. receipt c1 i k = None)"
    using Cons.IH [OF i1 _ r] Cons.prems(2) by simp
  note mono = step_receipt_mono [OF Cons.prems(1) x s]
  show ?case
  proof (cases l1)
    case Nil
    then show ?thesis using IH mono by (auto simp: l)
  next
    case (Cons y ys)
    then obtain i e k r1 where xa: "x = OpApply i e k" and a: "app c i e k = (r1, c1)"
      and o: "tr_outcome r1 = kApplied" and l1: "l1 = [(i, e, k)]"
      using s by (cases x) (auto split: prod.splits if_splits)
    have "receipt c i k = None" "receipt c1 i k \<noteq> None"
      using receipt_recorded [OF Cons.prems(1) _ a o] x xa by auto
    then show ?thesis using IH mono by (auto simp: l l1)
  qed
qed auto

end

section \<open>The in-memory coordinator\<close>

record interaction_record =
  ir_interaction :: interaction
  ir_transition_index :: int

record idempotency_receipt =
  rc_after_state :: interaction_state
  rc_transition_index :: int
  rc_applied_event :: interaction_event

record mem_coordinator =
  mc_interactions :: "string \<rightharpoonup> interaction_record"
  mc_receipts :: "string \<rightharpoonup> idempotency_receipt"

definition mem_empty :: mem_coordinator where
  "mem_empty = \<lparr>mc_interactions = Map.empty, mc_receipts = Map.empty\<rparr>"

definition idem_key_of :: "interaction_id \<Rightarrow> string \<Rightarrow> string" where
  "idem_key_of i idempotency_key = interaction_id_value i @ '':'' @ idempotency_key"

definition mem_apply_transition :: "mem_coordinator apply_fn" where
  "mem_apply_transition c i event idempotency_key =
     (let int_key = interaction_id_value i;
          idem_key = idem_key_of i idempotency_key
      in case mc_interactions c int_key of
           None \<Rightarrow>
             (\<lparr>tr_outcome = kNotFound, tr_before_state = kDraft, tr_after_state = kDraft,
               tr_transition_index = 0, tr_error_message = ''Interaction not found: '' @ int_key\<rparr>, c)
         | Some rec \<Rightarrow>
             (case mc_receipts c idem_key of
                Some receipt \<Rightarrow>
                  (\<lparr>tr_outcome = kAlreadyApplied, tr_before_state = rc_after_state receipt,
                    tr_after_state = rc_after_state receipt,
                    tr_transition_index = rc_transition_index receipt, tr_error_message = []\<rparr>, c)
              | None \<Rightarrow>
                  let before_state = int_state (ir_interaction rec)
                  in if \<not> can_transition (ir_interaction rec) event
                     then (\<lparr>tr_outcome = kInvalidTransition, tr_before_state = before_state,
                            tr_after_state = before_state,
                            tr_transition_index = ir_transition_index rec,
                            tr_error_message = ''Invalid transition from current state''\<rparr>, c)
                     else let (applied, interaction') = apply_event_to (ir_interaction rec) event
                       in if \<not> applied
                          then (\<lparr>tr_outcome = kInvalidTransition, tr_before_state = before_state,
                                 tr_after_state = before_state,
                                 tr_transition_index = ir_transition_index rec,
                                 tr_error_message =
                                   ''Failed to apply transition (domain logic rejected)''\<rparr>, c)
                          else
                            let index' = ir_transition_index rec + 1;
                                after_state = int_state interaction'
                            in (\<lparr>tr_outcome = kApplied, tr_before_state = before_state,
                                 tr_after_state = after_state, tr_transition_index = index',
                                 tr_error_message = []\<rparr>,
                                c\<lparr>mc_interactions := (mc_interactions c)
                                    (int_key \<mapsto> \<lparr>ir_interaction = interaction',
                                                 ir_transition_index = index'\<rparr>),
                                  mc_receipts := (mc_receipts c)
                                    (idem_key \<mapsto> \<lparr>rc_after_state = after_state,
                                                  rc_transition_index = index',
                                                  rc_applied_event = event\<rparr>)\<rparr>)))"

definition mem_get_state :: "mem_coordinator \<Rightarrow> interaction_id \<Rightarrow> state_info option" where
  "mem_get_state c i =
     (case mc_interactions c (interaction_id_value i) of
        None \<Rightarrow> None
      | Some rec \<Rightarrow> Some \<lparr>si_state = int_state (ir_interaction rec),
                          si_transition_index = ir_transition_index rec\<rparr>)"

definition mem_create_interaction :: "mem_coordinator create_fn" where
  "mem_create_interaction c i contact opp =
     (let int_key = interaction_id_value i
      in if mc_interactions c int_key \<noteq> None then (False, c)
         else (True,
               c\<lparr>mc_interactions := (mc_interactions c)
                   (int_key \<mapsto> \<lparr>ir_interaction = \<lparr>int_id = i, int_contact_id = contact,
                                                   int_opportunity_id = opp, int_state = kDraft\<rparr>,
                                ir_transition_index = 0\<rparr>)\<rparr>))"

text \<open>
  The invariant: every record is stored under its own identifier, and its index is at most the rank of
  its state; so the 64-bit increment never overflows.
\<close>

definition mem_inv :: "mem_coordinator \<Rightarrow> bool" where
  "mem_inv c \<longleftrightarrow>
     (\<forall>k rec. mc_interactions c k = Some rec \<longrightarrow>
        int_id (ir_interaction rec) = InteractionId k \<and> 0 \<le> ir_transition_index rec \<and>
        ir_transition_index rec \<le> int (rank (int_state (ir_interaction rec))))"

definition mem_receipt :: "mem_coordinator \<Rightarrow> interaction_id \<Rightarrow> string \<Rightarrow> state_info option" where
  "mem_receipt c i k =
     map_option (\<lambda>r. \<lparr>si_state = rc_after_state r, si_transition_index = rc_transition_index r\<rparr>)
       (mc_receipts c (idem_key_of i k))"

lemma interaction_id_value_eq_iff [simp]:
  "interaction_id_value i = interaction_id_value j \<longleftrightarrow> i = j"
  by (cases i; cases j) simp

lemma mem_get_state_upd:
  "mem_get_state (c\<lparr>mc_interactions := (mc_interactions c)(interaction_id_value i \<mapsto> rec)\<rparr>) =
     (mem_get_state c)(i \<mapsto> \<lparr>si_state = int_state (ir_interaction rec),
                              si_transition_index = ir_transition_index rec\<rparr>)"
  by (rule ext) (simp add: mem_get_state_def)

lemma mem_get_state_receipts [simp]: "mem_get_state (c\<lparr>mc_receipts := x\<rparr>) = mem_get_state c"
  by (rule ext) (simp add: mem_get_state_def)

lemma mem_apply_applied:
  assumes "mem_apply_transition c i e k = (r, c')" "tr_outcome r = kApplied"
  obtains rec where "mc_interactions c (interaction_id_value i) = Some rec"
    and "mc_receipts c (idem_key_of i k) = None"
    and "fsm_step (int_state (ir_interaction rec)) e (tr_after_state r)"
    and "r = \<lparr>tr_outcome = kApplied, tr_before_state = int_state (ir_interaction rec),
              tr_after_state = event_target e, tr_transition_index = ir_transition_index rec + 1,
              tr_error_message = []\<rparr>"
    and "c' = c\<lparr>mc_interactions := (mc_interactions c)(interaction_id_value i \<mapsto>
                  \<lparr>ir_interaction = (ir_interaction rec)\<lparr>int_state := event_target e\<rparr>,
                   ir_transition_index = ir_transition_index rec + 1\<rparr>),
                mc_receipts := (mc_receipts c)(idem_key_of i k \<mapsto>
                  \<lparr>rc_after_state = event_target e, rc_transition_index = ir_transition_index rec + 1,
                   rc_applied_event = e\<rparr>)\<rparr>"
proof -
  have "\<exists>rec. mc_interactions c (interaction_id_value i) = Some rec"
    using assms by (auto simp: mem_apply_transition_def Let_def split: option.splits)
  then obtain rec where rec: "mc_interactions c (interaction_id_value i) = Some rec" ..
  have nr: "mc_receipts c (idem_key_of i k) = None"
    using assms rec by (auto simp: mem_apply_transition_def Let_def split: option.splits)
  have ct: "can_transition (ir_interaction rec) e"
    using assms rec nr by (auto simp: mem_apply_transition_def Let_def split: if_splits)
  have r: "r = \<lparr>tr_outcome = kApplied, tr_before_state = int_state (ir_interaction rec),
              tr_after_state = event_target e, tr_transition_index = ir_transition_index rec + 1,
              tr_error_message = []\<rparr>"
    using assms rec nr ct by (auto simp: mem_apply_transition_def Let_def apply_event_to_def)
  show ?thesis
  proof (rule that [OF rec nr])
    show "fsm_step (int_state (ir_interaction rec)) e (tr_after_state r)"
      using ct by (simp add: r fsm_step_iff can_transition_def)
  qed (use assms rec nr ct r in \<open>simp_all add: mem_apply_transition_def Let_def apply_event_to_def\<close>)
qed

lemma mem_apply_refused:
  assumes "mem_apply_transition c i e k = (r, c')" "tr_outcome r \<noteq> kApplied"
  shows "c' = c"
  using assms
  by (auto simp: mem_apply_transition_def Let_def apply_event_to_def split: option.splits if_splits)

lemma mem_inv_apply:
  assumes "mem_inv c" shows "mem_inv (snd (mem_apply_transition c i e k))"
proof -
  obtain r c' where a: "mem_apply_transition c i e k = (r, c')"
    by (cases "mem_apply_transition c i e k")
  show ?thesis
  proof (cases "tr_outcome r = kApplied")
    case True
    show ?thesis
    proof (rule mem_apply_applied [OF a True])
      fix rec
      assume *: "mc_interactions c (interaction_id_value i) = Some rec"
        "fsm_step (int_state (ir_interaction rec)) e (tr_after_state r)"
        "r = \<lparr>tr_outcome = kApplied, tr_before_state = int_state (ir_interaction rec),
              tr_after_state = event_target e, tr_transition_index = ir_transition_index rec + 1,
              tr_error_message = []\<rparr>"
        "c' = c\<lparr>mc_interactions := (mc_interactions c)(interaction_id_value i \<mapsto>
                  \<lparr>ir_interaction = (ir_interaction rec)\<lparr>int_state := event_target e\<rparr>,
                   ir_transition_index = ir_transition_index rec + 1\<rparr>),
                mc_receipts := (mc_receipts c)(idem_key_of i k \<mapsto>
                  \<lparr>rc_after_state = event_target e, rc_transition_index = ir_transition_index rec + 1,
                   rc_applied_event = e\<rparr>)\<rparr>"
      have "ir_transition_index rec + 1 \<le> int (rank (event_target e))"
        "0 \<le> ir_transition_index rec" "int_id (ir_interaction rec) = i"
        using assms *(1) fsm_step_rank [OF *(2)] *(3)
        by (auto simp: mem_inv_def interaction_id.expand)
          (smt (verit) of_nat_less_iff)+
      then show ?thesis using assms by (auto simp: a mem_inv_def *(4) split: if_splits)
    qed
  qed (use assms mem_apply_refused [OF a] in \<open>simp add: a\<close>)
qed

lemma mem_apply_get:
  assumes "mem_apply_transition c i e k = (r, c')" "tr_outcome r = kApplied"
  shows "\<exists>s n. mem_get_state c i = Some \<lparr>si_state = s, si_transition_index = n\<rparr> \<and>
        fsm_step s e (tr_after_state r) \<and> tr_before_state r = s \<and>
        tr_transition_index r = n + 1 \<and>
        mem_get_state c' = (mem_get_state c)
          (i \<mapsto> \<lparr>si_state = tr_after_state r, si_transition_index = n + 1\<rparr>)"
  by (rule mem_apply_applied [OF assms]) (auto simp: mem_get_state_def fun_eq_iff)

lemma mem_receipt_kept:
  assumes "mem_receipt c j k' = Some si"
  shows "mem_receipt (snd (mem_apply_transition c i e k)) j k' = Some si"
proof -
  obtain r c' where a: "mem_apply_transition c i e k = (r, c')"
    by (cases "mem_apply_transition c i e k")
  show ?thesis
  proof (cases "tr_outcome r = kApplied")
    case True
    show ?thesis
      by (rule mem_apply_applied [OF a True]) (use assms in \<open>auto simp: a mem_receipt_def\<close>)
  qed (use assms mem_apply_refused [OF a] in \<open>simp add: a\<close>)
qed

interpretation mem: idempotent_coordinator
  mem_apply_transition mem_get_state mem_create_interaction mem_inv "\<lambda>_. True" mem_receipt
proof unfold_locales
  fix c i ct opp
  assume "mem_inv c" then show "mem_inv (snd (mem_create_interaction c i ct opp))"
    by (auto simp: mem_inv_def mem_create_interaction_def Let_def)
next
  fix c i ct opp
  show "fst (mem_create_interaction c i ct opp) \<longleftrightarrow> mem_get_state c i = None"
    by (simp add: mem_create_interaction_def mem_get_state_def Let_def split: option.splits)
next
  fix c i j ct opp
  show "mem_get_state (snd (mem_create_interaction c i ct opp)) j =
        (if j = i \<and> mem_get_state c i = None
         then Some \<lparr>si_state = kDraft, si_transition_index = 0\<rparr> else mem_get_state c j)"
    by (auto simp: mem_create_interaction_def mem_get_state_def Let_def split: option.splits)
next
  fix c i e k r c'
  assume "mem_apply_transition c i e k = (r, c')" "tr_outcome r = kApplied"
  from mem_apply_get [OF this]
  show "\<exists>s n. mem_get_state c i = Some \<lparr>si_state = s, si_transition_index = n\<rparr> \<and>
        fsm_step s e (tr_after_state r) \<and> tr_before_state r = s \<and>
        tr_transition_index r = n + 1 \<and>
        mem_get_state c' i = Some \<lparr>si_state = tr_after_state r, si_transition_index = n + 1\<rparr>"
    by auto
next
  fix c i j e k r c'
  assume a: "mem_apply_transition c i e k = (r, c')" "j \<noteq> i \<or> tr_outcome r \<noteq> kApplied"
  then show "mem_get_state c' j = mem_get_state c j"
    using mem_apply_refused [OF a(1)] mem_apply_get [OF a(1)]
    by (cases "tr_outcome r = kApplied") auto
next
  fix c i e k
  show "tr_outcome (fst (mem_apply_transition c i e k)) = kNotFound \<longleftrightarrow> mem_get_state c i = None"
    by (auto simp: mem_apply_transition_def mem_get_state_def Let_def apply_event_to_def
        split: option.splits)
next
  fix c i k si e
  assume "mem_get_state c i \<noteq> None" "mem_receipt c i k = Some si"
  then show "mem_apply_transition c i e k =
        (\<lparr>tr_outcome = kAlreadyApplied, tr_before_state = si_state si, tr_after_state = si_state si,
          tr_transition_index = si_transition_index si, tr_error_message = []\<rparr>, c)"
    by (auto simp: mem_apply_transition_def mem_get_state_def mem_receipt_def Let_def
        split: option.splits)
next
  fix c i e k r c'
  assume a: "mem_apply_transition c i e k = (r, c')" and o: "tr_outcome r = kApplied"
  show "mem_receipt c i k = None \<and>
      mem_receipt c' i k =
        Some \<lparr>si_state = tr_after_state r, si_transition_index = tr_transition_index r\<rparr>"
    by (rule mem_apply_applied [OF a o]) (simp add: mem_receipt_def)
next
  fix c j k' si i ct opp
  assume "mem_receipt c j k' = Some si"
  then show "mem_receipt (snd (mem_create_interaction c i ct opp)) j k' = Some si"
    by (simp add: mem_receipt_def mem_create_interaction_def Let_def)
qed (auto intro: mem_inv_apply mem_receipt_kept)

lemma mem_empty_facts [simp]: "mem_inv mem_empty" "mem_get_state mem_empty i = None"
  by (auto simp: mem_inv_def mem_empty_def mem_get_state_def)

section \<open>Properties of the in-memory coordinator\<close>

text \<open>C1. Whatever calls a client makes on a fresh in-memory coordinator, the state it reports for an
  interaction is the state machine's state after exactly the events whose calls returned
  \<open>kApplied\<close>, in order, the transition index counts those events, and it never exceeds 4.\<close>
theorem mem_history:
  assumes "coord_run mem_apply_transition mem_create_interaction xs mem_empty = (l, c)"
    and "mem_get_state c i = Some si"
  shows "fsm_run kDraft (events_of i l) (si_state si)
    \<and> si_transition_index si = int (length (events_of i l)) \<and> si_transition_index si \<le> 4"
proof -
  have a: "\<forall>i. mem_get_state mem_empty i = None" by simp
  note h = mem.run_history [OF mem_empty_facts(1) a _ assms(1) _ assms(2)]
  have "si_transition_index si \<le> int (rank (si_state si))" using h(4) by simp
  also have "\<dots> \<le> 4" using rank_le [of "si_state si"] by simp
  finally show ?thesis using h(1,2) by simp
qed

text \<open>C2. The idempotency key: on the in-memory coordinator a pair of interaction and key is applied at
  most once in any sequence of calls.\<close>
theorem mem_applied_once:
  "distinct (map (\<lambda>(i, e, k). (i, k))
     (fst (coord_run mem_apply_transition mem_create_interaction xs mem_empty)))"
proof -
  obtain l c where "coord_run mem_apply_transition mem_create_interaction xs mem_empty = (l, c)"
    by (cases "coord_run mem_apply_transition mem_create_interaction xs mem_empty")
  from mem.applied_once_aux [OF mem_empty_facts(1) _ this] this show ?thesis by simp
qed

text \<open>C3. Transitions come to an end: in any sequence of calls on a fresh in-memory coordinator, the calls that
  are applied are at most four for each interaction that is created, however many are made.\<close>
theorem mem_applied_bounded:
  "length (fst (coord_run mem_apply_transition mem_create_interaction xs mem_empty)) \<le> 4 * card (created xs)"
proof -
  obtain l c where "coord_run mem_apply_transition mem_create_interaction xs mem_empty = (l, c)"
    by (cases "coord_run mem_apply_transition mem_create_interaction xs mem_empty")
  from mem.applied_bounded [OF mem_empty_facts(1) _ _ this] this show ?thesis by simp
qed

text \<open>Replaying an applied key on the in-memory coordinator, after any further calls and with any
  event, returns \<open>kAlreadyApplied\<close> with the recorded state and index and changes nothing.\<close>
theorem mem_replay:
  assumes "mem_inv c" "mem_apply_transition c i e k = (r, c1)" "tr_outcome r = kApplied"
    and "coord_run mem_apply_transition mem_create_interaction xs c1 = (l, c2)"
  shows "mem_apply_transition c2 i e' k =
    (\<lparr>tr_outcome = kAlreadyApplied, tr_before_state = tr_after_state r,
      tr_after_state = tr_after_state r, tr_transition_index = tr_transition_index r,
      tr_error_message = []\<rparr>, c2)"
  using mem.replay_after [OF assms(1) _ assms(2,3) _ assms(4)] by simp

text \<open>A coordinator with one created interaction, for concrete runs.\<close>

definition demo_coordinator :: mem_coordinator where
  "demo_coordinator =
     snd (mem_create_interaction mem_empty (InteractionId ''i1'') (ContactId ''c1'') (OpportunityId ''o1''))"

lemma demo_coordinator_inv: "mem_inv demo_coordinator"
  using mem.inv_cre [OF mem_empty_facts(1)] by (simp add: demo_coordinator_def)

theorem mem_history_witness:
  "fsm_run kDraft [kPrepare] kReady \<and> (1 :: int) = int (length [kPrepare]) \<and> (1 :: int) \<le> 4"
proof -
  define xs where "xs = [OpCreate (InteractionId ''i1'') (ContactId ''c1'') (OpportunityId ''o1''),
    OpApply (InteractionId ''i1'') kPrepare ''k1'', OpApply (InteractionId ''i1'') kReceiveReply ''k2'']"
  define c where "c = snd (coord_run mem_apply_transition mem_create_interaction xs mem_empty)"
  have r: "coord_run mem_apply_transition mem_create_interaction xs mem_empty =
      ([(InteractionId ''i1'', kPrepare, ''k1'')], c)"
    by (simp add: c_def xs_def mem_apply_transition_def mem_create_interaction_def Let_def
        mem_empty_def can_transition_def apply_event_to_def idem_key_of_def)
  have "mem_get_state c (InteractionId ''i1'') =
      Some \<lparr>si_state = kReady, si_transition_index = 1\<rparr>"
    by (simp add: c_def xs_def mem_apply_transition_def mem_create_interaction_def Let_def
        mem_empty_def can_transition_def apply_event_to_def idem_key_of_def mem_get_state_def)
  from mem_history [OF r this] show ?thesis by simp
qed

theorem mem_replay_witness:
  "\<exists>c1 c2 r. mem_apply_transition demo_coordinator (InteractionId ''i1'') kPrepare ''k1'' = (r, c1)
     \<and> tr_outcome r = kApplied
     \<and> mem_apply_transition c2 (InteractionId ''i1'') kSend ''k1'' =
         (\<lparr>tr_outcome = kAlreadyApplied, tr_before_state = tr_after_state r,
           tr_after_state = tr_after_state r, tr_transition_index = tr_transition_index r,
           tr_error_message = []\<rparr>, c2)"
proof -
  define p where "p = mem_apply_transition demo_coordinator (InteractionId ''i1'') kPrepare ''k1''"
  have a: "mem_apply_transition demo_coordinator (InteractionId ''i1'') kPrepare ''k1'' =
    (fst p, snd p)" by (simp add: p_def)
  have o: "tr_outcome (fst p) = kApplied"
    by (simp add: p_def demo_coordinator_def mem_apply_transition_def mem_create_interaction_def
        Let_def mem_empty_def can_transition_def apply_event_to_def)
  have "coord_run mem_apply_transition mem_create_interaction
      [OpApply (InteractionId ''i1'') kClose ''k2''] (snd p) =
    (fst (coord_run mem_apply_transition mem_create_interaction
      [OpApply (InteractionId ''i1'') kClose ''k2''] (snd p)),
     snd (coord_run mem_apply_transition mem_create_interaction
      [OpApply (InteractionId ''i1'') kClose ''k2''] (snd p)))" by simp
  from mem_replay [OF demo_coordinator_inv a o this] a o show ?thesis by blast
qed

text \<open>
  The receipt key is the concatenation \<open>id:key\<close>, so two different pairs can share a receipt:
  a first call with key \<open>c\<close> on interaction \<open>a:b\<close> is answered as a replay of key
  \<open>b:c\<close> on \<open>a\<close>.
\<close>

lemma mem_key_collision:
  "idem_key_of (InteractionId ''a'') ''b:c'' = idem_key_of (InteractionId ''a:b'') ''c''"
  by (simp add: idem_key_of_def)

lemma no_colon_append:
  assumes "CHR '':'' \<notin> set x" "CHR '':'' \<notin> set y" "x @ '':'' @ k = y @ '':'' @ k'"
  shows "x = y \<and> k = k'"
  using assms by (induction x arbitrary: y) (auto simp: Cons_eq_append_conv append_eq_Cons_conv)

lemma idem_key_of_inj:
  assumes "CHR '':'' \<notin> set (interaction_id_value i)" "CHR '':'' \<notin> set (interaction_id_value j)"
    and "idem_key_of i k = idem_key_of j k'"
  shows "i = j \<and> k = k'"
  using no_colon_append [OF assms(1,2)] assms(3) by (simp add: idem_key_of_def)

text \<open>A first use of a key is not answered as a replay, provided no interaction identifier contains
  the separator \<open>:\<close>: the receipts of other interactions and keys are never read.\<close>
theorem mem_first_use:
  assumes "CHR '':'' \<notin> set (interaction_id_value i)"
    and "\<forall>x \<in> set xs. CHR '':'' \<notin> set (interaction_id_value (op_id x))"
    and "coord_run mem_apply_transition mem_create_interaction xs mem_empty = (l, c)"
    and "\<forall>e. (i, e, k) \<notin> set l"
  shows "tr_outcome (fst (mem_apply_transition c i e k)) \<noteq> kAlreadyApplied"
proof -
  have "mem_receipt c i k = None"
    if "coord_run mem_apply_transition mem_create_interaction xs c0 = (l, c)"
      "mem_receipt c0 i k = None" for c0
    using that assms(2,4)
  proof (induction xs arbitrary: c0 l)
    case (Cons x xs)
    obtain l1 c1 where s: "coord_step mem_apply_transition mem_create_interaction x c0 = (l1, c1)"
      by (cases "coord_step mem_apply_transition mem_create_interaction x c0")
    obtain l2 where r: "coord_run mem_apply_transition mem_create_interaction xs c1 = (l2, c)"
      and l: "l = l1 @ l2"
      using Cons.prems(1) s by (auto split: prod.splits)
    have "mem_receipt c1 i k = None"
    proof (cases x)
      case (OpCreate j ct opp)
      then show ?thesis using s Cons.prems(2)
        by (auto simp: mem_receipt_def mem_create_interaction_def Let_def split: if_splits)
    next
      case (OpApply j e k')
      then obtain r where a: "mem_apply_transition c0 j e k' = (r, c1)"
        and l1: "l1 = (if tr_outcome r = kApplied then [(j, e, k')] else [])"
        using s by (auto split: prod.splits)
      show ?thesis
      proof (cases "tr_outcome r = kApplied")
        case True
        then have "(j, k') \<noteq> (i, k)" using Cons.prems(4) by (auto simp: l l1)
        then have "idem_key_of i k \<noteq> idem_key_of j k'"
          using idem_key_of_inj [OF assms(1), of j k k'] Cons.prems(3) OpApply by auto
        with mem_apply_applied [OF a True] Cons.prems(2) show ?thesis
          by (force simp: mem_receipt_def)
      qed (use Cons.prems(2) mem_apply_refused [OF a] in simp)
    qed
    then show ?case using Cons.IH [OF r] Cons.prems(3,4) l by auto
  qed auto
  from this [OF assms(3)] have "mem_receipt c i k = None" by (simp add: mem_receipt_def mem_empty_def)
  then show ?thesis
    by (auto simp: mem_apply_transition_def mem_receipt_def Let_def apply_event_to_def
        split: option.splits)
qed

theorem mem_first_use_witness:
  "\<exists>c. coord_run mem_apply_transition mem_create_interaction
        [OpCreate (InteractionId ''a'') (ContactId ''c'') (OpportunityId ''o''),
         OpApply (InteractionId ''a'') kPrepare ''k''] mem_empty =
       ([(InteractionId ''a'', kPrepare, ''k'')], c)
     \<and> tr_outcome (fst (mem_apply_transition c (InteractionId ''a'') kSend ''k2'')) \<noteq> kAlreadyApplied"
proof -
  define xs where "xs = [OpCreate (InteractionId ''a'') (ContactId ''c'') (OpportunityId ''o''),
         OpApply (InteractionId ''a'') kPrepare ''k'']"
  define c where "c = snd (coord_run mem_apply_transition mem_create_interaction xs mem_empty)"
  have r: "coord_run mem_apply_transition mem_create_interaction xs mem_empty =
      ([(InteractionId ''a'', kPrepare, ''k'')], c)"
    by (simp add: c_def xs_def mem_apply_transition_def mem_create_interaction_def Let_def
        mem_empty_def can_transition_def apply_event_to_def idem_key_of_def)
  have "tr_outcome (fst (mem_apply_transition c (InteractionId ''a'') kSend ''k2'')) \<noteq> kAlreadyApplied"
    by (rule mem_first_use [OF _ _ r]) (simp_all add: xs_def)
  with r show ?thesis by (auto simp: xs_def)
qed

end
