(* ===== verification/Std_Parse.thy ===== *)
theory Std_Parse
  imports Ccmcp_Prelude
begin

text \<open>
  The C++ library's numeric parsers \<open>std::stoi\<close> and \<open>std::stoll\<close>: leading white space
  is skipped, an optional sign and the longest run of digits are read, what follows is ignored; no
  digit is \<open>std::invalid_argument\<close> and a value outside the type is \<open>std::out_of_range\<close>,
  both with the function's name as message. Printing an integer and parsing it gives it back.
\<close>

definition is_c_space :: "char \<Rightarrow> bool" where
  "is_c_space c \<longleftrightarrow> c = CHR '' '' \<or> (9 \<le> (of_char c :: nat) \<and> (of_char c :: nat) \<le> 13)"

definition parse_decimal :: "string \<Rightarrow> int option" where
  "parse_decimal s =
     (let s1 = dropWhile is_c_space s;
          neg = (s1 \<noteq> [] \<and> hd s1 = CHR ''-'');
          s2 = (if s1 \<noteq> [] \<and> (hd s1 = CHR ''-'' \<or> hd s1 = CHR ''+'') then tl s1 else s1);
          ds = takeWhile is_digit s2
      in if ds = [] then None
         else Some (if neg then - int (digits_value 0 ds) else int (digits_value 0 ds)))"

text \<open>A parser of a signed type of \<open>w\<close> bits; the error is the exception's message.\<close>

definition std_sto :: "string \<Rightarrow> nat \<Rightarrow> string \<Rightarrow> (string, int) result" where
  "std_sto name w s =
     (case parse_decimal s of
        None \<Rightarrow> Inl name
      | Some n \<Rightarrow> if - (2 ^ (w - 1)) \<le> n \<and> n < 2 ^ (w - 1) then Inr n else Inl name)"

definition std_stoi :: "string \<Rightarrow> (string, int) result" where
  "std_stoi = std_sto ''stoi'' 32"

definition std_stoll :: "string \<Rightarrow> (string, int) result" where
  "std_stoll = std_sto ''stoll'' 64"

lemma is_digit_not_space: "is_digit c \<Longrightarrow> \<not> is_c_space c \<and> c \<noteq> CHR ''-'' \<and> c \<noteq> CHR ''+''"
  by (auto simp: is_digit_iff is_c_space_def)

lemma takeWhile_digit_to_string [simp]: "takeWhile is_digit (to_string_nat n) = to_string_nat n"
  using to_string_nat_digits [of n] by (simp only: takeWhile_eq_all_conv)

lemma parse_decimal_nat: "parse_decimal (to_string_nat n) = Some (int n)"
proof -
  have d: "\<forall>c \<in> set (to_string_nat n). is_digit c" by (rule to_string_nat_digits)
  obtain c cs where s: "to_string_nat n = c # cs" by (cases "to_string_nat n") auto
  have c: "is_digit c" using d s by simp
  show ?thesis
    using is_digit_not_space [OF c] takeWhile_digit_to_string [of n] digits_value_to_string_nat [of n] s
    by (simp add: parse_decimal_def Let_def)
qed

lemma parse_decimal_int: "parse_decimal (to_string_int n) = Some n"
proof (cases "n < 0")
  case True
  have "parse_decimal (CHR ''-'' # to_string_nat m) = Some (- int m)" for m
    by (simp add: parse_decimal_def Let_def is_c_space_def)
  then show ?thesis using True by (simp add: to_string_int_def)
qed (simp add: to_string_int_def parse_decimal_nat)

lemma std_stoi_to_string [simp]:
  "- 2147483648 \<le> n \<Longrightarrow> n < 2147483648 \<Longrightarrow> std_stoi (to_string_int n) = Inr n"
  by (simp add: std_stoi_def std_sto_def parse_decimal_int)

lemma std_stoll_to_string [simp]:
  "- 9223372036854775808 \<le> n \<Longrightarrow> n < 9223372036854775808 \<Longrightarrow> std_stoll (to_string_int n) = Inr n"
  by (simp add: std_stoll_def std_sto_def parse_decimal_int)

end
