(* ===== verification/Redis_Coordinator.thy ===== *)
theory Redis_Coordinator
  imports Coordinator Std_Parse
begin

text \<open>
  The Redis-backed coordinator (\<open>src/interaction/redis_interaction_coordinator.cpp\<close>). The Redis
  client and server are not part of the repository: they are the record \<open>redis_api\<close> over an
  arbitrary server state, and what the code relies on is the locale \<open>redis_server\<close>. The Lua
  script of the source is a function of the commands it calls, run atomically by \<open>EVALSHA\<close>.
  One call of \<open>apply_transition\<close> is three round trips (\<open>EXISTS\<close>,
  \<open>HGETALL\<close>, \<open>EVALSHA\<close>), so concurrent workers interleave between them; the second
  half of the theory models that interleaving.
\<close>

section \<open>The client library\<close>

text \<open>
  \<open>ra_*\<close> are the calls of the client (an \<open>Inl\<close> or \<open>Some\<close> string is the
  message of the exception thrown); \<open>rs_*\<close> are the commands the script issues.
\<close>

record 'w redis_api =
  ra_exists :: "'w \<Rightarrow> string \<Rightarrow> (string, bool) result"
  ra_hgetall :: "'w \<Rightarrow> string \<Rightarrow> (string, string \<rightharpoonup> string) result"
  ra_hset :: "'w \<Rightarrow> string \<Rightarrow> string \<Rightarrow> string \<Rightarrow> string option \<times> 'w"
  ra_evalsha :: "('w \<Rightarrow> (string, int list) result \<times> 'w) \<Rightarrow> 'w \<Rightarrow> (string, int list) result \<times> 'w"
  rs_exists :: "'w \<Rightarrow> string \<Rightarrow> bool"
  rs_hget :: "'w \<Rightarrow> string \<Rightarrow> string \<Rightarrow> string option"
  rs_hset :: "'w \<Rightarrow> string \<Rightarrow> string \<Rightarrow> string \<Rightarrow> 'w"
  rs_error :: string

locale redis_server =
  fixes api :: "'w redis_api"
  assumes ra_exists: "ra_exists api w k = Inr (rs_exists api w k)"
    and ra_hgetall: "ra_hgetall api w k = Inr (rs_hget api w k)"
    and ra_hset: "ra_hset api w k f v = (None, rs_hset api w k f v)"
    and ra_evalsha: "ra_evalsha api script w = script w"
    and rs_exists_hset: "rs_exists api (rs_hset api w k f v) k' \<longleftrightarrow> k' = k \<or> rs_exists api w k'"
    and rs_hget_hset: "rs_hget api (rs_hset api w k f v) k' f' =
      (if k' = k \<and> f' = f then Some v else rs_hget api w k' f')"

text \<open>A concrete server, a map from keys to hashes.\<close>

type_synonym redis_map = "string \<rightharpoonup> (string \<rightharpoonup> string)"

definition rmap_hget :: "redis_map \<Rightarrow> string \<Rightarrow> string \<Rightarrow> string option" where
  "rmap_hget w k f = (case w k of None \<Rightarrow> None | Some h \<Rightarrow> h f)"

definition rmap_hset :: "redis_map \<Rightarrow> string \<Rightarrow> string \<Rightarrow> string \<Rightarrow> redis_map" where
  "rmap_hset w k f v = w(k \<mapsto> (case w k of None \<Rightarrow> [f \<mapsto> v] | Some h \<Rightarrow> h(f \<mapsto> v)))"

definition rmap_api :: "redis_map redis_api" where
  "rmap_api =
     \<lparr>ra_exists = (\<lambda>w k. Inr (w k \<noteq> None)),
      ra_hgetall = (\<lambda>w k. Inr (rmap_hget w k)),
      ra_hset = (\<lambda>w k f v. (None, rmap_hset w k f v)),
      ra_evalsha = (\<lambda>script w. script w),
      rs_exists = (\<lambda>w k. w k \<noteq> None),
      rs_hget = rmap_hget,
      rs_hset = rmap_hset,
      rs_error = ''ERR script''\<rparr>"

interpretation rmap: redis_server rmap_api
  by unfold_locales (auto simp: rmap_api_def rmap_hget_def rmap_hset_def split: option.splits)

section \<open>Encoding\<close>

fun state_to_int :: "interaction_state \<Rightarrow> int" where
  "state_to_int kDraft = 0"
| "state_to_int kReady = 1"
| "state_to_int kSent = 2"
| "state_to_int kResponded = 3"
| "state_to_int kClosed = 4"

text \<open>\<open>static_cast\<close> to the enumeration; a value without an enumerator is unspecified here, and
  the store invariant below excludes it.\<close>

definition int_to_state :: "int \<Rightarrow> interaction_state" where
  "int_to_state value = [kDraft, kReady, kSent, kResponded, kClosed] ! nat value"

fun event_to_int :: "interaction_event \<Rightarrow> int" where
  "event_to_int kPrepare = 0"
| "event_to_int kSend = 1"
| "event_to_int kReceiveReply = 2"
| "event_to_int kClose = 3"

lemma int_to_state_to_int [simp]: "int_to_state (state_to_int s) = s"
  by (cases s) (simp_all add: int_to_state_def)

lemma state_to_int_range: "0 \<le> state_to_int s \<and> state_to_int s \<le> 4"
  by (cases s) simp_all

definition temp_interaction :: "interaction_state \<Rightarrow> interaction" where
  "temp_interaction state =
     \<lparr>int_id = InteractionId ''temp'', int_contact_id = ContactId ''temp'',
      int_opportunity_id = OpportunityId ''temp'', int_state = state\<rparr>"

definition can_apply_event :: "interaction_state \<Rightarrow> interaction_event \<Rightarrow> bool" where
  "can_apply_event state event = can_transition (temp_interaction state) event"

definition apply_event :: "interaction_state \<Rightarrow> interaction_event \<Rightarrow> interaction_state" where
  "apply_event state event = int_state (snd (apply_event_to (temp_interaction state) event))"

lemma can_apply_event_step: "can_apply_event s e \<longleftrightarrow> fsm_step s e (apply_event s e)"
  by (auto simp: can_apply_event_def apply_event_def apply_event_to_def can_transition_def
      temp_interaction_def fsm_step_iff)

definition redis_state_key :: "interaction_id \<Rightarrow> string" where
  "redis_state_key i = ''ccmcp:interaction:'' @ interaction_id_value i @ '':state''"

definition redis_idem_key :: "interaction_id \<Rightarrow> string \<Rightarrow> string" where
  "redis_idem_key i idempotency_key =
     ''ccmcp:interaction:'' @ interaction_id_value i @ '':idem:'' @ idempotency_key"

text \<open>The identifiers for which the keys cannot collide.\<close>

definition plain_id :: "interaction_id \<Rightarrow> bool" where
  "plain_id i \<longleftrightarrow> CHR '':'' \<notin> set (interaction_id_value i)"

lemma redis_state_key_eq_iff [simp]: "redis_state_key i = redis_state_key j \<longleftrightarrow> i = j"
  by (auto simp: redis_state_key_def)

lemma redis_idem_key_eq_iff:
  "plain_id i \<Longrightarrow> plain_id j \<Longrightarrow> redis_idem_key i k = redis_idem_key j k' \<longleftrightarrow> i = j \<and> k = k'"
  using no_colon_append [of "interaction_id_value i" "interaction_id_value j" "''idem:'' @ k" "''idem:'' @ k'"]
  by (auto simp: redis_idem_key_def plain_id_def)

lemma redis_keys_differ [simp]:
  assumes "plain_id i" "plain_id j"
  shows "redis_state_key i \<noteq> redis_idem_key j k" "redis_idem_key j k \<noteq> redis_state_key i"
  using no_colon_append [of "interaction_id_value i" "interaction_id_value j" "''state''" "''idem:'' @ k"]
    assms
  by (auto simp: redis_idem_key_def redis_state_key_def plain_id_def)

section \<open>The Lua script\<close>

text \<open>
  \<open>tonumber\<close> on the decimal integers this program writes; \<open>nil\<close> is \<open>None\<close>.
\<close>

definition lua_tonumber :: "string option \<Rightarrow> int option" where
  "lua_tonumber v =
     (case v of
        None \<Rightarrow> None
      | Some s \<Rightarrow>
          let body = (if s \<noteq> [] \<and> hd s = CHR ''-'' then tl s else s)
          in if body \<noteq> [] \<and> list_all is_digit body then parse_decimal s else None)"

text \<open>A table returned to the client ends at its first \<open>nil\<close>.\<close>

definition lua_reply :: "int option list \<Rightarrow> int list" where
  "lua_reply xs = map the (takeWhile (\<lambda>x. x \<noteq> None) xs)"

definition apply_transition_script ::
  "'w redis_api \<Rightarrow> string list \<Rightarrow> string list \<Rightarrow> 'w \<Rightarrow> (string, int list) result \<times> 'w" where
  "apply_transition_script api keys argv w =
     (let state_key = keys ! 0; idem_key = keys ! 1;
          event = lua_tonumber (Some (argv ! 0)); new_state = lua_tonumber (Some (argv ! 1))
      in if \<not> rs_exists api w state_key then (Inr [3, 0, 0, 0], w)
         else if rs_exists api w idem_key
           then let after_state = lua_tonumber (rs_hget api w idem_key ''after_state'');
                    transition_index = lua_tonumber (rs_hget api w idem_key ''transition_index'')
                in (Inr (lua_reply [Some 1, after_state, after_state, transition_index]), w)
         else
           let current_state = lua_tonumber (rs_hget api w state_key ''state'');
               current_index = lua_tonumber (rs_hget api w state_key ''transition_index'')
           in case current_index of
                None \<Rightarrow> (Inl (rs_error api), w)
              | Some n \<Rightarrow>
                  let next_index = n + 1
                  in case new_state of
                       None \<Rightarrow> (Inl (rs_error api), w)
                     | Some ns \<Rightarrow>
                         let w1 = rs_hset api w state_key ''state'' (to_string_int ns);
                             w2 = rs_hset api w1 state_key ''transition_index'' (to_string_int next_index);
                             w3 = rs_hset api w2 idem_key ''after_state'' (to_string_int ns);
                             w4 = rs_hset api w3 idem_key ''transition_index'' (to_string_int next_index)
                         in case event of
                              None \<Rightarrow> (Inl (rs_error api), w4)
                            | Some ev \<Rightarrow>
                                (Inr (lua_reply [Some 0, current_state, Some ns, Some next_index]),
                                 rs_hset api w4 idem_key ''applied_event'' (to_string_int ev)))"

lemma lua_tonumber_int [simp]: "lua_tonumber (Some (to_string_int n)) = Some n"
proof -
  have d: "list_all is_digit (to_string_nat m)" for m
    using to_string_nat_digits by (simp add: list_all_iff)
  moreover have "\<not> (to_string_nat m \<noteq> [] \<and> hd (to_string_nat m) = CHR ''-'')" for m
    using to_string_nat_digits [of m] is_digit_not_space
    by (metis hd_in_set)
  ultimately show ?thesis
    using parse_decimal_int [of n] by (auto simp: lua_tonumber_def to_string_int_def Let_def)
qed

section \<open>The operations\<close>

definition map_at :: "(string \<rightharpoonup> string) \<Rightarrow> string \<Rightarrow> (string, string) result" where
  "map_at m k = (case m k of None \<Rightarrow> Inl ''unordered_map::at'' | Some v \<Rightarrow> Inr v)"

definition redis_backend_error :: "string \<Rightarrow> transition_result" where
  "redis_backend_error what =
     \<lparr>tr_outcome = kBackendError, tr_before_state = kDraft, tr_after_state = kDraft,
      tr_transition_index = 0, tr_error_message = ''Redis error: '' @ what\<rparr>"

text \<open>The first round trip: \<open>None\<close> when the interaction exists.\<close>

definition redis_check :: "'w redis_api \<Rightarrow> interaction_id \<Rightarrow> 'w \<Rightarrow> transition_result option" where
  "redis_check api i w =
     (case ra_exists api w (redis_state_key i) of
        Inl what \<Rightarrow> Some (redis_backend_error what)
      | Inr True \<Rightarrow> None
      | Inr False \<Rightarrow>
          Some \<lparr>tr_outcome = kNotFound, tr_before_state = kDraft, tr_after_state = kDraft,
                tr_transition_index = 0,
                tr_error_message = ''Interaction not found: '' @ interaction_id_value i\<rparr>)"

text \<open>The second: the current state is read and the new state computed from it.\<close>

definition redis_read ::
  "'w redis_api \<Rightarrow> interaction_id \<Rightarrow> interaction_event \<Rightarrow> 'w \<Rightarrow> (transition_result, interaction_state) result" where
  "redis_read api i event w =
     (case result_bind (ra_hgetall api w (redis_state_key i)) (\<lambda>state_map.
             result_bind (map_at state_map ''state'') (\<lambda>s.
               result_bind (std_stoi s) (\<lambda>n. Inr (state_map, int_to_state n)))) of
        Inl what \<Rightarrow> Inl (redis_backend_error what)
      | Inr (state_map, current_state) \<Rightarrow>
          if \<not> can_apply_event current_state event
          then (case result_bind (map_at state_map ''transition_index'') std_stoll of
                  Inl what \<Rightarrow> Inl (redis_backend_error what)
                | Inr current_index \<Rightarrow>
                    Inl \<lparr>tr_outcome = kInvalidTransition, tr_before_state = current_state,
                         tr_after_state = current_state, tr_transition_index = current_index,
                         tr_error_message = ''Invalid transition from current state''\<rparr>)
          else Inr (apply_event current_state event))"

definition outcome_of_int :: "int \<Rightarrow> transition_outcome" where
  "outcome_of_int n =
     (if n = 0 then kApplied else if n = 1 then kAlreadyApplied else if n = 2 then kConflict
      else if n = 3 then kNotFound else kBackendError)"

text \<open>The third: the script runs with the new state computed from the earlier read.\<close>

definition redis_commit ::
  "'w redis_api \<Rightarrow> interaction_id \<Rightarrow> interaction_event \<Rightarrow> string \<Rightarrow> interaction_state \<Rightarrow> 'w
     \<Rightarrow> transition_result \<times> 'w" where
  "redis_commit api i event idempotency_key new_state w =
     (let keys = [redis_state_key i, redis_idem_key i idempotency_key];
          args = [to_string_int (event_to_int event), to_string_int (state_to_int new_state)]
      in case ra_evalsha api (apply_transition_script api keys args) w of
           (Inl what, w') \<Rightarrow> (redis_backend_error what, w')
         | (Inr reply, w') \<Rightarrow>
             (\<lparr>tr_outcome = outcome_of_int (reply ! 0), tr_before_state = int_to_state (reply ! 1),
               tr_after_state = int_to_state (reply ! 2), tr_transition_index = reply ! 3,
               tr_error_message = []\<rparr>, w'))"

definition redis_apply_transition :: "'w redis_api \<Rightarrow> 'w apply_fn" where
  "redis_apply_transition api w i event idempotency_key =
     (case redis_check api i w of
        Some r \<Rightarrow> (r, w)
      | None \<Rightarrow>
          (case redis_read api i event w of
             Inl r \<Rightarrow> (r, w)
           | Inr new_state \<Rightarrow> redis_commit api i event idempotency_key new_state w))"

definition redis_get_state :: "'w redis_api \<Rightarrow> 'w \<Rightarrow> interaction_id \<Rightarrow> state_info option" where
  "redis_get_state api w i =
     (case ra_exists api w (redis_state_key i) of
        Inl _ \<Rightarrow> None
      | Inr False \<Rightarrow> None
      | Inr True \<Rightarrow>
          (case result_bind (ra_hgetall api w (redis_state_key i)) (\<lambda>state_map.
                  result_bind (result_bind (map_at state_map ''state'') std_stoi) (\<lambda>state_int.
                    result_bind (result_bind (map_at state_map ''transition_index'') std_stoll)
                      (\<lambda>transition_index. Inr \<lparr>si_state = int_to_state state_int,
                                               si_transition_index = transition_index\<rparr>))) of
             Inl _ \<Rightarrow> None
           | Inr si \<Rightarrow> Some si))"

text \<open>The four \<open>HSET\<close> calls; an exception leaves the ones before it in place.\<close>

fun redis_hsets :: "'w redis_api \<Rightarrow> string \<Rightarrow> (string \<times> string) list \<Rightarrow> 'w \<Rightarrow> bool \<times> 'w" where
  "redis_hsets api key [] w = (True, w)"
| "redis_hsets api key ((f, v) # fvs) w =
     (case ra_hset api w key f v of
        (Some _, w') \<Rightarrow> (False, w')
      | (None, w') \<Rightarrow> redis_hsets api key fvs w')"

definition redis_create_interaction :: "'w redis_api \<Rightarrow> 'w create_fn" where
  "redis_create_interaction api w i contact opp =
     (let state_key = redis_state_key i
      in case ra_exists api w state_key of
           Inl _ \<Rightarrow> (False, w)
         | Inr True \<Rightarrow> (False, w)
         | Inr False \<Rightarrow>
             redis_hsets api state_key
               [(''state'', to_string_int (state_to_int kDraft)), (''transition_index'', ''0''),
                (''contact_id'', contact_id_value contact),
                (''opportunity_id'', opportunity_id_value opp)] w)"

section \<open>The sequential contract\<close>

text \<open>
  The store invariant: what is kept under an interaction's key is a state and an index, what is kept
  under a receipt's key is the recorded outcome.
\<close>

definition redis_holds :: "'w redis_api \<Rightarrow> 'w \<Rightarrow> interaction_id \<Rightarrow> interaction_state \<Rightarrow> int \<Rightarrow> bool" where
  "redis_holds api w i s n \<longleftrightarrow>
     rs_exists api w (redis_state_key i) \<and>
     rs_hget api w (redis_state_key i) ''state'' = Some (to_string_int (state_to_int s)) \<and>
     rs_hget api w (redis_state_key i) ''transition_index'' = Some (to_string_int n)"

definition redis_receipt_holds ::
  "'w redis_api \<Rightarrow> 'w \<Rightarrow> interaction_id \<Rightarrow> string \<Rightarrow> interaction_state \<Rightarrow> int \<Rightarrow> bool" where
  "redis_receipt_holds api w i k s n \<longleftrightarrow>
     rs_exists api w (redis_idem_key i k) \<and>
     rs_hget api w (redis_idem_key i k) ''after_state'' = Some (to_string_int (state_to_int s)) \<and>
     rs_hget api w (redis_idem_key i k) ''transition_index'' = Some (to_string_int n)"

definition redis_inv :: "'w redis_api \<Rightarrow> 'w \<Rightarrow> bool" where
  "redis_inv api w \<longleftrightarrow>
     (\<forall>i. plain_id i \<longrightarrow> rs_exists api w (redis_state_key i) \<longrightarrow>
        (\<exists>s n. redis_holds api w i s n \<and> 0 \<le> n \<and> n \<le> int (rank s))) \<and>
     (\<forall>i k. plain_id i \<longrightarrow> rs_exists api w (redis_idem_key i k) \<longrightarrow>
        (\<exists>s n. redis_receipt_holds api w i k s n))"

lemma to_string_int_0: "to_string_int 0 = ''0''"
  by code_simp

context redis_server begin

lemmas redis_calls = ra_exists ra_hgetall ra_hset ra_evalsha

lemma holds_unique:
  "redis_holds api w i s n \<Longrightarrow> redis_holds api w i s' n' \<Longrightarrow> s' = s \<and> n' = n"
  by (auto simp: redis_holds_def dest!: arg_cong [where f = parse_decimal] simp: parse_decimal_int)
    (metis int_to_state_to_int)

lemma get_state_holds:
  assumes "redis_holds api w i s n" "0 \<le> n" "n \<le> int (rank s)"
  shows "redis_get_state api w i = Some \<lparr>si_state = s, si_transition_index = n\<rparr>"
  using assms state_to_int_range [of s] rank_le [of s]
  by (simp add: redis_get_state_def redis_holds_def redis_calls map_at_def)

lemma get_state_absent:
  "\<not> rs_exists api w (redis_state_key i) \<Longrightarrow> redis_get_state api w i = None"
  by (simp add: redis_get_state_def redis_calls)

lemma get_state_cong:
  assumes "rs_exists api w' (redis_state_key i) \<longleftrightarrow> rs_exists api w (redis_state_key i)"
    and "rs_hget api w' (redis_state_key i) = rs_hget api w (redis_state_key i)"
  shows "redis_get_state api w' i = redis_get_state api w i"
  unfolding redis_get_state_def redis_calls assms ..

lemma inv_stateE:
  assumes "redis_inv api w" "plain_id i" "rs_exists api w (redis_state_key i)"
  obtains s n where "redis_holds api w i s n" "0 \<le> n" "n \<le> int (rank s)"
proof -
  have "\<exists>s n. redis_holds api w i s n \<and> 0 \<le> n \<and> n \<le> int (rank s)"
    using assms by (simp add: redis_inv_def)
  then show ?thesis using that by blast
qed

lemma inv_receiptE:
  assumes "redis_inv api w" "plain_id i" "rs_exists api w (redis_idem_key i k)"
  obtains s n where "redis_receipt_holds api w i k s n"
proof -
  have "\<exists>s n. redis_receipt_holds api w i k s n"
    using assms by (simp add: redis_inv_def)
  then show ?thesis using that by blast
qed

lemma inv_cases:
  assumes "redis_inv api w" "plain_id i"
  obtains (absent) "\<not> rs_exists api w (redis_state_key i)" "redis_get_state api w i = None"
  | (present) s n where "redis_holds api w i s n" "0 \<le> n" "n \<le> int (rank s)"
      "redis_get_state api w i = Some \<lparr>si_state = s, si_transition_index = n\<rparr>"
proof (cases "rs_exists api w (redis_state_key i)")
  case True
  from inv_stateE [OF assms True] get_state_holds show ?thesis by (metis present)
next
  case False
  show ?thesis by (rule absent [OF False get_state_absent [OF False]])
qed

lemma read_holds:
  assumes "redis_holds api w i s n" "0 \<le> n" "n \<le> int (rank s)"
  shows "redis_read api i e w =
    (if can_apply_event s e then Inr (apply_event s e)
     else Inl \<lparr>tr_outcome = kInvalidTransition, tr_before_state = s, tr_after_state = s,
               tr_transition_index = n,
               tr_error_message = ''Invalid transition from current state''\<rparr>)"
  using assms state_to_int_range [of s] rank_le [of s]
  by (simp add: redis_read_def redis_holds_def redis_calls map_at_def)

text \<open>A commit with a fresh key writes the new state without looking at the state it was computed from.\<close>

lemma commit_fresh:
  assumes "redis_holds api w i s n" "\<not> rs_exists api w (redis_idem_key i k)" "plain_id i"
  obtains w' where
    "redis_commit api i e k ns w =
       (\<lparr>tr_outcome = kApplied, tr_before_state = s, tr_after_state = ns,
         tr_transition_index = n + 1, tr_error_message = []\<rparr>, w')"
    and "redis_holds api w' i ns (n + 1)" and "redis_receipt_holds api w' i k ns (n + 1)"
    and "\<And>key. rs_exists api w' key \<longleftrightarrow>
           key = redis_state_key i \<or> key = redis_idem_key i k \<or> rs_exists api w key"
    and "\<And>key f. key \<noteq> redis_state_key i \<Longrightarrow> key \<noteq> redis_idem_key i k \<Longrightarrow>
           rs_hget api w' key f = rs_hget api w key f"
proof -
  define w' where "w' = snd (redis_commit api i e k ns w)"
  have c: "redis_commit api i e k ns w =
       (\<lparr>tr_outcome = kApplied, tr_before_state = s, tr_after_state = ns,
         tr_transition_index = n + 1, tr_error_message = []\<rparr>, w')"
    and w': "w' = rs_hset api (rs_hset api (rs_hset api (rs_hset api (rs_hset api w
        (redis_state_key i) ''state'' (to_string_int (state_to_int ns)))
        (redis_state_key i) ''transition_index'' (to_string_int (n + 1)))
        (redis_idem_key i k) ''after_state'' (to_string_int (state_to_int ns)))
        (redis_idem_key i k) ''transition_index'' (to_string_int (n + 1)))
        (redis_idem_key i k) ''applied_event'' (to_string_int (event_to_int e))"
    using assms(1,2)
    by (simp_all add: w'_def redis_commit_def redis_calls apply_transition_script_def redis_holds_def
        Let_def lua_reply_def outcome_of_int_def)
  show ?thesis
    by (rule that [OF c])
      (use assms(3) in \<open>auto simp: w' redis_holds_def redis_receipt_holds_def rs_exists_hset rs_hget_hset\<close>)
qed

lemma commit_replay:
  assumes "rs_exists api w (redis_state_key i)" "redis_receipt_holds api w i k s n"
  shows "redis_commit api i e k ns w =
    (\<lparr>tr_outcome = kAlreadyApplied, tr_before_state = s, tr_after_state = s,
      tr_transition_index = n, tr_error_message = []\<rparr>, w)"
  using assms
  by (simp add: redis_commit_def redis_calls apply_transition_script_def redis_receipt_holds_def
      Let_def lua_reply_def outcome_of_int_def)

lemma commit_fresh_inv:
  assumes "redis_inv api w" "plain_id i"
    and "redis_holds api w' i ns m" "0 \<le> m" "m \<le> int (rank ns)" "redis_receipt_holds api w' i k ns m"
    and "\<And>key. rs_exists api w' key \<longleftrightarrow>
           key = redis_state_key i \<or> key = redis_idem_key i k \<or> rs_exists api w key"
    and "\<And>key f. key \<noteq> redis_state_key i \<Longrightarrow> key \<noteq> redis_idem_key i k \<Longrightarrow>
           rs_hget api w' key f = rs_hget api w key f"
  shows "redis_inv api w'"
proof -
  have "\<exists>s n. redis_holds api w' j s n \<and> 0 \<le> n \<and> n \<le> int (rank s)"
    if "plain_id j" "rs_exists api w' (redis_state_key j)" for j
  proof (cases "j = i")
    case False
    with that assms(2) have "rs_exists api w (redis_state_key j)" by (auto simp: assms(7))
    with assms(1) that(1) show ?thesis
      using False assms(2) by (auto simp: redis_inv_def redis_holds_def assms(7,8))
  qed (use assms(3-5) in blast)
  moreover have "\<exists>s n. redis_receipt_holds api w' j k' s n"
    if "plain_id j" "rs_exists api w' (redis_idem_key j k')" for j k'
  proof (cases "redis_idem_key j k' = redis_idem_key i k")
    case True
    then show ?thesis using assms(2,6) that(1) by (auto simp: redis_idem_key_eq_iff)
  next
    case False
    with that assms(2) have "rs_exists api w (redis_idem_key j k')" by (auto simp: assms(7))
    with assms(1) that(1) show ?thesis
      using False assms(2) by (auto simp: redis_inv_def redis_receipt_holds_def assms(7,8))
  qed
  ultimately show ?thesis by (simp add: redis_inv_def)
qed

text \<open>The calls that apply, and the frame.\<close>

lemma apply_cases:
  assumes "redis_inv api w" "plain_id i" "redis_apply_transition api w i e k = (r, w')"
  obtains (applied) s n where "redis_holds api w i s n" "0 \<le> n" "n \<le> int (rank s)"
      "can_apply_event s e" "\<not> rs_exists api w (redis_idem_key i k)"
      "r = \<lparr>tr_outcome = kApplied, tr_before_state = s, tr_after_state = apply_event s e,
            tr_transition_index = n + 1, tr_error_message = []\<rparr>"
      "redis_holds api w' i (apply_event s e) (n + 1)"
      "redis_receipt_holds api w' i k (apply_event s e) (n + 1)"
      "\<And>key. rs_exists api w' key \<longleftrightarrow>
           key = redis_state_key i \<or> key = redis_idem_key i k \<or> rs_exists api w key"
      "\<And>key f. key \<noteq> redis_state_key i \<Longrightarrow> key \<noteq> redis_idem_key i k \<Longrightarrow>
           rs_hget api w' key f = rs_hget api w key f"
  | (refused) "tr_outcome r \<noteq> kApplied" "w' = w"
      "tr_outcome r = kNotFound \<longleftrightarrow> redis_get_state api w i = None"
  using assms(1,2)
proof (cases rule: inv_cases)
  case absent
  then show ?thesis
    using assms(3) by (intro refused) (auto simp: redis_apply_transition_def redis_check_def redis_calls)
next
  case (present s n)
  have ex: "rs_exists api w (redis_state_key i)" using present(1) by (simp add: redis_holds_def)
  have chk: "redis_check api i w = None" by (simp add: redis_check_def redis_calls ex)
  note rd = read_holds [OF present(1-3)]
  show ?thesis
  proof (cases "can_apply_event s e")
    case False
    then show ?thesis
      using assms(3) present(4) by (intro refused) (auto simp: redis_apply_transition_def chk rd)
  next
    case True
    then have c: "redis_commit api i e k (apply_event s e) w = (r, w')"
      using assms(3) by (simp add: redis_apply_transition_def chk rd)
    show ?thesis
    proof (cases "rs_exists api w (redis_idem_key i k)")
      case False
      show ?thesis
        by (rule commit_fresh [OF present(1) False assms(2), of e "apply_event s e"])
          (use c in \<open>auto intro!: applied [OF present(1-3) True False]\<close>)
    next
      case ex': True
      obtain s' n' where "redis_receipt_holds api w i k s' n'"
        using inv_receiptE [OF assms(1,2) ex'] by blast
      from commit_replay [OF ex this] c show ?thesis using present(4) by (intro refused) auto
    qed
  qed
qed

lemma apply_inv:
  assumes "redis_inv api w" "plain_id i"
  shows "redis_inv api (snd (redis_apply_transition api w i e k))"
proof -
  obtain r w' where a: "redis_apply_transition api w i e k = (r, w')"
    by (cases "redis_apply_transition api w i e k")
  from assms a show ?thesis
  proof (cases rule: apply_cases)
    case (applied s n)
    have "n + 1 \<le> int (rank (apply_event s e))"
      using applied(3,4) fsm_step_rank by (fastforce simp: can_apply_event_step)
    then show ?thesis
      using commit_fresh_inv [OF assms applied(7) _ _ applied(8-10)] applied(2) by (simp add: a)
  qed (use assms(1) in \<open>simp add: a\<close>)
qed

lemma create_cases:
  assumes "plain_id i"
  obtains (fresh) w' where "redis_create_interaction api w i ct opp = (True, w')"
      "\<not> rs_exists api w (redis_state_key i)" "redis_holds api w' i kDraft 0"
      "\<And>key. rs_exists api w' key \<longleftrightarrow> key = redis_state_key i \<or> rs_exists api w key"
      "\<And>key f. key \<noteq> redis_state_key i \<Longrightarrow> rs_hget api w' key f = rs_hget api w key f"
  | (existing) "redis_create_interaction api w i ct opp = (False, w)"
      "rs_exists api w (redis_state_key i)"
proof (cases "rs_exists api w (redis_state_key i)")
  case False
  show ?thesis
    by (rule fresh [of "snd (redis_create_interaction api w i ct opp)"])
      (auto simp: redis_create_interaction_def redis_calls False redis_holds_def rs_exists_hset
        rs_hget_hset to_string_int_0 Let_def)
qed (use existing in \<open>simp add: redis_create_interaction_def redis_calls\<close>)

lemma create_inv:
  assumes "redis_inv api w" "plain_id i"
  shows "redis_inv api (snd (redis_create_interaction api w i ct opp))"
  using assms(2)
proof (cases rule: create_cases [of i w ct opp])
  case (fresh w')
  have "\<exists>s n. redis_holds api w' j s n \<and> 0 \<le> n \<and> n \<le> int (rank s)"
    if "plain_id j" "rs_exists api w' (redis_state_key j)" for j
  proof (cases "j = i")
    case False
    with that have "rs_exists api w (redis_state_key j)" by (simp add: fresh(4))
    from inv_stateE [OF assms(1) that(1) this] False show ?thesis
      by (simp add: redis_holds_def fresh(4,5)) blast
  qed (use fresh(3) in force)
  moreover have "\<exists>s n. redis_receipt_holds api w' j k s n"
    if "plain_id j" "rs_exists api w' (redis_idem_key j k)" for j k
  proof -
    have "rs_exists api w (redis_idem_key j k)" using that assms(2) by (simp add: fresh(4))
    from inv_receiptE [OF assms(1) that(1) this] that(1) assms(2) show ?thesis
      by (simp add: redis_receipt_holds_def fresh(4,5)) blast
  qed
  ultimately have "redis_inv api w'" by (simp add: redis_inv_def)
  then show ?thesis by (simp add: fresh(1))
qed (use assms(1) in simp)

sublocale seq: coordinator "redis_apply_transition api" "redis_get_state api"
  "redis_create_interaction api" "redis_inv api" plain_id
proof unfold_locales
  fix w i ct opp
  assume "redis_inv api w" "plain_id i"
  then show "fst (redis_create_interaction api w i ct opp) \<longleftrightarrow> redis_get_state api w i = None"
    by (cases rule: inv_cases)
      (auto simp: redis_create_interaction_def redis_calls redis_holds_def Let_def)
next
  fix w i j ct opp
  assume a: "redis_inv api w" "plain_id i" "plain_id j"
  from a(2) show "redis_get_state api (snd (redis_create_interaction api w i ct opp)) j =
        (if j = i \<and> redis_get_state api w i = None
         then Some \<lparr>si_state = kDraft, si_transition_index = 0\<rparr> else redis_get_state api w j)"
  proof (cases rule: create_cases [of i w ct opp])
    case (fresh w')
    have "redis_get_state api w' j = redis_get_state api w j" if "j \<noteq> i"
      by (rule get_state_cong) (use that fresh(4,5) in \<open>auto simp: fun_eq_iff\<close>)
    then show ?thesis
      using get_state_absent [OF fresh(2)] get_state_holds [OF fresh(3)] by (auto simp: fresh(1))
  next
    case existing
    from inv_stateE [OF a(1,2) existing(2)] get_state_holds have "redis_get_state api w i \<noteq> None"
      by (metis option.distinct(1))
    then show ?thesis by (simp add: existing)
  qed
next
  fix w i e k r w'
  assume a: "redis_inv api w" "plain_id i" "redis_apply_transition api w i e k = (r, w')"
    and o: "tr_outcome r = kApplied"
  from a show "\<exists>s n. redis_get_state api w i = Some \<lparr>si_state = s, si_transition_index = n\<rparr> \<and>
        fsm_step s e (tr_after_state r) \<and> tr_before_state r = s \<and>
        tr_transition_index r = n + 1 \<and>
        redis_get_state api w' i =
          Some \<lparr>si_state = tr_after_state r, si_transition_index = n + 1\<rparr>"
  proof (cases rule: apply_cases)
    case (applied s n)
    have "n + 1 \<le> int (rank (apply_event s e))"
      using applied(3,4) fsm_step_rank by (fastforce simp: can_apply_event_step)
    with get_state_holds [OF applied(7)] get_state_holds [OF applied(1-3)] applied(2,4,6) show ?thesis
      by (simp add: can_apply_event_step)
  qed (use o in simp)
next
  fix w i j e k r w'
  assume a: "redis_inv api w" "plain_id i" "redis_apply_transition api w i e k = (r, w')"
    and j: "plain_id j" and o: "j \<noteq> i \<or> tr_outcome r \<noteq> kApplied"
  from a show "redis_get_state api w' j = redis_get_state api w j"
  proof (cases rule: apply_cases)
    case (applied s n)
    then have "j \<noteq> i" using o by auto
    then have "rs_exists api w' (redis_state_key j) \<longleftrightarrow> rs_exists api w (redis_state_key j)"
      "rs_hget api w' (redis_state_key j) = rs_hget api w (redis_state_key j)"
      using applied(9,10) a(2) j by (auto simp: fun_eq_iff)
    then show ?thesis by (rule get_state_cong)
  qed simp
next
  fix w i e k
  assume a: "redis_inv api w" "plain_id i"
  obtain r w' where r: "redis_apply_transition api w i e k = (r, w')"
    by (cases "redis_apply_transition api w i e k")
  from a r show "tr_outcome (fst (redis_apply_transition api w i e k)) = kNotFound \<longleftrightarrow>
    redis_get_state api w i = None"
    by (cases rule: apply_cases) (use get_state_holds in \<open>auto simp: r\<close>)
qed (auto intro: apply_inv create_inv)

end

section \<open>Interleaved workers\<close>

text \<open>
  A worker is one running call of \<open>apply_transition\<close>; a scheduler's step performs its next round
  trip on the shared server.
\<close>

datatype redis_worker =
  WStart interaction_id interaction_event string
| WChecked interaction_id interaction_event string
| WValidated interaction_id interaction_event string interaction_state
| WDone interaction_id interaction_event string transition_result

fun worker_step :: "'w redis_api \<Rightarrow> redis_worker \<Rightarrow> 'w \<Rightarrow> redis_worker \<times> 'w" where
  "worker_step api (WStart i e k) w =
     (case redis_check api i w of Some r \<Rightarrow> (WDone i e k r, w) | None \<Rightarrow> (WChecked i e k, w))"
| "worker_step api (WChecked i e k) w =
     (case redis_read api i e w of Inl r \<Rightarrow> (WDone i e k r, w) | Inr s \<Rightarrow> (WValidated i e k s, w))"
| "worker_step api (WValidated i e k s) w =
     (let (r, w') = redis_commit api i e k s w in (WDone i e k r, w'))"
| "worker_step api (WDone i e k r) w = (WDone i e k r, w)"

fun redis_schedule ::
  "'w redis_api \<Rightarrow> nat list \<Rightarrow> redis_worker list \<Rightarrow> 'w \<Rightarrow> redis_worker list \<times> 'w" where
  "redis_schedule api [] ws w = (ws, w)"
| "redis_schedule api (n # ns) ws w =
     (if n < length ws
      then let (wk, w') = worker_step api (ws ! n) w in redis_schedule api ns (ws[n := wk]) w'
      else redis_schedule api ns ws w)"

text \<open>A call of the Redis coordinator that no other worker interleaves with is its three round
  trips in a row.\<close>
theorem redis_schedule_alone:
  "redis_schedule api [0, 0, 0] [WStart i e k] w =
     (let (r, w') = redis_apply_transition api w i e k in ([WDone i e k r], w'))"
  by (auto simp: redis_apply_transition_def split: option.splits sum.splits prod.splits)

fun applied_keys :: "redis_worker list \<Rightarrow> string list" where
  "applied_keys [] = []"
| "applied_keys (WDone i e k r # ws) =
     (if tr_outcome r = kApplied then redis_idem_key i k # applied_keys ws else applied_keys ws)"
| "applied_keys (_ # ws) = applied_keys ws"

lemma applied_keys_append [simp]: "applied_keys (xs @ ys) = applied_keys xs @ applied_keys ys"
  by (induction xs rule: applied_keys.induct) auto

lemma applied_keys_update:
  assumes "n < length ws"
  shows "applied_keys (ws[n := x]) =
    applied_keys (take n ws) @ applied_keys [x] @ applied_keys (drop (Suc n) ws)"
  using assms applied_keys_append [of "take n ws" "[x] @ drop (Suc n) ws"]
    applied_keys_append [of "[x]" "drop (Suc n) ws"]
  by (simp add: upd_conv_take_nth_drop del: applied_keys_append)

lemma applied_keys_split:
  assumes "n < length ws"
  shows "applied_keys ws =
    applied_keys (take n ws) @ applied_keys [ws ! n] @ applied_keys (drop (Suc n) ws)"
  using applied_keys_update [OF assms, of "ws ! n"] by simp

context redis_server begin

lemma script_exists_mono:
  "apply_transition_script api keys args w = (r, w') \<Longrightarrow> rs_exists api w key \<Longrightarrow> rs_exists api w' key"
  by (auto simp: apply_transition_script_def Let_def rs_exists_hset split: if_splits option.splits)

lemma script_applied:
  assumes "apply_transition_script api [sk, ik] args w = (Inr reply, w')" "reply ! 0 = 0"
  shows "\<not> rs_exists api w ik \<and> rs_exists api w' ik"
  using assms
  by (auto simp: apply_transition_script_def Let_def rs_exists_hset lua_reply_def
      split: if_splits option.splits)

lemma commit_applied:
  assumes "redis_commit api i e k s w = (r, w')"
  shows "rs_exists api w key \<Longrightarrow> rs_exists api w' key"
    and "tr_outcome r = kApplied \<Longrightarrow>
      \<not> rs_exists api w (redis_idem_key i k) \<and> rs_exists api w' (redis_idem_key i k)"
  using assms
  by (auto simp: redis_commit_def redis_calls outcome_of_int_def redis_backend_error_def
      split: prod.splits sum.splits if_splits dest: script_exists_mono script_applied)

lemma check_read_not_applied:
  "redis_check api i w = Some r \<Longrightarrow> tr_outcome r \<noteq> kApplied"
  "redis_read api i e w = Inl r \<Longrightarrow> tr_outcome r \<noteq> kApplied"
  by (auto simp: redis_check_def redis_read_def redis_backend_error_def
      split: sum.splits bool.splits if_splits prod.splits)

lemma worker_step_keys:
  assumes "worker_step api wk w = (wk', w')"
  shows "rs_exists api w key \<Longrightarrow> rs_exists api w' key"
    and "applied_keys [wk'] = applied_keys [wk] \<or>
      (\<exists>key. applied_keys [wk'] = [key] \<and> applied_keys [wk] = [] \<and>
        \<not> rs_exists api w key \<and> rs_exists api w' key)"
  using assms check_read_not_applied
  by (cases wk; auto split: option.splits sum.splits prod.splits dest: commit_applied)+

lemma schedule_keys:
  assumes "redis_schedule api ns ws w = (ws', w')" "distinct (applied_keys ws)"
    and "\<forall>key \<in> set (applied_keys ws). rs_exists api w key"
  shows "distinct (applied_keys ws')"
  using assms
proof (induction ns arbitrary: ws w)
  case (Cons n ns)
  show ?case
  proof (cases "n < length ws")
    case True
    obtain wk w1 where st: "worker_step api (ws ! n) w = (wk, w1)"
      by (cases "worker_step api (ws ! n) w")
    note k = worker_step_keys [OF st]
    note sp = applied_keys_split [OF True] applied_keys_update [OF True, of wk]
    have "distinct (applied_keys (ws[n := wk]))"
      using k(2) Cons.prems(2,3) by (auto simp: sp)
    moreover have "\<forall>key \<in> set (applied_keys (ws[n := wk])). rs_exists api w1 key"
      using k Cons.prems(3) by (auto simp: sp)
    ultimately show ?thesis using Cons.IH Cons.prems(1) True st by simp
  next
    case False
    then show ?thesis using Cons.IH [of ws w] Cons.prems by simp
  qed
qed simp

lemmas history = seq.run_history

text \<open>Two workers that both read the state before either commits.\<close>

lemma race:
  assumes h: "redis_holds api w i s n" "0 \<le> n" "n \<le> int (rank s)" and p: "plain_id i"
    and c: "can_apply_event s e1" "can_apply_event s e2" and k: "k1 \<noteq> k2"
    and f: "\<not> rs_exists api w (redis_idem_key i k1)" "\<not> rs_exists api w (redis_idem_key i k2)"
  shows "\<exists>r1 r2 w'. redis_schedule api [0, 1, 0, 1, 0, 1] [WStart i e1 k1, WStart i e2 k2] w =
      ([WDone i e1 k1 r1, WDone i e2 k2 r2], w')
    \<and> tr_outcome r1 = kApplied \<and> tr_after_state r1 = event_target e1
    \<and> tr_outcome r2 = kApplied \<and> tr_before_state r2 = event_target e1
    \<and> tr_after_state r2 = event_target e2 \<and> redis_holds api w' i (event_target e2) (n + 2)"
proof -
  have t: "apply_event s e1 = event_target e1" "apply_event s e2 = event_target e2"
    using c by (simp_all add: can_apply_event_step fsm_step_iff)
  have chk: "redis_check api i w = None"
    using h(1) by (simp add: redis_check_def redis_calls redis_holds_def)
  have rd: "redis_read api i e1 w = Inr (event_target e1)" "redis_read api i e2 w = Inr (event_target e2)"
    using read_holds [OF h] c t by simp_all
  obtain w1 r1 where 1: "redis_commit api i e1 k1 (event_target e1) w = (r1, w1)"
    "tr_outcome r1 = kApplied" "tr_after_state r1 = event_target e1"
    "redis_holds api w1 i (event_target e1) (n + 1)" "\<not> rs_exists api w1 (redis_idem_key i k2)"
    by (rule commit_fresh [OF h(1) f(1) p, of e1 "event_target e1"])
      (use f(2) k p in \<open>auto simp: redis_idem_key_eq_iff\<close>)
  obtain w2 r2 where 2: "redis_commit api i e2 k2 (event_target e2) w1 = (r2, w2)"
    "tr_outcome r2 = kApplied" "tr_before_state r2 = event_target e1"
    "tr_after_state r2 = event_target e2" "redis_holds api w2 i (event_target e2) (n + 2)"
    by (rule commit_fresh [OF 1(4,5) p, of e2 "event_target e2"]) (auto simp: add.assoc)
  show ?thesis using chk rd 1 2 by simp
qed

text \<open>The validity check precedes the receipt check, and no event is valid in the state it leads to.\<close>

lemma replay_refused:
  assumes "redis_inv api w" "plain_id i" "redis_apply_transition api w i e k = (r, w')"
    and "tr_outcome r = kApplied"
  shows "tr_outcome (fst (redis_apply_transition api w' i e k)) = kInvalidTransition"
  using assms(1-3)
proof (cases rule: apply_cases)
  case (applied s n)
  have t: "apply_event s e = event_target e" "\<not> can_apply_event (event_target e) e"
    using applied(4) by (simp add: can_apply_event_step fsm_step_iff)
      (cases e; simp add: can_apply_event_step fsm_step_iff)
  have "n + 1 \<le> int (rank (apply_event s e))"
    using applied(3,4) fsm_step_rank by (fastforce simp: can_apply_event_step)
  from read_holds [OF applied(7) _ this] t applied(2,7) show ?thesis
    by (simp add: redis_apply_transition_def redis_check_def redis_calls redis_holds_def)
qed (use assms(4) in simp)

end

section \<open>Properties\<close>

text \<open>C4. However the round trips of concurrent workers interleave, an idempotency key of the Redis
  coordinator is applied at most once: the script tests and records it atomically.\<close>
theorem redis_applied_once:
  assumes "redis_server api" "applied_keys ws = []" "redis_schedule api ns ws w = (ws', w')"
  shows "distinct (applied_keys ws')"
  using redis_server.schedule_keys [OF assms(1,3)] assms(2) by simp

text \<open>C11. One worker at a time, the Redis coordinator keeps the promise of its interface: the state and
  the index it reports are those of the state machine after the applied events, for interactions whose
  identifiers have no \<open>:\<close>.\<close>
theorem redis_history:
  assumes "redis_server api" "redis_inv api w" "\<forall>i. redis_get_state api w i = None"
    and "\<forall>x \<in> set xs. plain_id (op_id x)"
    and "coord_run (redis_apply_transition api) (redis_create_interaction api) xs w = (l, w')"
    and "plain_id i" "redis_get_state api w' i = Some si"
  shows "fsm_run kDraft (events_of i l) (si_state si)
    \<and> si_transition_index si = int (length (events_of i l))"
  using redis_server.history [OF assms] by blast

text \<open>C5. The race the interface excludes: two workers whose events are both valid in the state they
  read both get \<open>kApplied\<close>, and the second script run overwrites the first one's state without
  validating its event against it.\<close>
theorem redis_race:
  assumes "redis_server api" "redis_holds api w i s n" "0 \<le> n" "n \<le> int (rank s)" "plain_id i"
    and "can_apply_event s e1" "can_apply_event s e2" "k1 \<noteq> k2"
    and "\<not> rs_exists api w (redis_idem_key i k1)" "\<not> rs_exists api w (redis_idem_key i k2)"
  shows "\<exists>r1 r2 w'. redis_schedule api [0, 1, 0, 1, 0, 1] [WStart i e1 k1, WStart i e2 k2] w =
      ([WDone i e1 k1 r1, WDone i e2 k2 r2], w')
    \<and> tr_outcome r1 = kApplied \<and> tr_after_state r1 = event_target e1
    \<and> tr_outcome r2 = kApplied \<and> tr_before_state r2 = event_target e1
    \<and> tr_after_state r2 = event_target e2 \<and> redis_holds api w' i (event_target e2) (n + 2)"
  using redis_server.race [OF assms] .

text \<open>The replay the interface promises: repeating a call that the Redis coordinator has just applied,
  with the same event and key, is answered \<open>kInvalidTransition\<close>, not
  \<open>kAlreadyApplied\<close> as the in-memory coordinator answers.\<close>
theorem redis_replay_refused:
  assumes "redis_server api" "redis_inv api w" "plain_id i"
    and "redis_apply_transition api w i e k = (r, w')" "tr_outcome r = kApplied"
  shows "tr_outcome (fst (redis_apply_transition api w' i e k)) = kInvalidTransition"
  using redis_server.replay_refused [OF assms] .

section \<open>Concrete runs\<close>

definition demo_store :: redis_map where
  "demo_store =
     snd (redis_create_interaction rmap_api Map.empty (InteractionId ''i1'') (ContactId ''c1'')
       (OpportunityId ''o1''))"

lemma empty_inv: "redis_inv rmap_api Map.empty"
  by (simp add: redis_inv_def rmap_api_def)

lemma empty_state: "redis_get_state rmap_api Map.empty i = None"
  by (simp add: redis_get_state_def rmap_api_def)

lemma plain_i1: "plain_id (InteractionId ''i1'')"
  by (simp add: plain_id_def)

lemma demo_store_inv: "redis_inv rmap_api demo_store"
  using rmap.create_inv [OF empty_inv plain_i1] by (simp add: demo_store_def)

lemma empty_exists [simp]: "\<not> rs_exists rmap_api Map.empty k"
  by (simp add: rmap_api_def)

lemma demo_store_holds: "redis_holds rmap_api demo_store (InteractionId ''i1'') kDraft 0"
  by (rule rmap.create_cases [OF plain_i1, of Map.empty "ContactId ''c1''" "OpportunityId ''o1''"])
    (auto simp: demo_store_def)

lemma demo_store_fresh: "\<not> rs_exists rmap_api demo_store (redis_idem_key (InteractionId ''i1'') k)"
  by (rule rmap.create_cases [OF plain_i1, of Map.empty "ContactId ''c1''" "OpportunityId ''o1''"])
    (auto simp: demo_store_def plain_i1)

theorem redis_race_witness:
  "\<exists>r1 r2 w'. redis_schedule rmap_api [0, 1, 0, 1, 0, 1]
      [WStart (InteractionId ''i1'') kClose ''k1'', WStart (InteractionId ''i1'') kPrepare ''k2'']
      demo_store =
      ([WDone (InteractionId ''i1'') kClose ''k1'' r1, WDone (InteractionId ''i1'') kPrepare ''k2'' r2], w')
    \<and> tr_outcome r1 = kApplied \<and> tr_after_state r1 = kClosed
    \<and> tr_outcome r2 = kApplied \<and> tr_before_state r2 = kClosed
    \<and> tr_after_state r2 = kReady \<and> redis_holds rmap_api w' (InteractionId ''i1'') kReady 2"
  using redis_race [OF rmap.redis_server_axioms demo_store_holds _ _ plain_i1, of kClose kPrepare "''k1''" "''k2''"]
  by (simp add: demo_store_fresh can_apply_event_step apply_event_def apply_event_to_def
      can_transition_def temp_interaction_def fsm_step_iff)

lemma demo_store_apply:
  "\<exists>r w'. redis_apply_transition rmap_api demo_store (InteractionId ''i1'') kPrepare ''k1'' = (r, w')
     \<and> tr_outcome r = kApplied"
proof -
  have "can_apply_event kDraft kPrepare"
    by (simp add: can_apply_event_def can_transition_def temp_interaction_def)
  moreover obtain r w' where "redis_commit rmap_api (InteractionId ''i1'') kPrepare ''k1''
      (apply_event kDraft kPrepare) demo_store = (r, w')" "tr_outcome r = kApplied"
    by (rule rmap.commit_fresh [where e = kPrepare and k = "''k1''" and ns = "apply_event kDraft kPrepare",
          OF demo_store_holds demo_store_fresh plain_i1]) auto
  ultimately show ?thesis
    using demo_store_holds rmap.read_holds [OF demo_store_holds, of kPrepare]
    by (simp add: redis_apply_transition_def redis_check_def rmap.redis_calls redis_holds_def)
qed

theorem redis_replay_refused_witness:
  "\<exists>r w'. redis_apply_transition rmap_api demo_store (InteractionId ''i1'') kPrepare ''k1'' = (r, w')
     \<and> tr_outcome r = kApplied
     \<and> tr_outcome (fst (redis_apply_transition rmap_api w' (InteractionId ''i1'') kPrepare ''k1'')) =
         kInvalidTransition"
  using demo_store_apply redis_replay_refused [OF rmap.redis_server_axioms demo_store_inv plain_i1] by blast

theorem redis_applied_once_witness:
  "distinct (applied_keys (fst (redis_schedule rmap_api [0, 1, 0, 1, 0, 1]
      [WStart (InteractionId ''i1'') kClose ''k1'', WStart (InteractionId ''i1'') kPrepare ''k1'']
      demo_store)))"
  by (rule redis_applied_once [OF rmap.redis_server_axioms _ prod.collapse [symmetric]]) simp

theorem redis_history_witness:
  "\<exists>l w' si. coord_run (redis_apply_transition rmap_api) (redis_create_interaction rmap_api)
       [OpCreate (InteractionId ''i1'') (ContactId ''c1'') (OpportunityId ''o1'')] Map.empty = (l, w')
     \<and> redis_get_state rmap_api w' (InteractionId ''i1'') = Some si
     \<and> fsm_run kDraft (events_of (InteractionId ''i1'') l) (si_state si)
     \<and> si_transition_index si = int (length (events_of (InteractionId ''i1'') l))"
proof -
  have r: "coord_run (redis_apply_transition rmap_api) (redis_create_interaction rmap_api)
       [OpCreate (InteractionId ''i1'') (ContactId ''c1'') (OpportunityId ''o1'')] Map.empty =
       ([], demo_store)"
    by (simp add: demo_store_def)
  have g: "redis_get_state rmap_api demo_store (InteractionId ''i1'') =
      Some \<lparr>si_state = kDraft, si_transition_index = 0\<rparr>"
    using rmap.get_state_holds [OF demo_store_holds] by simp
  have "\<forall>x \<in> set [OpCreate (InteractionId ''i1'') (ContactId ''c1'') (OpportunityId ''o1'')].
      plain_id (op_id x)" by (simp add: plain_i1)
  from redis_history [OF rmap.redis_server_axioms empty_inv _ this r plain_i1 g] empty_state r g
  show ?thesis by blast
qed

end
