(* ===== verification/Binary64.thy ===== *)
theory Binary64
  imports Complex_Main "HOL-Library.Log_Nat"
begin

text \<open>
  The \<open>double\<close> arithmetic of the matcher and the embeddings: a finite double is the rational it
  denotes, and an operation is the exact result rounded to nearest, ties to even, at 53 bits of
  precision, with gradual underflow at \<open>2 ^ -1074\<close>. Overflow, infinities and NaN are outside the
  model: the program divides counts and averages of numbers between 0 and 1, and the lemmas show those
  stay there. Rounding is monotone and exact on the integers up to \<open>2 ^ 53\<close>.
\<close>

type_synonym double = rat

text \<open>The integer part of the binary logarithm of a positive rational.\<close>

definition ilog2 :: "rat \<Rightarrow> int" where
  "ilog2 x =
     (let (p, q) = quotient_of x; k = int (floorlog 2 (nat p)) - int (floorlog 2 (nat q))
      in if 2 powi k \<le> x then k else k - 1)"

definition round_half_even :: "rat \<Rightarrow> int" where
  "round_half_even r =
     (let f = \<lfloor>r\<rfloor>; d = r - of_int f
      in if d < 1 / 2 then f else if 1 / 2 < d then f + 1 else if even f then f else f + 1)"

text \<open>The exponent of the last place of the result.\<close>

definition ulp_exp :: "rat \<Rightarrow> int" where
  "ulp_exp x = max (ilog2 \<bar>x\<bar> - 52) (- 1074)"

definition rnd :: "rat \<Rightarrow> double" where
  "rnd x =
     (if x = 0 then 0 else of_int (round_half_even (x / 2 powi ulp_exp x)) * 2 powi ulp_exp x)"

definition double_of_nat :: "nat \<Rightarrow> double" where
  "double_of_nat n = rnd (of_nat n)"

definition double_add :: "double \<Rightarrow> double \<Rightarrow> double" where
  "double_add x y = rnd (x + y)"

definition double_mul :: "double \<Rightarrow> double \<Rightarrow> double" where
  "double_mul x y = rnd (x * y)"

definition double_div :: "double \<Rightarrow> double \<Rightarrow> double" where
  "double_div x y = rnd (x / y)"

section \<open>The logarithm\<close>

lemma powi_rat_pos [simp]: "(0 :: rat) < 2 powi k"
  by (simp add: zero_less_power_int)

lemma powi_rat_mono: "j \<le> k \<Longrightarrow> (2 :: rat) powi j \<le> 2 powi k"
  by (simp add: power_int_increasing)

lemma powi_rat_less_iff: "(2 :: rat) powi j < 2 powi k \<longleftrightarrow> j < k"
  using power_int_strict_increasing [of j k "2 :: rat"] powi_rat_mono [of k j] by (meson not_le one_less_numeral_iff semiring_norm(76))

lemma floorlog_powi:
  assumes "0 < p"
  shows "(2 :: rat) powi (int (floorlog 2 (nat p)) - 1) \<le> of_int p"
    and "of_int p < (2 :: rat) powi int (floorlog 2 (nat p))"
proof -
  have b: "2 ^ (floorlog 2 (nat p) - 1) \<le> nat p" "nat p < 2 ^ floorlog 2 (nat p)"
    using floorlog_bounds [of "nat p" 2] assms by auto
  have "0 < floorlog 2 (nat p)" using assms by (simp add: floorlog_def)
  then have e: "int (floorlog 2 (nat p)) - 1 = int (floorlog 2 (nat p) - 1)" by simp
  have c: "(of_int p :: rat) = of_nat (nat p)" using assms by simp
  show "(2 :: rat) powi (int (floorlog 2 (nat p)) - 1) \<le> of_int p"
    unfolding e power_int_of_nat c using b(1) by (metis of_nat_le_iff of_nat_numeral of_nat_power)
  show "of_int p < (2 :: rat) powi int (floorlog 2 (nat p))"
    unfolding power_int_of_nat c using b(2) by (metis of_nat_less_iff of_nat_numeral of_nat_power)
qed

lemma ilog2_bounds:
  assumes "0 < x"
  shows "2 powi ilog2 x \<le> x" and "x < 2 powi (ilog2 x + 1)"
proof -
  obtain p q where pq: "quotient_of x = (p, q)" by (cases "quotient_of x")
  have q: "0 < q" using quotient_of_denom_pos [OF pq] .
  have x: "x = of_int p / of_int q" using quotient_of_div [OF pq] .
  have p: "0 < p" using assms q unfolding x by (simp add: zero_less_divide_iff)
  define i j where "i = int (floorlog 2 (nat p))" and "j = int (floorlog 2 (nat q))"
  note bp = floorlog_powi [OF p, folded i_def] and bq = floorlog_powi [OF q, folded j_def]
  have low: "2 powi (i - j - 1) \<le> x"
  proof -
    have "2 powi (i - j - 1) * of_int q \<le> (2 :: rat) powi (i - j - 1) * 2 powi j"
      using bq(2) by (intro mult_left_mono) auto
    also have "\<dots> = 2 powi (i - 1)" by (simp flip: power_int_add)
    also have "\<dots> \<le> of_int p" using bp(1) .
    finally show ?thesis using q unfolding x by (simp add: pos_le_divide_eq)
  qed
  have up: "x < 2 powi (i - j + 1)"
  proof -
    have "of_int p < (2 :: rat) powi (i - j + 1) * 2 powi (j - 1)"
      using bp(2) by (simp flip: power_int_add)
    also have "\<dots> \<le> 2 powi (i - j + 1) * of_int q"
      using bq(1) by (intro mult_left_mono) auto
    finally show ?thesis using q unfolding x by (simp add: pos_divide_less_eq)
  qed
  have "ilog2 x = (if 2 powi (i - j) \<le> x then i - j else i - j - 1)"
    by (simp add: ilog2_def pq i_def j_def)
  then show "2 powi ilog2 x \<le> x" and "x < 2 powi (ilog2 x + 1)"
    using low up by auto
qed

lemma ilog2_unique: "0 < x \<Longrightarrow> 2 powi k \<le> x \<Longrightarrow> x < 2 powi (k + 1) \<Longrightarrow> ilog2 x = k"
  using ilog2_bounds [of x] powi_rat_less_iff [of k "ilog2 x + 1"] powi_rat_less_iff [of "ilog2 x" "k + 1"]
  by (meson antisym le_less_trans zle_add1_eq_le)

lemma ilog2_mono: "0 < x \<Longrightarrow> x \<le> y \<Longrightarrow> ilog2 x \<le> ilog2 y"
  using ilog2_bounds [of x] ilog2_bounds [of y] powi_rat_less_iff [of "ilog2 x" "ilog2 y + 1"]
  by fastforce

section \<open>Rounding\<close>

lemma round_half_even_of_int [simp]: "round_half_even (of_int n) = n"
  by (simp add: round_half_even_def)

lemma round_half_even_bounds: "\<lfloor>r\<rfloor> \<le> round_half_even r \<and> round_half_even r \<le> \<lfloor>r\<rfloor> + 1"
  by (simp add: round_half_even_def Let_def)

lemma round_half_even_mono:
  assumes "r \<le> s" shows "round_half_even r \<le> round_half_even s"
proof (cases "\<lfloor>r\<rfloor> = \<lfloor>s\<rfloor>")
  case True
  then show ?thesis using assms by (auto simp: round_half_even_def Let_def)
next
  case False
  then have "\<lfloor>r\<rfloor> + 1 \<le> \<lfloor>s\<rfloor>" using floor_mono [OF assms] by simp
  then show ?thesis using round_half_even_bounds [of r] round_half_even_bounds [of s] by simp
qed

lemma round_half_even_ge: "of_int n \<le> r \<Longrightarrow> n \<le> round_half_even r"
  using round_half_even_mono [of "of_int n" r] by simp

lemma round_half_even_le: "r \<le> of_int n \<Longrightarrow> round_half_even r \<le> n"
  using round_half_even_mono [of r "of_int n"] by simp

text \<open>The numbers a double represents exactly, in the range the model covers.\<close>

definition representable :: "rat \<Rightarrow> bool" where
  "representable x \<longleftrightarrow> (\<exists>m. x = of_int m * 2 powi ulp_exp x)"

lemma rnd_0 [simp]: "rnd 0 = 0"
  by (simp add: rnd_def)

lemma rnd_representable: "representable x \<Longrightarrow> rnd x = x"
  by (auto simp: representable_def rnd_def)
    (metis nonzero_mult_div_cancel_right powi_rat_pos less_irrefl round_half_even_of_int)

lemma representable_powi: "- 1074 \<le> k \<Longrightarrow> representable (2 powi k)"
proof -
  assume k: "- 1074 \<le> k"
  have "ilog2 (2 powi k) = k" by (rule ilog2_unique) (simp_all add: powi_rat_less_iff)
  then have e: "ulp_exp (2 powi k) = max (k - 52) (- 1074)" by (simp add: ulp_exp_def)
  define d where "d = nat (k - max (k - 52) (- 1074))"
  have "(2 :: rat) powi k = of_int (2 ^ d) * 2 powi max (k - 52) (- 1074)"
  proof -
    have "(2 :: rat) powi k = 2 powi int d * 2 powi max (k - 52) (- 1074)"
      using k by (simp add: d_def flip: power_int_add)
    then show ?thesis by (simp add: power_int_of_nat)
  qed
  then show ?thesis unfolding representable_def e by blast
qed

lemma representable_of_int: "0 < n \<Longrightarrow> n < 2 ^ 53 \<Longrightarrow> representable (of_int n)"
proof -
  assume n: "0 < n" "n < 2 ^ 53"
  have "(of_int n :: rat) < 2 powi 53" using n(2) by (simp add: power_int_def)
  then have "ilog2 (of_int n) < 53"
    using ilog2_bounds(1) [of "of_int n"] n(1) powi_rat_less_iff [of "ilog2 (of_int n)" 53]
    by simp
  then have e: "ulp_exp (of_int n) \<le> 0" using n(1) by (simp add: ulp_exp_def)
  define d where "d = nat (- ulp_exp (of_int n))"
  have "(2 :: rat) powi int d * 2 powi ulp_exp (of_int n) = 1"
    using e by (simp add: d_def flip: power_int_add)
  then have "(of_int n :: rat) = of_int (n * 2 ^ d) * 2 powi ulp_exp (of_int n)"
    by (simp add: power_int_of_nat mult.assoc)
  then show ?thesis unfolding representable_def by blast
qed

lemma rnd_of_nat [simp]: "n < 2 ^ 53 \<Longrightarrow> rnd (of_nat n) = of_nat n"
proof (cases "n = 0")
  case False
  assume "n < 2 ^ 53"
  then have "int n < 2 ^ 53" by (metis of_nat_less_iff of_nat_numeral of_nat_power)
  with False show ?thesis using rnd_representable [OF representable_of_int [of "int n"]] by simp
qed simp

lemma rnd_1 [simp]: "rnd 1 = 1"
  using rnd_of_nat [of 1] by simp

lemma rnd_nonneg: "0 \<le> x \<Longrightarrow> 0 \<le> rnd x"
  using round_half_even_ge [of 0 "x / 2 powi ulp_exp x"]
  by (auto simp: rnd_def less_imp_le intro!: mult_nonneg_nonneg divide_nonneg_nonneg)

lemma rnd_le_next_power:
  assumes "0 < x" shows "rnd x \<le> 2 powi max (ilog2 x + 1) (- 1074)"
proof -
  define e where "e = ulp_exp x"
  have e: "e \<le> max (ilog2 x + 1) (- 1074)" using assms by (simp add: e_def ulp_exp_def)
  define d where "d = nat (max (ilog2 x + 1) (- 1074) - e)"
  have p: "(2 :: rat) powi max (ilog2 x + 1) (- 1074) = of_int (2 ^ d) * 2 powi e"
  proof -
    have "(2 :: rat) powi int d * 2 powi e = 2 powi max (ilog2 x + 1) (- 1074)"
      using e by (simp add: d_def flip: power_int_add)
    then show ?thesis by (simp add: power_int_of_nat)
  qed
  have "x \<le> 2 powi max (ilog2 x + 1) (- 1074)"
    using ilog2_bounds(2) [OF assms] powi_rat_mono [of "ilog2 x + 1" "max (ilog2 x + 1) (- 1074)"] by simp
  then have "x / 2 powi e \<le> of_int (2 ^ d)" unfolding p by (simp add: divide_le_eq)
  then have "round_half_even (x / 2 powi e) \<le> 2 ^ d" by (rule round_half_even_le)
  then have "of_int (round_half_even (x / 2 powi e)) * 2 powi e \<le> (of_int (2 ^ d) :: rat) * 2 powi e"
    by (intro mult_right_mono) (simp_all only: of_int_le_iff, simp)
  then show ?thesis using assms by (simp add: rnd_def p flip: e_def)
qed

lemma rnd_ge_power:
  assumes "2 powi k \<le> y" "- 1074 \<le> k" shows "2 powi k \<le> rnd y"
proof -
  have y: "0 < y" using assms(1) less_le_trans [OF powi_rat_pos] by blast
  define e where "e = ulp_exp y"
  show ?thesis
  proof (cases "e \<le> k")
    case True
    define d where "d = nat (k - e)"
    have p: "(2 :: rat) powi k = of_int (2 ^ d) * 2 powi e"
    proof -
      have "(2 :: rat) powi int d * 2 powi e = 2 powi k"
        using True by (simp add: d_def flip: power_int_add)
      then show ?thesis by (simp add: power_int_of_nat)
    qed
    have "of_int (2 ^ d) \<le> y / 2 powi e" using assms(1) unfolding p by (simp add: le_divide_eq)
    then have "2 ^ d \<le> round_half_even (y / 2 powi e)" by (rule round_half_even_ge)
    then have "(of_int (2 ^ d) :: rat) * 2 powi e \<le> of_int (round_half_even (y / 2 powi e)) * 2 powi e"
      by (intro mult_right_mono) (simp_all only: of_int_le_iff, simp)
    then show ?thesis using y by (simp add: rnd_def p flip: e_def)
  next
    case False
    have "e \<le> ilog2 y"
      using False assms(2) y by (simp add: e_def ulp_exp_def)
    then have "2 powi e \<le> y" using ilog2_bounds(1) [OF y] powi_rat_mono by (meson order_trans)
    then have "of_int 1 \<le> y / 2 powi e" by (simp add: le_divide_eq)
    then have "1 \<le> round_half_even (y / 2 powi e)" by (rule round_half_even_ge)
    then have "1 \<le> (of_int (round_half_even (y / 2 powi e)) :: rat)" by simp
    then have "1 * 2 powi e \<le> of_int (round_half_even (y / 2 powi e)) * (2 powi e :: rat)"
      by (intro mult_right_mono) (simp_all add: less_imp_le)
    moreover have "(2 :: rat) powi k \<le> 2 powi e" using False by (intro powi_rat_mono) simp
    ultimately have "2 powi k \<le> of_int (round_half_even (y / 2 powi e)) * (2 powi e :: rat)"
      by (simp only: mult_1)
    then show ?thesis using y by (simp add: rnd_def flip: e_def)
  qed
qed

lemma rnd_mono:
  assumes "0 \<le> x" "x \<le> y" shows "rnd x \<le> rnd y"
proof (cases "x = 0")
  case True
  then show ?thesis using rnd_nonneg [of y] assms by simp
next
  case False
  then have x: "0 < x" and y: "0 < y" using assms by auto
  show ?thesis
  proof (cases "ulp_exp x = ulp_exp y")
    case True
    have "x / 2 powi ulp_exp y \<le> y / 2 powi ulp_exp y"
      using assms(2) by (intro divide_right_mono) (auto simp: less_imp_le)
    from round_half_even_mono [OF this] show ?thesis
      using x y by (auto simp: rnd_def True intro!: mult_right_mono)
  next
    case False
    with ilog2_mono [OF x assms(2)] x y have l: "ilog2 x + 1 \<le> ilog2 y" "- 1074 \<le> ilog2 y"
      by (auto simp: ulp_exp_def)
    have "rnd x \<le> 2 powi max (ilog2 x + 1) (- 1074)" by (rule rnd_le_next_power [OF x])
    also have "\<dots> \<le> 2 powi ilog2 y" using l by (intro powi_rat_mono) simp
    also have "\<dots> \<le> rnd y" using ilog2_bounds(1) [OF y] l(2) by (rule rnd_ge_power)
    finally show ?thesis .
  qed
qed

section \<open>Quotients of counts\<close>

lemma rnd_le_of_nat: "0 \<le> x \<Longrightarrow> x \<le> of_nat n \<Longrightarrow> n < 2 ^ 53 \<Longrightarrow> rnd x \<le> of_nat n"
  using rnd_mono [of x "of_nat n"] by simp

lemma rnd_le_1: "0 \<le> x \<Longrightarrow> x \<le> 1 \<Longrightarrow> rnd x \<le> 1"
  using rnd_le_of_nat [of x 1] by simp

lemma rnd_pos:
  assumes "2 powi (- 1074) \<le> x" shows "0 < rnd x"
  using rnd_ge_power [OF assms] less_le_trans [OF powi_rat_pos] by simp

lemma rnd_less_1:
  assumes "0 \<le> x" "x \<le> 1 - 1 / 2 ^ 53" shows "rnd x < 1"
proof -
  let ?y = "1 - 1 / 2 ^ 53 :: rat"
  have "ilog2 ?y = - 1" by (rule ilog2_unique) (simp_all add: power_int_def)
  then have "ulp_exp ?y = - 53" by (simp add: ulp_exp_def)
  then have "?y = of_int (2 ^ 53 - 1) * 2 powi ulp_exp ?y" by (simp add: power_int_def field_simps)
  then have "representable ?y" unfolding representable_def by blast
  then have "rnd ?y = ?y" by (rule rnd_representable)
  with rnd_mono [OF assms] have "rnd x \<le> ?y" by simp
  also have "\<dots> < 1" by simp
  finally show ?thesis .
qed

text \<open>The overlap score: a quotient of counts below \<open>2 ^ 53\<close>.\<close>

definition count_ratio :: "nat \<Rightarrow> nat \<Rightarrow> double" where
  "count_ratio m n = double_div (double_of_nat m) (double_of_nat n)"

lemma count_ratio_eq: "m < 2 ^ 53 \<Longrightarrow> n < 2 ^ 53 \<Longrightarrow> count_ratio m n = rnd (of_nat m / of_nat n)"
  by (simp add: count_ratio_def double_div_def double_of_nat_def)

lemma count_ratio_bounds:
  assumes "m \<le> n" "n < 2 ^ 53" shows "0 \<le> count_ratio m n \<and> count_ratio m n \<le> 1"
proof -
  have "(of_nat m :: rat) / of_nat n \<le> 1" using assms(1) by (cases "n = 0") auto
  then show ?thesis using assms by (simp add: count_ratio_eq rnd_le_1 rnd_nonneg)
qed

lemma count_ratio_mono:
  "m \<le> m' \<Longrightarrow> m' \<le> n \<Longrightarrow> n < 2 ^ 53 \<Longrightarrow> count_ratio m n \<le> count_ratio m' n"
  by (auto simp: count_ratio_eq intro!: rnd_mono divide_right_mono)

lemma count_ratio_pos_iff:
  assumes "m \<le> n" "n < 2 ^ 53" shows "0 < count_ratio m n \<longleftrightarrow> 0 < m"
proof
  assume m: "0 < m"
  have n: "0 < n" using assms(1) m by simp
  have "(of_nat n :: rat) \<le> 2 ^ 53" using assms(2) by (metis less_imp_le of_nat_le_iff of_nat_numeral of_nat_power)
  have "(2 :: rat) powi (- 1074) \<le> 2 powi (- 53)" by (rule powi_rat_mono) simp
  also have "\<dots> = 1 / 2 ^ 53" by (simp add: power_int_def power_one_over)
  also have "\<dots> \<le> 1 / of_nat n"
    using n \<open>of_nat n \<le> 2 ^ 53\<close> by (intro divide_left_mono) auto
  also have "\<dots> \<le> of_nat m / of_nat n"
    using m n by (intro divide_right_mono) auto
  finally show "0 < count_ratio m n" using assms by (simp add: count_ratio_eq rnd_pos)
qed (use assms in \<open>cases "m = 0", auto simp: count_ratio_eq\<close>)

lemma count_ratio_1_iff:
  assumes "m \<le> n" "0 < n" "n < 2 ^ 53" shows "count_ratio m n = 1 \<longleftrightarrow> m = n"
proof
  assume e: "count_ratio m n = 1"
  show "m = n"
  proof (rule ccontr)
    assume "m \<noteq> n"
    then have "m + 1 \<le> n" using assms(1) by simp
    then have "(of_nat m :: rat) \<le> of_nat n - 1" by (metis le_diff_eq of_nat_1 of_nat_add of_nat_le_iff)
    then have "(of_nat m :: rat) / of_nat n \<le> (of_nat n - 1) / of_nat n"
      by (intro divide_right_mono) auto
    also have "\<dots> = 1 - 1 / of_nat n" using assms(2) by (simp add: field_simps)
    also have "\<dots> \<le> 1 - 1 / 2 ^ 53"
    proof -
      have "(of_nat n :: rat) \<le> 2 ^ 53" using assms(3) by (metis less_imp_le of_nat_le_iff of_nat_numeral of_nat_power)
      then have "1 / 2 ^ 53 \<le> (1 :: rat) / of_nat n" using assms(2) by (intro divide_left_mono) auto
      then show ?thesis by simp
    qed
    finally have "rnd (of_nat m / of_nat n) < 1" by (intro rnd_less_1) auto
    then show False using e assms by (simp add: count_ratio_eq)
  qed
qed (use assms in \<open>simp add: count_ratio_eq\<close>)

end
