(* ===== verification/Artifacts.thy ===== *)
theory Artifacts
  imports Domain_Model Binary64
begin

text \<open>
  The two artifacts the constitution validates: the match report
  (\<open>include/ccmcp/domain/match_report.h\<close>) and the resume token representation
  (\<open>resume_token_ir.h/.cpp\<close>). A \<open>std::map\<close> from categories to tokens is its list of
  entries in key order.
\<close>

section \<open>Match reports\<close>

record score_breakdown =
  sb_lexical :: double
  sb_semantic :: double
  sb_bonus :: double
  sb_final_score :: double

record retrieval_stats =
  lexical_candidates :: nat
  embedding_candidates :: nat
  merged_candidates :: nat

record requirement_match =
  rm_requirement_text :: string
  rm_matched :: bool
  rm_best_score :: double
  rm_contributing_atom_id :: "atom_id option"
  rm_evidence_tokens :: "string list"

record match_report =
  mr_opportunity_id :: opportunity_id
  mr_strategy :: string
  mr_overall_score :: double
  mr_requirement_matches :: "requirement_match list"
  mr_missing_requirements :: "string list"
  mr_retrieval_stats :: retrieval_stats
  mr_matched_atoms :: "atom_id list"
  mr_breakdown :: score_breakdown

section \<open>Resume tokens\<close>

datatype tokenizer_type = kDeterministicLexical | kInferenceAssisted

record tokenizer_metadata =
  tm_type :: tokenizer_type
  tm_model_id :: "string option"
  tm_prompt_version :: "string option"

record token_span =
  span_token :: string
  span_start_line :: "32 word"
  span_end_line :: "32 word"

record resume_token_ir =
  ir_schema_version :: string
  ir_source_hash :: string
  ir_tokenizer :: tokenizer_metadata
  ir_tokens :: "(string \<times> string list) list"
  ir_spans :: "token_span list"

fun tokenizer_type_to_string :: "tokenizer_type \<Rightarrow> string" where
  "tokenizer_type_to_string kDeterministicLexical = ''deterministic-lexical''"
| "tokenizer_type_to_string kInferenceAssisted = ''inference-assisted''"

definition string_to_tokenizer_type :: "string \<Rightarrow> tokenizer_type option" where
  "string_to_tokenizer_type str =
     (if str = ''deterministic-lexical'' then Some kDeterministicLexical
      else if str = ''inference-assisted'' then Some kInferenceAssisted else None)"

lemma tokenizer_type_roundtrip [simp]:
  "string_to_tokenizer_type (tokenizer_type_to_string t) = Some t"
  by (cases t) (simp_all add: string_to_tokenizer_type_def)

lemma string_to_tokenizer_type_Some_iff:
  "string_to_tokenizer_type s = Some t \<longleftrightarrow> s = tokenizer_type_to_string t"
  by (cases t) (auto simp: string_to_tokenizer_type_def)

end
