(* ===== verification/Std_Sort.thy ===== *)
theory Std_Sort
  imports Ccmcp_Prelude "HOL-Library.Multiset"
begin

text \<open>
  \<open>std::sort\<close> with a comparison function. The standard fixes the result up to the order of
  equivalent elements; the model takes the stable one. The comparison must be a strict weak ordering,
  the interface \<open>comparison\<close> below, or the behaviour is undefined. Where no two different
  elements are equivalent, every implementation returns the model's list (\<open>sort_unique\<close>).
\<close>

fun std_insert :: "('a \<Rightarrow> 'a \<Rightarrow> bool) \<Rightarrow> 'a \<Rightarrow> 'a list \<Rightarrow> 'a list" where
  "std_insert lt x [] = [x]"
| "std_insert lt x (y # ys) = (if lt y x then y # std_insert lt x ys else x # y # ys)"

fun std_sort :: "('a \<Rightarrow> 'a \<Rightarrow> bool) \<Rightarrow> 'a list \<Rightarrow> 'a list" where
  "std_sort lt [] = []"
| "std_sort lt (x # xs) = std_insert lt x (std_sort lt xs)"

lemma mset_std_insert [simp]: "mset (std_insert lt x xs) = add_mset x (mset xs)"
  by (induction xs) auto

lemma mset_std_sort [simp]: "mset (std_sort lt xs) = mset xs"
  by (induction xs) auto

lemma set_std_sort [simp]: "set (std_sort lt xs) = set xs"
  by (metis mset_std_sort set_mset_mset)

lemma length_std_sort [simp]: "length (std_sort lt xs) = length xs"
  by (metis mset_std_sort size_mset)

lemma std_sort_eq_Nil_iff [simp]: "std_sort lt xs = [] \<longleftrightarrow> xs = []"
  by (metis length_0_conv length_std_sort)

locale comparison =
  fixes lt :: "'a \<Rightarrow> 'a \<Rightarrow> bool"
  assumes irrefl: "\<not> lt a a"
    and trans: "lt a b \<Longrightarrow> lt b c \<Longrightarrow> lt a c"
    and weak: "lt a c \<Longrightarrow> lt a b \<or> lt b c"
begin

lemma not_less_trans: "\<not> lt b a \<Longrightarrow> \<not> lt c b \<Longrightarrow> \<not> lt c a"
  using weak by blast

lemma asym: "lt a b \<Longrightarrow> \<not> lt b a"
  using irrefl trans by blast

lemma sorted_std_insert:
  "sorted_wrt (\<lambda>a b. \<not> lt b a) xs \<Longrightarrow> sorted_wrt (\<lambda>a b. \<not> lt b a) (std_insert lt x xs)"
proof (induction xs)
  case (Cons y ys)
  have s: "set (std_insert lt x ys) = insert x (set ys)"
    by (metis mset_std_insert set_mset_add_mset_insert set_mset_mset)
  show ?case
  proof (cases "lt y x")
    case True
    then show ?thesis using Cons asym s by auto
  next
    case False
    then show ?thesis using Cons.prems not_less_trans by auto
  qed
qed simp

lemma sorted_std_sort: "sorted_wrt (\<lambda>a b. \<not> lt b a) (std_sort lt xs)"
  by (induction xs) (auto intro: sorted_std_insert)

lemma hd_std_sort: "x \<in> set xs \<Longrightarrow> \<not> lt x (hd (std_sort lt xs))"
  using sorted_std_sort [of xs] irrefl
  by (cases "std_sort lt xs") (auto, metis set_ConsD set_std_sort)

text \<open>A comparison that separates the elements leaves no freedom.\<close>

lemma sort_unique:
  assumes "\<And>a b. a \<in> set xs \<Longrightarrow> b \<in> set xs \<Longrightarrow> a \<noteq> b \<Longrightarrow> lt a b \<or> lt b a"
    and "mset ys = mset xs" "sorted_wrt (\<lambda>a b. \<not> lt b a) ys"
  shows "ys = std_sort lt xs"
proof -
  have "ys = zs" if "mset ys = mset zs" "set zs \<subseteq> set xs"
    "sorted_wrt (\<lambda>a b. \<not> lt b a) ys" "sorted_wrt (\<lambda>a b. \<not> lt b a) zs" for ys zs
    using that
  proof (induction ys arbitrary: zs)
    case (Cons y ys)
    then obtain z zs' where zs: "zs = z # zs'" by (cases zs) auto
    have "y \<in> set zs" "z \<in> set (y # ys)"
      using Cons.prems(1) zs by (metis list.set_intros(1) set_mset_mset)+
    then have "y = z"
      using assms(1) Cons.prems(2-4) zs
      by (metis insert_iff list.set(2) sorted_wrt.simps(2) subsetD)
    then show ?case using Cons zs by auto
  qed simp
  from this [OF _ _ assms(3) sorted_std_sort [of xs]] show ?thesis using assms(2) by simp
qed

lemma sort_perm_invariant:
  assumes "\<And>a b. a \<in> set xs \<Longrightarrow> b \<in> set xs \<Longrightarrow> a \<noteq> b \<Longrightarrow> lt a b \<or> lt b a"
    and "mset ys = mset xs"
  shows "std_sort lt ys = std_sort lt xs"
  by (rule sort_unique [where xs = xs, OF assms(1)]) (simp_all add: assms(2) sorted_std_sort)

end

end
