(* ===== verification/Constitution.thy ===== *)
theory Constitution
  imports Artifacts Std_Sort
begin

text \<open>
  The validation rules of \<open>src/constitution/rules\<close>: SCHEMA-001, EVID-001 and SCORE-001 on
  match reports, TOK-001 to TOK-005 on resume tokens. A rule maps an envelope to its findings. The
  lemmas state, for each rule, exactly when it finds nothing.
\<close>

section \<open>Findings and envelopes\<close>

datatype finding_severity = kPass | kWarn | kFail | kBlock

fun severity_level :: "finding_severity \<Rightarrow> nat" where
  "severity_level kPass = 0"
| "severity_level kWarn = 1"
| "severity_level kFail = 2"
| "severity_level kBlock = 3"

lemma severity_level_inj [simp]: "severity_level a = severity_level b \<longleftrightarrow> a = b"
  by (cases a; cases b) simp_all

instantiation finding_severity :: linorder
begin
definition less_eq_finding_severity :: "finding_severity \<Rightarrow> finding_severity \<Rightarrow> bool" where
  "a \<le> b \<longleftrightarrow> severity_level a \<le> severity_level b"
definition less_finding_severity :: "finding_severity \<Rightarrow> finding_severity \<Rightarrow> bool" where
  "a < b \<longleftrightarrow> severity_level a < severity_level b"
instance
  by standard (auto simp: less_eq_finding_severity_def less_finding_severity_def)
end

lemmas severity_order = less_eq_finding_severity_def less_finding_severity_def

record finding =
  fd_rule_id :: string
  fd_severity :: finding_severity
  fd_message :: string
  fd_evidence_refs :: "string list"

definition make_finding :: "string \<Rightarrow> finding_severity \<Rightarrow> string \<Rightarrow> finding" where
  "make_finding rule severity message =
     \<lparr>fd_rule_id = rule, fd_severity = severity, fd_message = message, fd_evidence_refs = []\<rparr>"

datatype artifact_type = kUnknown | kMatchReport | kResumeTokenIR

text \<open>
  The view classes of the source, and \<open>ForeignView\<close> for any other class derived from
  \<open>ArtifactView\<close>: it names a type but fails the downcasts.
\<close>

datatype artifact_view =
  MatchReportView match_report
| TokenIRArtifactView resume_token_ir string string
| ForeignView artifact_type

fun view_type :: "artifact_view \<Rightarrow> artifact_type" where
  "view_type (MatchReportView report) = kMatchReport"
| "view_type (TokenIRArtifactView ir hash canonical) = kResumeTokenIR"
| "view_type (ForeignView t) = t"

record artifact_envelope =
  env_artifact_id :: string
  env_content :: string
  env_source_refs :: "string list"
  env_artifact :: "artifact_view option"

definition envelope_artifact_type :: "artifact_envelope \<Rightarrow> artifact_type" where
  "envelope_artifact_type envelope =
     (case env_artifact envelope of Some v \<Rightarrow> view_type v | None \<Rightarrow> kUnknown)"

record validation_context =
  ctx_constitution_id :: string
  ctx_constitution_version :: string
  ctx_ground_truth_refs :: "string list"
  ctx_trace_id :: string

type_synonym rule_fn = "artifact_envelope \<Rightarrow> validation_context \<Rightarrow> finding list"

section \<open>SCHEMA-001\<close>

text \<open>\<open>has_contributing_atom\<close>: an identifier is present and non-empty.\<close>

definition has_contributing_atom :: "requirement_match \<Rightarrow> bool" where
  "has_contributing_atom rm =
     (case rm_contributing_atom_id rm of None \<Rightarrow> False | Some a \<Rightarrow> atom_id_value a \<noteq> [])"

definition schema_001_match :: "nat \<Rightarrow> requirement_match \<Rightarrow> finding list" where
  "schema_001_match i rm =
     (if rm_requirement_text rm = []
      then [make_finding ''SCHEMA-001'' kBlock
              (''RequirementMatch['' @ to_string_nat i @ ''] has empty requirement_text'')] else []) @
     (if rm_best_score rm < 0
      then [make_finding ''SCHEMA-001'' kBlock
              (''RequirementMatch['' @ to_string_nat i @ ''] has negative best_score'')] else []) @
     (if rm_matched rm \<and> \<not> has_contributing_atom rm
      then [make_finding ''SCHEMA-001'' kBlock
              (''RequirementMatch['' @ to_string_nat i @
               ''] is matched=true but missing contributing_atom_id'')]
      else if \<not> rm_matched rm \<and> has_contributing_atom rm
      then [make_finding ''SCHEMA-001'' kBlock
              (''RequirementMatch['' @ to_string_nat i @
               ''] is matched=false but has contributing_atom_id'')]
      else [])"

fun schema_001_matches :: "nat \<Rightarrow> requirement_match list \<Rightarrow> finding list" where
  "schema_001_matches i [] = []"
| "schema_001_matches i (rm # rms) = schema_001_match i rm @ schema_001_matches (i + 1) rms"

definition schema_001 :: rule_fn where
  "schema_001 envelope context =
     (case env_artifact envelope of
        None \<Rightarrow> [make_finding ''SCHEMA-001'' kBlock ''Missing artifact view'']
      | Some v \<Rightarrow>
          if envelope_artifact_type envelope \<noteq> kMatchReport
          then [make_finding ''SCHEMA-001'' kBlock ''Invalid artifact type (expected MatchReport)'']
          else (case v of
                  MatchReportView report \<Rightarrow>
                    (if mr_overall_score report < 0
                     then [make_finding ''SCHEMA-001'' kBlock ''overall_score is negative''] else []) @
                    schema_001_matches 0 (mr_requirement_matches report)
                | _ \<Rightarrow> [make_finding ''SCHEMA-001'' kBlock
                          ''Failed to cast artifact to MatchReportView'']))"

section \<open>EVID-001\<close>

definition evid_001_match :: "requirement_match \<Rightarrow> finding list" where
  "evid_001_match rm =
     (if \<not> rm_matched rm then []
      else
        (if \<not> has_contributing_atom rm
         then [make_finding ''EVID-001'' kFail
                 (''Matched requirement '' @ squote @ rm_requirement_text rm @ squote @
                  '' missing contributing_atom_id'')] else []) @
        (if rm_evidence_tokens rm = []
         then [make_finding ''EVID-001'' kFail
                 (''Matched requirement '' @ squote @ rm_requirement_text rm @ squote @
                  '' has no evidence_tokens'')] else []))"

text \<open>The rules that leave a missing or foreign artifact to SCHEMA-001.\<close>

definition on_match_report :: "artifact_envelope \<Rightarrow> (match_report \<Rightarrow> finding list) \<Rightarrow> finding list" where
  "on_match_report envelope f =
     (if env_artifact envelope = None \<or> envelope_artifact_type envelope \<noteq> kMatchReport then []
      else (case env_artifact envelope of Some (MatchReportView report) \<Rightarrow> f report | _ \<Rightarrow> []))"

definition evid_001 :: rule_fn where
  "evid_001 envelope context =
     on_match_report envelope (\<lambda>report. concat (map evid_001_match (mr_requirement_matches report)))"

section \<open>SCORE-001\<close>

definition score_001 :: rule_fn where
  "score_001 envelope context =
     on_match_report envelope (\<lambda>report.
       if mr_overall_score report = 0 \<and> mr_requirement_matches report \<noteq> []
       then [make_finding ''SCORE-001'' kWarn ''All requirement scores are zero.''] else [])"

section \<open>TOK-001 to TOK-005\<close>

text \<open>The common prologue: a missing, mistyped or foreign artifact is one finding of the rule.\<close>

definition on_token_ir ::
  "string \<Rightarrow> finding_severity \<Rightarrow> artifact_envelope
     \<Rightarrow> (resume_token_ir \<Rightarrow> string \<Rightarrow> string \<Rightarrow> finding list) \<Rightarrow> finding list" where
  "on_token_ir rule severity envelope f =
     (case env_artifact envelope of
        None \<Rightarrow> [make_finding rule severity ''Missing artifact view'']
      | Some v \<Rightarrow>
          if envelope_artifact_type envelope \<noteq> kResumeTokenIR
          then [make_finding rule severity ''Invalid artifact type (expected ResumeTokenIR)'']
          else (case v of
                  TokenIRArtifactView ir hash canonical \<Rightarrow> f ir hash canonical
                | _ \<Rightarrow> [make_finding rule severity
                          ''Failed to cast artifact to TokenIRArtifactView'']))"

definition tok_001 :: rule_fn where
  "tok_001 envelope context =
     on_token_ir ''TOK-001'' kBlock envelope (\<lambda>ir canonical_hash canonical_text.
       if ir_source_hash ir \<noteq> canonical_hash
       then [make_finding ''TOK-001'' kBlock
               ''Token IR source_hash does not match canonical resume hash''] else [])"

definition tok_002_token :: "string \<Rightarrow> string \<Rightarrow> finding list" where
  "tok_002_token category token =
     (if length token < 2
      then [make_finding ''TOK-002'' kFail
              (''Token '' @ squote @ token @ squote @ '' in category '' @ squote @ category @ squote @
               '' has length < '' @ to_string_nat 2)]
      else if \<not> list_all is_lower_alnum token
      then [make_finding ''TOK-002'' kFail
              (''Token '' @ squote @ token @ squote @ '' in category '' @ squote @ category @ squote @
               '' contains non-lowercase-ASCII-alphanumeric characters'')]
      else [])"

definition tok_002 :: rule_fn where
  "tok_002 envelope context =
     on_token_ir ''TOK-002'' kFail envelope (\<lambda>ir canonical_hash canonical_text.
       concat (map (\<lambda>(category, token_list). concat (map (tok_002_token category) token_list))
         (ir_tokens ir)))"

definition tok_003_span :: "nat \<Rightarrow> nat \<Rightarrow> token_span \<Rightarrow> finding list" where
  "tok_003_span max_line i sp =
     (let name = ''Span['' @ to_string_nat i @ '']'';
          start_line = unat (span_start_line sp); end_line = unat (span_end_line sp)
      in (if start_line < 1
          then [make_finding ''TOK-003'' kFail
                  (name @ '' has start_line < 1 ('' @ to_string_nat start_line @ '')'')] else []) @
         (if end_line < 1
          then [make_finding ''TOK-003'' kFail
                  (name @ '' has end_line < 1 ('' @ to_string_nat end_line @ '')'')] else []) @
         (if end_line < start_line
          then [make_finding ''TOK-003'' kFail
                  (name @ '' has start_line ('' @ to_string_nat start_line @ '') > end_line ('' @
                   to_string_nat end_line @ '')'')] else []) @
         (if 0 < max_line
          then if max_line < end_line
               then [make_finding ''TOK-003'' kFail
                       (name @ '' has end_line ('' @ to_string_nat end_line @
                        '') > canonical resume line count ('' @ to_string_nat max_line @ '')'')]
               else []
          else []))"

fun tok_003_spans :: "nat \<Rightarrow> nat \<Rightarrow> token_span list \<Rightarrow> finding list" where
  "tok_003_spans max_line i [] = []"
| "tok_003_spans max_line i (sp # spans) =
     tok_003_span max_line i sp @ tok_003_spans max_line (i + 1) spans"

definition canonical_line_count :: "string \<Rightarrow> nat" where
  "canonical_line_count canonical_text =
     (if canonical_text \<noteq> [] then 1 + count_list canonical_text (CHR 0x0A) else 0)"

definition tok_003 :: rule_fn where
  "tok_003 envelope context =
     on_token_ir ''TOK-003'' kFail envelope (\<lambda>ir canonical_hash canonical_text.
       tok_003_spans (canonical_line_count canonical_text) 0 (ir_spans ir))"

definition derivable_tokens :: "string \<Rightarrow> string list" where
  "derivable_tokens canonical_text =
     (if canonical_text \<noteq> [] then tokenize_ascii_min 2 canonical_text else [])"

definition tok_004_token :: "string list \<Rightarrow> string \<Rightarrow> string \<Rightarrow> finding list" where
  "tok_004_token derivable category token =
     (if token \<notin> set derivable
      then [make_finding ''TOK-004'' kFail
              (''Token '' @ squote @ token @ squote @ '' in category '' @ squote @ category @ squote @
               '' is not derivable from canonical resume (hallucinated)'')] else [])"

definition tok_004 :: rule_fn where
  "tok_004 envelope context =
     on_token_ir ''TOK-004'' kFail envelope (\<lambda>ir canonical_hash canonical_text.
       let derivable = derivable_tokens canonical_text
       in concat (map (\<lambda>(category, token_list). concat (map (tok_004_token derivable category) token_list))
            (ir_tokens ir)))"

definition tok_005_category :: "string \<times> string list \<Rightarrow> finding list" where
  "tok_005_category entry =
     (case entry of (category, token_list) \<Rightarrow>
        if 200 < length token_list
        then [make_finding ''TOK-005'' kWarn
                (''Category '' @ squote @ category @ squote @ '' has '' @
                 to_string_nat (length token_list) @ '' tokens, exceeds threshold ('' @
                 to_string_nat 200 @ '')'')] else [])"

definition tok_005 :: rule_fn where
  "tok_005 envelope context =
     on_token_ir ''TOK-005'' kWarn envelope (\<lambda>ir canonical_hash canonical_text.
       let total_tokens = sum_list (map (\<lambda>(category, token_list). length token_list) (ir_tokens ir))
       in concat (map tok_005_category (ir_tokens ir)) @
          (if 500 < total_tokens
           then [make_finding ''TOK-005'' kWarn
                   (''Total token count ('' @ to_string_nat total_tokens @
                    '') exceeds threshold ('' @ to_string_nat 500 @ '')'')] else []))"

section \<open>What the rules accept\<close>

lemma schema_001_matches_Nil_iff:
  "schema_001_matches i rms = [] \<longleftrightarrow>
     (\<forall>rm \<in> set rms. rm_requirement_text rm \<noteq> [] \<and> 0 \<le> rm_best_score rm \<and>
        (rm_matched rm \<longleftrightarrow> has_contributing_atom rm))"
  by (induction i rms rule: schema_001_matches.induct)
    (auto simp: schema_001_match_def split: if_splits)

lemma schema_001_Nil_iff:
  "schema_001 env ctx = [] \<longleftrightarrow>
     (\<exists>report. env_artifact env = Some (MatchReportView report) \<and> 0 \<le> mr_overall_score report \<and>
        (\<forall>rm \<in> set (mr_requirement_matches report).
           rm_requirement_text rm \<noteq> [] \<and> 0 \<le> rm_best_score rm \<and>
           (rm_matched rm \<longleftrightarrow> has_contributing_atom rm)))"
  by (auto simp: schema_001_def envelope_artifact_type_def schema_001_matches_Nil_iff
      split: option.splits artifact_view.splits)

lemma evid_001_match_Nil_iff:
  "evid_001_match rm = [] \<longleftrightarrow>
     (rm_matched rm \<longrightarrow> has_contributing_atom rm \<and> rm_evidence_tokens rm \<noteq> [])"
  by (simp add: evid_001_match_def)

lemma evid_001_Nil_iff:
  "env_artifact env = Some (MatchReportView report) \<Longrightarrow> evid_001 env ctx = [] \<longleftrightarrow>
     (\<forall>rm \<in> set (mr_requirement_matches report). rm_matched rm \<longrightarrow>
        has_contributing_atom rm \<and> rm_evidence_tokens rm \<noteq> [])"
  by (auto simp: evid_001_def on_match_report_def envelope_artifact_type_def evid_001_match_Nil_iff)

lemma score_001_Nil_iff:
  "env_artifact env = Some (MatchReportView report) \<Longrightarrow> score_001 env ctx = [] \<longleftrightarrow>
     mr_overall_score report \<noteq> 0 \<or> mr_requirement_matches report = []"
  by (auto simp: score_001_def on_match_report_def envelope_artifact_type_def)

lemma on_match_report_other:
  "(\<forall>report. env_artifact env \<noteq> Some (MatchReportView report)) \<Longrightarrow> on_match_report env f = []"
  by (auto simp: on_match_report_def split: option.splits artifact_view.splits)

text \<open>Severities: SCHEMA-001 only blocks, EVID-001 only fails, SCORE-001 only warns.\<close>

lemma schema_001_severity:
  "f \<in> set (schema_001 env ctx) \<Longrightarrow> fd_rule_id f = ''SCHEMA-001'' \<and> fd_severity f = kBlock"
proof -
  have m: "f \<in> set (schema_001_matches i rms) \<Longrightarrow>
      fd_rule_id f = ''SCHEMA-001'' \<and> fd_severity f = kBlock" for i rms
    by (induction i rms rule: schema_001_matches.induct)
      (auto simp: schema_001_match_def make_finding_def split: if_splits)
  assume "f \<in> set (schema_001 env ctx)"
  then show ?thesis
    by (auto simp: schema_001_def make_finding_def
        split: option.splits if_splits artifact_view.splits dest: m)
qed

lemma evid_001_severity:
  "f \<in> set (evid_001 env ctx) \<Longrightarrow> fd_rule_id f = ''EVID-001'' \<and> fd_severity f = kFail"
  by (auto simp: evid_001_def on_match_report_def evid_001_match_def make_finding_def
      split: option.splits if_splits artifact_view.splits)

lemma score_001_severity:
  "f \<in> set (score_001 env ctx) \<Longrightarrow> fd_rule_id f = ''SCORE-001'' \<and> fd_severity f = kWarn"
  by (auto simp: score_001_def on_match_report_def make_finding_def
      split: option.splits if_splits artifact_view.splits)

lemma on_token_ir_Nil_iff:
  "on_token_ir rule sev env f = [] \<longleftrightarrow>
     (\<exists>ir hash canonical. env_artifact env = Some (TokenIRArtifactView ir hash canonical) \<and>
        f ir hash canonical = [])"
  by (auto simp: on_token_ir_def envelope_artifact_type_def split: option.splits artifact_view.splits)

lemma tok_002_token_Nil_iff: "tok_002_token c t = [] \<longleftrightarrow> is_token 2 t"
  by (auto simp: tok_002_token_def is_token_def list_all_iff)

lemma tok_003_span_Nil_iff:
  "tok_003_span m i sp = [] \<longleftrightarrow>
     1 \<le> unat (span_start_line sp) \<and> unat (span_start_line sp) \<le> unat (span_end_line sp) \<and>
     (m = 0 \<or> unat (span_end_line sp) \<le> m)"
  by (auto simp: tok_003_span_def Let_def)

lemma tok_003_spans_Nil_iff:
  "tok_003_spans m i spans = [] \<longleftrightarrow>
     (\<forall>sp \<in> set spans. 1 \<le> unat (span_start_line sp) \<and>
        unat (span_start_line sp) \<le> unat (span_end_line sp) \<and>
        (m = 0 \<or> unat (span_end_line sp) \<le> m))"
  by (induction m i spans rule: tok_003_spans.induct) (auto simp: tok_003_span_Nil_iff)

text \<open>The tokens of all categories.\<close>

definition all_tokens :: "resume_token_ir \<Rightarrow> string list" where
  "all_tokens ir = concat (map snd (ir_tokens ir))"

lemma ball_all_tokens:
  "(\<forall>t \<in> set (all_tokens ir). P t) \<longleftrightarrow> (\<forall>(c, ts) \<in> set (ir_tokens ir). \<forall>t \<in> set ts. P t)"
  by (force simp: all_tokens_def)

lemma concat_tokens_Nil_iff:
  "concat (map (\<lambda>(c, ts). concat (map (f c) ts)) xs) = [] \<longleftrightarrow>
     (\<forall>(c, ts) \<in> set xs. \<forall>t \<in> set ts. f c t = [])"
  by force

lemma length_all_tokens:
  "length (all_tokens ir) = sum_list (map (\<lambda>(category, token_list). length token_list) (ir_tokens ir))"
  by (simp add: all_tokens_def length_concat comp_def case_prod_unfold)

lemma derivable_tokens_set: "set (derivable_tokens canonical) = set (tokenize_ascii canonical)"
  by (cases canonical) (simp_all add: derivable_tokens_def tokenize_ascii_def tokenize_ascii_min_def)

lemma tok_001_accepts_iff:
  "tok_001 env ctx = [] \<longleftrightarrow>
     (\<exists>ir hash canonical. env_artifact env = Some (TokenIRArtifactView ir hash canonical) \<and>
        ir_source_hash ir = hash)"
  by (auto simp: tok_001_def on_token_ir_Nil_iff split: if_splits)

lemma tok_002_accepts_iff:
  assumes view: "env_artifact env = Some (TokenIRArtifactView ir hash canonical)"
  shows "tok_002 env ctx = [] \<longleftrightarrow> (\<forall>t \<in> set (all_tokens ir). is_token 2 t)"
  using view by (simp add: tok_002_def on_token_ir_Nil_iff tok_002_token_Nil_iff ball_all_tokens
      concat_tokens_Nil_iff del: concat_eq_Nil_conv)

lemma tok_003_accepts_iff:
  assumes view: "env_artifact env = Some (TokenIRArtifactView ir hash canonical)"
  shows "tok_003 env ctx = [] \<longleftrightarrow> (\<forall>sp \<in> set (ir_spans ir). 1 \<le> unat (span_start_line sp) \<and>
     unat (span_start_line sp) \<le> unat (span_end_line sp) \<and>
     (canonical = [] \<or> unat (span_end_line sp) \<le> 1 + count_list canonical (CHR 0x0A)))"
  using view by (auto simp: tok_003_def on_token_ir_Nil_iff tok_003_spans_Nil_iff canonical_line_count_def)

lemma tok_004_accepts_iff:
  assumes view: "env_artifact env = Some (TokenIRArtifactView ir hash canonical)"
  shows "tok_004 env ctx = [] \<longleftrightarrow> (\<forall>t \<in> set (all_tokens ir). t \<in> set (tokenize_ascii canonical))"
  using view by (simp add: tok_004_def on_token_ir_Nil_iff tok_004_token_def ball_all_tokens derivable_tokens_set
      Let_def concat_tokens_Nil_iff del: concat_eq_Nil_conv)

lemma tok_005_accepts_iff:
  assumes view: "env_artifact env = Some (TokenIRArtifactView ir hash canonical)"
  shows "tok_005 env ctx = [] \<longleftrightarrow>
     (\<forall>(c, ts) \<in> set (ir_tokens ir). length ts \<le> 200) \<and> length (all_tokens ir) \<le> 500"
  using view
  by (auto simp: tok_005_def on_token_ir_Nil_iff tok_005_category_def length_all_tokens Let_def
      split: if_splits)

lemmas tok_rules_iffs = tok_002_accepts_iff tok_003_accepts_iff tok_004_accepts_iff
  tok_005_accepts_iff

text \<open>The five resume token rules together accept an artifact exactly when it is a token
  representation bound to the canonical resume's hash, every token is at least two lower-case
  alphanumeric characters long and occurs among the tokens of the canonical text, every span lies in
  the text's lines, and the volume is within the thresholds.\<close>
theorem tok_rules_accept_iff:
  "tok_001 env ctx @ tok_002 env ctx @ tok_003 env ctx @ tok_004 env ctx @ tok_005 env ctx = [] \<longleftrightarrow>
     (\<exists>ir hash canonical. env_artifact env = Some (TokenIRArtifactView ir hash canonical) \<and>
        ir_source_hash ir = hash \<and>
        (\<forall>t \<in> set (all_tokens ir). is_token 2 t \<and> t \<in> set (tokenize_ascii canonical)) \<and>
        (\<forall>sp \<in> set (ir_spans ir). 1 \<le> unat (span_start_line sp) \<and>
           unat (span_start_line sp) \<le> unat (span_end_line sp) \<and>
           (canonical = [] \<or>
            unat (span_end_line sp) \<le> 1 + count_list canonical (CHR 0x0A))) \<and>
        (\<forall>(c, ts) \<in> set (ir_tokens ir). length ts \<le> 200) \<and> length (all_tokens ir) \<le> 500)"
  unfolding append_is_Nil_conv tok_001_accepts_iff
  by (auto simp: tok_rules_iffs)

definition demo_token_envelope :: artifact_envelope where
  "demo_token_envelope =
     \<lparr>env_artifact_id = ''resume-1'', env_content = [], env_source_refs = [],
      env_artifact = Some (TokenIRArtifactView
        \<lparr>ir_schema_version = ''0.3'', ir_source_hash = ''h'',
         ir_tokenizer = \<lparr>tm_type = kDeterministicLexical, tm_model_id = None, tm_prompt_version = None\<rparr>,
         ir_tokens = [(''lexical'', [''rust''])],
         ir_spans = [\<lparr>span_token = ''rust'', span_start_line = 1, span_end_line = 1\<rparr>]\<rparr>
        ''h'' ''Rust'')\<rparr>"

theorem tok_rules_accept_iff_witness:
  "\<forall>ctx. tok_001 demo_token_envelope ctx @ tok_002 demo_token_envelope ctx @ tok_003 demo_token_envelope ctx @
     tok_004 demo_token_envelope ctx @ tok_005 demo_token_envelope ctx = []"
proof
  fix ctx
  have t: "tokenize_ascii ''Rust'' = [''rust'']" by code_simp
  have "is_token 2 ''rust''" by code_simp
  then show "tok_001 demo_token_envelope ctx @ tok_002 demo_token_envelope ctx @ tok_003 demo_token_envelope ctx @
     tok_004 demo_token_envelope ctx @ tok_005 demo_token_envelope ctx = []"
    by (subst tok_rules_accept_iff) (simp add: demo_token_envelope_def all_tokens_def t)
qed

end
