(* ===== verification/Validation_Engine.thy ===== *)
theory Validation_Engine
  imports Constitution Hashing Sha256
begin

text \<open>
  The validation engine of \<open>src/constitution/validation_engine.cpp\<close>: it runs the rules of a
  constitution in order, derives the status from the most severe finding, sorts the findings, and
  applies an operator's override to a blocked report when its rule and its payload binding match. The
  lemmas say when each status is given, that no finding is lost, and what an override can do.
\<close>

datatype validation_status = kAccepted | kNeedsReview | kRejected | kBlocked | kOverridden

record validation_report =
  vr_report_id :: string
  vr_trace_id :: string
  vr_artifact_id :: string
  vr_constitution_id :: string
  vr_constitution_version :: string
  vr_status :: validation_status
  vr_findings :: "finding list"

record override_request =
  or_binding_hash_alg :: string
  or_operator_id :: string
  or_payload_hash :: string
  or_reason :: string
  or_rule_id :: string

text \<open>\<open>None\<close> is a null rule pointer.\<close>

record constitution =
  con_constitution_id :: string
  con_version :: string
  con_rules :: "rule_fn option list"

text \<open>\<open>std::max_element\<close>: the first of the largest elements.\<close>

fun max_element :: "('a \<Rightarrow> 'a \<Rightarrow> bool) \<Rightarrow> 'a \<Rightarrow> 'a list \<Rightarrow> 'a" where
  "max_element lt best [] = best"
| "max_element lt best (x # xs) = max_element lt (if lt best x then x else best) xs"

definition compute_status_from_findings :: "finding list \<Rightarrow> validation_status" where
  "compute_status_from_findings findings =
     (case findings of
        [] \<Rightarrow> kAccepted
      | f # fs \<Rightarrow>
          (case fd_severity (max_element (\<lambda>a b. fd_severity a < fd_severity b) f fs) of
             kBlock \<Rightarrow> kBlocked
           | kFail \<Rightarrow> kRejected
           | kWarn \<Rightarrow> kNeedsReview
           | kPass \<Rightarrow> kAccepted))"

definition finding_less :: "finding \<Rightarrow> finding \<Rightarrow> bool" where
  "finding_less a b =
     (if fd_severity a \<noteq> fd_severity b then fd_severity b < fd_severity a
      else fd_rule_id a < fd_rule_id b)"

fun collect_findings :: "rule_fn option list \<Rightarrow> artifact_envelope \<Rightarrow> validation_context \<Rightarrow> finding list" where
  "collect_findings [] envelope context = []"
| "collect_findings (None # rules) envelope context = collect_findings rules envelope context"
| "collect_findings (Some rule # rules) envelope context =
     rule envelope context @ collect_findings rules envelope context"

definition expected_binding :: "override_request \<Rightarrow> string \<Rightarrow> string" where
  "expected_binding req artifact_id =
     (if or_binding_hash_alg req = ''stable_hash64'' then stable_hash64_hex artifact_id
      else sha256_hex artifact_id)"

definition engine_validate ::
  "constitution \<Rightarrow> artifact_envelope \<Rightarrow> validation_context \<Rightarrow> override_request option \<Rightarrow> validation_report" where
  "engine_validate con envelope context override =
     (let collected = collect_findings (con_rules con) envelope context;
          status = compute_status_from_findings collected;
          findings = std_sort finding_less collected;
          status' =
            (case override of
               None \<Rightarrow> status
             | Some req \<Rightarrow>
                 if status = kBlocked
                 then let expected_hash = expected_binding req (env_artifact_id envelope)
                   in if list_ex (\<lambda>f. fd_severity f = kBlock \<and> fd_rule_id f = or_rule_id req \<and>
                           or_payload_hash req = expected_hash) findings
                      then kOverridden else status
                 else status)
      in \<lparr>vr_report_id = ''report-'' @ env_artifact_id envelope,
          vr_trace_id = ctx_trace_id context,
          vr_artifact_id = env_artifact_id envelope,
          vr_constitution_id = ctx_constitution_id context,
          vr_constitution_version = ctx_constitution_version context,
          vr_status = status', vr_findings = findings\<rparr>)"

definition make_default_constitution :: constitution where
  "make_default_constitution =
     \<lparr>con_constitution_id = ''default'', con_version = ''0.1.0'',
      con_rules = [Some schema_001, Some evid_001, Some score_001]\<rparr>"

section \<open>Severities and status\<close>

lemma max_element_severity:
  "fd_severity (max_element (\<lambda>a b. fd_severity a < fd_severity b) f fs) =
     Max (fd_severity ` set (f # fs))"
proof (induction fs arbitrary: f)
  case (Cons g gs)
  show ?case
    using Cons.IH [of g] Cons.IH [of f]
    by (cases "gs = []") (auto simp: max_def insert_commute)
qed simp

fun status_of_severity :: "finding_severity \<Rightarrow> validation_status" where
  "status_of_severity kBlock = kBlocked"
| "status_of_severity kFail = kRejected"
| "status_of_severity kWarn = kNeedsReview"
| "status_of_severity kPass = kAccepted"

lemma compute_status_eq:
  "compute_status_from_findings fs =
     (if fs = [] then kAccepted else status_of_severity (Max (fd_severity ` set fs)))"
  by (cases fs) (simp_all add: compute_status_from_findings_def max_element_severity
      split: finding_severity.splits)

lemma compute_status_cong: "set fs = set gs \<Longrightarrow> compute_status_from_findings fs = compute_status_from_findings gs"
  by (auto simp: compute_status_eq)

lemma severity_le_block [simp]: "s \<le> kBlock"
  by (cases s) (simp_all add: severity_order)

lemma compute_status_blocked_iff:
  "compute_status_from_findings fs = kBlocked \<longleftrightarrow> (\<exists>f \<in> set fs. fd_severity f = kBlock)"
proof
  assume "compute_status_from_findings fs = kBlocked"
  then have "fs \<noteq> []" "Max (fd_severity ` set fs) = kBlock"
    by (auto simp: compute_status_eq split: if_splits elim!: status_of_severity.elims)
  then show "\<exists>f \<in> set fs. fd_severity f = kBlock"
    by (metis (mono_tags, lifting) Max_in finite_imageI List.finite_set image_iff image_is_empty set_empty)
next
  assume "\<exists>f \<in> set fs. fd_severity f = kBlock"
  then obtain f where f: "f \<in> set fs" "fd_severity f = kBlock" by blast
  then have "kBlock \<le> Max (fd_severity ` set fs)" by (metis Max_ge finite_imageI List.finite_set imageI)
  then have "Max (fd_severity ` set fs) = kBlock" by (metis antisym severity_le_block)
  then show "compute_status_from_findings fs = kBlocked" using f by (auto simp: compute_status_eq)
qed

lemma compute_status_not_overridden: "compute_status_from_findings fs \<noteq> kOverridden"
  by (cases "Max (fd_severity ` set fs)") (auto simp: compute_status_eq)

lemma compute_status_accepted_iff:
  "compute_status_from_findings fs = kAccepted \<longleftrightarrow> (\<forall>f \<in> set fs. fd_severity f = kPass)"
proof
  assume a: "compute_status_from_findings fs = kAccepted"
  show "\<forall>f \<in> set fs. fd_severity f = kPass"
  proof
    fix f assume f: "f \<in> set fs"
    then have "status_of_severity (Max (fd_severity ` set fs)) = kAccepted"
      using a by (simp add: compute_status_eq split: if_splits)
    then have "Max (fd_severity ` set fs) = kPass"
      by (cases "Max (fd_severity ` set fs)") simp_all
    then have "fd_severity f \<le> kPass" using f by (metis Max_ge finite_imageI List.finite_set imageI)
    then show "fd_severity f = kPass" by (cases "fd_severity f") (simp_all add: severity_order)
  qed
next
  assume "\<forall>f \<in> set fs. fd_severity f = kPass"
  then have "fs \<noteq> [] \<Longrightarrow> fd_severity ` set fs = {kPass}" by (auto simp: image_def) (metis last_in_set)
  then show "compute_status_from_findings fs = kAccepted" by (auto simp: compute_status_eq)
qed

section \<open>The order of the findings\<close>

interpretation finding_order: comparison finding_less
proof
  fix a b c :: finding
  show "\<not> finding_less a a" by (simp add: finding_less_def)
  show "finding_less a b \<Longrightarrow> finding_less b c \<Longrightarrow> finding_less a c"
    by (auto simp: finding_less_def split: if_splits)
  show "finding_less a c \<Longrightarrow> finding_less a b \<or> finding_less b c"
    by (auto simp: finding_less_def split: if_splits)
qed

lemma engine_findings: "vr_findings (engine_validate con env ctx ov) =
    std_sort finding_less (collect_findings (con_rules con) env ctx)"
  by (simp add: engine_validate_def Let_def)

lemma engine_status:
  "vr_status (engine_validate con env ctx ov) =
     (case ov of
        Some req \<Rightarrow>
          if or_payload_hash req = expected_binding req (env_artifact_id env) \<and>
             (\<exists>f \<in> set (collect_findings (con_rules con) env ctx).
                fd_severity f = kBlock \<and> fd_rule_id f = or_rule_id req)
          then kOverridden
          else compute_status_from_findings (collect_findings (con_rules con) env ctx)
      | None \<Rightarrow> compute_status_from_findings (collect_findings (con_rules con) env ctx))"
  by (auto simp: engine_validate_def Let_def list_ex_iff compute_status_blocked_iff split: option.splits)

lemma collect_findings_eq:
  "collect_findings rules env ctx =
     concat (map (\<lambda>r. case r of None \<Rightarrow> [] | Some rule \<Rightarrow> rule env ctx) rules)"
  by (induction rules env ctx rule: collect_findings.induct) auto

lemma collect_default:
  "collect_findings (con_rules make_default_constitution) env ctx =
     schema_001 env ctx @ evid_001 env ctx @ score_001 env ctx"
  by (simp add: make_default_constitution_def)

section \<open>Properties\<close>

text \<open>Validation loses no finding: the report holds exactly the findings of the rules, ordered by
  falling severity and then by rule identifier, whatever the override.\<close>
theorem engine_findings_complete:
  "mset (vr_findings (engine_validate con env ctx ov)) =
     mset (concat (map (\<lambda>r. case r of None \<Rightarrow> [] | Some rule \<Rightarrow> rule env ctx) (con_rules con)))
   \<and> sorted_wrt (\<lambda>a b. fd_severity b < fd_severity a \<or>
        fd_severity a = fd_severity b \<and> fd_rule_id a \<le> fd_rule_id b)
      (vr_findings (engine_validate con env ctx ov))"
proof -
  have "(\<lambda>a b. \<not> finding_less b a) = (\<lambda>a b. fd_severity b < fd_severity a \<or>
        fd_severity a = fd_severity b \<and> fd_rule_id a \<le> fd_rule_id b)"
    by (auto simp: finding_less_def fun_eq_iff)
  with finding_order.sorted_std_sort show ?thesis
    by (simp add: engine_findings flip: collect_findings_eq)
qed

text \<open>C17. An override changes a report's status in one way only: a blocked report becomes overridden,
  exactly when a blocking finding has the override's rule and the override's hash is that of the
  artifact's identifier under the named algorithm; the findings stay.\<close>
theorem engine_override:
  "vr_findings (engine_validate con env ctx (Some req)) = vr_findings (engine_validate con env ctx None)
   \<and> vr_status (engine_validate con env ctx None) \<noteq> kOverridden
   \<and> (vr_status (engine_validate con env ctx (Some req)) \<noteq> vr_status (engine_validate con env ctx None)
        \<longleftrightarrow> or_payload_hash req = expected_binding req (env_artifact_id env) \<and>
          (\<exists>f \<in> set (vr_findings (engine_validate con env ctx None)).
             fd_severity f = kBlock \<and> fd_rule_id f = or_rule_id req))
   \<and> (vr_status (engine_validate con env ctx (Some req)) \<noteq> vr_status (engine_validate con env ctx None)
        \<longrightarrow> vr_status (engine_validate con env ctx (Some req)) = kOverridden
          \<and> vr_status (engine_validate con env ctx None) = kBlocked)"
  by (auto simp: engine_findings engine_status compute_status_not_overridden
      compute_status_not_overridden [symmetric] compute_status_blocked_iff)

definition demo_empty_envelope :: artifact_envelope where
  "demo_empty_envelope =
     \<lparr>env_artifact_id = ''match-report-o1'', env_content = [], env_source_refs = [], env_artifact = None\<rparr>"

definition demo_override :: override_request where
  "demo_override =
     \<lparr>or_binding_hash_alg = ''sha256'', or_operator_id = ''op'',
      or_payload_hash = sha256_hex ''match-report-o1'', or_reason = ''r'', or_rule_id = ''SCHEMA-001''\<rparr>"

theorem engine_override_witness:
  "\<forall>ctx. vr_status (engine_validate make_default_constitution demo_empty_envelope ctx (Some demo_override)) = kOverridden"
proof
  fix ctx
  have f: "f \<in> set (vr_findings (engine_validate make_default_constitution demo_empty_envelope ctx None)) \<longleftrightarrow>
      f = make_finding ''SCHEMA-001'' kBlock ''Missing artifact view''" for f
    by (simp add: engine_findings collect_default schema_001_def evid_001_def score_001_def
        on_match_report_def demo_empty_envelope_def)
  have "or_payload_hash demo_override = expected_binding demo_override (env_artifact_id demo_empty_envelope)"
    by (simp add: demo_override_def expected_binding_def demo_empty_envelope_def)
  moreover have "\<exists>f \<in> set (vr_findings (engine_validate make_default_constitution demo_empty_envelope ctx None)).
      fd_severity f = kBlock \<and> fd_rule_id f = or_rule_id demo_override"
    unfolding Bex_def f by (simp add: make_finding_def demo_override_def)
  ultimately show "vr_status (engine_validate make_default_constitution demo_empty_envelope ctx (Some demo_override)) = kOverridden"
    using engine_override [of make_default_constitution demo_empty_envelope ctx demo_override] by blast
qed

text \<open>C16. The default constitution: a report is accepted exactly when it is a match report with
  non-negative scores and non-empty requirement texts, every match is attributed to an atom and backed
  by evidence tokens, nothing unmatched names an atom, and not all scores are zero.\<close>
theorem default_accepts_iff:
  "vr_status (engine_validate make_default_constitution env ctx None) = kAccepted \<longleftrightarrow>
     (\<exists>report. env_artifact env = Some (MatchReportView report) \<and> 0 \<le> mr_overall_score report \<and>
        (mr_overall_score report \<noteq> 0 \<or> mr_requirement_matches report = []) \<and>
        (\<forall>rm \<in> set (mr_requirement_matches report).
           rm_requirement_text rm \<noteq> [] \<and> 0 \<le> rm_best_score rm \<and>
           (rm_matched rm \<longleftrightarrow> has_contributing_atom rm) \<and>
           (rm_matched rm \<longrightarrow> rm_evidence_tokens rm \<noteq> [])))"
proof -
  have "vr_status (engine_validate make_default_constitution env ctx None) = kAccepted \<longleftrightarrow>
      schema_001 env ctx = [] \<and> evid_001 env ctx = [] \<and> score_001 env ctx = []"
    using schema_001_severity [of _ env ctx] evid_001_severity [of _ env ctx] score_001_severity [of _ env ctx]
    by (auto simp: engine_status compute_status_accepted_iff collect_default)
      (metis finding_severity.distinct last_in_set)+
  also have "\<dots> \<longleftrightarrow> (\<exists>report. env_artifact env = Some (MatchReportView report) \<and> 0 \<le> mr_overall_score report \<and>
        (mr_overall_score report \<noteq> 0 \<or> mr_requirement_matches report = []) \<and>
        (\<forall>rm \<in> set (mr_requirement_matches report).
           rm_requirement_text rm \<noteq> [] \<and> 0 \<le> rm_best_score rm \<and>
           (rm_matched rm \<longleftrightarrow> has_contributing_atom rm) \<and>
           (rm_matched rm \<longrightarrow> rm_evidence_tokens rm \<noteq> [])))"
    by (auto simp: schema_001_Nil_iff evid_001_Nil_iff score_001_Nil_iff)
  finally show ?thesis .
qed

definition demo_report :: match_report where
  "demo_report =
     \<lparr>mr_opportunity_id = OpportunityId ''o1'', mr_strategy = ''deterministic_lexical_v0.1'',
      mr_overall_score = 1,
      mr_requirement_matches =
        [\<lparr>rm_requirement_text = ''rust'', rm_matched = True, rm_best_score = 1,
          rm_contributing_atom_id = Some (AtomId ''a1''), rm_evidence_tokens = [''rust'']\<rparr>],
      mr_missing_requirements = [],
      mr_retrieval_stats = \<lparr>lexical_candidates = 1, embedding_candidates = 0, merged_candidates = 1\<rparr>,
      mr_matched_atoms = [AtomId ''a1''],
      mr_breakdown = \<lparr>sb_lexical = 1, sb_semantic = 0, sb_bonus = 0, sb_final_score = 1\<rparr>\<rparr>"

theorem default_accepts_iff_witness:
  "\<forall>ctx. vr_status (engine_validate make_default_constitution
     \<lparr>env_artifact_id = ''match-report-o1'', env_content = [], env_source_refs = [],
      env_artifact = Some (MatchReportView demo_report)\<rparr> ctx None) = kAccepted"
  by (rule allI, subst default_accepts_iff) (simp add: demo_report_def has_contributing_atom_def)

end
