(* ===== verification/Matcher.thy ===== *)
theory Matcher
  imports Artifacts Std_Sort
begin

text \<open>
  The matcher of \<open>src/matching/matcher.cpp\<close>: candidate selection in the lexical and in the hybrid
  mode, and the evaluation of an opportunity's requirements against the candidates by token overlap.
  The embedding provider and the vector index are interfaces of the program and parameters here. The
  lemmas characterise the chosen atom and its evidence, bound the scores, and show that a report does
  not depend on the order of the atoms.
\<close>

type_synonym vec = "rat list"

record embedding_provider =
  ep_embed_text :: "string \<Rightarrow> vec"
  ep_dimension :: nat

record vector_search_result =
  vsr_key :: string
  vsr_score :: double
  vsr_metadata :: string

type_synonym index_query = "vec \<Rightarrow> nat \<Rightarrow> vector_search_result list"

record score_weights =
  sw_lexical :: double
  sw_semantic :: double
  sw_bonus :: double

text \<open>The decimal constants are rounded as the compiler rounds them.\<close>

definition make_weights :: "rat \<Rightarrow> rat \<Rightarrow> rat \<Rightarrow> score_weights" where
  "make_weights l s b = \<lparr>sw_lexical = rnd l, sw_semantic = rnd s, sw_bonus = rnd b\<rparr>"

definition default_weights :: score_weights where
  "default_weights = make_weights (55 / 100) (35 / 100) (10 / 100)"

definition job_matching_preset :: score_weights where
  "job_matching_preset = make_weights (55 / 100) (35 / 100) (10 / 100)"

definition corpus_preset :: score_weights where
  "corpus_preset = make_weights (35 / 100) (55 / 100) (10 / 100)"

datatype matching_strategy = kDeterministicLexicalV01 | kHybridLexicalEmbeddingV02

record hybrid_config =
  hc_k_lexical :: nat
  hc_k_embedding :: nat

definition default_hybrid_config :: hybrid_config where
  "default_hybrid_config = \<lparr>hc_k_lexical = 25, hc_k_embedding = 25\<rparr>"

record matcher =
  m_weights :: score_weights
  m_strategy :: matching_strategy
  m_hybrid_config :: hybrid_config

section \<open>Token helpers\<close>

fun append_query :: "string \<Rightarrow> requirement list \<Rightarrow> string" where
  "append_query query [] = query"
| "append_query query (req # reqs) =
     append_query ((if query \<noteq> [] then query @ '' '' else query) @ req_text req) reqs"

definition build_query_text :: "opportunity \<Rightarrow> string" where
  "build_query_text opp = append_query [] (opp_requirements opp)"

text \<open>\<open>std::set_intersection\<close> of two sorted ranges.\<close>

fun set_intersection :: "string list \<Rightarrow> string list \<Rightarrow> string list" where
  "set_intersection [] bs = []"
| "set_intersection as [] = []"
| "set_intersection (a # as) (b # bs) =
     (if a < b then set_intersection as (b # bs)
      else if b < a then set_intersection (a # as) bs
      else a # set_intersection as bs)"

definition tokenize_field :: "string \<Rightarrow> string list" where
  "tokenize_field txt = std_set_of (tokenize_ascii txt)"

definition combine_token_sets :: "string list \<Rightarrow> string list \<Rightarrow> string list \<Rightarrow> string list" where
  "combine_token_sets a b c = std_set_of (a @ b @ c)"

definition atom_tokens :: "experience_atom \<Rightarrow> string list" where
  "atom_tokens atom =
     combine_token_sets (tokenize_field (atom_claim atom)) (tokenize_field (atom_title atom)) (atom_tags atom)"

text \<open>The overlap score \<open>|R \<inter> A| / |R|\<close>.\<close>

definition overlap_score :: "string list \<Rightarrow> string list \<Rightarrow> double" where
  "overlap_score req_tokens tokens =
     count_ratio (length (set_intersection req_tokens tokens)) (length req_tokens)"

section \<open>Candidate selection\<close>

definition verified_atoms :: "experience_atom list \<Rightarrow> experience_atom list" where
  "verified_atoms atoms = filter atom_verify atoms"

definition all_verified :: "experience_atom list \<Rightarrow> experience_atom list \<times> retrieval_stats" where
  "all_verified atoms =
     (let candidates = verified_atoms atoms
      in (candidates, \<lparr>lexical_candidates = length candidates, embedding_candidates = 0,
                       merged_candidates = length candidates\<rparr>))"

definition query_tokens_of :: "opportunity \<Rightarrow> string list" where
  "query_tokens_of opp =
     std_set_of (concat (map (\<lambda>req. tokenize_field (req_text req)) (opp_requirements opp)))"

definition scored_less :: "experience_atom \<times> double \<Rightarrow> experience_atom \<times> double \<Rightarrow> bool" where
  "scored_less a b =
     (if snd a \<noteq> snd b then snd b < snd a
      else atom_id_value (atom_id (fst a)) < atom_id_value (atom_id (fst b)))"

definition lexical_scored :: "string list \<Rightarrow> experience_atom list \<Rightarrow> (experience_atom \<times> double) list" where
  "lexical_scored query_tokens atoms =
     map (\<lambda>atom. (atom, overlap_score query_tokens (atom_tokens atom))) (verified_atoms atoms)"

text \<open>A \<open>std::set\<close> of identifiers is its sorted list of elements.\<close>

definition lexical_top_ids :: "nat \<Rightarrow> (experience_atom \<times> double) list \<Rightarrow> string list" where
  "lexical_top_ids k_lexical scored =
     (let sorted = std_sort scored_less scored; k_lex = min k_lexical (length sorted)
      in std_set_of (map (\<lambda>s. atom_id_value (atom_id (fst s))) (take k_lex sorted)))"

definition embedding_top_ids ::
  "opportunity \<Rightarrow> embedding_provider option \<Rightarrow> index_query option \<Rightarrow> nat \<Rightarrow> string list" where
  "embedding_top_ids opp provider index k_embedding =
     (case (provider, index) of
        (Some ep, Some query) \<Rightarrow>
          if 0 < ep_dimension ep
          then let query_embedding = ep_embed_text ep (build_query_text opp)
            in if query_embedding \<noteq> []
               then std_set_of (map vsr_key (query query_embedding k_embedding)) else []
          else []
      | _ \<Rightarrow> [])"

text \<open>\<open>atom_map\<close>: a later atom with the same identifier replaces an earlier one.\<close>

definition atom_map :: "experience_atom list \<Rightarrow> string \<rightharpoonup> experience_atom" where
  "atom_map atoms = fold (\<lambda>a m. m(atom_id_value (atom_id a) \<mapsto> a)) atoms Map.empty"

definition select_candidates ::
  "matcher \<Rightarrow> opportunity \<Rightarrow> experience_atom list \<Rightarrow> embedding_provider option \<Rightarrow> index_query option
     \<Rightarrow> experience_atom list \<times> retrieval_stats" where
  "select_candidates m opp atoms provider index =
     (if m_strategy m = kDeterministicLexicalV01 then all_verified atoms
      else
        let query_tokens = query_tokens_of opp
        in if query_tokens = [] then all_verified atoms
           else
             let lexical_atom_ids =
                   lexical_top_ids (hc_k_lexical (m_hybrid_config m)) (lexical_scored query_tokens atoms);
                 embedding_atom_ids =
                   embedding_top_ids opp provider index (hc_k_embedding (m_hybrid_config m));
                 merged_atom_ids = std_set_of (lexical_atom_ids @ embedding_atom_ids)
             in (List.map_filter (atom_map atoms) merged_atom_ids,
                 \<lparr>lexical_candidates = length lexical_atom_ids,
                  embedding_candidates = length embedding_atom_ids,
                  merged_candidates = length merged_atom_ids\<rparr>))"

section \<open>Evaluation\<close>

text \<open>\<open>operator[]\<close> of the map of token sets: the last candidate with an identifier wins, and an
  absent identifier reads as no tokens.\<close>

definition candidate_token_sets :: "experience_atom list \<Rightarrow> string \<Rightarrow> string list" where
  "candidate_token_sets candidates =
     fold (\<lambda>a f. f(atom_id_value (atom_id a) := atom_tokens a)) candidates (\<lambda>_. [])"

type_synonym best = "double \<times> atom_id option \<times> string list"

definition best_step :: "(string \<Rightarrow> string list) \<Rightarrow> string list \<Rightarrow> experience_atom \<Rightarrow> best \<Rightarrow> best" where
  "best_step token_sets req_tokens atom best =
     (case best of (best_score, best_atom_id, best_evidence) \<Rightarrow>
        let intersection = set_intersection req_tokens (token_sets (atom_id_value (atom_id atom)));
            score = count_ratio (length intersection) (length req_tokens)
        in if best_score < score \<or>
              (score = best_score \<and>
               (case best_atom_id of
                  None \<Rightarrow> True
                | Some b \<Rightarrow> atom_id_value (atom_id atom) < atom_id_value b))
           then (score, Some (atom_id atom), intersection)
           else (best_score, best_atom_id, best_evidence))"

definition best_match :: "(string \<Rightarrow> string list) \<Rightarrow> string list \<Rightarrow> experience_atom list \<Rightarrow> best" where
  "best_match token_sets req_tokens candidates =
     fold (best_step token_sets req_tokens) candidates (0, None, [])"

definition unmatched :: "string \<Rightarrow> double \<Rightarrow> requirement_match" where
  "unmatched txt score =
     \<lparr>rm_requirement_text = txt, rm_matched = False, rm_best_score = score,
      rm_contributing_atom_id = None, rm_evidence_tokens = []\<rparr>"

definition match_requirement ::
  "(string \<Rightarrow> string list) \<Rightarrow> experience_atom list \<Rightarrow> requirement \<Rightarrow> requirement_match" where
  "match_requirement token_sets candidates req =
     (let req_tokens = tokenize_field (req_text req)
      in if req_tokens = [] then unmatched (req_text req) 0
         else case best_match token_sets req_tokens candidates of
                (best_score, best_atom_id, best_evidence) \<Rightarrow>
                  if 0 < best_score \<and> best_atom_id \<noteq> None
                  then \<lparr>rm_requirement_text = req_text req, rm_matched = True, rm_best_score = best_score,
                        rm_contributing_atom_id = best_atom_id, rm_evidence_tokens = best_evidence\<rparr>
                  else unmatched (req_text req) best_score)"

text \<open>The loop over the requirements: the matches, the missing texts, the running total and the set of
  matched identifiers. A requirement without tokens adds nothing to the total.\<close>

type_synonym eval_state = "requirement_match list \<times> string list \<times> double \<times> string list"

definition eval_step ::
  "(string \<Rightarrow> string list) \<Rightarrow> experience_atom list \<Rightarrow> requirement \<Rightarrow> eval_state \<Rightarrow> eval_state" where
  "eval_step token_sets candidates req st =
     (case st of (matches, missing, total_score, matched_ids) \<Rightarrow>
        let rm = match_requirement token_sets candidates req
        in (matches @ [rm],
            (if rm_matched rm then missing else missing @ [req_text req]),
            (if tokenize_field (req_text req) = [] then total_score
             else double_add total_score (rm_best_score rm)),
            (case rm_contributing_atom_id rm of
               Some a \<Rightarrow> std_set_of (matched_ids @ [atom_id_value a])
             | None \<Rightarrow> matched_ids)))"

definition evaluate ::
  "matcher \<Rightarrow> opportunity \<Rightarrow> experience_atom list \<Rightarrow> embedding_provider option \<Rightarrow> index_query option
     \<Rightarrow> match_report" where
  "evaluate m opp atoms provider index =
     (let (candidates, stats) = select_candidates m opp atoms provider index;
          token_sets = candidate_token_sets candidates;
          (matches, missing, total_score, matched_ids) =
            fold (eval_step token_sets candidates) (opp_requirements opp) ([], [], 0, []);
          overall = (if opp_requirements opp \<noteq> []
                     then double_div total_score (double_of_nat (length (opp_requirements opp))) else 0)
      in \<lparr>mr_opportunity_id = opportunity_id opp,
          mr_strategy = (if m_strategy m = kDeterministicLexicalV01
                         then ''deterministic_lexical_v0.1'' else ''hybrid_lexical_embedding_v0.2''),
          mr_overall_score = overall,
          mr_requirement_matches = matches,
          mr_missing_requirements = missing,
          mr_retrieval_stats = stats,
          mr_matched_atoms = map AtomId matched_ids,
          mr_breakdown = \<lparr>sb_lexical = overall, sb_semantic = 0, sb_bonus = 0,
                          sb_final_score = double_mul (sw_lexical (m_weights m)) overall\<rparr>\<rparr>)"

lemma atom_id_value_eq_iff [simp]: "atom_id_value a = atom_id_value b \<longleftrightarrow> a = b"
  by (cases a; cases b) simp

section \<open>Tokens\<close>

lemma set_intersection_filter:
  assumes "sorted_set as" "sorted_set bs"
  shows "set_intersection as bs = filter (\<lambda>x. x \<in> set bs) as"
  using assms
proof (induction as bs rule: set_intersection.induct)
  case (3 a as b bs)
  have a: "\<forall>x \<in> set as. a < x" and b: "\<forall>x \<in> set bs. b < x"
    using 3(4,5) by (auto simp: sorted_set_def intro: le_neq_trans)
  consider "a < b" | "b < a" | "a = b" by fastforce
  then show ?case
  proof cases
    case 1
    then have "a \<notin> set (b # bs)" using b by auto
    then show ?thesis using 1 3 by (simp add: sorted_set_def)
  next
    case 2
    then have "filter (\<lambda>x. x \<in> set (b # bs)) (a # as) = filter (\<lambda>x. x \<in> set bs) (a # as)"
      using a by (intro filter_cong) auto
    then show ?thesis using 2 3 by (auto simp: sorted_set_def)
  next
    case eq: 3
    then have "filter (\<lambda>x. x \<in> set (b # bs)) as = filter (\<lambda>x. x \<in> set bs) as"
      using a by (intro filter_cong) auto
    then show ?thesis using eq 3 by (simp add: sorted_set_def)
  qed
qed auto

lemma sorted_tokenize_field [simp]: "sorted_set (tokenize_field s)"
  by (simp add: tokenize_field_def)

lemma set_tokenize_field [simp]: "set (tokenize_field s) = set (tokenize_ascii s)"
  by (simp add: tokenize_field_def)

lemma sorted_atom_tokens [simp]: "sorted_set (atom_tokens a)"
  by (simp add: atom_tokens_def combine_token_sets_def)

lemma set_atom_tokens:
  "set (atom_tokens a) =
     set (tokenize_ascii (atom_claim a)) \<union> set (tokenize_ascii (atom_title a)) \<union> set (atom_tags a)"
  by (auto simp: atom_tokens_def combine_token_sets_def)

section \<open>The best candidate\<close>

lemma count_ratio_nonneg: "0 \<le> count_ratio m n"
  by (simp add: count_ratio_def double_div_def double_of_nat_def rnd_nonneg)

text \<open>What is compared for one candidate: its overlap with the requirement and the score of it.\<close>

definition evidence_of :: "(string \<Rightarrow> string list) \<Rightarrow> string list \<Rightarrow> experience_atom \<Rightarrow> string list" where
  "evidence_of token_sets req_tokens a = set_intersection req_tokens (token_sets (atom_id_value (atom_id a)))"

definition score_of :: "(string \<Rightarrow> string list) \<Rightarrow> string list \<Rightarrow> experience_atom \<Rightarrow> double" where
  "score_of token_sets req_tokens a = count_ratio (length (evidence_of token_sets req_tokens a)) (length req_tokens)"

definition is_best :: "(string \<Rightarrow> string list) \<Rightarrow> string list \<Rightarrow> experience_atom list \<Rightarrow> experience_atom \<Rightarrow> bool" where
  "is_best ts rt cs a \<longleftrightarrow> a \<in> set cs \<and>
     (\<forall>c \<in> set cs. score_of ts rt c < score_of ts rt a \<or>
        score_of ts rt c = score_of ts rt a \<and> atom_id a \<le> atom_id c)"

lemma best_match_spec:
  "cs \<noteq> [] \<Longrightarrow> \<exists>a. is_best ts rt cs a \<and>
     best_match ts rt cs = (score_of ts rt a, Some (atom_id a), evidence_of ts rt a)"
proof (induction cs rule: rev_induct)
  case (snoc c cs)
  have step: "best_match ts rt (cs @ [c]) = best_step ts rt c (best_match ts rt cs)"
    by (simp add: best_match_def)
  show ?case
  proof (cases "cs = []")
    case True
    have "best_match ts rt (cs @ [c]) = (score_of ts rt c, Some (atom_id c), evidence_of ts rt c)"
      using count_ratio_nonneg [of "length (evidence_of ts rt c)" "length rt"]
      by (auto simp: step True best_match_def best_step_def Let_def score_of_def evidence_of_def)
    then show ?thesis using True by (auto simp: is_best_def)
  next
    case False
    then obtain a where a: "is_best ts rt cs a"
      "best_match ts rt cs = (score_of ts rt a, Some (atom_id a), evidence_of ts rt a)"
      using snoc.IH by blast
    show ?thesis
    proof (cases "score_of ts rt a < score_of ts rt c \<or>
        score_of ts rt c = score_of ts rt a \<and> atom_id c < atom_id a")
      case True
      then have "best_match ts rt (cs @ [c]) = (score_of ts rt c, Some (atom_id c), evidence_of ts rt c)"
        by (auto simp: step a(2) best_step_def Let_def score_of_def evidence_of_def less_atom_id_def)
      moreover have "is_best ts rt (cs @ [c]) c"
        using a(1) True unfolding is_best_def by force
      ultimately show ?thesis by blast
    next
      case False
      then have "best_match ts rt (cs @ [c]) = (score_of ts rt a, Some (atom_id a), evidence_of ts rt a)"
        by (auto simp: step a(2) best_step_def Let_def score_of_def evidence_of_def less_atom_id_def)
      moreover have "is_best ts rt (cs @ [c]) a"
        using a(1) False unfolding is_best_def by force
      ultimately show ?thesis by blast
    qed
  qed
qed simp

lemma best_match_Nil [simp]: "best_match ts rt [] = (0, None, [])"
  by (simp add: best_match_def)

lemma is_best_same:
  assumes "is_best ts rt cs a" "is_best ts rt ds b" "set cs = set ds"
  shows "atom_id a = atom_id b \<and> score_of ts rt a = score_of ts rt b"
proof -
  have "score_of ts rt b < score_of ts rt a \<or> score_of ts rt b = score_of ts rt a \<and> atom_id a \<le> atom_id b"
    "score_of ts rt a < score_of ts rt b \<or> score_of ts rt a = score_of ts rt b \<and> atom_id b \<le> atom_id a"
    using assms by (auto simp: is_best_def)
  then show ?thesis by auto
qed

lemma evidence_of_cong: "atom_id a = atom_id b \<Longrightarrow> evidence_of ts rt a = evidence_of ts rt b"
  by (simp add: evidence_of_def)

text \<open>The result does not depend on the order of the candidates.\<close>

lemma best_match_cong:
  assumes "set cs = set ds" shows "best_match ts rt cs = best_match ts rt ds"
proof (cases "cs = []")
  case False
  then have "ds \<noteq> []" using assms by auto
  from best_match_spec [OF False, of ts rt] best_match_spec [OF this, of ts rt] obtain a b where
    "is_best ts rt cs a" "best_match ts rt cs = (score_of ts rt a, Some (atom_id a), evidence_of ts rt a)"
    "is_best ts rt ds b" "best_match ts rt ds = (score_of ts rt b, Some (atom_id b), evidence_of ts rt b)"
    by blast
  then show ?thesis using is_best_same [OF _ _ assms] evidence_of_cong by metis
qed (use assms in simp)

section \<open>The requirement matches\<close>

lemma candidate_token_sets_snoc:
  "candidate_token_sets (cs @ [a]) = (candidate_token_sets cs)(atom_id_value (atom_id a) := atom_tokens a)"
  by (simp add: candidate_token_sets_def)

lemma sorted_candidate_tokens [simp]: "sorted_set (candidate_token_sets cs k)"
  by (induction cs rule: rev_induct)
    (simp_all add: candidate_token_sets_snoc, simp_all add: candidate_token_sets_def sorted_set_def)

lemma candidate_tokens_distinct:
  "distinct (map atom_id cs) \<Longrightarrow> a \<in> set cs \<Longrightarrow>
     candidate_token_sets cs (atom_id_value (atom_id a)) = atom_tokens a"
proof (induction cs rule: rev_induct)
  case (snoc c cs)
  show ?case
  proof (cases "a = c")
    case False
    then have a: "a \<in> set cs" using snoc.prems by auto
    then have "atom_id a \<in> set (map atom_id cs)" by simp
    then have "atom_id a \<noteq> atom_id c" using snoc.prems(1) by auto
    note a this
    moreover have "distinct (map atom_id cs)" using snoc.prems(1) by simp
    ultimately show ?thesis using snoc.IH by (simp add: candidate_token_sets_snoc)
  qed (simp add: candidate_token_sets_snoc)
qed simp

lemma candidate_tokens_absent:
  "AtomId k \<notin> set (map atom_id cs) \<Longrightarrow> candidate_token_sets cs k = []"
proof (induction cs rule: rev_induct)
  case (snoc c cs)
  then show ?case by (auto simp: candidate_token_sets_snoc)
qed (simp add: candidate_token_sets_def)

lemma evidence_of_filter:
  "sorted_set rt \<Longrightarrow> evidence_of (candidate_token_sets cs) rt a =
     filter (\<lambda>t. t \<in> set (candidate_token_sets cs (atom_id_value (atom_id a)))) rt"
  by (simp add: evidence_of_def set_intersection_filter)

lemma score_of_pos_iff:
  assumes "sorted_set rt" "length rt < 2 ^ 53"
  shows "0 < score_of (candidate_token_sets cs) rt a \<longleftrightarrow> evidence_of (candidate_token_sets cs) rt a \<noteq> []"
  using assms count_ratio_pos_iff [of "length (evidence_of (candidate_token_sets cs) rt a)" "length rt"]
  by (simp add: score_of_def evidence_of_filter)

lemma score_of_bounds:
  assumes "sorted_set rt" "length rt < 2 ^ 53"
  shows "0 \<le> score_of (candidate_token_sets cs) rt a \<and> score_of (candidate_token_sets cs) rt a \<le> 1"
  using assms count_ratio_bounds [of "length (evidence_of (candidate_token_sets cs) rt a)" "length rt"]
  by (simp add: score_of_def evidence_of_filter)

lemma match_requirement_text [simp]: "rm_requirement_text (match_requirement ts cs req) = req_text req"
  by (simp add: match_requirement_def unmatched_def Let_def split: prod.splits)

lemma match_requirement_cases:
  obtains (unmatched) s where "match_requirement ts cs req = unmatched (req_text req) s"
      "tokenize_field (req_text req) = [] \<or> cs = [] \<Longrightarrow> s = 0"
      "s = 0 \<or> (\<exists>a. is_best ts (tokenize_field (req_text req)) cs a \<and>
         s = score_of ts (tokenize_field (req_text req)) a \<and> \<not> 0 < s)"
      "\<And>a. is_best ts (tokenize_field (req_text req)) cs a \<Longrightarrow> tokenize_field (req_text req) \<noteq> [] \<Longrightarrow>
         \<not> 0 < score_of ts (tokenize_field (req_text req)) a"
  | (matched) a where "is_best ts (tokenize_field (req_text req)) cs a"
      "0 < score_of ts (tokenize_field (req_text req)) a" "tokenize_field (req_text req) \<noteq> []"
      "match_requirement ts cs req =
         \<lparr>rm_requirement_text = req_text req, rm_matched = True,
          rm_best_score = score_of ts (tokenize_field (req_text req)) a,
          rm_contributing_atom_id = Some (atom_id a),
          rm_evidence_tokens = evidence_of ts (tokenize_field (req_text req)) a\<rparr>"
proof (cases "tokenize_field (req_text req) = [] \<or> cs = []")
  case True
  then show ?thesis
    by (intro unmatched [of 0]) (auto simp: match_requirement_def is_best_def Let_def)
next
  case False
  then obtain a where a: "is_best ts (tokenize_field (req_text req)) cs a"
    "best_match ts (tokenize_field (req_text req)) cs =
       (score_of ts (tokenize_field (req_text req)) a, Some (atom_id a),
        evidence_of ts (tokenize_field (req_text req)) a)"
    using best_match_spec by blast
  show ?thesis
  proof (cases "0 < score_of ts (tokenize_field (req_text req)) a")
    case True
    then show ?thesis using False a by (intro matched [of a]) (auto simp: match_requirement_def Let_def)
  next
    case n: False
    show ?thesis
    proof (rule unmatched [of "score_of ts (tokenize_field (req_text req)) a"])
      fix b assume "is_best ts (tokenize_field (req_text req)) cs b"
      then show "\<not> 0 < score_of ts (tokenize_field (req_text req)) b"
        using is_best_same [OF a(1)] n by force
    qed (use False a n in \<open>auto simp: match_requirement_def Let_def\<close>)
  qed
qed

lemma match_requirement_bounds:
  assumes "length (tokenize_field (req_text req)) < 2 ^ 53"
  shows "0 \<le> rm_best_score (match_requirement (candidate_token_sets cs) cs' req) \<and>
    rm_best_score (match_requirement (candidate_token_sets cs) cs' req) \<le> 1"
  using score_of_bounds [OF sorted_tokenize_field assms]
  by (cases rule: match_requirement_cases [of "candidate_token_sets cs" cs' req]) (auto simp: unmatched_def)

lemma match_requirement_consistent:
  assumes "length (tokenize_field (req_text req)) < 2 ^ 53"
  shows "rm_matched (match_requirement (candidate_token_sets cs) cs req) \<longleftrightarrow>
      rm_contributing_atom_id (match_requirement (candidate_token_sets cs) cs req) \<noteq> None"
    and "rm_matched (match_requirement (candidate_token_sets cs) cs req) \<Longrightarrow>
      rm_evidence_tokens (match_requirement (candidate_token_sets cs) cs req) \<noteq> []"
    and "rm_contributing_atom_id (match_requirement (candidate_token_sets cs) cs req) = Some i \<Longrightarrow>
      \<exists>a \<in> set cs. atom_id a = i"
  using score_of_pos_iff [OF sorted_tokenize_field assms, of cs]
  by (cases rule: match_requirement_cases [of "candidate_token_sets cs" cs req];
      auto simp: unmatched_def is_best_def)+

text \<open>Two candidate lists with the same atoms, without repeated identifiers, give the same matches.\<close>

lemma candidate_token_sets_cong:
  assumes "distinct (map atom_id cs)" "distinct (map atom_id ds)" "set cs = set ds"
  shows "candidate_token_sets cs = candidate_token_sets ds"
proof
  fix k
  show "candidate_token_sets cs k = candidate_token_sets ds k"
  proof (cases "AtomId k \<in> set (map atom_id cs)")
    case True
    then obtain a where "a \<in> set cs" "atom_id a = AtomId k" by auto
    then show ?thesis
      using candidate_tokens_distinct [OF assms(1), of a] candidate_tokens_distinct [OF assms(2), of a]
        assms(3) by simp
  qed (use candidate_tokens_absent assms(3) in simp)
qed

lemma match_requirement_cong:
  assumes "distinct (map atom_id cs)" "distinct (map atom_id ds)" "set cs = set ds"
  shows "match_requirement (candidate_token_sets cs) cs = match_requirement (candidate_token_sets ds) ds"
  unfolding match_requirement_def best_match_cong [OF assms(3)] candidate_token_sets_cong [OF assms] ..

section \<open>The report\<close>

definition req_total :: "requirement_match list \<Rightarrow> requirement list \<Rightarrow> double \<Rightarrow> double" where
  "req_total rms reqs t =
     fold (\<lambda>(req, rm) t. if tokenize_field (req_text req) = [] then t else double_add t (rm_best_score rm))
       (zip reqs rms) t"

lemma eval_step_proj:
  "fst (eval_step ts cs req st) = fst st @ [match_requirement ts cs req]"
  "fst (snd (eval_step ts cs req st)) =
     (if rm_matched (match_requirement ts cs req) then fst (snd st) else fst (snd st) @ [req_text req])"
  "fst (snd (snd (eval_step ts cs req st))) =
     (if tokenize_field (req_text req) = [] then fst (snd (snd st))
      else double_add (fst (snd (snd st))) (rm_best_score (match_requirement ts cs req)))"
  "snd (snd (snd (eval_step ts cs req st))) =
     (case rm_contributing_atom_id (match_requirement ts cs req) of
        Some a \<Rightarrow> std_set_of (snd (snd (snd st)) @ [atom_id_value a]) | None \<Rightarrow> snd (snd (snd st)))"
  by (simp_all add: eval_step_def Let_def case_prod_unfold)

lemma eval_fold:
  "fst (fold (eval_step ts cs) reqs st) = fst st @ map (match_requirement ts cs) reqs"
  "fst (snd (fold (eval_step ts cs) reqs st)) = fst (snd st) @
      map req_text (filter (\<lambda>req. \<not> rm_matched (match_requirement ts cs req)) reqs)"
  "fst (snd (snd (fold (eval_step ts cs) reqs st))) =
      req_total (map (match_requirement ts cs) reqs) reqs (fst (snd (snd st)))"
  by (induction reqs arbitrary: st) (simp_all add: eval_step_proj req_total_def)

lemma eval_fold_ids:
  assumes "sorted_set (snd (snd (snd st)))"
  shows "snd (snd (snd (fold (eval_step ts cs) reqs st))) =
     std_set_of (snd (snd (snd st)) @ List.map_filter
       (\<lambda>req. map_option atom_id_value (rm_contributing_atom_id (match_requirement ts cs req))) reqs)"
  using assms
proof (induction reqs arbitrary: st)
  case (Cons req reqs)
  have "sorted_set (snd (snd (snd (eval_step ts cs req st))))"
    using Cons.prems by (auto simp: eval_step_proj split: option.splits)
  from Cons.IH [OF this] show ?case
    by (cases "rm_contributing_atom_id (match_requirement ts cs req)")
      (auto simp: eval_step_proj map_filter_simps intro!: std_set_of_cong)
qed (simp add: std_set_of_id map_filter_simps)

lemma evaluate_simps:
  assumes "select_candidates m opp atoms provider index = (cands, stats)"
  shows "mr_requirement_matches (evaluate m opp atoms provider index) =
      map (match_requirement (candidate_token_sets cands) cands) (opp_requirements opp)"
    and "mr_missing_requirements (evaluate m opp atoms provider index) =
      map req_text (filter (\<lambda>req. \<not> rm_matched (match_requirement (candidate_token_sets cands) cands req))
        (opp_requirements opp))"
    and "mr_overall_score (evaluate m opp atoms provider index) =
      (if opp_requirements opp \<noteq> []
       then double_div (req_total (map (match_requirement (candidate_token_sets cands) cands)
              (opp_requirements opp)) (opp_requirements opp) 0)
              (double_of_nat (length (opp_requirements opp))) else 0)"
    and "mr_matched_atoms (evaluate m opp atoms provider index) =
      map AtomId (std_set_of (List.map_filter (\<lambda>req. map_option atom_id_value
        (rm_contributing_atom_id (match_requirement (candidate_token_sets cands) cands req)))
        (opp_requirements opp)))"
    and "mr_retrieval_stats (evaluate m opp atoms provider index) = stats"
  by (simp_all add: evaluate_def assms Let_def case_prod_unfold eval_fold eval_fold_ids sorted_set_def)

lemma double_add_le:
  assumes "0 \<le> x" "x \<le> of_nat n" "0 \<le> y" "y \<le> 1" "n + 1 < 2 ^ 53"
  shows "0 \<le> double_add x y \<and> double_add x y \<le> of_nat (n + 1)"
  using rnd_le_of_nat [of "x + y" "n + 1"] assms
  by (auto simp: double_add_def rnd_nonneg)

lemma req_total_bounds:
  assumes "length rms = length reqs" "\<forall>rm \<in> set rms. 0 \<le> rm_best_score rm \<and> rm_best_score rm \<le> 1"
    and "0 \<le> t" "t \<le> of_nat n" "n + length reqs < 2 ^ 53"
  shows "0 \<le> req_total rms reqs t \<and> req_total rms reqs t \<le> of_nat (n + length reqs)"
  using assms
proof (induction rms reqs arbitrary: t n rule: list_induct2)
  case (Cons rm rms req reqs)
  let ?t = "if tokenize_field (req_text req) = [] then t else double_add t (rm_best_score rm)"
  have "0 \<le> ?t \<and> ?t \<le> of_nat (n + 1)"
  proof (cases "tokenize_field (req_text req) = []")
    case True
    have "(of_nat n :: double) \<le> of_nat (n + 1)" by simp
    with Cons.prems(3) have "t \<le> of_nat (n + 1)" by (rule order_trans)
    then show ?thesis using Cons.prems(2) True by simp
  next
    case False
    have "n + 1 < 2 ^ 53" using Cons.prems(4) by simp
    with double_add_le [of t n "rm_best_score rm"] Cons.prems(1-3) False show ?thesis by simp
  qed
  then have "0 \<le> req_total rms reqs ?t \<and> req_total rms reqs ?t \<le> of_nat (n + 1 + length reqs)"
    using Cons.IH [of ?t "n + 1"] Cons.prems by simp
  then show ?case by (simp add: req_total_def)
qed (simp add: req_total_def)

section \<open>Properties\<close>

text \<open>The sizes the arithmetic is exact for; both hold of anything that fits in memory.\<close>

definition small_input :: "opportunity \<Rightarrow> bool" where
  "small_input opp \<longleftrightarrow> length (opp_requirements opp) < 2 ^ 53 \<and>
     (\<forall>req \<in> set (opp_requirements opp). length (tokenize_field (req_text req)) < 2 ^ 53)"

lemma evaluate_score_range:
  assumes "small_input opp"
  shows "0 \<le> mr_overall_score (evaluate m opp atoms provider index)
    \<and> mr_overall_score (evaluate m opp atoms provider index) \<le> 1
    \<and> (\<forall>rm \<in> set (mr_requirement_matches (evaluate m opp atoms provider index)).
         0 \<le> rm_best_score rm \<and> rm_best_score rm \<le> 1)"
proof -
  obtain cands stats where s: "select_candidates m opp atoms provider index = (cands, stats)"
    by (cases "select_candidates m opp atoms provider index")
  let ?ms = "map (match_requirement (candidate_token_sets cands) cands) (opp_requirements opp)"
  let ?n = "length (opp_requirements opp)"
  have b: "\<forall>rm \<in> set ?ms. 0 \<le> rm_best_score rm \<and> rm_best_score rm \<le> 1"
    using assms match_requirement_bounds by (auto simp: small_input_def)
  have n: "?n < 2 ^ 53" using assms by (simp add: small_input_def)
  have t: "0 \<le> req_total ?ms (opp_requirements opp) 0"
    "req_total ?ms (opp_requirements opp) 0 \<le> of_nat ?n"
    using req_total_bounds [OF _ b, of "opp_requirements opp" 0 0] n by auto
  have "0 \<le> mr_overall_score (evaluate m opp atoms provider index)
    \<and> mr_overall_score (evaluate m opp atoms provider index) \<le> 1"
  proof (cases "opp_requirements opp = []")
    case False
    then have "req_total ?ms (opp_requirements opp) 0 / of_nat ?n \<le> 1"
      using t(2) by (simp add: divide_le_eq_1_pos)
    then show ?thesis
      using False t(1) n
      by (simp add: evaluate_simps [OF s] double_div_def double_of_nat_def rnd_nonneg rnd_le_1)
  qed (simp add: evaluate_simps [OF s])
  then show ?thesis using b by (simp add: evaluate_simps [OF s])
qed

text \<open>C13. The scores of every report, in floating point, lie between 0 and 1: each requirement's best
  score and the overall average.\<close>
theorem evaluate_score_bounds:
  assumes "small_input opp"
  shows "0 \<le> mr_overall_score (evaluate m opp atoms provider index)
    \<and> mr_overall_score (evaluate m opp atoms provider index) \<le> 1
    \<and> (\<forall>rm \<in> set (mr_requirement_matches (evaluate m opp atoms provider index)).
         0 \<le> rm_best_score rm \<and> rm_best_score rm \<le> 1)"
  by (rule evaluate_score_range [OF assms])

text \<open>C12. What a report says of each requirement, in order: it is matched exactly when some candidate
  shares a token with it; the named atom is then the candidate with the greatest overlap score, the
  smallest identifier among equals, and the evidence is exactly the shared tokens.\<close>
theorem evaluate_requirement:
  assumes "small_input opp" "select_candidates m opp atoms provider index = (cands, stats)"
    and "n < length (opp_requirements opp)"
  shows "let rm = mr_requirement_matches (evaluate m opp atoms provider index) ! n;
             rt = tokenize_field (req_text (opp_requirements opp ! n));
             toks = candidate_token_sets cands
    in rm_requirement_text rm = req_text (opp_requirements opp ! n)
     \<and> (rm_matched rm \<longleftrightarrow> (\<exists>a \<in> set cands. \<exists>t \<in> set rt. t \<in> set (toks (atom_id_value (atom_id a)))))
     \<and> (rm_matched rm \<longrightarrow> (\<exists>a. is_best toks rt cands a \<and> rm_contributing_atom_id rm = Some (atom_id a) \<and>
          rm_best_score rm = score_of toks rt a \<and>
          rm_evidence_tokens rm = filter (\<lambda>t. t \<in> set (toks (atom_id_value (atom_id a)))) rt))"
proof -
  let ?req = "opp_requirements opp ! n" and ?ts = "candidate_token_sets cands"
  let ?rt = "tokenize_field (req_text ?req)"
  have rm: "mr_requirement_matches (evaluate m opp atoms provider index) ! n =
      match_requirement ?ts cands ?req"
    using assms(3) by (simp add: evaluate_simps [OF assms(2)])
  have len: "length ?rt < 2 ^ 53" using assms(1,3) by (auto simp: small_input_def)
  note pos = score_of_pos_iff [OF sorted_tokenize_field len, of cands]
  have some: "(\<exists>a \<in> set cands. \<exists>t \<in> set ?rt. t \<in> set (?ts (atom_id_value (atom_id a)))) \<longleftrightarrow>
      (\<exists>a \<in> set cands. 0 < score_of ?ts ?rt a)"
    by (auto simp: pos evidence_of_filter filter_empty_conv)
  show ?thesis
  proof (cases rule: match_requirement_cases [of ?ts cands ?req])
    case (unmatched s)
    have "\<not> (\<exists>a \<in> set cands. 0 < score_of ?ts ?rt a)"
    proof
      assume ex: "\<exists>a \<in> set cands. 0 < score_of ?ts ?rt a"
      then obtain a where a: "a \<in> set cands" "0 < score_of ?ts ?rt a" by blast
      then have "evidence_of ?ts ?rt a \<noteq> []" by (simp add: pos)
      then have rt: "?rt \<noteq> []" by (auto simp: evidence_of_filter)
      obtain b where b: "is_best ?ts ?rt cands b"
        using best_match_spec [of cands ?ts ?rt] a(1) by (cases cands) auto
      then have "0 < score_of ?ts ?rt b" using a unfolding is_best_def by force
      with unmatched(4) [OF b rt] show False ..
    qed
    then show ?thesis unfolding Let_def rm some by (simp add: unmatched(1) unmatched_def)
  next
    case (matched a)
    then have "\<exists>a \<in> set cands. 0 < score_of ?ts ?rt a" by (auto simp: is_best_def)
    then show ?thesis
      unfolding Let_def rm some using matched by (auto simp: evidence_of_filter)
  qed
qed

text \<open>C14. The order in which the atoms are stored does not matter in the lexical mode: permuting atoms
  with distinct identifiers leaves the whole report unchanged.\<close>
theorem evaluate_order_independent:
  assumes "m_strategy m = kDeterministicLexicalV01" "distinct (map atom_id atoms)" "mset atoms' = mset atoms"
  shows "evaluate m opp atoms' provider index = evaluate m opp atoms provider index"
proof -
  have v: "mset (verified_atoms atoms') = mset (verified_atoms atoms)"
    using assms(3) by (simp add: verified_atoms_def)
  then have len: "length (verified_atoms atoms') = length (verified_atoms atoms)"
    and set: "set (verified_atoms atoms') = set (verified_atoms atoms)"
    by (metis size_mset, metis set_mset_mset)
  have d: "distinct (map atom_id (verified_atoms atoms))"
    unfolding verified_atoms_def using assms(2) by (rule distinct_map_filter)
  have d': "distinct (map atom_id (verified_atoms atoms'))"
    using d v by (metis mset_map mset_eq_imp_distinct_iff)
  let ?ts = "\<lambda>as. candidate_token_sets (verified_atoms as)"
  have "eval_step (?ts atoms') (verified_atoms atoms') = eval_step (?ts atoms) (verified_atoms atoms)"
    unfolding eval_step_def match_requirement_cong [OF d' d set] ..
  moreover have "select_candidates m opp as provider index = all_verified as" for as
    using assms(1) by (simp add: select_candidates_def)
  ultimately show ?thesis
    by (simp add: evaluate_def all_verified_def Let_def len)
qed

lemma atom_map_snoc: "atom_map (as @ [a]) = (atom_map as)(atom_id_value (atom_id a) \<mapsto> a)"
  by (simp add: atom_map_def)

lemma atom_map_Some: "atom_map as k = Some a \<Longrightarrow> a \<in> set as \<and> atom_id_value (atom_id a) = k"
proof (induction as rule: rev_induct)
  case (snoc b as)
  then show ?case by (auto simp: atom_map_snoc split: if_splits)
qed (simp add: atom_map_def)

lemma atom_map_distinct:
  "distinct (map atom_id as) \<Longrightarrow> a \<in> set as \<Longrightarrow> atom_map as (atom_id_value (atom_id a)) = Some a"
proof (induction as rule: rev_induct)
  case (snoc b as)
  show ?case
  proof (cases "a = b")
    case False
    then have a: "a \<in> set as" using snoc.prems by auto
    then have "atom_id a \<in> set (map atom_id as)" by simp
    then have "atom_id a \<noteq> atom_id b" using snoc.prems(1) by auto
    then show ?thesis using snoc.IH a snoc.prems(1) by (simp add: atom_map_snoc)
  qed (simp add: atom_map_snoc)
qed simp

lemma set_map_filter: "set (List.map_filter f xs) = {y. \<exists>x \<in> set xs. f x = Some y}"
  by (induction xs) (auto simp: map_filter_simps split: option.splits)

interpretation scored_order: comparison scored_less
proof
  fix a b c :: "experience_atom \<times> double"
  show "\<not> scored_less a a" by (simp add: scored_less_def)
  show "scored_less a b \<Longrightarrow> scored_less b c \<Longrightarrow> scored_less a c"
    by (auto simp: scored_less_def split: if_splits)
  show "scored_less a c \<Longrightarrow> scored_less a b \<or> scored_less b c"
    by (auto simp: scored_less_def split: if_splits)
qed

lemma lexical_top_ids_subset:
  "set (lexical_top_ids k (lexical_scored q atoms)) \<subseteq> (\<lambda>a. atom_id_value (atom_id a)) ` set (verified_atoms atoms)"
  by (auto simp: lexical_top_ids_def lexical_scored_def Let_def dest!: in_set_takeD)

lemma lexical_top_ids_all:
  "length (verified_atoms atoms) \<le> k \<Longrightarrow>
     set (lexical_top_ids k (lexical_scored q atoms)) = (\<lambda>a. atom_id_value (atom_id a)) ` set (verified_atoms atoms)"
  by (simp add: lexical_top_ids_def lexical_scored_def Let_def image_image min_absorb2)

text \<open>In the lexical mode only verified atoms can be credited: every atom a report names is a
  verified atom of the input.\<close>
theorem lexical_credits_verified:
  assumes "small_input opp" "m_strategy m = kDeterministicLexicalV01"
    and "rm \<in> set (mr_requirement_matches (evaluate m opp atoms provider index))"
    and "rm_contributing_atom_id rm = Some i"
  shows "\<exists>a \<in> set atoms. atom_id a = i \<and> atom_verify a"
proof -
  have s: "select_candidates m opp atoms provider index =
      (verified_atoms atoms, snd (all_verified atoms))"
    using assms(2) by (simp add: select_candidates_def all_verified_def Let_def)
  obtain req where req: "req \<in> set (opp_requirements opp)"
    "rm = match_requirement (candidate_token_sets (verified_atoms atoms)) (verified_atoms atoms) req"
    using assms(3) by (auto simp: evaluate_simps [OF s])
  have "length (tokenize_field (req_text req)) < 2 ^ 53" using assms(1) req(1) by (simp add: small_input_def)
  from match_requirement_consistent(3) [OF this assms(4) [unfolded req(2)]] show ?thesis
    by (auto simp: verified_atoms_def)
qed

text \<open>In the hybrid mode the check is missing on the embedding side: an atom whose key the vector
  index returns becomes a candidate whether or not it is verified.\<close>
theorem hybrid_candidate_unverified:
  assumes "m_strategy m = kHybridLexicalEmbeddingV02" "query_tokens_of opp \<noteq> []"
    and "0 < ep_dimension ep" "ep_embed_text ep (build_query_text opp) \<noteq> []"
    and "r \<in> set (query (ep_embed_text ep (build_query_text opp)) (hc_k_embedding (m_hybrid_config m)))"
    and "distinct (map atom_id atoms)" "a \<in> set atoms" "vsr_key r = atom_id_value (atom_id a)"
  shows "a \<in> set (fst (select_candidates m opp atoms (Some ep) (Some query)))"
proof -
  have "atom_id_value (atom_id a) \<in>
      vsr_key ` set (query (ep_embed_text ep (build_query_text opp)) (hc_k_embedding (m_hybrid_config m)))"
    using assms(5) by (auto simp flip: assms(8))
  then show ?thesis
    using assms(1-4) atom_map_distinct [OF assms(6,7)]
    by (auto simp: select_candidates_def Let_def set_map_filter embedding_top_ids_def)
qed

text \<open>Without embeddings and with room for every verified atom, the hybrid mode matches exactly as the
  lexical mode does.\<close>
theorem hybrid_agrees_with_lexical:
  assumes "m_strategy h = kHybridLexicalEmbeddingV02" "m_strategy l = kDeterministicLexicalV01"
    and "distinct (map atom_id atoms)" "length (verified_atoms atoms) \<le> hc_k_lexical (m_hybrid_config h)"
  shows "mr_requirement_matches (evaluate h opp atoms None index) =
      mr_requirement_matches (evaluate l opp atoms None index)
    \<and> mr_overall_score (evaluate h opp atoms None index) = mr_overall_score (evaluate l opp atoms None index)"
proof -
  let ?v = "verified_atoms atoms"
  obtain cs stats where s: "select_candidates h opp atoms None index = (cs, stats)"
    by (cases "select_candidates h opp atoms None index")
  have sl: "select_candidates l opp atoms None index = (?v, snd (all_verified atoms))"
    using assms(2) by (simp add: select_candidates_def all_verified_def Let_def)
  have dv: "distinct (map atom_id ?v)"
    unfolding verified_atoms_def using assms(3) by (rule distinct_map_filter)
  have "distinct (map atom_id cs) \<and> set cs = set ?v"
  proof (cases "query_tokens_of opp = []")
    case True
    then show ?thesis using s assms(1) dv by (simp add: select_candidates_def all_verified_def Let_def)
  next
    case False
    define ids where "ids = std_set_of (lexical_top_ids (hc_k_lexical (m_hybrid_config h))
      (lexical_scored (query_tokens_of opp) atoms))"
    have cs: "cs = List.map_filter (atom_map atoms) ids"
      using s assms(1) False
      by (simp add: select_candidates_def Let_def embedding_top_ids_def ids_def)
    have set: "set ids = (\<lambda>a. atom_id_value (atom_id a)) ` set ?v"
      by (simp add: ids_def lexical_top_ids_all [OF assms(4)])
    have "set cs = set ?v"
      unfolding cs set_map_filter set
      using atom_map_distinct [OF assms(3)] atom_map_Some
      by (auto simp: verified_atoms_def)
    moreover have "distinct (map atom_id (List.map_filter (atom_map atoms) ks))" if "distinct ks" for ks
      using that
    proof (induction ks)
      case (Cons k ks)
      have "atom_id a \<notin> set (map atom_id (List.map_filter (atom_map atoms) ks))"
        if "atom_map atoms k = Some a" for a
        using atom_map_Some [OF that] atom_map_Some Cons.prems by (fastforce simp: set_map_filter)
      then show ?case using Cons by (auto simp: map_filter_simps split: option.splits)
    qed (simp add: map_filter_simps)
    moreover have "distinct ids" using sorted_set_std_set_of unfolding ids_def sorted_set_def by blast
    ultimately show ?thesis by (simp add: cs)
  qed
  then have "match_requirement (candidate_token_sets cs) cs = match_requirement (candidate_token_sets ?v) ?v"
    using match_requirement_cong dv by blast
  then show ?thesis by (simp add: evaluate_simps [OF s] evaluate_simps [OF sl])
qed

section \<open>Concrete inputs\<close>

definition demo_atom :: "string \<Rightarrow> string \<Rightarrow> bool \<Rightarrow> experience_atom" where
  "demo_atom i claim verified =
     \<lparr>atom_id = AtomId i, atom_domain = [], atom_title = [], atom_claim = claim, atom_tags = [],
      atom_verified = verified, atom_evidence_refs = []\<rparr>"

definition demo_opp :: opportunity where
  "demo_opp =
     \<lparr>opportunity_id = OpportunityId ''o1'', opp_company = ''Acme'', opp_role_title = ''Engineer'',
      opp_requirements = [\<lparr>req_text = ''Rust'', req_tags = [], req_required = True\<rparr>], opp_source = []\<rparr>"

definition demo_matcher :: "matching_strategy \<Rightarrow> matcher" where
  "demo_matcher s =
     \<lparr>m_weights = default_weights, m_strategy = s, m_hybrid_config = default_hybrid_config\<rparr>"

lemma demo_tokens: "tokenize_ascii ''Rust'' = [''rust'']" "tokenize_ascii ''rust go'' = [''rust'', ''go'']"
  by code_simp+

lemma demo_field: "tokenize_field ''Rust'' = [''rust'']"
  by (simp add: tokenize_field_def demo_tokens std_set_of_def)

lemma demo_small: "small_input demo_opp"
  by (simp add: small_input_def demo_opp_def demo_field)

theorem evaluate_score_bounds_witness:
  "0 \<le> mr_overall_score (evaluate (demo_matcher kDeterministicLexicalV01) demo_opp
      [demo_atom ''a1'' ''rust go'' True] None None)"
  using evaluate_score_bounds [OF demo_small] by blast

theorem evaluate_requirement_witness:
  "rm_matched (mr_requirement_matches (evaluate (demo_matcher kDeterministicLexicalV01) demo_opp
      [demo_atom ''a1'' ''rust go'' True] None None) ! 0)"
proof -
  have s: "select_candidates (demo_matcher kDeterministicLexicalV01) demo_opp
      [demo_atom ''a1'' ''rust go'' True] None None =
      ([demo_atom ''a1'' ''rust go'' True], snd (all_verified [demo_atom ''a1'' ''rust go'' True]))"
    by (simp add: select_candidates_def demo_matcher_def all_verified_def verified_atoms_def
        atom_verify_def demo_atom_def Let_def)
  have "''rust'' \<in> set (candidate_token_sets [demo_atom ''a1'' ''rust go'' True] ''a1'')"
    by (simp add: candidate_token_sets_def demo_atom_def set_atom_tokens demo_tokens)
  then show ?thesis
    using evaluate_requirement [OF demo_small s, of 0]
    by (simp add: demo_opp_def demo_field Let_def demo_atom_def)
qed

theorem evaluate_order_independent_witness:
  "evaluate (demo_matcher kDeterministicLexicalV01) demo_opp
      [demo_atom ''a1'' ''rust go'' True, demo_atom ''a2'' ''rust'' True] None None =
   evaluate (demo_matcher kDeterministicLexicalV01) demo_opp
      [demo_atom ''a2'' ''rust'' True, demo_atom ''a1'' ''rust go'' True] None None"
  by (rule evaluate_order_independent) (simp_all add: demo_matcher_def demo_atom_def)

lemma demo_atom_tokens: "atom_tokens (demo_atom ''a1'' ''rust go'' True) = [''go'', ''rust'']"
  by code_simp

lemma demo_match:
  "mr_requirement_matches (evaluate (demo_matcher kDeterministicLexicalV01) demo_opp
      [demo_atom ''a1'' ''rust go'' True] None None) =
   [\<lparr>rm_requirement_text = ''Rust'', rm_matched = True, rm_best_score = 1,
     rm_contributing_atom_id = Some (AtomId ''a1''), rm_evidence_tokens = [''rust'']\<rparr>]"
proof -
  have s: "select_candidates (demo_matcher kDeterministicLexicalV01) demo_opp
      [demo_atom ''a1'' ''rust go'' True] None None =
      ([demo_atom ''a1'' ''rust go'' True], snd (all_verified [demo_atom ''a1'' ''rust go'' True]))"
    by (simp add: select_candidates_def demo_matcher_def all_verified_def verified_atoms_def
        atom_verify_def demo_atom_def Let_def)
  have "atom_id (demo_atom ''a1'' ''rust go'' True) = AtomId ''a1''" by (simp add: demo_atom_def)
  then show ?thesis
    by (simp add: evaluate_simps [OF s])
      (simp add: demo_opp_def match_requirement_def demo_field best_match_def
        best_step_def candidate_token_sets_def demo_atom_tokens Let_def count_ratio_1_iff
        count_ratio_pos_iff)
qed

theorem lexical_credits_verified_witness:
  "\<exists>a \<in> set [demo_atom ''a1'' ''rust go'' True]. atom_id a = AtomId ''a1'' \<and> atom_verify a"
  by (rule lexical_credits_verified [OF demo_small, where m = "demo_matcher kDeterministicLexicalV01"
      and provider = None and index = None and rm = "\<lparr>rm_requirement_text = ''Rust'', rm_matched = True,
        rm_best_score = 1, rm_contributing_atom_id = Some (AtomId ''a1''), rm_evidence_tokens = [''rust'']\<rparr>"])
    (simp_all add: demo_matcher_def [symmetric] demo_match, simp add: demo_matcher_def)

lemma demo_query: "query_tokens_of demo_opp \<noteq> []"
  by (simp add: query_tokens_of_def demo_opp_def demo_field)

theorem hybrid_candidate_unverified_witness:
  "demo_atom ''a9'' ''rust'' False \<in> set (fst (select_candidates (demo_matcher kHybridLexicalEmbeddingV02)
     demo_opp [demo_atom ''a9'' ''rust'' False]
     (Some \<lparr>ep_embed_text = (\<lambda>_. [1]), ep_dimension = 1\<rparr>)
     (Some (\<lambda>v k. [\<lparr>vsr_key = ''a9'', vsr_score = 1, vsr_metadata = []\<rparr>]))))
   \<and> \<not> atom_verify (demo_atom ''a9'' ''rust'' False)"
proof
  show "demo_atom ''a9'' ''rust'' False \<in> set (fst (select_candidates (demo_matcher kHybridLexicalEmbeddingV02)
     demo_opp [demo_atom ''a9'' ''rust'' False]
     (Some \<lparr>ep_embed_text = (\<lambda>_. [1]), ep_dimension = 1\<rparr>)
     (Some (\<lambda>v k. [\<lparr>vsr_key = ''a9'', vsr_score = 1, vsr_metadata = []\<rparr>]))))"
    by (rule hybrid_candidate_unverified [OF _ demo_query, where r =
          "\<lparr>vsr_key = ''a9'', vsr_score = 1, vsr_metadata = []\<rparr>"])
      (simp_all add: demo_matcher_def demo_atom_def)
qed (simp add: atom_verify_def demo_atom_def)

theorem hybrid_agrees_with_lexical_witness:
  "mr_requirement_matches (evaluate (demo_matcher kHybridLexicalEmbeddingV02) demo_opp
      [demo_atom ''a1'' ''rust go'' True] None None) =
   mr_requirement_matches (evaluate (demo_matcher kDeterministicLexicalV01) demo_opp
      [demo_atom ''a1'' ''rust go'' True] None None)"
  using hybrid_agrees_with_lexical [of "demo_matcher kHybridLexicalEmbeddingV02"
      "demo_matcher kDeterministicLexicalV01" "[demo_atom ''a1'' ''rust go'' True]" demo_opp None]
  by (simp add: demo_matcher_def demo_atom_def verified_atoms_def atom_verify_def default_hybrid_config_def)

end
