(* ===== verification/Ordered_Map.thy ===== *)
theory Ordered_Map
  imports Ccmcp_Prelude "HOL-Library.Multiset"
begin

text \<open>
  \<open>std::map\<close> as the list of its entries in key order: \<open>m[k] = v\<close> is
  \<open>omap_insert\<close>, \<open>find\<close> is \<open>map_of\<close>, iteration is the list. The invariant is
  that the keys are strictly sorted; a map is then determined by its lookups.
\<close>

fun omap_insert :: "'k::linorder \<Rightarrow> 'v \<Rightarrow> ('k \<times> 'v) list \<Rightarrow> ('k \<times> 'v) list" where
  "omap_insert k v [] = [(k, v)]"
| "omap_insert k v ((k', v') # m) =
     (if k < k' then (k, v) # (k', v') # m
      else if k' < k then (k', v') # omap_insert k v m
      else (k, v) # m)"

definition omap_inv :: "('k::linorder \<times> 'v) list \<Rightarrow> bool" where
  "omap_inv m \<longleftrightarrow> sorted_set (map fst m)"

named_theorems ccmcp_map "lookups in ordered maps"

lemma omap_inv_Nil [simp]: "omap_inv []"
  by (simp add: omap_inv_def sorted_set_def)

lemma sorted_set_Cons_iff: "sorted_set (x # xs) \<longleftrightarrow> (\<forall>y \<in> set xs. x < y) \<and> sorted_set xs"
  by (auto simp: sorted_set_def intro: le_neq_trans)

lemma omap_inv_Cons: "omap_inv ((k, v) # m) \<longleftrightarrow> (\<forall>k' \<in> fst ` set m. k < k') \<and> omap_inv m"
  by (auto simp: omap_inv_def sorted_set_Cons_iff)

lemma fst_omap_insert: "fst ` set (omap_insert k v m) = insert k (fst ` set m)"
  by (induction k v m rule: omap_insert.induct) auto

lemma set_omap_insert: "set (omap_insert k v m) \<subseteq> insert (k, v) (set m)"
  by (induction k v m rule: omap_insert.induct) auto

lemma omap_inv_insert [simp]: "omap_inv m \<Longrightarrow> omap_inv (omap_insert k v m)"
proof (induction k v m rule: omap_insert.induct)
  case (2 k v k' v' m)
  then show ?case by (auto simp: omap_inv_Cons fst_omap_insert intro: less_trans)
qed (simp add: omap_inv_Cons)

lemma map_of_omap_insert [simp, ccmcp_map]:
  "omap_inv m \<Longrightarrow> map_of (omap_insert k v m) = (map_of m)(k \<mapsto> v)"
proof (induction k v m rule: omap_insert.induct)
  case (2 k v k' v' m)
  have "k' = k" if "\<not> k < k'" "\<not> k' < k" using that by auto
  with 2 show ?case by (auto simp: omap_inv_Cons fun_eq_iff)
qed auto

lemma omap_distinct: "omap_inv m \<Longrightarrow> distinct (map fst m)"
  by (simp add: omap_inv_def sorted_set_def)

lemma omap_map_of_iff: "omap_inv m \<Longrightarrow> map_of m k = Some v \<longleftrightarrow> (k, v) \<in> set m"
  by (auto dest: map_of_SomeD intro: map_of_is_SomeI omap_distinct)

lemma omap_eqI:
  assumes "omap_inv m" "omap_inv n" "map_of m = map_of n" shows "m = n"
proof -
  have s: "set m = set n" using omap_map_of_iff [OF assms(1)] omap_map_of_iff [OF assms(2)] assms(3) by auto
  have "map fst m = map fst n"
    using assms(1,2) s by (intro sorted_set_unique) (auto simp: omap_inv_def)
  then show ?thesis
    using s assms(1,2)
  proof (induction m arbitrary: n)
    case (Cons x m)
    then obtain y n' where n: "n = y # n'" by (cases n) auto
    have d: "distinct (map fst (x # m))" "distinct (map fst n)"
      using Cons.prems omap_distinct by blast+
    have "x \<in> set n" using Cons.prems(2) by auto
    moreover have "fst x = fst y" using Cons.prems(1) n by simp
    ultimately have xy: "x = y" using d(2) n by (auto simp: image_iff)
    have "set m = set n'"
      using Cons.prems(2) d xy n by (auto simp: image_iff)
    moreover have "omap_inv m" "omap_inv n'"
      using Cons.prems(3,4) n by (metis omap_inv_Cons prod.collapse)+
    ultimately show ?case using Cons.IH [of n'] Cons.prems(1) n xy by auto
  qed simp
qed

text \<open>Insertions at different keys commute, and only the last at a key counts.\<close>

lemma omap_insert_commute:
  "omap_inv m \<Longrightarrow> k \<noteq> k' \<Longrightarrow>
     omap_insert k v (omap_insert k' v' m) = omap_insert k' v' (omap_insert k v m)"
  by (rule omap_eqI) (auto simp: fun_upd_twist)

lemma omap_insert_overwrite:
  "omap_inv m \<Longrightarrow> omap_insert k v (omap_insert k v' m) = omap_insert k v m"
  by (rule omap_eqI) auto

text \<open>Searching a list by key.\<close>

lemma find_append:
  "find P (xs @ ys) = (case find P xs of Some a \<Rightarrow> Some a | None \<Rightarrow> find P ys)"
  by (induction xs) auto

lemma find_key_iff:
  "distinct (map key xs) \<Longrightarrow> find (\<lambda>x. key x = k) xs = Some a \<longleftrightarrow> a \<in> set xs \<and> key a = k"
  by (induction xs) (auto simp: image_iff)

end
