(* ===== verification/Json_Api.thy ===== *)
theory Json_Api
  imports Ordered_Map Binary64
begin

text \<open>
  The JSON library (\<open>nlohmann::json\<close>) is not part of the repository: it is the record
  \<open>json_api\<close> over an arbitrary type of JSON values, and what the program relies on is the
  locale \<open>json_library\<close>: an object gives back the members it was built from, the typed
  getters give back the values, and parsing undoes printing. Printing may throw (a string that is not
  UTF-8), so it returns a result. The theory ends with a concrete instance, a tree of values printed
  with explicit lengths.
\<close>

text \<open>\<open>j_value_error\<close> is what \<open>value()\<close> throws on a value that is no object;
  \<open>j_elems\<close> is the range of a loop over an array, \<open>j_items\<close> the members of an
  object in key order; an \<open>Inl\<close> is the message of the exception thrown.\<close>

record 'j json_api =
  j_null :: 'j
  j_bool :: "bool \<Rightarrow> 'j"
  j_int :: "int \<Rightarrow> 'j"
  j_double :: "double \<Rightarrow> 'j"
  j_string :: "string \<Rightarrow> 'j"
  j_array :: "'j list \<Rightarrow> 'j"
  j_object :: "(string \<times> 'j) list \<Rightarrow> 'j"
  j_is_null :: "'j \<Rightarrow> bool"
  j_is_string :: "'j \<Rightarrow> bool"
  j_is_number :: "'j \<Rightarrow> bool"
  j_is_object :: "'j \<Rightarrow> bool"
  j_contains :: "'j \<Rightarrow> string \<Rightarrow> bool"
  j_at :: "'j \<Rightarrow> string \<Rightarrow> (string, 'j) result"
  j_value_error :: "'j \<Rightarrow> string"
  j_elems :: "'j \<Rightarrow> 'j list"
  j_items :: "'j \<Rightarrow> (string, (string \<times> 'j) list) result"
  j_get_string :: "'j \<Rightarrow> (string, string) result"
  j_get_bool :: "'j \<Rightarrow> (string, bool) result"
  j_get_int :: "'j \<Rightarrow> (string, int) result"
  j_get_strings :: "'j \<Rightarrow> (string, string list) result"
  j_dump :: "'j \<Rightarrow> (string, string) result"
  j_parse :: "string \<Rightarrow> (string, 'j) result"

locale json_library =
  fixes J :: "'j json_api"
  assumes at_object: "distinct (map fst kvs) \<Longrightarrow> map_of kvs k = Some v \<Longrightarrow> j_at J (j_object J kvs) k = Inr v"
    and contains_object: "distinct (map fst kvs) \<Longrightarrow>
      j_contains J (j_object J kvs) k \<longleftrightarrow> k \<in> fst ` set kvs"
    and is_object_object: "j_is_object J (j_object J kvs)"
    and is_object_string: "\<not> j_is_object J (j_string J s)"
    and is_object_array: "\<not> j_is_object J (j_array J js)"
    and is_object_null: "\<not> j_is_object J (j_null J)"
    and elems_array: "j_elems J (j_array J js) = js"
    and items_object: "omap_inv kvs \<Longrightarrow> j_items J (j_object J kvs) = Inr kvs"
    and is_null_null: "j_is_null J (j_null J)"
    and is_null_string: "\<not> j_is_null J (j_string J s)"
    and is_string_string: "j_is_string J (j_string J s)"
    and is_string_int: "\<not> j_is_string J (j_int J n)"
    and is_string_null: "\<not> j_is_string J (j_null J)"
    and is_number_null: "\<not> j_is_number J (j_null J)"
    and is_number_int: "j_is_number J (j_int J n)"
    and get_string_string: "j_get_string J (j_string J s) = Inr s"
    and get_bool_bool: "j_get_bool J (j_bool J b) = Inr b"
    and get_int_int: "j_get_int J (j_int J n) = Inr n"
    and get_strings_array: "j_get_strings J (j_array J (map (j_string J) ss)) = Inr ss"
    and parse_dump: "j_dump J j = Inr s \<Longrightarrow> j_parse J s = Inr j"
begin

lemma dump_inj: "j_dump J a = Inr s \<Longrightarrow> j_dump J b = Inr s \<Longrightarrow> a = b"
  by (metis parse_dump sum.inject(2))

lemma object_member_inj:
  assumes "j_object J kvs = j_object J kvs'" "distinct (map fst kvs)" "distinct (map fst kvs')"
    and "map_of kvs k = Some v" "map_of kvs' k = Some v'"
  shows "v = v'"
  by (metis at_object assms sum.inject(2))

lemma string_inj: "j_string J s = j_string J t \<Longrightarrow> s = t"
  by (metis get_string_string sum.inject(2))

lemma strings_inj: "j_array J (map (j_string J) ss) = j_array J (map (j_string J) ts) \<Longrightarrow> ss = ts"
  by (metis get_strings_array sum.inject(2))

lemmas json_laws = at_object contains_object is_object_object is_object_string elems_array items_object
  is_object_array is_object_null is_null_null is_null_string is_string_string is_string_int is_string_null is_number_null
  is_number_int get_string_string get_bool_bool get_int_int get_strings_array

end

text \<open>\<open>j.value(k, d)\<close> and \<open>j.at(k).get<T>()\<close>.\<close>

definition j_value :: "'j json_api \<Rightarrow> ('j \<Rightarrow> (string, 'a) result) \<Rightarrow> 'j \<Rightarrow> string \<Rightarrow> 'a \<Rightarrow> (string, 'a) result" where
  "j_value J getter j k d =
     (if \<not> j_is_object J j then Inl (j_value_error J j)
      else if j_contains J j k then result_bind (j_at J j k) getter else Inr d)"

definition j_get_at :: "'j json_api \<Rightarrow> ('j \<Rightarrow> (string, 'a) result) \<Rightarrow> 'j \<Rightarrow> string \<Rightarrow> (string, 'a) result" where
  "j_get_at J getter j k = result_bind (j_at J j k) getter"

section \<open>A concrete library\<close>

datatype jtree =
  TNull | TBool bool | TInt int | TDouble rat | TString string
| TArray "jtree list" | TObject "(string \<times> jtree) list"

text \<open>Numbers are printed in unary, strings and lists after their length.\<close>

definition enc_nat :: "nat \<Rightarrow> string" where
  "enc_nat n = replicate n CHR ''x'' @ '':''"

definition enc_int :: "int \<Rightarrow> string" where
  "enc_int i = (if i < 0 then CHR ''-'' else CHR ''+'') # enc_nat (nat \<bar>i\<bar>)"

definition enc_string :: "string \<Rightarrow> string" where
  "enc_string s = enc_nat (length s) @ s"

fun enc_tree :: "jtree \<Rightarrow> string" where
  "enc_tree TNull = ''n''"
| "enc_tree (TBool b) = (if b then ''t'' else ''f'')"
| "enc_tree (TInt i) = CHR ''i'' # enc_int i"
| "enc_tree (TDouble x) =
     CHR ''d'' # enc_int (fst (quotient_of x)) @ enc_int (snd (quotient_of x))"
| "enc_tree (TString s) = CHR ''s'' # enc_string s"
| "enc_tree (TArray js) = CHR ''a'' # enc_nat (length js) @ concat (map enc_tree js)"
| "enc_tree (TObject kvs) =
     CHR ''o'' # enc_nat (length kvs) @ concat (map (\<lambda>(k, v). enc_string k @ enc_tree v) kvs)"

definition dec_nat :: "string \<Rightarrow> nat \<times> string" where
  "dec_nat s = (length (takeWhile (\<lambda>c. c = CHR ''x'') s), tl (dropWhile (\<lambda>c. c = CHR ''x'') s))"

definition dec_int :: "string \<Rightarrow> int \<times> string" where
  "dec_int s =
     (case dec_nat (tl s) of (n, r) \<Rightarrow> (if s \<noteq> [] \<and> hd s = CHR ''-'' then - int n else int n, r))"

definition dec_string :: "string \<Rightarrow> string \<times> string" where
  "dec_string s = (case dec_nat s of (n, r) \<Rightarrow> (take n r, drop n r))"

text \<open>The fuel bounds the nesting; the length of the input is enough.\<close>

fun dec_list :: "(string \<Rightarrow> ('a \<times> string) option) \<Rightarrow> nat \<Rightarrow> string \<Rightarrow> ('a list \<times> string) option" where
  "dec_list d 0 s = Some ([], s)"
| "dec_list d (Suc n) s =
     (case d s of
        None \<Rightarrow> None
      | Some (x, r) \<Rightarrow> (case dec_list d n r of None \<Rightarrow> None | Some (xs, r') \<Rightarrow> Some (x # xs, r')))"

fun dec_tree :: "nat \<Rightarrow> string \<Rightarrow> (jtree \<times> string) option" where
  "dec_tree 0 s = None"
| "dec_tree (Suc fuel) [] = None"
| "dec_tree (Suc fuel) (c # s) =
     (if c = CHR ''n'' then Some (TNull, s)
      else if c = CHR ''t'' then Some (TBool True, s)
      else if c = CHR ''f'' then Some (TBool False, s)
      else if c = CHR ''i'' then (case dec_int s of (i, r) \<Rightarrow> Some (TInt i, r))
      else if c = CHR ''d''
      then (case dec_int s of (p, r) \<Rightarrow> case dec_int r of (q, r') \<Rightarrow> Some (TDouble (of_int p / of_int q), r'))
      else if c = CHR ''s'' then (case dec_string s of (t, r) \<Rightarrow> Some (TString t, r))
      else if c = CHR ''a''
      then (case dec_nat s of (n, r) \<Rightarrow> map_option (\<lambda>(js, r'). (TArray js, r')) (dec_list (dec_tree fuel) n r))
      else if c = CHR ''o''
      then (case dec_nat s of (n, r) \<Rightarrow>
              map_option (\<lambda>(kvs, r'). (TObject kvs, r'))
                (dec_list (\<lambda>t. case dec_string t of (k, t') \<Rightarrow>
                   map_option (\<lambda>(v, t''). ((k, v), t'')) (dec_tree fuel t')) n r))
      else None)"

lemma dec_enc_nat [simp]: "dec_nat (enc_nat n @ r) = (n, r)"
  by (induction n) (simp_all add: dec_nat_def enc_nat_def)

lemma dec_enc_int [simp]: "dec_int (enc_int i @ r) = (i, r)"
  by (simp add: dec_int_def enc_int_def)

lemma dec_enc_string [simp]: "dec_string (enc_string s @ r) = (s, r)"
  by (simp add: dec_string_def enc_string_def)

lemma dec_enc_list:
  "(\<And>x r. x \<in> set xs \<Longrightarrow> d (e x @ r) = Some (x, r)) \<Longrightarrow>
     dec_list d (length xs) (concat (map e xs) @ r) = Some (xs, r)"
  by (induction xs) auto

fun depth :: "jtree \<Rightarrow> nat" where
  "depth (TArray js) = Suc (Max (insert 0 (depth ` set js)))"
| "depth (TObject kvs) = Suc (Max (insert 0 ((\<lambda>(k, v). depth v) ` set kvs)))"
| "depth _ = 1"

lemma dec_enc_tree: "depth j \<le> fuel \<Longrightarrow> dec_tree fuel (enc_tree j @ r) = Some (j, r)"
proof (induction j arbitrary: fuel r)
  case (TDouble x)
  have "of_int (fst (quotient_of x)) / of_int (snd (quotient_of x)) = x"
    by (metis prod.collapse quotient_of_div)
  then show ?case using TDouble by (cases fuel) simp_all
next
  case (TArray js)
  then obtain f where f: "fuel = Suc f" by (cases fuel) auto
  have "dec_tree f (enc_tree x @ r') = Some (x, r')" if "x \<in> set js" for x r'
  proof (rule TArray.IH [OF that])
    have "depth x \<le> Max (insert 0 (depth ` set js))" using that by (intro Max_ge) auto
    also have "\<dots> \<le> f" using TArray.prems f by simp
    finally show "depth x \<le> f" .
  qed
  from dec_enc_list [of js "dec_tree f" enc_tree, OF this] show ?case by (simp add: f)
next
  case (TObject kvs)
  then obtain f where f: "fuel = Suc f" by (cases fuel) auto
  have "dec_tree f (enc_tree v @ r') = Some (v, r')" if "(k, v) \<in> set kvs" for k v r'
  proof (rule TObject.IH [OF that])
    have "depth v \<le> Max (insert 0 ((\<lambda>(k, v). depth v) ` set kvs))" using that by (intro Max_ge) force+
    also have "\<dots> \<le> f" using TObject.prems f by simp
    finally show "depth v \<le> f" .
  qed simp
  then have "dec_list (\<lambda>t. case dec_string t of (k, t') \<Rightarrow>
       map_option (\<lambda>(v, t''). ((k, v), t'')) (dec_tree f t')) (length kvs)
     (concat (map (\<lambda>(k, v). enc_string k @ enc_tree v) kvs) @ r) = Some (kvs, r)"
    by (intro dec_enc_list) (auto split: prod.splits)
  then show ?case by (simp add: f)
qed (auto simp: Suc_le_eq gr0_conv_Suc)

lemma length_concat_ge: "x \<in> set xs \<Longrightarrow> length (e x) \<le> length (concat (map e xs))"
  by (induction xs) auto

lemma depth_le_length: "depth j \<le> length (enc_tree j)"
proof (induction j)
  case (TArray js)
  have "depth x \<le> length (concat (map enc_tree js))" if "x \<in> set js" for x
    using TArray.IH [OF that] length_concat_ge [OF that, of enc_tree] by simp
  then have "Max (insert 0 (depth ` set js)) \<le> length (concat (map enc_tree js))" by auto
  then show ?case by (simp del: Max_insert Max_le_iff)
next
  case (TObject kvs)
  let ?e = "\<lambda>(k, v). enc_string k @ enc_tree v"
  have "depth v \<le> length (concat (map ?e kvs))" if "(k, v) \<in> set kvs" for k v
    using TObject.IH [OF that, of v] length_concat_ge [OF that, of ?e] by simp
  then have "Max (insert 0 ((\<lambda>(k, v). depth v) ` set kvs)) \<le> length (concat (map ?e kvs))" by auto
  then show ?case by (simp del: Max_insert Max_le_iff)
qed simp_all

definition tree_at :: "jtree \<Rightarrow> string \<Rightarrow> (string, jtree) result" where
  "tree_at j k =
     (case j of TObject kvs \<Rightarrow> (case map_of kvs k of Some v \<Rightarrow> Inr v | None \<Rightarrow> Inl ''key not found'')
      | _ \<Rightarrow> Inl ''cannot use at()'')"

fun tree_strings :: "jtree list \<Rightarrow> (string, string list) result" where
  "tree_strings [] = Inr []"
| "tree_strings (TString s # js) = result_bind (tree_strings js) (\<lambda>ss. Inr (s # ss))"
| "tree_strings (_ # js) = Inl ''type must be string''"

definition tree_type_name :: "jtree \<Rightarrow> string" where
  "tree_type_name j =
     (case j of TNull \<Rightarrow> ''null'' | TBool _ \<Rightarrow> ''boolean'' | TInt _ \<Rightarrow> ''number'' | TDouble _ \<Rightarrow> ''number''
      | TString _ \<Rightarrow> ''string'' | TArray _ \<Rightarrow> ''array'' | TObject _ \<Rightarrow> ''object'')"

definition tree_json :: "jtree json_api" where
  "tree_json =
     \<lparr>j_null = TNull, j_bool = TBool, j_int = TInt, j_double = TDouble, j_string = TString,
      j_array = TArray, j_object = TObject,
      j_is_null = (\<lambda>j. j = TNull),
      j_is_string = (\<lambda>j. case j of TString _ \<Rightarrow> True | _ \<Rightarrow> False),
      j_is_number = (\<lambda>j. case j of TInt _ \<Rightarrow> True | TDouble _ \<Rightarrow> True | _ \<Rightarrow> False),
      j_is_object = (\<lambda>j. case j of TObject _ \<Rightarrow> True | _ \<Rightarrow> False),
      j_contains = (\<lambda>j k. case j of TObject kvs \<Rightarrow> k \<in> fst ` set kvs | _ \<Rightarrow> False),
      j_at = tree_at,
      j_value_error = (\<lambda>j. ''[json.exception.type_error.306] cannot use value() with '' @ tree_type_name j),
      j_elems = (\<lambda>j. case j of TArray js \<Rightarrow> js | TObject kvs \<Rightarrow> map snd kvs | TNull \<Rightarrow> [] | _ \<Rightarrow> [j]),
      j_items = (\<lambda>j. case j of TObject kvs \<Rightarrow> Inr kvs | _ \<Rightarrow> Inl ''type must be object''),
      j_get_string = (\<lambda>j. case j of TString s \<Rightarrow> Inr s | _ \<Rightarrow> Inl ''type must be string''),
      j_get_bool = (\<lambda>j. case j of TBool b \<Rightarrow> Inr b | _ \<Rightarrow> Inl ''type must be boolean''),
      j_get_int = (\<lambda>j. case j of TInt n \<Rightarrow> Inr n | _ \<Rightarrow> Inl ''type must be number''),
      j_get_strings = (\<lambda>j. case j of TArray js \<Rightarrow> tree_strings js | _ \<Rightarrow> Inl ''type must be array''),
      j_dump = (\<lambda>j. Inr (enc_tree j)),
      j_parse = (\<lambda>s. case dec_tree (length s) s of Some (j, []) \<Rightarrow> Inr j | _ \<Rightarrow> Inl ''parse error'')\<rparr>"

lemma tree_strings_map [simp]: "tree_strings (map TString ss) = Inr ss"
  by (induction ss) simp_all

interpretation tree: json_library tree_json
proof
  fix j s
  assume "j_dump tree_json j = Inr s"
  then have s: "s = enc_tree j" by (simp add: tree_json_def)
  have "dec_tree (length s) (enc_tree j @ []) = Some (j, [])"
    using depth_le_length [of j] by (intro dec_enc_tree) (simp add: s)
  then show "j_parse tree_json s = Inr j" by (simp add: tree_json_def s)
qed (simp_all add: tree_json_def tree_at_def)

section \<open>Printed text\<close>

text \<open>\<open>dump()\<close> escapes control characters: its text is a C string as a whole.\<close>

locale json_text = json_library +
  assumes dump_no_nul: "j_dump J j = Inr s \<Longrightarrow> CHR 0x00 \<notin> set s"

definition text_json :: "jtree json_api" where
  "text_json = tree_json\<lparr>j_dump := (\<lambda>j. if CHR 0x00 \<in> set (enc_tree j) then Inl ''NUL'' else Inr (enc_tree j))\<rparr>"

interpretation printed: json_text text_json
proof
  fix j s
  assume d: "j_dump text_json j = Inr s"
  then show "CHR 0x00 \<notin> set s" by (auto simp: text_json_def split: if_splits)
  have "j_dump tree_json j = Inr s" using d by (auto simp: text_json_def tree_json_def split: if_splits)
  from tree.parse_dump [OF this] show "j_parse text_json s = Inr j" by (simp add: text_json_def)
qed (simp_all add: text_json_def tree_json_def tree_at_def)

section \<open>What the library prints\<close>

text \<open>\<open>dump()\<close> throws on a string that is not UTF-8 and on nothing else; \<open>parse()\<close> rejects such
  a string. So ASCII text, what was parsed, and what is built of these can be printed.\<close>

definition printable :: "'j json_api \<Rightarrow> 'j \<Rightarrow> bool" where
  "printable J j \<longleftrightarrow> (\<exists>s. j_dump J j = Inr s)"

definition ascii :: "string \<Rightarrow> bool" where
  "ascii s \<longleftrightarrow> list_all (\<lambda>c. \<not> digit7 c) s"

locale json_printing = json_library +
  assumes print_object: "list_all (\<lambda>(k, v). ascii k \<and> printable J v) kvs \<Longrightarrow> printable J (j_object J kvs)"
    and print_array: "list_all (printable J) js \<Longrightarrow> printable J (j_array J js)"
    and print_null: "printable J (j_null J)"
    and print_int: "printable J (j_int J n)"
    and print_text: "ascii s \<Longrightarrow> printable J (j_string J s)"
    and print_message: "ascii s \<Longrightarrow> printable J (j_string J t) \<Longrightarrow> printable J (j_string J (s @ t))"
    and print_parsed: "j_parse J s = Inr j \<Longrightarrow> printable J j"
    and print_member: "printable J j \<Longrightarrow> j_at J j k = Inr v \<Longrightarrow> printable J v"
    and string_value: "j_get_string J j = Inr s \<Longrightarrow> j = j_string J s"
begin

lemmas print_laws = print_object print_array print_null print_int print_text print_message

end

text \<open>A library that prints and reads ASCII only.\<close>

definition ascii_json :: "jtree json_api" where
  "ascii_json = tree_json
     \<lparr>j_dump := (\<lambda>j. if ascii (enc_tree j) then Inr (enc_tree j) else Inl ''[json.exception.type_error.316]''),
      j_parse := (\<lambda>s. result_bind (j_parse tree_json s) (\<lambda>j.
        if ascii (enc_tree j) then Inr j else Inl ''[json.exception.parse_error.101]''))\<rparr>"

lemma ascii_append [simp]: "ascii (s @ t) \<longleftrightarrow> ascii s \<and> ascii t"
  by (simp add: ascii_def)

lemma ascii_Nil [simp]: "ascii []"
  by (simp add: ascii_def)

lemma ascii_concat: "ascii (concat ss) \<longleftrightarrow> list_all ascii ss"
  by (induction ss) (simp_all add: ascii_def)

lemma ascii_enc_nat: "ascii (enc_nat n)"
  by (induction n) (simp_all add: ascii_def enc_nat_def)

lemma printable_ascii_json: "printable ascii_json j \<longleftrightarrow> ascii (enc_tree j)"
  by (simp add: printable_def ascii_json_def)

lemma ascii_Cons [simp]: "ascii (c # s) \<longleftrightarrow> \<not> digit7 c \<and> ascii s"
  by (simp add: ascii_def)

lemma ascii_enc_tree:
  "ascii (enc_tree (TObject kvs)) \<longleftrightarrow> list_all (\<lambda>(k, v). ascii k \<and> ascii (enc_tree v)) kvs"
  "ascii (enc_tree (TArray js)) \<longleftrightarrow> list_all (\<lambda>j. ascii (enc_tree j)) js"
  by (auto simp: ascii_concat ascii_enc_nat enc_string_def list_all_iff)

interpretation ascii: json_printing ascii_json
proof
  fix j s
  assume d: "j_dump ascii_json j = Inr s"
  then have "j_dump tree_json j = Inr s" "ascii (enc_tree j)"
    by (simp_all add: ascii_json_def tree_json_def split: if_splits)
  with tree.parse_dump [of j s] show "j_parse ascii_json s = Inr j" by (simp add: ascii_json_def)
next
  fix j k v
  assume p: "printable ascii_json j" "j_at ascii_json j k = Inr v"
  then obtain kvs where kvs: "j = TObject kvs" "map_of kvs k = Some v"
    by (auto simp: ascii_json_def tree_json_def tree_at_def split: jtree.splits option.splits)
  with p(1) show "printable ascii_json v"
    by (auto simp: printable_ascii_json ascii_enc_tree list_all_iff simp del: enc_tree.simps dest!: map_of_SomeD)
next
  fix kvs
  assume "list_all (\<lambda>(k, v). ascii k \<and> printable ascii_json v) kvs"
  then have "ascii (enc_tree (TObject kvs))" by (simp add: printable_ascii_json ascii_enc_tree(1) del: enc_tree.simps)
  then show "printable ascii_json (j_object ascii_json kvs)"
    by (simp add: printable_ascii_json del: enc_tree.simps) (simp add: ascii_json_def tree_json_def)
next
  fix js
  assume "list_all (printable ascii_json) js"
  then have "ascii (enc_tree (TArray js))" by (simp add: printable_ascii_json [abs_def] ascii_enc_tree(2) del: enc_tree.simps)
  then show "printable ascii_json (j_array ascii_json js)"
    by (simp add: printable_ascii_json del: enc_tree.simps) (simp add: ascii_json_def tree_json_def)
qed (simp_all add: printable_ascii_json, auto simp: ascii_json_def tree_json_def tree_at_def enc_string_def enc_int_def
      ascii_enc_nat result_bind_Inr_iff split: jtree.splits if_splits)


end
