(* ===== verification/Audit_Log.thy ===== *)
theory Audit_Log
  imports Sha256 Json_Api Ordered_Map
begin

text \<open>
  The audit trail: the hash of an event and the verification of a chain
  (\<open>src/storage/audit_chain.cpp\<close>) and the in-memory log (\<open>src/storage/audit_log.cpp\<close>),
  which links each event to the previous one of its trace. Printing an event may throw; then nothing is
  appended. The lemmas show that the log's traces always verify, what verification accepts, and that
  two different chains with the same last hash exhibit a collision of SHA-256.
\<close>

section \<open>Events and chains\<close>

record audit_event =
  ae_event_id :: string
  ae_trace_id :: string
  ae_event_type :: string
  ae_payload :: string
  ae_created_at :: string
  ae_refs :: "string list"
  ae_previous_hash :: string
  ae_event_hash :: string

definition kGenesisHash :: string where
  "kGenesisHash = replicate 64 CHR ''0''"

definition event_members :: "'j json_api \<Rightarrow> audit_event \<Rightarrow> (string \<times> 'j) list" where
  "event_members J event =
     [(''created_at'', j_string J (ae_created_at event)),
      (''event_id'', j_string J (ae_event_id event)),
      (''event_type'', j_string J (ae_event_type event)),
      (''payload'', j_string J (ae_payload event)),
      (''refs'', j_array J (map (j_string J) (ae_refs event))),
      (''trace_id'', j_string J (ae_trace_id event))]"

definition compute_event_hash ::
  "'j json_api \<Rightarrow> audit_event \<Rightarrow> string \<Rightarrow> (string, string) result" where
  "compute_event_hash J event previous_hash =
     result_bind (j_dump J (j_object J (event_members J event)))
       (\<lambda>text. Inr (sha256_hex (text @ previous_hash)))"

record chain_verification =
  cv_valid :: bool
  cv_first_invalid_index :: nat
  cv_error :: string

fun verify_loop ::
  "'j json_api \<Rightarrow> string \<Rightarrow> nat \<Rightarrow> audit_event list \<Rightarrow> (string, chain_verification) result" where
  "verify_loop J expected_previous i [] =
     Inr \<lparr>cv_valid = True, cv_first_invalid_index = i, cv_error = []\<rparr>"
| "verify_loop J expected_previous i (ev # events) =
     (if ae_previous_hash ev \<noteq> expected_previous
      then Inr \<lparr>cv_valid = False, cv_first_invalid_index = i,
                cv_error = ''previous_hash mismatch at index '' @ to_string_nat i\<rparr>
      else result_bind (compute_event_hash J ev (ae_previous_hash ev)) (\<lambda>computed.
             if ae_event_hash ev \<noteq> computed
             then Inr \<lparr>cv_valid = False, cv_first_invalid_index = i,
                       cv_error = ''event_hash mismatch at index '' @ to_string_nat i\<rparr>
             else verify_loop J (ae_event_hash ev) (i + 1) events))"

definition verify_audit_chain ::
  "'j json_api \<Rightarrow> audit_event list \<Rightarrow> (string, chain_verification) result" where
  "verify_audit_chain J events =
     (if events = [] then Inr \<lparr>cv_valid = True, cv_first_invalid_index = 0, cv_error = []\<rparr>
      else verify_loop J kGenesisHash 0 events)"

section \<open>The in-memory log\<close>

record audit_log =
  al_events :: "audit_event list"
  al_last_hash :: "(string \<times> string) list"

definition empty_log :: audit_log where
  "empty_log = \<lparr>al_events = [], al_last_hash = []\<rparr>"

definition log_append :: "'j json_api \<Rightarrow> audit_event \<Rightarrow> audit_log \<Rightarrow> (string, audit_log) result" where
  "log_append J event lg =
     (let prev = (case map_of (al_last_hash lg) (ae_trace_id event) of
                    Some h \<Rightarrow> h | None \<Rightarrow> kGenesisHash)
      in result_bind (compute_event_hash J event prev) (\<lambda>h.
           let stored = event\<lparr>ae_previous_hash := prev, ae_event_hash := h\<rparr>
           in Inr \<lparr>al_events = al_events lg @ [stored],
                   al_last_hash = omap_insert (ae_trace_id event) h (al_last_hash lg)\<rparr>))"

definition log_query :: "audit_log \<Rightarrow> string \<Rightarrow> audit_event list" where
  "log_query lg trace_id =
     (if trace_id = [] then al_events lg
      else filter (\<lambda>event. ae_trace_id event = trace_id) (al_events lg))"

definition log_list_trace_ids :: "audit_log \<Rightarrow> string list" where
  "log_list_trace_ids lg = map fst (al_last_hash lg)"

text \<open>\<open>append\<close> as an action: an append that throws leaves the log as it is.\<close>

definition mem_append :: "'j json_api \<Rightarrow> audit_event \<Rightarrow> audit_log \<Rightarrow> (string, unit) result \<times> audit_log" where
  "mem_append J event lg =
     (case log_append J event lg of Inl e \<Rightarrow> (Inl e, lg) | Inr lg' \<Rightarrow> (Inr (), lg'))"

text \<open>A client appending events, going on when an append throws.\<close>

fun store_appends ::
  "(audit_event \<Rightarrow> 'l \<Rightarrow> (string, unit) result \<times> 'l) \<Rightarrow> audit_event list \<Rightarrow> 'l \<Rightarrow> 'l" where
  "store_appends ap [] l = l"
| "store_appends ap (ev # evs) l = store_appends ap evs (snd (ap ev l))"

section \<open>Chains\<close>

fun chain_ok :: "'j json_api \<Rightarrow> string \<Rightarrow> audit_event list \<Rightarrow> bool" where
  "chain_ok J p [] = True"
| "chain_ok J p (e # es) \<longleftrightarrow>
     ae_previous_hash e = p \<and> compute_event_hash J e p = Inr (ae_event_hash e) \<and>
     chain_ok J (ae_event_hash e) es"

definition chain_end :: "string \<Rightarrow> audit_event list \<Rightarrow> string" where
  "chain_end p es = (if es = [] then p else ae_event_hash (last es))"

lemma chain_ok_append:
  "chain_ok J p (es @ fs) \<longleftrightarrow> chain_ok J p es \<and> chain_ok J (chain_end p es) fs"
  by (induction es arbitrary: p) (auto simp: chain_end_def)

lemma verify_loop_valid_iff:
  "verify_loop J p i es = Inr v \<and> cv_valid v \<longleftrightarrow>
     chain_ok J p es \<and> v = \<lparr>cv_valid = True, cv_first_invalid_index = i + length es, cv_error = []\<rparr>"
proof (induction es arbitrary: p i)
  case (Cons e es)
  then show ?case by (cases "compute_event_hash J e p") auto
qed auto

lemma verify_valid_iff:
  "verify_audit_chain J es = Inr v \<and> cv_valid v \<longleftrightarrow>
     chain_ok J kGenesisHash es \<and>
     v = \<lparr>cv_valid = True, cv_first_invalid_index = length es, cv_error = []\<rparr>"
  using verify_loop_valid_iff [of J kGenesisHash 0 es v]
  by (cases "es = []") (auto simp: verify_audit_chain_def)

lemma verify_loop_invalid:
  "verify_loop J p i es = Inr v \<Longrightarrow> \<not> cv_valid v \<Longrightarrow>
     \<exists>n < length es. cv_first_invalid_index v = i + n \<and> chain_ok J p (take n es) \<and>
       \<not> chain_ok J p (take (Suc n) es)"
proof (induction es arbitrary: p i)
  case (Cons e es)
  show ?case
  proof (cases "ae_previous_hash e = p \<and> compute_event_hash J e p = Inr (ae_event_hash e)")
    case True
    then have "verify_loop J (ae_event_hash e) (i + 1) es = Inr v" using Cons.prems(1) by simp
    from Cons.IH [OF this Cons.prems(2)] obtain n where
      "n < length es" "cv_first_invalid_index v = i + 1 + n" "chain_ok J (ae_event_hash e) (take n es)"
      "\<not> chain_ok J (ae_event_hash e) (take (Suc n) es)" by blast
    then show ?thesis using True by (intro exI [of _ "Suc n"]) simp
  next
    case False
    then have "cv_first_invalid_index v = i"
      using Cons.prems by (cases "compute_event_hash J e p") (auto split: if_splits)
    then show ?thesis using False by (intro exI [of _ 0]) auto
  qed
qed auto

lemma compute_event_hash_length: "compute_event_hash J e p = Inr h \<Longrightarrow> length h = 64"
  by (auto simp: compute_event_hash_def result_bind_Inr_iff)

lemma chain_end_length: "chain_ok J p es \<Longrightarrow> length p = 64 \<Longrightarrow> length (chain_end p es) = 64"
  by (cases es rule: rev_cases) (auto simp: chain_end_def chain_ok_append dest: compute_event_hash_length)

lemma length_genesis [simp]: "length kGenesisHash = 64"
  by (simp add: kGenesisHash_def)

section \<open>Binding\<close>

text \<open>The text an event's hash is the digest of.\<close>

definition event_preimage :: "'j json_api \<Rightarrow> audit_event \<Rightarrow> string" where
  "event_preimage J e =
     (case j_dump J (j_object J (event_members J e)) of Inl _ \<Rightarrow> [] | Inr s \<Rightarrow> s @ ae_previous_hash e)"

lemma compute_event_hash_preimage:
  "compute_event_hash J e (ae_previous_hash e) = Inr h \<Longrightarrow> h = sha256_hex (event_preimage J e)"
  by (auto simp: compute_event_hash_def event_preimage_def result_bind_Inr_iff)

text \<open>Two events of two chains whose different preimages have one digest, or an event whose digest is
  the genesis hash.\<close>

definition digest_clash :: "'j json_api \<Rightarrow> audit_event list \<Rightarrow> audit_event list \<Rightarrow> bool" where
  "digest_clash J es fs \<longleftrightarrow>
     (\<exists>e \<in> set es. \<exists>f \<in> set fs. event_preimage J e \<noteq> event_preimage J f \<and>
        sha256_hex (event_preimage J e) = sha256_hex (event_preimage J f)) \<or>
     (\<exists>e \<in> set es \<union> set fs. sha256_hex (event_preimage J e) = kGenesisHash)"

context json_library begin

lemma event_object_inj:
  assumes "j_object J (event_members J e) = j_object J (event_members J f)"
  shows "ae_event_id e = ae_event_id f" "ae_trace_id e = ae_trace_id f"
    "ae_event_type e = ae_event_type f" "ae_payload e = ae_payload f"
    "ae_created_at e = ae_created_at f" "ae_refs e = ae_refs f"
proof -
  have d: "distinct (map fst (event_members J x))" for x by (simp add: event_members_def)
  note m = object_member_inj [OF assms d d]
  show "ae_event_id e = ae_event_id f"
    by (rule string_inj [OF m [where k = "''event_id''"]]) (simp_all add: event_members_def)
  show "ae_trace_id e = ae_trace_id f"
    by (rule string_inj [OF m [where k = "''trace_id''"]]) (simp_all add: event_members_def)
  show "ae_event_type e = ae_event_type f"
    by (rule string_inj [OF m [where k = "''event_type''"]]) (simp_all add: event_members_def)
  show "ae_payload e = ae_payload f"
    by (rule string_inj [OF m [where k = "''payload''"]]) (simp_all add: event_members_def)
  show "ae_created_at e = ae_created_at f"
    by (rule string_inj [OF m [where k = "''created_at''"]]) (simp_all add: event_members_def)
  show "ae_refs e = ae_refs f"
    by (rule strings_inj [OF m [where k = "''refs''"]]) (simp_all add: event_members_def)
qed

lemma preimage_binding:
  assumes "compute_event_hash J e (ae_previous_hash e) = Inr (ae_event_hash e)"
    and "compute_event_hash J f (ae_previous_hash f) = Inr (ae_event_hash f)"
    and "length (ae_previous_hash e) = length (ae_previous_hash f)"
    and "event_preimage J e = event_preimage J f"
  shows "e = f"
proof -
  obtain s t where s: "j_dump J (j_object J (event_members J e)) = Inr s"
    and t: "j_dump J (j_object J (event_members J f)) = Inr t"
    using assms(1,2) by (auto simp: compute_event_hash_def result_bind_Inr_iff)
  have "s @ ae_previous_hash e = t @ ae_previous_hash f" using assms(4) by (simp add: event_preimage_def s t)
  then have "s = t" "ae_previous_hash e = ae_previous_hash f" using assms(3) by simp_all
  then have "j_object J (event_members J e) = j_object J (event_members J f)"
    using dump_inj s t by blast
  from event_object_inj [OF this] \<open>ae_previous_hash e = ae_previous_hash f\<close> show ?thesis
    using compute_event_hash_preimage [OF assms(1)] compute_event_hash_preimage [OF assms(2)] assms(4)
    by (auto intro: audit_event.equality)
qed

lemma chains_bound:
  assumes "chain_ok J kGenesisHash es" "chain_ok J kGenesisHash fs"
    and "chain_end kGenesisHash es = chain_end kGenesisHash fs"
  shows "es = fs \<or> digest_clash J es fs"
  using assms
proof (induction es arbitrary: fs rule: rev_induct)
  case Nil
  show ?case
  proof (cases fs rule: rev_cases)
    case (snoc gs f)
    then have "compute_event_hash J f (ae_previous_hash f) = Inr kGenesisHash"
      using Nil by (auto simp: chain_ok_append chain_end_def)
    from compute_event_hash_preimage [OF this] show ?thesis
      by (auto simp: digest_clash_def snoc)
  qed simp
next
  case (snoc e es)
  have e: "compute_event_hash J e (ae_previous_hash e) = Inr (ae_event_hash e)"
    "ae_previous_hash e = chain_end kGenesisHash es" and ok: "chain_ok J kGenesisHash es"
    using snoc.prems(1) by (auto simp: chain_ok_append)
  show ?case
  proof (cases fs rule: rev_cases)
    case Nil
    then have "ae_event_hash e = kGenesisHash" using snoc.prems(3) by (simp add: chain_end_def)
    with compute_event_hash_preimage [OF e(1)] show ?thesis by (auto simp: digest_clash_def)
  next
    case fs: (snoc gs f)
    have f: "compute_event_hash J f (ae_previous_hash f) = Inr (ae_event_hash f)"
      "ae_previous_hash f = chain_end kGenesisHash gs" and ok': "chain_ok J kGenesisHash gs"
      using snoc.prems(2) fs by (auto simp: chain_ok_append)
    have h: "ae_event_hash e = ae_event_hash f" using snoc.prems(3) fs by (simp add: chain_end_def)
    show ?thesis
    proof (cases "event_preimage J e = event_preimage J f")
      case True
      have "length (ae_previous_hash e) = length (ae_previous_hash f)"
        using chain_end_length [OF ok] chain_end_length [OF ok'] e(2) f(2) by simp
      from preimage_binding [OF e(1) f(1) this True] have "e = f" .
      then have "chain_end kGenesisHash es = chain_end kGenesisHash gs" using e(2) f(2) by simp
      from snoc.IH [OF ok ok' this] show ?thesis
        using \<open>e = f\<close> fs by (auto simp: digest_clash_def)
    next
      case False
      then show ?thesis
        using h compute_event_hash_preimage [OF e(1)] compute_event_hash_preimage [OF f(1)] fs
        by (auto simp: digest_clash_def)
    qed
  qed
qed

end

section \<open>The log's invariant\<close>

definition log_inv :: "'j json_api \<Rightarrow> audit_log \<Rightarrow> bool" where
  "log_inv J lg \<longleftrightarrow> omap_inv (al_last_hash lg) \<and>
     (\<forall>t. let es = filter (\<lambda>e. ae_trace_id e = t) (al_events lg)
       in chain_ok J kGenesisHash es \<and>
          map_of (al_last_hash lg) t = (if es = [] then None else Some (ae_event_hash (last es))))"

lemma log_inv_empty [simp]: "log_inv J empty_log"
  by (simp add: log_inv_def empty_log_def)

lemma compute_event_hash_update [simp]:
  "compute_event_hash J (e\<lparr>ae_previous_hash := a, ae_event_hash := b\<rparr>) p = compute_event_hash J e p"
  by (simp add: compute_event_hash_def event_members_def)

lemma log_append_Inr:
  assumes "log_append J ev lg = Inr lg'"
  obtains prev h where "compute_event_hash J ev prev = Inr h"
    and "prev = (case map_of (al_last_hash lg) (ae_trace_id ev) of Some h \<Rightarrow> h | None \<Rightarrow> kGenesisHash)"
    and "lg' = \<lparr>al_events = al_events lg @ [ev\<lparr>ae_previous_hash := prev, ae_event_hash := h\<rparr>],
                al_last_hash = omap_insert (ae_trace_id ev) h (al_last_hash lg)\<rparr>"
  using assms by (auto simp: log_append_def Let_def result_bind_Inr_iff)

lemma log_inv_append:
  assumes "log_inv J lg" "log_append J ev lg = Inr lg'"
  shows "log_inv J lg'"
  using assms(2)
proof (rule log_append_Inr)
  fix prev h
  assume h: "compute_event_hash J ev prev = Inr h"
    and prev: "prev = (case map_of (al_last_hash lg) (ae_trace_id ev) of Some h \<Rightarrow> h | None \<Rightarrow> kGenesisHash)"
    and lg': "lg' = \<lparr>al_events = al_events lg @ [ev\<lparr>ae_previous_hash := prev, ae_event_hash := h\<rparr>],
                al_last_hash = omap_insert (ae_trace_id ev) h (al_last_hash lg)\<rparr>"
  have i: "omap_inv (al_last_hash lg)" using assms(1) by (simp add: log_inv_def)
  let ?f = "\<lambda>t. filter (\<lambda>e. ae_trace_id e = t) (al_events lg)"
  have c: "chain_ok J kGenesisHash (?f t)"
    and l: "map_of (al_last_hash lg) t = (if ?f t = [] then None else Some (ae_event_hash (last (?f t))))" for t
    using assms(1) by (simp_all add: log_inv_def Let_def)
  have p: "prev = chain_end kGenesisHash (?f (ae_trace_id ev))"
    by (simp add: prev l chain_end_def)
  show "log_inv J lg'"
    unfolding log_inv_def Let_def
    by (auto simp: lg' i c l chain_ok_append h simp flip: p)
qed

lemma log_query_append:
  assumes "log_append J ev lg = Inr lg'"
  shows "\<exists>prev h. log_query lg' t =
    log_query lg t @ (if t = [] \<or> ae_trace_id ev = t
                       then [ev\<lparr>ae_previous_hash := prev, ae_event_hash := h\<rparr>] else [])"
  using assms by (rule log_append_Inr) (auto simp: log_query_def)

section \<open>The interface\<close>

text \<open>
  What a client of an audit log relies on: traces only grow, by the appended event with its two hashes,
  and each trace is a chain. An append that throws adds nothing. \<open>ok_event\<close> and \<open>ok_trace\<close> are the
  events and trace identifiers an implementation keeps as they are.
\<close>

locale audit_store =
  fixes J :: "'j json_api"
    and append :: "audit_event \<Rightarrow> 'l \<Rightarrow> (string, unit) result \<times> 'l"
    and query :: "'l \<Rightarrow> string \<Rightarrow> audit_event list"
    and list_trace_ids :: "'l \<Rightarrow> string list"
    and inv :: "'l \<Rightarrow> bool"
    and ok_event :: "audit_event \<Rightarrow> bool"
    and ok_trace :: "string \<Rightarrow> bool"
  assumes append_inv: "inv l \<Longrightarrow> ok_event ev \<Longrightarrow> inv (snd (append ev l))"
    and query_append: "inv l \<Longrightarrow> ok_event ev \<Longrightarrow> ok_trace t \<Longrightarrow>
      \<exists>prev h. query (snd (append ev l)) t = query l t @
        (if ae_trace_id ev = t \<and> fst (append ev l) = Inr ()
         then [ev\<lparr>ae_previous_hash := prev, ae_event_hash := h\<rparr>] else [])"
    and query_chain: "inv l \<Longrightarrow> ok_trace t \<Longrightarrow> chain_ok J kGenesisHash (query l t)"
    and trace_ids: "inv l \<Longrightarrow> ok_trace t \<Longrightarrow> t \<in> set (list_trace_ids l) \<longleftrightarrow> query l t \<noteq> []"
begin

lemma appends_inv: "inv l \<Longrightarrow> \<forall>ev \<in> set evs. ok_event ev \<Longrightarrow> inv (store_appends append evs l)"
  by (induction evs arbitrary: l) (auto intro: append_inv)

lemma query_verifies:
  assumes "inv l" "ok_trace t"
  shows "verify_audit_chain J (query l t) =
    Inr \<lparr>cv_valid = True, cv_first_invalid_index = length (query l t), cv_error = []\<rparr>"
  using verify_valid_iff [of J "query l t"
      "\<lparr>cv_valid = True, cv_first_invalid_index = length (query l t), cv_error = []\<rparr>"]
    query_chain [OF assms] by simp

lemma query_grows:
  assumes "inv l" "\<forall>ev \<in> set evs. ok_event ev" "ok_trace t"
  shows "\<exists>new. query (store_appends append evs l) t = query l t @ new \<and>
    (\<forall>e \<in> set new. \<exists>ev \<in> set evs. ae_trace_id ev = t \<and>
       (\<exists>prev h. e = ev\<lparr>ae_previous_hash := prev, ae_event_hash := h\<rparr>))"
  using assms(1,2)
proof (induction evs arbitrary: l)
  case (Cons ev evs)
  have ev: "ok_event ev" "\<forall>ev \<in> set evs. ok_event ev" using Cons.prems(2) by simp_all
  let ?l = "snd (append ev l)"
  obtain prev h where q: "query ?l t = query l t @
      (if ae_trace_id ev = t \<and> fst (append ev l) = Inr ()
       then [ev\<lparr>ae_previous_hash := prev, ae_event_hash := h\<rparr>] else [])"
    using query_append [OF Cons.prems(1) ev(1) assms(3)] by blast
  obtain new where n: "query (store_appends append evs ?l) t = query ?l t @ new"
    "\<forall>e \<in> set new. \<exists>ev \<in> set evs. ae_trace_id ev = t \<and>
       (\<exists>prev h. e = ev\<lparr>ae_previous_hash := prev, ae_event_hash := h\<rparr>)"
    using Cons.IH [OF append_inv [OF Cons.prems(1) ev(1)] ev(2)] by blast
  show ?case
    by (rule exI [of _ "(if ae_trace_id ev = t \<and> fst (append ev l) = Inr ()
          then [ev\<lparr>ae_previous_hash := prev, ae_event_hash := h\<rparr>] else []) @ new"])
      (use n q in auto)
qed simp

end

interpretation mem_log: audit_store J "mem_append J" log_query log_list_trace_ids "log_inv J" "\<lambda>_. True"
  "\<lambda>t. t \<noteq> []" for J
proof
  fix l ev
  assume i: "log_inv J l"
  show "log_inv J (snd (mem_append J ev l))"
    using log_inv_append [OF i, of ev] i by (auto simp: mem_append_def split: sum.splits)
  show "\<exists>prev h. log_query (snd (mem_append J ev l)) t = log_query l t @
      (if ae_trace_id ev = t \<and> fst (mem_append J ev l) = Inr ()
       then [ev\<lparr>ae_previous_hash := prev, ae_event_hash := h\<rparr>] else [])"
    if "t \<noteq> []" for t
    using log_query_append [of J ev l _ t] that by (auto simp: mem_append_def split: sum.splits)
next
  fix l and t :: string
  assume i: "log_inv J l" and t: "t \<noteq> []"
  then show "chain_ok J kGenesisHash (log_query l t)" by (simp add: log_inv_def Let_def log_query_def)
  show "t \<in> set (log_list_trace_ids l) \<longleftrightarrow> log_query l t \<noteq> []"
    using i t by (simp add: log_inv_def Let_def log_query_def log_list_trace_ids_def
        map_of_eq_None_iff flip: set_map) (metis map_of_eq_None_iff option.simps(3) set_map)
qed

section \<open>Properties\<close>

definition sample_event :: "string \<Rightarrow> audit_event" where
  "sample_event payload = \<lparr>ae_event_id = ''evt-1'', ae_trace_id = ''t1'', ae_event_type = ''MatchCompleted'',
     ae_payload = payload, ae_created_at = ''2026-01-01'', ae_refs = [''m1''],
     ae_previous_hash = [], ae_event_hash = []\<rparr>"

text \<open>C18. Whatever events are appended to an empty in-memory log, in whatever order and for whatever
  traces, and whichever of the appends throw, the events that a query of a trace returns verify.\<close>

theorem log_traces_verify:
  assumes "trace_id \<noteq> []"
  shows "verify_audit_chain J (log_query (store_appends (mem_append J) events empty_log) trace_id) =
    Inr \<lparr>cv_valid = True,
         cv_first_invalid_index = length (log_query (store_appends (mem_append J) events empty_log) trace_id),
         cv_error = []\<rparr>"
  by (rule mem_log.query_verifies [OF mem_log.appends_inv [OF log_inv_empty] assms]) simp

theorem log_traces_verify_witness:
  "verify_audit_chain tree_json
     (log_query (store_appends (mem_append tree_json) [sample_event ''a'', sample_event ''b''] empty_log) ''t1'') =
   Inr \<lparr>cv_valid = True, cv_first_invalid_index = 2, cv_error = []\<rparr>"
proof -
  have "length (log_query (store_appends (mem_append tree_json) [sample_event ''a'', sample_event ''b'']
      empty_log) ''t1'') = 2"
    by (simp add: mem_append_def log_append_def compute_event_hash_def tree_json_def Let_def log_query_def empty_log_def
        sample_event_def)
  with log_traces_verify [of "''t1''" tree_json "[sample_event ''a'', sample_event ''b'']"] show ?thesis
    by simp
qed

text \<open>C19. Two chains that verify and whose last events carry the same hash are the same chain, event by
  event, or two events in them have different texts with the same SHA-256 digest (or an event's digest is
  the genesis constant): the last hash commits to the whole history.\<close>

theorem chain_binding:
  assumes "json_library J"
    and "verify_audit_chain J es = Inr v" "cv_valid v"
    and "verify_audit_chain J fs = Inr w" "cv_valid w"
    and "es \<noteq> []" "fs \<noteq> []" "ae_event_hash (last es) = ae_event_hash (last fs)"
  shows "es = fs \<or> digest_clash J es fs"
proof (rule json_library.chains_bound [OF assms(1)])
  show "chain_ok J kGenesisHash es" "chain_ok J kGenesisHash fs"
    using verify_valid_iff [of J es v] verify_valid_iff [of J fs w] assms(2-5) by auto
  show "chain_end kGenesisHash es = chain_end kGenesisHash fs"
    using assms(6-8) by (simp add: chain_end_def)
qed

theorem chain_binding_witness:
  "\<exists>es. length es = 1 \<and> verify_audit_chain tree_json es =
      Inr \<lparr>cv_valid = True, cv_first_invalid_index = 1, cv_error = []\<rparr> \<and>
    (es = es \<or> digest_clash tree_json es es)"
proof -
  let ?e = "(sample_event ''a'')\<lparr>ae_previous_hash := kGenesisHash, ae_event_hash :=
     sha256_hex (event_preimage tree_json ((sample_event ''a'')\<lparr>ae_previous_hash := kGenesisHash\<rparr>))\<rparr>"
  let ?v = "\<lparr>cv_valid = True, cv_first_invalid_index = 1, cv_error = []\<rparr>"
  have v: "verify_audit_chain tree_json [?e] = Inr ?v"
    by (simp add: verify_audit_chain_def compute_event_hash_def event_preimage_def tree_json_def
        event_members_def)
  from chain_binding [OF tree.json_library_axioms v _ v] have "[?e] = [?e] \<or> digest_clash tree_json [?e] [?e]"
    by simp
  with v show ?thesis by (intro exI [of _ "[?e]"]) simp
qed

text \<open>When verification rejects a chain, the index it reports is the first event whose prefix is not
  a chain: all the events before it are intact and linked to the genesis hash.\<close>

theorem first_invalid_is_first:
  assumes "verify_audit_chain J es = Inr v" "\<not> cv_valid v"
  shows "cv_first_invalid_index v < length es \<and>
    verify_audit_chain J (take (cv_first_invalid_index v) es) =
      Inr \<lparr>cv_valid = True, cv_first_invalid_index = cv_first_invalid_index v, cv_error = []\<rparr> \<and>
    \<not> chain_ok J kGenesisHash (take (Suc (cv_first_invalid_index v)) es)"
proof -
  have "verify_loop J kGenesisHash 0 es = Inr v" "es \<noteq> []"
    using assms by (auto simp: verify_audit_chain_def split: if_splits)
  from verify_loop_invalid [OF this(1) assms(2)] obtain n where n: "n < length es"
    "cv_first_invalid_index v = n" "chain_ok J kGenesisHash (take n es)"
    "\<not> chain_ok J kGenesisHash (take (Suc n) es)" by auto
  have "verify_audit_chain J (take n es) =
      Inr \<lparr>cv_valid = True, cv_first_invalid_index = n, cv_error = []\<rparr>"
    using verify_valid_iff [of J "take n es"
        "\<lparr>cv_valid = True, cv_first_invalid_index = n, cv_error = []\<rparr>"] n by simp
  with n show ?thesis by simp
qed

theorem first_invalid_is_first_witness:
  "cv_first_invalid_index \<lparr>cv_valid = False, cv_first_invalid_index = 0,
     cv_error = ''previous_hash mismatch at index 0''\<rparr> < length [sample_event ''a'']"
proof -
  have "verify_audit_chain tree_json [sample_event ''a''] =
      Inr \<lparr>cv_valid = False, cv_first_invalid_index = 0, cv_error = ''previous_hash mismatch at index 0''\<rparr>"
    by (simp add: verify_audit_chain_def sample_event_def kGenesisHash_def to_string_nat.simps [of 0]
        digit_char_def char_of_def bit_0)
  from first_invalid_is_first [OF this] show ?thesis by simp
qed

text \<open>The log is append-only: later appends leave what a trace already holds as it is and add,
  after it, events that were handed to the log for that trace.\<close>

theorem log_append_only:
  assumes "trace_id \<noteq> []"
  shows "\<exists>new. log_query (store_appends (mem_append J) (events @ later) empty_log) trace_id =
      log_query (store_appends (mem_append J) events empty_log) trace_id @ new \<and>
    (\<forall>e \<in> set new. \<exists>ev \<in> set later. ae_trace_id ev = trace_id \<and>
       (\<exists>prev h. e = ev\<lparr>ae_previous_hash := prev, ae_event_hash := h\<rparr>))"
proof -
  have s: "store_appends ap (xs @ ys) l = store_appends ap ys (store_appends ap xs l)" for ap xs ys and l :: audit_log
    by (induction xs arbitrary: l) auto
  show ?thesis
    unfolding s by (rule mem_log.query_grows [OF mem_log.appends_inv [OF log_inv_empty] _ assms]) simp_all
qed

theorem log_append_only_witness:
  "\<exists>new. log_query (store_appends (mem_append tree_json) ([sample_event ''a''] @ [sample_event ''b''])
       empty_log) ''t1'' =
     log_query (store_appends (mem_append tree_json) [sample_event ''a''] empty_log) ''t1'' @ new"
  using log_append_only [of "''t1''" tree_json "[sample_event ''a'']" "[sample_event ''b'']"] by auto

text \<open>The empty trace identifier selects all events: two events of different traces do not verify.\<close>

lemma all_events_do_not_verify:
  assumes "log_append J e empty_log = Inr l" "log_append J f l = Inr l'"
    and "ae_trace_id e \<noteq> ae_trace_id f" "ae_event_hash (hd (al_events l)) \<noteq> kGenesisHash"
  shows "\<exists>v. verify_audit_chain J (log_query l' []) = Inr v \<and> \<not> cv_valid v \<and> cv_first_invalid_index v = 1"
  using assms
  by (auto elim!: log_append_Inr simp: empty_log_def log_query_def verify_audit_chain_def)

end
