(* ===== verification/Decision_Record.thy ===== *)
theory Decision_Record
  imports Json_Api Domain_Model
begin

text \<open>
  Decision records and their JSON form: \<open>include/ccmcp/domain/decision_record.h\<close> and
  \<open>src/domain/decision_record.cpp\<close>. A \<open>size_t\<close> read from JSON is the number's value
  modulo \<open>2 ^ 64\<close>.
\<close>

record requirement_decision =
  rd_requirement_text :: string
  rd_atom_id :: "string option"
  rd_evidence_tokens :: "string list"

record retrieval_stats_summary =
  rs_lexical_candidates :: nat
  rs_embedding_candidates :: nat
  rs_merged_candidates :: nat

record validation_summary =
  vs_status :: string
  vs_finding_count :: nat
  vs_fail_count :: nat
  vs_warn_count :: nat
  vs_top_rule_ids :: "string list"

record decision_record =
  dr_decision_id :: string
  dr_trace_id :: string
  dr_artifact_id :: string
  dr_created_at :: "string option"
  dr_opportunity_id :: string
  dr_requirement_decisions :: "requirement_decision list"
  dr_retrieval_stats :: retrieval_stats_summary
  dr_validation_summary :: validation_summary
  dr_version :: string

definition size_json :: "'j json_api \<Rightarrow> nat \<Rightarrow> 'j" where
  "size_json J n = j_int J (int n)"

definition get_size :: "'j json_api \<Rightarrow> 'j \<Rightarrow> (string, nat) result" where
  "get_size J j = result_bind (j_get_int J j) (\<lambda>i. Inr (nat (i mod 2 ^ 64)))"

definition opt_string_json :: "'j json_api \<Rightarrow> string option \<Rightarrow> 'j" where
  "opt_string_json J s = (case s of Some t \<Rightarrow> j_string J t | None \<Rightarrow> j_null J)"

definition get_opt_string :: "'j json_api \<Rightarrow> 'j \<Rightarrow> (string, string option) result" where
  "get_opt_string J j =
     (if j_is_null J j then Inr None else result_bind (j_get_string J j) (\<lambda>s. Inr (Some s)))"

definition strings_json :: "'j json_api \<Rightarrow> string list \<Rightarrow> 'j" where
  "strings_json J ss = j_array J (map (j_string J) ss)"

definition requirement_decision_to_json :: "'j json_api \<Rightarrow> requirement_decision \<Rightarrow> 'j" where
  "requirement_decision_to_json J rd =
     j_object J
       [(''atom_id'', opt_string_json J (rd_atom_id rd)),
        (''evidence_tokens'', strings_json J (rd_evidence_tokens rd)),
        (''requirement_text'', j_string J (rd_requirement_text rd))]"

definition retrieval_stats_to_json :: "'j json_api \<Rightarrow> retrieval_stats_summary \<Rightarrow> 'j" where
  "retrieval_stats_to_json J stats =
     j_object J
       [(''embedding_candidates'', size_json J (rs_embedding_candidates stats)),
        (''lexical_candidates'', size_json J (rs_lexical_candidates stats)),
        (''merged_candidates'', size_json J (rs_merged_candidates stats))]"

definition validation_summary_to_json :: "'j json_api \<Rightarrow> validation_summary \<Rightarrow> 'j" where
  "validation_summary_to_json J vs =
     j_object J
       [(''fail_count'', size_json J (vs_fail_count vs)),
        (''finding_count'', size_json J (vs_finding_count vs)),
        (''status'', j_string J (vs_status vs)),
        (''top_rule_ids'', strings_json J (vs_top_rule_ids vs)),
        (''warn_count'', size_json J (vs_warn_count vs))]"

definition decision_record_to_json :: "'j json_api \<Rightarrow> decision_record \<Rightarrow> 'j" where
  "decision_record_to_json J rec =
     j_object J
       [(''artifact_id'', j_string J (dr_artifact_id rec)),
        (''created_at'', opt_string_json J (dr_created_at rec)),
        (''decision_id'', j_string J (dr_decision_id rec)),
        (''opportunity_id'', j_string J (dr_opportunity_id rec)),
        (''requirement_decisions'',
           j_array J (map (requirement_decision_to_json J) (dr_requirement_decisions rec))),
        (''retrieval_stats'', retrieval_stats_to_json J (dr_retrieval_stats rec)),
        (''trace_id'', j_string J (dr_trace_id rec)),
        (''validation_summary'', validation_summary_to_json J (dr_validation_summary rec)),
        (''version'', j_string J (dr_version rec))]"

definition requirement_decision_from_json ::
  "'j json_api \<Rightarrow> 'j \<Rightarrow> (string, requirement_decision) result" where
  "requirement_decision_from_json J j =
     result_bind (j_get_at J (j_get_string J) j ''requirement_text'') (\<lambda>req_text.
     result_bind (j_get_at J (get_opt_string J) j ''atom_id'') (\<lambda>atom.
     result_bind (j_get_at J (j_get_strings J) j ''evidence_tokens'') (\<lambda>evidence.
       Inr \<lparr>rd_requirement_text = req_text, rd_atom_id = atom, rd_evidence_tokens = evidence\<rparr>)))"

definition retrieval_stats_from_json ::
  "'j json_api \<Rightarrow> 'j \<Rightarrow> (string, retrieval_stats_summary) result" where
  "retrieval_stats_from_json J j =
     result_bind (j_get_at J (get_size J) j ''lexical_candidates'') (\<lambda>lexical.
     result_bind (j_get_at J (get_size J) j ''embedding_candidates'') (\<lambda>embedding.
     result_bind (j_get_at J (get_size J) j ''merged_candidates'') (\<lambda>merged.
       Inr \<lparr>rs_lexical_candidates = lexical, rs_embedding_candidates = embedding,
            rs_merged_candidates = merged\<rparr>)))"

definition validation_summary_from_json ::
  "'j json_api \<Rightarrow> 'j \<Rightarrow> (string, validation_summary) result" where
  "validation_summary_from_json J j =
     result_bind (j_get_at J (j_get_string J) j ''status'') (\<lambda>status.
     result_bind (j_get_at J (get_size J) j ''finding_count'') (\<lambda>findings.
     result_bind (j_get_at J (get_size J) j ''fail_count'') (\<lambda>fails.
     result_bind (j_get_at J (get_size J) j ''warn_count'') (\<lambda>warns.
     result_bind (j_get_at J (j_get_strings J) j ''top_rule_ids'') (\<lambda>rules.
       Inr \<lparr>vs_status = status, vs_finding_count = findings, vs_fail_count = fails,
            vs_warn_count = warns, vs_top_rule_ids = rules\<rparr>)))))"

definition decision_record_from_json :: "'j json_api \<Rightarrow> 'j \<Rightarrow> (string, decision_record) result" where
  "decision_record_from_json J j =
     result_bind (j_get_at J (j_get_string J) j ''decision_id'') (\<lambda>decision.
     result_bind (j_get_at J (j_get_string J) j ''trace_id'') (\<lambda>trace.
     result_bind (j_get_at J (j_get_string J) j ''artifact_id'') (\<lambda>artifact.
     result_bind (j_get_at J (j_get_string J) j ''opportunity_id'') (\<lambda>opp.
     result_bind (j_get_at J (j_get_string J) j ''version'') (\<lambda>version.
     result_bind (j_get_at J (get_opt_string J) j ''created_at'') (\<lambda>created.
     result_bind (j_at J j ''requirement_decisions'') (\<lambda>rds.
     result_bind (result_map (requirement_decision_from_json J) (j_elems J rds)) (\<lambda>decisions.
     result_bind (j_get_at J (retrieval_stats_from_json J) j ''retrieval_stats'') (\<lambda>stats.
     result_bind (j_get_at J (validation_summary_from_json J) j ''validation_summary'') (\<lambda>summary.
       Inr \<lparr>dr_decision_id = decision, dr_trace_id = trace, dr_artifact_id = artifact,
            dr_created_at = created, dr_opportunity_id = opp, dr_requirement_decisions = decisions,
            dr_retrieval_stats = stats, dr_validation_summary = summary,
            dr_version = version\<rparr>))))))))))"

text \<open>The counters fit their type.\<close>

definition stats_in_range :: "retrieval_stats_summary \<Rightarrow> bool" where
  "stats_in_range s \<longleftrightarrow> rs_lexical_candidates s < 2 ^ 64 \<and> rs_embedding_candidates s < 2 ^ 64 \<and>
     rs_merged_candidates s < 2 ^ 64"

definition summary_in_range :: "validation_summary \<Rightarrow> bool" where
  "summary_in_range s \<longleftrightarrow> vs_finding_count s < 2 ^ 64 \<and> vs_fail_count s < 2 ^ 64 \<and> vs_warn_count s < 2 ^ 64"

definition record_in_range :: "decision_record \<Rightarrow> bool" where
  "record_in_range rec \<longleftrightarrow>
     stats_in_range (dr_retrieval_stats rec) \<and> summary_in_range (dr_validation_summary rec)"

context json_library begin

lemma get_size_json [simp]: "n < 2 ^ 64 \<Longrightarrow> get_size J (size_json J n) = Inr n"
  by (simp add: get_size_def size_json_def get_int_int flip: nat_mod_distrib)

lemma get_opt_string_json [simp]: "get_opt_string J (opt_string_json J s) = Inr s"
  by (cases s) (simp_all add: get_opt_string_def opt_string_json_def json_laws)

lemma get_strings_json [simp]: "j_get_strings J (strings_json J ss) = Inr ss"
  by (simp add: strings_json_def json_laws)

lemma get_at_object:
  "distinct (map fst kvs) \<Longrightarrow> map_of kvs k = Some v \<Longrightarrow> j_get_at J f (j_object J kvs) k = f v"
  by (simp add: j_get_at_def at_object)

lemma requirement_decision_roundtrip:
  "requirement_decision_from_json J (requirement_decision_to_json J rd) = Inr rd"
  by (simp add: requirement_decision_from_json_def requirement_decision_to_json_def get_at_object
      get_string_string)

lemma retrieval_stats_roundtrip:
  "stats_in_range s \<Longrightarrow> retrieval_stats_from_json J (retrieval_stats_to_json J s) = Inr s"
  by (simp add: retrieval_stats_from_json_def retrieval_stats_to_json_def get_at_object stats_in_range_def)

lemma validation_summary_roundtrip:
  "summary_in_range s \<Longrightarrow> validation_summary_from_json J (validation_summary_to_json J s) = Inr s"
  by (simp add: validation_summary_from_json_def validation_summary_to_json_def get_at_object
      summary_in_range_def get_string_string)

lemma decision_record_json_roundtrip:
  "record_in_range rec \<Longrightarrow> decision_record_from_json J (decision_record_to_json J rec) = Inr rec"
  by (simp add: decision_record_from_json_def decision_record_to_json_def get_at_object at_object
      get_string_string elems_array result_map_inverse requirement_decision_roundtrip
      retrieval_stats_roundtrip validation_summary_roundtrip record_in_range_def)

end

text \<open>C20. A decision record read back from the text it was printed to is the same record, with the
  missing atoms and the missing time stamp as they were.\<close>

theorem decision_record_roundtrip:
  assumes "json_library J" "record_in_range rec"
    and "j_dump J (decision_record_to_json J rec) = Inr s"
  shows "result_bind (j_parse J s) (decision_record_from_json J) = Inr rec"
  by (simp add: json_library.parse_dump [OF assms(1,3)]
      json_library.decision_record_json_roundtrip [OF assms(1,2)])

definition sample_record :: decision_record where
  "sample_record = \<lparr>dr_decision_id = ''d1'', dr_trace_id = ''t1'', dr_artifact_id = ''match-report-o1'',
     dr_created_at = None, dr_opportunity_id = ''o1'',
     dr_requirement_decisions = [\<lparr>rd_requirement_text = ''cpp'', rd_atom_id = Some ''a1'',
        rd_evidence_tokens = [''cpp'']\<rparr>, \<lparr>rd_requirement_text = ''go'', rd_atom_id = None,
        rd_evidence_tokens = []\<rparr>],
     dr_retrieval_stats = \<lparr>rs_lexical_candidates = 1, rs_embedding_candidates = 0,
        rs_merged_candidates = 1\<rparr>,
     dr_validation_summary = \<lparr>vs_status = ''accepted'', vs_finding_count = 0, vs_fail_count = 0,
        vs_warn_count = 0, vs_top_rule_ids = []\<rparr>, dr_version = ''0.3''\<rparr>"

theorem decision_record_roundtrip_witness:
  "\<exists>s. j_dump tree_json (decision_record_to_json tree_json sample_record) = Inr s \<and>
     result_bind (j_parse tree_json s) (decision_record_from_json tree_json) = Inr sample_record"
proof -
  have r: "record_in_range sample_record"
    by (simp add: record_in_range_def sample_record_def stats_in_range_def summary_in_range_def)
  have d: "j_dump tree_json (decision_record_to_json tree_json sample_record) =
      Inr (enc_tree (decision_record_to_json tree_json sample_record))"
    by (simp add: tree_json_def)
  show ?thesis
    by (intro exI conjI) (rule d, rule decision_record_roundtrip [OF tree.json_library_axioms r d])
qed

end
