(* ===== verification/Repositories.thy ===== *)
theory Repositories
  imports Ordered_Map Std_Sort Interaction Decision_Record
begin

text \<open>
  The repository interfaces of \<open>include/ccmcp/storage/repositories.h\<close> and
  \<open>decision_store.h\<close>, as the locale \<open>repository\<close>: an upsert replaces the item with its
  key, \<open>get\<close> finds the last one stored, a listing holds the kept items once each in key order.
  The in-memory implementations (\<open>src/storage/inmemory_*_repository.cpp\<close>,
  \<open>src/storage/decision_store.cpp\<close>) interpret it: the maps of atoms, opportunities and
  interactions, and the vector of decision records.
\<close>

section \<open>The interface\<close>

locale repository =
  fixes key :: "'a \<Rightarrow> 'k::linorder"
    and keep :: "'a \<Rightarrow> bool"
    and upsert :: "'a \<Rightarrow> 'r \<Rightarrow> 'r"
    and get :: "'r \<Rightarrow> 'k \<Rightarrow> 'a option"
    and listing :: "'r \<Rightarrow> 'a list"
    and inv :: "'r \<Rightarrow> bool"
  assumes upsert_inv: "inv r \<Longrightarrow> inv (upsert a r)"
    and get_upsert: "inv r \<Longrightarrow> get (upsert a r) = (get r)(key a \<mapsto> a)"
    and get_key: "inv r \<Longrightarrow> get r k = Some a \<Longrightarrow> key a = k"
    and listing_sorted: "inv r \<Longrightarrow> sorted_set (map key (listing r))"
    and listing_iff: "inv r \<Longrightarrow> a \<in> set (listing r) \<longleftrightarrow> keep a \<and> get r (key a) = Some a"
begin

lemma fold_inv: "inv r \<Longrightarrow> inv (fold upsert items r)"
  by (induction items arbitrary: r) (auto intro: upsert_inv)

lemma get_fold:
  "inv r \<Longrightarrow> get (fold upsert items r) k =
     (case find (\<lambda>a. key a = k) (rev items) of Some a \<Rightarrow> Some a | None \<Rightarrow> get r k)"
proof (induction items arbitrary: r)
  case (Cons a items)
  then show ?case
    by (simp add: upsert_inv get_upsert find_append split: option.splits)
qed simp

text \<open>Listings are functions of the contents: not of the order or the number of the upserts.\<close>

lemma sorted_listing_unique:
  assumes "inv r" "inv s" "get r = get s"
  shows "listing r = listing s"
proof -
  have e: "set (listing r) = set (listing s)" using assms by (auto simp: listing_iff)
  have k: "map key (listing r) = map key (listing s)"
    by (rule sorted_set_unique) (simp_all add: listing_sorted assms(1,2) e)
  show ?thesis
  proof (rule map_inj_on [OF k], rule inj_onI)
    fix x y assume "x \<in> set (listing r) \<union> set (listing s)" "y \<in> set (listing r) \<union> set (listing s)"
      and "key x = key y"
    then show "x = y" using e listing_iff [OF assms(1)] by (metis UnE option.inject)
  qed
qed

lemma listing_perm:
  assumes "inv r" "mset items = mset items'" "distinct (map key items)"
  shows "listing (fold upsert items r) = listing (fold upsert items' r)"
proof (rule sorted_listing_unique)
  show "get (fold upsert items r) = get (fold upsert items' r)"
  proof
    fix k
    have d: "distinct (map key (rev items))" "distinct (map key (rev items'))"
      using assms(2,3) by (metis distinct_rev mset_eq_imp_distinct_iff mset_map rev_map)+
    have "find (\<lambda>a. key a = k) (rev items) = find (\<lambda>a. key a = k) (rev items')"
      using find_key_iff [OF d(1), of k] find_key_iff [OF d(2), of k] mset_eq_setD [OF assms(2)]
      by (metis (no_types, lifting) not_None_eq set_rev)
    then show "get (fold upsert items r) k = get (fold upsert items' r) k"
      by (simp add: get_fold assms(1))
  qed
qed (simp_all add: fold_inv assms(1))

end

section \<open>Ordered maps as repositories\<close>

definition atoms_upsert :: "experience_atom \<Rightarrow> (atom_id \<times> experience_atom) list \<Rightarrow> (atom_id \<times> experience_atom) list" where
  "atoms_upsert atom atoms = omap_insert (atom_id atom) atom atoms"

definition atoms_get :: "(atom_id \<times> experience_atom) list \<Rightarrow> atom_id \<Rightarrow> experience_atom option" where
  "atoms_get atoms i = map_of atoms i"

definition atoms_list_verified :: "(atom_id \<times> experience_atom) list \<Rightarrow> experience_atom list" where
  "atoms_list_verified atoms = filter atom_verified (map snd atoms)"

definition atoms_list_all :: "(atom_id \<times> experience_atom) list \<Rightarrow> experience_atom list" where
  "atoms_list_all atoms = map snd atoms"

definition opps_upsert :: "opportunity \<Rightarrow> (opportunity_id \<times> opportunity) list \<Rightarrow> (opportunity_id \<times> opportunity) list" where
  "opps_upsert opp opps = omap_insert (opportunity_id opp) opp opps"

definition opps_get :: "(opportunity_id \<times> opportunity) list \<Rightarrow> opportunity_id \<Rightarrow> opportunity option" where
  "opps_get opps i = map_of opps i"

definition opps_list_all :: "(opportunity_id \<times> opportunity) list \<Rightarrow> opportunity list" where
  "opps_list_all opps = map snd opps"

definition ints_upsert :: "interaction \<Rightarrow> (interaction_id \<times> interaction) list \<Rightarrow> (interaction_id \<times> interaction) list" where
  "ints_upsert i ints = omap_insert (int_id i) i ints"

definition ints_get :: "(interaction_id \<times> interaction) list \<Rightarrow> interaction_id \<Rightarrow> interaction option" where
  "ints_get ints i = map_of ints i"

definition ints_list_by_opportunity ::
  "opportunity_id \<Rightarrow> (interaction_id \<times> interaction) list \<Rightarrow> interaction list" where
  "ints_list_by_opportunity opp ints = filter (\<lambda>i. int_opportunity_id i = opp) (map snd ints)"

definition ints_list_all :: "(interaction_id \<times> interaction) list \<Rightarrow> interaction list" where
  "ints_list_all ints = map snd ints"

text \<open>The entries are filed under their own keys.\<close>

definition keyed :: "('a \<Rightarrow> 'k::linorder) \<Rightarrow> ('k \<times> 'a) list \<Rightarrow> bool" where
  "keyed key m \<longleftrightarrow> omap_inv m \<and> (\<forall>(k, a) \<in> set m. key a = k)"

lemma keyed_Nil [simp]: "keyed key []"
  by (simp add: keyed_def)

lemma keyed_map_snd: "keyed key m \<Longrightarrow> map key (map snd m) = map fst m"
  by (auto simp: keyed_def)

lemma keyed_repository:
  fixes key :: "'a \<Rightarrow> 'k::linorder"
  shows "repository key keep (\<lambda>a. omap_insert (key a) a) map_of (\<lambda>m. filter keep (map snd m)) (keyed key)"
proof
  fix m :: "('k \<times> 'a) list" and a :: 'a and k
  assume m: "keyed key m"
  then have i: "omap_inv m" by (simp add: keyed_def)
  show "keyed key (omap_insert (key a) a m)"
    using m set_omap_insert [of "key a" a m] by (auto simp: keyed_def)
  show "map_of (omap_insert (key a) a m) = (map_of m)(key a \<mapsto> a)" using i by simp
  show "key a = k" if "map_of m k = Some a" using m map_of_SomeD [OF that] by (auto simp: keyed_def)
  have "sorted_set (map key (map snd m))" unfolding keyed_map_snd [OF m] using i by (simp add: omap_inv_def)
  then show "sorted_set (map key (filter keep (map snd m)))"
    by (simp add: sorted_set_def sorted_filter distinct_map_filter del: map_map)
  show "a \<in> set (filter keep (map snd m)) \<longleftrightarrow> keep a \<and> map_of m (key a) = Some a"
    using m omap_map_of_iff [OF i] by (force simp: keyed_def)
qed

interpretation verified_atoms: repository "experience_atom.atom_id" atom_verified atoms_upsert atoms_get
  atoms_list_verified "keyed experience_atom.atom_id"
  using keyed_repository [of experience_atom.atom_id atom_verified]
  by (simp add: atoms_upsert_def [abs_def] atoms_get_def [abs_def] atoms_list_verified_def [abs_def])

interpretation all_atoms: repository "experience_atom.atom_id" "\<lambda>_. True" atoms_upsert atoms_get
  atoms_list_all "keyed experience_atom.atom_id"
  using keyed_repository [of experience_atom.atom_id "\<lambda>_. True"]
  by (simp add: atoms_upsert_def [abs_def] atoms_get_def [abs_def] atoms_list_all_def [abs_def])

interpretation opps: repository "opportunity.opportunity_id" "\<lambda>_. True" opps_upsert opps_get opps_list_all
  "keyed opportunity.opportunity_id"
  using keyed_repository [of opportunity.opportunity_id "\<lambda>_. True"]
  by (simp add: opps_upsert_def [abs_def] opps_get_def [abs_def] opps_list_all_def [abs_def])

interpretation opp_ints: repository int_id "\<lambda>i. int_opportunity_id i = opp" ints_upsert ints_get
  "ints_list_by_opportunity opp" "keyed int_id" for opp
  using keyed_repository [of int_id "\<lambda>i. int_opportunity_id i = opp"]
  by (simp add: ints_upsert_def [abs_def] ints_get_def [abs_def] ints_list_by_opportunity_def [abs_def])

interpretation all_ints: repository int_id "\<lambda>_. True" ints_upsert ints_get ints_list_all "keyed int_id"
  using keyed_repository [of int_id "\<lambda>_. True"]
  by (simp add: ints_upsert_def [abs_def] ints_get_def [abs_def] ints_list_all_def [abs_def])

section \<open>The vector of decision records\<close>

fun decisions_upsert :: "decision_record \<Rightarrow> decision_record list \<Rightarrow> decision_record list" where
  "decisions_upsert rec [] = [rec]"
| "decisions_upsert rec (existing # records) =
     (if dr_decision_id existing = dr_decision_id rec then rec # records
      else existing # decisions_upsert rec records)"

definition decisions_get :: "decision_record list \<Rightarrow> string \<Rightarrow> decision_record option" where
  "decisions_get records i = find (\<lambda>r. dr_decision_id r = i) records"

definition decisions_list_by_trace :: "string \<Rightarrow> decision_record list \<Rightarrow> decision_record list" where
  "decisions_list_by_trace trace records =
     std_sort (\<lambda>a b. dr_decision_id a < dr_decision_id b) (filter (\<lambda>r. dr_trace_id r = trace) records)"

definition decisions_inv :: "decision_record list \<Rightarrow> bool" where
  "decisions_inv records \<longleftrightarrow> distinct (map dr_decision_id records)"

lemma ids_decisions_upsert:
  "dr_decision_id ` set (decisions_upsert rec records) = insert (dr_decision_id rec) (dr_decision_id ` set records)"
  by (induction records) auto

interpretation decision_order: comparison "\<lambda>a b. dr_decision_id a < dr_decision_id b"
  by unfold_locales auto

interpretation trace_decisions: repository dr_decision_id "\<lambda>r. dr_trace_id r = trace" decisions_upsert
  decisions_get "decisions_list_by_trace trace" decisions_inv for trace
proof
  fix records a k
  assume inv: "decisions_inv records"
  show "decisions_inv (decisions_upsert a records)"
    using inv
  proof (induction records)
    case (Cons r records)
    then show ?case using ids_decisions_upsert [of a records] by (auto simp: decisions_inv_def)
  qed (simp add: decisions_inv_def)
  show "decisions_get (decisions_upsert a records) = (decisions_get records)(dr_decision_id a \<mapsto> a)"
    by (rule ext, induction records) (auto simp: decisions_get_def)
  show "decisions_get records k = Some a \<Longrightarrow> dr_decision_id a = k"
    by (auto simp: decisions_get_def find_Some_iff)
  let ?s = "decisions_list_by_trace trace records"
  have "distinct (map dr_decision_id (filter (\<lambda>r. dr_trace_id r = trace) records))"
    using inv by (simp add: decisions_inv_def distinct_map_filter)
  moreover have "mset (map dr_decision_id ?s) =
      mset (map dr_decision_id (filter (\<lambda>r. dr_trace_id r = trace) records))"
    by (simp add: decisions_list_by_trace_def)
  ultimately have "distinct (map dr_decision_id ?s)" by (metis mset_eq_imp_distinct_iff)
  moreover have "sorted (map dr_decision_id ?s)"
    using decision_order.sorted_std_sort [of "filter (\<lambda>r. dr_trace_id r = trace) records"]
    by (simp add: decisions_list_by_trace_def sorted_wrt_map not_less)
  ultimately show "sorted_set (map dr_decision_id ?s)" by (simp add: sorted_set_def)
  show "a \<in> set ?s \<longleftrightarrow> dr_trace_id a = trace \<and> decisions_get records (dr_decision_id a) = Some a"
    using inv by (auto simp: decisions_list_by_trace_def decisions_get_def decisions_inv_def find_key_iff)
qed

section \<open>Properties\<close>

text \<open>After any sequence of upserts into an empty atom repository, looking an identifier up gives the
  atom last stored under it, and the verified listing holds, in strictly increasing identifier order,
  exactly the current atoms that are verified: an atom stored again without the flag leaves the list.\<close>

theorem atom_repository_contents:
  "atoms_get (fold atoms_upsert items []) i = find (\<lambda>a. experience_atom.atom_id a = i) (rev items) \<and>
   sorted_set (map experience_atom.atom_id (atoms_list_verified (fold atoms_upsert items []))) \<and>
   set (atoms_list_verified (fold atoms_upsert items [])) =
     {a. atom_verified a \<and> find (\<lambda>b. experience_atom.atom_id b = experience_atom.atom_id a) (rev items) = Some a}"
proof -
  have g: "atoms_get (fold atoms_upsert items []) j = find (\<lambda>a. experience_atom.atom_id a = j) (rev items)" for j
    using verified_atoms.get_fold [OF keyed_Nil, of items j] by (simp add: atoms_get_def split: option.splits)
  show ?thesis
    using verified_atoms.listing_sorted [OF verified_atoms.fold_inv [OF keyed_Nil, of items]]
      verified_atoms.listing_iff [OF verified_atoms.fold_inv [OF keyed_Nil, of items]]
    by (auto simp: g)
qed

text \<open>What the decision store lists for a trace does not depend on the order in which the records were
  stored, although the store is an unsorted vector.\<close>

theorem decisions_order_independent:
  assumes "mset records = mset records'" "distinct (map dr_decision_id records)"
  shows "decisions_list_by_trace trace (fold decisions_upsert records []) =
    decisions_list_by_trace trace (fold decisions_upsert records' [])"
  by (rule trace_decisions.listing_perm) (simp_all add: assms decisions_inv_def)

theorem decisions_order_independent_witness:
  "decisions_list_by_trace ''t1'' (fold decisions_upsert
      [sample_record\<lparr>dr_decision_id := ''d2''\<rparr>, sample_record] []) =
   decisions_list_by_trace ''t1'' (fold decisions_upsert
      [sample_record, sample_record\<lparr>dr_decision_id := ''d2''\<rparr>] [])"
  by (rule decisions_order_independent) (simp_all add: sample_record_def)

end
