(* ===== verification/Json_Codecs.thy ===== *)
theory Json_Codecs
  imports Decision_Record Artifacts Validation_Engine
begin

text \<open>
  The other JSON forms of the program: the resume token representation
  (\<open>src/domain/resume_token_ir_json.cpp\<close>), the snapshot of the runtime configuration
  (\<open>src/domain/runtime_config_snapshot.cpp\<close>) and the override request
  (\<open>src/constitution/override_request.cpp\<close>). Each is read back as it was written; the fields
  that may be absent get the defaults of the code.
\<close>

section \<open>Integers and maps\<close>

definition get_int32 :: "'j json_api \<Rightarrow> 'j \<Rightarrow> (string, int) result" where
  "get_int32 J j = result_bind (j_get_int J j) (\<lambda>i. Inr (sint (word_of_int i :: 32 word)))"

definition is_int32 :: "int \<Rightarrow> bool" where
  "is_int32 i \<longleftrightarrow> - (2 ^ 31) \<le> i \<and> i < 2 ^ 31"

definition get_uint32 :: "'j json_api \<Rightarrow> 'j \<Rightarrow> (string, 32 word) result" where
  "get_uint32 J j = result_bind (get_int32 J j) (\<lambda>i. Inr (word_of_int i))"

definition get_map ::
  "'j json_api \<Rightarrow> ('j \<Rightarrow> (string, 'a) result) \<Rightarrow> 'j \<Rightarrow> (string, (string \<times> 'a) list) result" where
  "get_map J getter j =
     result_bind (j_items J j) (result_map (\<lambda>(k, v). result_bind (getter v) (\<lambda>a. Inr (k, a))))"

definition map_json :: "'j json_api \<Rightarrow> ('a \<Rightarrow> 'j) \<Rightarrow> (string \<times> 'a) list \<Rightarrow> 'j" where
  "map_json J f m = j_object J (map (\<lambda>(k, a). (k, f a)) m)"

section \<open>Resume tokens\<close>

definition tokenizer_metadata_to_json :: "'j json_api \<Rightarrow> tokenizer_metadata \<Rightarrow> 'j" where
  "tokenizer_metadata_to_json J tm =
     j_object J
       ((case tm_model_id tm of Some m \<Rightarrow> [(''model_id'', j_string J m)] | None \<Rightarrow> []) @
        (case tm_prompt_version tm of Some p \<Rightarrow> [(''prompt_version'', j_string J p)] | None \<Rightarrow> []) @
        [(''type'', j_string J (tokenizer_type_to_string (tm_type tm)))])"

definition token_span_to_json :: "'j json_api \<Rightarrow> token_span \<Rightarrow> 'j" where
  "token_span_to_json J sp =
     j_object J
       [(''end_line'', j_int J (uint (span_end_line sp))),
        (''start_line'', j_int J (uint (span_start_line sp))),
        (''token'', j_string J (span_token sp))]"

definition token_ir_to_json :: "'j json_api \<Rightarrow> resume_token_ir \<Rightarrow> 'j" where
  "token_ir_to_json J ir =
     j_object J
       [(''schema_version'', j_string J (ir_schema_version ir)),
        (''source_hash'', j_string J (ir_source_hash ir)),
        (''spans'', j_array J (map (token_span_to_json J) (ir_spans ir))),
        (''tokenizer'', tokenizer_metadata_to_json J (ir_tokenizer ir)),
        (''tokens'', map_json J (strings_json J) (ir_tokens ir))]"

definition token_ir_to_json_string :: "'j json_api \<Rightarrow> resume_token_ir \<Rightarrow> (string, string) result" where
  "token_ir_to_json_string J ir = j_dump J (token_ir_to_json J ir)"

definition get_when_present :: "'j json_api \<Rightarrow> ('j \<Rightarrow> (string, 'a) result) \<Rightarrow> 'j \<Rightarrow> string \<Rightarrow> (string, 'a option) result" where
  "get_when_present J getter j k =
     (if j_contains J j k then result_bind (j_get_at J getter j k) (\<lambda>a. Inr (Some a)) else Inr None)"

definition tokenizer_metadata_from_json :: "'j json_api \<Rightarrow> 'j \<Rightarrow> (string, tokenizer_metadata) result" where
  "tokenizer_metadata_from_json J j =
     result_bind (j_value J (j_get_string J) j ''type'' ''deterministic-lexical'') (\<lambda>type_str.
     result_bind (get_when_present J (j_get_string J) j ''model_id'') (\<lambda>model.
     result_bind (get_when_present J (j_get_string J) j ''prompt_version'') (\<lambda>prompt.
       Inr \<lparr>tm_type = (case string_to_tokenizer_type type_str of Some t \<Rightarrow> t
                        | None \<Rightarrow> kDeterministicLexical),
            tm_model_id = model, tm_prompt_version = prompt\<rparr>)))"

definition token_span_from_json :: "'j json_api \<Rightarrow> 'j \<Rightarrow> (string, token_span) result" where
  "token_span_from_json J j =
     result_bind (j_value J (j_get_string J) j ''token'' []) (\<lambda>token.
     result_bind (j_value J (get_uint32 J) j ''start_line'' 1) (\<lambda>start_line.
     result_bind (j_value J (get_uint32 J) j ''end_line'' 1) (\<lambda>end_line.
       Inr \<lparr>span_token = token, span_start_line = start_line, span_end_line = end_line\<rparr>)))"

text \<open>
  The tokenizer type of a fresh \<open>ResumeTokenIR\<close> has no initialiser: when the document has no
  tokenizer object the field keeps an indeterminate value, the parameter \<open>indeterminate\<close>.
\<close>

definition token_ir_from_json ::
  "tokenizer_type \<Rightarrow> 'j json_api \<Rightarrow> 'j \<Rightarrow> (string, resume_token_ir) result" where
  "token_ir_from_json indeterminate J j =
     result_bind (j_value J (j_get_string J) j ''schema_version'' ''0.3'') (\<lambda>schema.
     result_bind (j_value J (j_get_string J) j ''source_hash'' []) (\<lambda>source.
     result_bind (get_when_present J (tokenizer_metadata_from_json J) j ''tokenizer'') (\<lambda>tokenizer.
     result_bind (get_when_present J (get_map J (j_get_strings J)) j ''tokens'') (\<lambda>tokens.
     result_bind (get_when_present J (\<lambda>spans. result_map (token_span_from_json J) (j_elems J spans)) j ''spans'') (\<lambda>spans.
       Inr \<lparr>ir_schema_version = schema, ir_source_hash = source,
            ir_tokenizer = (case tokenizer of Some tm \<Rightarrow> tm
              | None \<Rightarrow> \<lparr>tm_type = indeterminate, tm_model_id = None, tm_prompt_version = None\<rparr>),
            ir_tokens = (case tokens of Some m \<Rightarrow> m | None \<Rightarrow> []),
            ir_spans = (case spans of Some ss \<Rightarrow> ss | None \<Rightarrow> [])\<rparr>)))))"

section \<open>The runtime configuration snapshot\<close>

record runtime_config_snapshot =
  rc_snapshot_format_version :: int
  rc_db_schema_version :: int
  rc_vector_backend :: string
  rc_redis_host :: string
  rc_redis_port :: int
  rc_redis_db :: int
  rc_build_version :: string
  rc_feature_flags :: "(string \<times> string) list"

definition snapshot_to_json :: "'j json_api \<Rightarrow> runtime_config_snapshot \<Rightarrow> (string, string) result" where
  "snapshot_to_json J snap =
     j_dump J (j_object J
       [(''build_version'', j_string J (rc_build_version snap)),
        (''db_schema_version'', j_int J (rc_db_schema_version snap)),
        (''feature_flags'', map_json J (j_string J) (rc_feature_flags snap)),
        (''redis_db'', j_int J (rc_redis_db snap)),
        (''redis_host'', j_string J (rc_redis_host snap)),
        (''redis_port'', j_int J (rc_redis_port snap)),
        (''snapshot_format_version'', j_int J (rc_snapshot_format_version snap)),
        (''vector_backend'', j_string J (rc_vector_backend snap))])"

definition snapshot_from_json :: "'j json_api \<Rightarrow> string \<Rightarrow> (string, runtime_config_snapshot) result" where
  "snapshot_from_json J s =
     result_bind (j_parse J s) (\<lambda>j.
     result_bind
       (if j_contains J j ''snapshot_format_version'' then j_get_at J (get_int32 J) j ''snapshot_format_version''
        else if j_contains J j ''schema_version'' then j_get_at J (get_int32 J) j ''schema_version''
        else Inr 2) (\<lambda>format.
     result_bind (j_value J (get_int32 J) j ''db_schema_version'' 0) (\<lambda>db_schema.
     result_bind (j_get_at J (j_get_string J) j ''vector_backend'') (\<lambda>backend.
     result_bind (j_get_at J (j_get_string J) j ''redis_host'') (\<lambda>host.
     result_bind (j_get_at J (get_int32 J) j ''redis_port'') (\<lambda>port.
     result_bind (j_get_at J (get_int32 J) j ''redis_db'') (\<lambda>db.
     result_bind (j_get_at J (j_get_string J) j ''build_version'') (\<lambda>build.
     result_bind (j_get_at J (get_map J (j_get_string J)) j ''feature_flags'') (\<lambda>flags.
       Inr \<lparr>rc_snapshot_format_version = format, rc_db_schema_version = db_schema,
            rc_vector_backend = backend, rc_redis_host = host, rc_redis_port = port, rc_redis_db = db,
            rc_build_version = build, rc_feature_flags = flags\<rparr>)))))))))"

definition snapshot_wf :: "runtime_config_snapshot \<Rightarrow> bool" where
  "snapshot_wf snap \<longleftrightarrow> is_int32 (rc_snapshot_format_version snap) \<and> is_int32 (rc_db_schema_version snap) \<and>
     is_int32 (rc_redis_port snap) \<and> is_int32 (rc_redis_db snap) \<and> omap_inv (rc_feature_flags snap)"

section \<open>Override requests\<close>

definition override_request_to_json :: "'j json_api \<Rightarrow> override_request \<Rightarrow> 'j" where
  "override_request_to_json J req =
     j_object J
       [(''binding_hash_alg'', j_string J (or_binding_hash_alg req)),
        (''operator_id'', j_string J (or_operator_id req)),
        (''payload_hash'', j_string J (or_payload_hash req)),
        (''reason'', j_string J (or_reason req)),
        (''rule_id'', j_string J (or_rule_id req))]"

definition override_request_from_json :: "'j json_api \<Rightarrow> 'j \<Rightarrow> (string, override_request) result" where
  "override_request_from_json J j =
     result_bind (j_value J (j_get_string J) j ''binding_hash_alg'' ''sha256'') (\<lambda>alg.
     result_bind (j_get_at J (j_get_string J) j ''operator_id'') (\<lambda>operator.
     result_bind (j_get_at J (j_get_string J) j ''payload_hash'') (\<lambda>payload.
     result_bind (j_get_at J (j_get_string J) j ''reason'') (\<lambda>reason.
     result_bind (j_get_at J (j_get_string J) j ''rule_id'') (\<lambda>rule_name.
       Inr \<lparr>or_binding_hash_alg = alg, or_operator_id = operator, or_payload_hash = payload,
            or_reason = reason, or_rule_id = rule_name\<rparr>)))))"

section \<open>Round trips\<close>

lemma sint_word_of_int32: "is_int32 i \<Longrightarrow> sint (word_of_int i :: 32 word) = i"
  by (simp add: is_int32_def signed_of_int signed_take_bit_int_eq_self)

lemma omap_inv_map: "omap_inv m \<Longrightarrow> omap_inv (map (\<lambda>(k, a). (k, f a)) m)"
  by (simp add: omap_inv_def comp_def case_prod_unfold)

context json_library begin

lemma get_int32_int: "is_int32 i \<Longrightarrow> get_int32 J (j_int J i) = Inr i"
  by (simp add: get_int32_def get_int_int sint_word_of_int32)

lemma get_uint32_int: "get_uint32 J (j_int J (uint w)) = Inr w"
  by (simp add: get_uint32_def get_int32_def get_int_int)

lemma get_map_json:
  assumes "omap_inv m" "\<And>k a. (k, a) \<in> set m \<Longrightarrow> getter (f a) = Inr a"
  shows "get_map J getter (map_json J f m) = Inr m"
proof -
  have "result_map (\<lambda>(k, v). result_bind (getter v) (\<lambda>a. Inr (k, a))) (map (\<lambda>(k, a). (k, f a)) m) = Inr m"
    by (rule result_map_inverse) (auto simp: assms(2))
  then show ?thesis by (simp add: get_map_def map_json_def items_object omap_inv_map assms(1))
qed

lemma contains_object_iff:
  "distinct (map fst kvs) \<Longrightarrow> j_contains J (j_object J kvs) k \<longleftrightarrow> map_of kvs k \<noteq> None"
  by (simp add: contains_object map_of_eq_None_iff)

lemma value_object:
  "distinct (map fst kvs) \<Longrightarrow> map_of kvs k = Some v \<Longrightarrow> j_value J getter (j_object J kvs) k d = getter v"
  by (simp add: j_value_def is_object_object contains_object_iff at_object del: map_of_eq_Some_iff)

lemma value_object_absent:
  "distinct (map fst kvs) \<Longrightarrow> k \<notin> fst ` set kvs \<Longrightarrow> j_value J getter (j_object J kvs) k d = Inr d"
  by (simp add: j_value_def is_object_object contains_object)

lemma when_present_object:
  "distinct (map fst kvs) \<Longrightarrow>
     get_when_present J getter (j_object J kvs) k =
       (case map_of kvs k of Some v \<Rightarrow> result_bind (getter v) (\<lambda>a. Inr (Some a)) | None \<Rightarrow> Inr None)"
  by (cases "map_of kvs k")
    (simp_all add: get_when_present_def contains_object_iff get_at_object del: map_of_eq_Some_iff)

lemmas read_object = value_object when_present_object get_at_object get_string_string get_strings_json

lemma tokenizer_metadata_roundtrip:
  "tokenizer_metadata_from_json J (tokenizer_metadata_to_json J tm) = Inr tm"
  by (cases "tm_model_id tm"; cases "tm_prompt_version tm")
    (simp_all add: tokenizer_metadata_from_json_def tokenizer_metadata_to_json_def read_object)

lemma token_span_roundtrip: "token_span_from_json J (token_span_to_json J sp) = Inr sp"
  by (simp add: token_span_from_json_def token_span_to_json_def read_object get_uint32_int)

lemma token_ir_json_roundtrip:
  "omap_inv (ir_tokens ir) \<Longrightarrow> token_ir_from_json t J (token_ir_to_json J ir) = Inr ir"
  by (simp add: token_ir_from_json_def token_ir_to_json_def read_object get_map_json elems_array
      result_map_inverse token_span_roundtrip tokenizer_metadata_roundtrip)

lemma snapshot_json_roundtrip:
  assumes "snapshot_wf snap" "snapshot_to_json J snap = Inr s"
  shows "snapshot_from_json J s = Inr snap"
  unfolding snapshot_from_json_def parse_dump [OF assms(2) [unfolded snapshot_to_json_def]]
  using assms(1)
  by (simp add: contains_object read_object get_int32_int get_map_json snapshot_wf_def)

lemma override_request_roundtrip:
  "override_request_from_json J (override_request_to_json J req) = Inr req"
  by (simp add: override_request_from_json_def override_request_to_json_def read_object)

text \<open>A request without the algorithm is read with the current one.\<close>

lemma override_request_default:
  "override_request_from_json J (j_object J
     [(''operator_id'', j_string J p), (''payload_hash'', j_string J h), (''reason'', j_string J r),
      (''rule_id'', j_string J i)]) =
   Inr \<lparr>or_binding_hash_alg = ''sha256'', or_operator_id = p, or_payload_hash = h, or_reason = r, or_rule_id = i\<rparr>"
  by (simp add: override_request_from_json_def read_object value_object_absent)

text \<open>A document without a tokenizer object leaves the type as it happens to be.\<close>

lemma token_ir_indeterminate:
  "token_ir_from_json t J (j_object J [(''source_hash'', j_string J h)]) =
     Inr \<lparr>ir_schema_version = ''0.3'', ir_source_hash = h,
          ir_tokenizer = \<lparr>tm_type = t, tm_model_id = None, tm_prompt_version = None\<rparr>,
          ir_tokens = [], ir_spans = []\<rparr>"
  by (simp add: token_ir_from_json_def read_object value_object_absent)

end

section \<open>Properties\<close>

text \<open>C21. A resume token representation printed to text, parsed and read back is the same representation:
  its metadata (present or absent), its token categories and its 32-bit line spans.\<close>

theorem token_ir_roundtrip:
  assumes "json_library J" "omap_inv (ir_tokens ir)" "token_ir_to_json_string J ir = Inr s"
  shows "result_bind (j_parse J s) (token_ir_from_json indeterminate J) = Inr ir"
  using assms(3)
  by (simp add: token_ir_to_json_string_def json_library.parse_dump [OF assms(1)]
      json_library.token_ir_json_roundtrip [OF assms(1,2)])

theorem token_ir_roundtrip_witness:
  "\<exists>s. result_bind (j_parse tree_json s) (token_ir_from_json kDeterministicLexical tree_json) =
     Inr \<lparr>ir_schema_version = ''0.3'', ir_source_hash = ''h'',
          ir_tokenizer = \<lparr>tm_type = kInferenceAssisted, tm_model_id = Some ''m'', tm_prompt_version = None\<rparr>,
          ir_tokens = [(''domains'', []), (''skills'', [''cpp''])],
          ir_spans = [\<lparr>span_token = ''cpp'', span_start_line = 1, span_end_line = 0xFFFFFFFF\<rparr>]\<rparr>"
  by (intro exI, rule token_ir_roundtrip [OF tree.json_library_axioms])
    (simp_all add: omap_inv_Cons token_ir_to_json_string_def tree_json_def)

text \<open>The snapshot of the runtime configuration written at startup reads back as it was taken.\<close>

theorem snapshot_roundtrip:
  assumes "json_library J" "snapshot_wf snap" "snapshot_to_json J snap = Inr s"
  shows "snapshot_from_json J s = Inr snap"
  by (rule json_library.snapshot_json_roundtrip [OF assms])

theorem snapshot_roundtrip_witness:
  "\<exists>s. snapshot_from_json tree_json s =
     Inr \<lparr>rc_snapshot_format_version = 2, rc_db_schema_version = 8, rc_vector_backend = ''sqlite'',
          rc_redis_host = ''localhost'', rc_redis_port = 6379, rc_redis_db = 0, rc_build_version = ''0.4'',
          rc_feature_flags = []\<rparr>"
  by (intro exI, rule snapshot_roundtrip [OF tree.json_library_axioms])
    (simp_all add: snapshot_wf_def is_int32_def snapshot_to_json_def tree_json_def)

end
