(* ===== verification/Hygiene.thy ===== *)
theory Hygiene
  imports Normalization Std_Parse
begin

text \<open>
  The hygiene pipeline for resumes, \<open>src/ingest/hygiene.cpp\<close>: line endings, trailing blanks,
  runs of blank lines and ATX headings, in this order. Three of the four passes read the text line by
  line with \<open>std::getline\<close>, write every line with a newline and take the last newline away
  again when the input had none; the lemmas treat them as one pass with a transformation of the lines.
  The main results are that the pipeline is idempotent and what its results look like.
\<close>

abbreviation NL :: char where "NL \<equiv> CHR 0x0A"
abbreviation CR :: char where "CR \<equiv> CHR 0x0D"

section \<open>The passes\<close>

fun normalize_line_endings :: "string \<Rightarrow> string" where
  "normalize_line_endings [] = []"
| "normalize_line_endings [c] = (if c = CR then [NL] else [c])"
| "normalize_line_endings (c # d # s) =
     (if c = CR
      then (if d = NL then NL # normalize_line_endings s else NL # normalize_line_endings (d # s))
      else c # normalize_line_endings (d # s))"

text \<open>The lines that repeated \<open>std::getline\<close> reads, and their output.\<close>

function get_lines :: "string \<Rightarrow> string list" where
  "get_lines s =
     (if s = [] then []
      else takeWhile (\<lambda>c. c \<noteq> NL) s # get_lines (tl (dropWhile (\<lambda>c. c \<noteq> NL) s)))"
  by pat_completeness auto
termination
proof (relation "measure length", simp, simp)
  fix s :: string
  assume "s \<noteq> []"
  moreover have "length (dropWhile (\<lambda>c. c \<noteq> NL) s) \<le> length s" by (rule length_dropWhile_le)
  ultimately show "length (dropWhile (\<lambda>c. c \<noteq> NL) s) - Suc 0 < length s"
    by (cases s) auto
qed

declare get_lines.simps [simp del]

definition put_lines :: "string list \<Rightarrow> string" where
  "put_lines ls = concat (map (\<lambda>l. l @ [NL]) ls)"

text \<open>\<open>if (!text.empty() && text.back() != '\n' && text.back() != '\r') ...\<close>\<close>

definition restore_end :: "string \<Rightarrow> string \<Rightarrow> string" where
  "restore_end text res =
     (if text \<noteq> [] \<and> last text \<noteq> NL \<and> last text \<noteq> CR
      then (if res \<noteq> [] \<and> last res = NL then butlast res else res) else res)"

definition rtrim :: "string \<Rightarrow> string" where
  "rtrim line = rev (dropWhile is_c_space (rev line))"

definition trim_trailing_whitespace :: "string \<Rightarrow> string" where
  "trim_trailing_whitespace text = restore_end text (put_lines (map rtrim (get_lines text)))"

fun collapse :: "nat \<Rightarrow> string list \<Rightarrow> string list" where
  "collapse blank_count [] = []"
| "collapse blank_count (line # ls) =
     (if line = []
      then (if blank_count + 1 \<le> 2 then [] # collapse (blank_count + 1) ls else collapse (blank_count + 1) ls)
      else line # collapse 0 ls)"

definition collapse_blank_lines :: "string \<Rightarrow> string" where
  "collapse_blank_lines text = restore_end text (put_lines (collapse 0 (get_lines text)))"

definition heading :: "string \<Rightarrow> string" where
  "heading line =
     (if line \<noteq> [] \<and> hd line = CHR ''#''
      then (let hashes = takeWhile (\<lambda>c. c = CHR ''#'') line;
                rest = dropWhile (\<lambda>c. c = CHR ''#'') line;
                body = dropWhile (\<lambda>c. c = CHR '' '' \<or> c = CHR 0x09) rest
            in if rest \<noteq> [] \<and> body \<noteq> [] then hashes @ '' '' @ body else line)
      else line)"

definition normalize_headings :: "string \<Rightarrow> string" where
  "normalize_headings text = restore_end text (put_lines (map heading (get_lines text)))"

definition apply_hygiene :: "string \<Rightarrow> string" where
  "apply_hygiene text =
     normalize_headings (collapse_blank_lines (trim_trailing_whitespace (normalize_line_endings text)))"

section \<open>Lines\<close>

lemma get_lines_Nil [simp]: "get_lines [] = []"
  by (simp add: get_lines.simps)

lemma get_lines_eq_Nil_iff [simp]: "get_lines s = [] \<longleftrightarrow> s = []"
  by (simp add: get_lines.simps [of s])

text \<open>Reading goes line by line.\<close>

lemma until_newline:
  "NL \<notin> set l \<Longrightarrow> takeWhile (\<lambda>c. c \<noteq> NL) (l @ NL # s) = l"
  "NL \<notin> set l \<Longrightarrow> dropWhile (\<lambda>c. c \<noteq> NL) (l @ NL # s) = NL # s"
  by (induction l) auto

lemma get_lines_line: "NL \<notin> set l \<Longrightarrow> get_lines (l @ NL # s) = l # get_lines s"
  by (subst get_lines.simps) (simp add: until_newline)

lemma get_lines_last: "NL \<notin> set l \<Longrightarrow> l \<noteq> [] \<Longrightarrow> get_lines l = [l]"
proof -
  assume l: "NL \<notin> set l" "l \<noteq> []"
  have "takeWhile (\<lambda>c. c \<noteq> NL) m = m \<and> dropWhile (\<lambda>c. c \<noteq> NL) m = []" if "NL \<notin> set m" for m
    using that by (induction m) auto
  from this [OF l(1)] l(2) show ?thesis unfolding get_lines.simps [of l] by (metis get_lines_Nil list.sel(2))
qed

lemma put_lines_simps [simp]:
  "put_lines [] = []" "put_lines (l # ls) = l @ NL # put_lines ls"
  "put_lines (ls @ ms) = put_lines ls @ put_lines ms"
  by (simp_all add: put_lines_def)

definition plain :: "string list \<Rightarrow> bool" where
  "plain ls \<longleftrightarrow> (\<forall>l \<in> set ls. NL \<notin> set l)"

lemma plain_simps [simp]:
  "plain []" "plain (l # ls) \<longleftrightarrow> NL \<notin> set l \<and> plain ls" "plain (ls @ ms) \<longleftrightarrow> plain ls \<and> plain ms"
  by (auto simp: plain_def)

lemma get_put_lines_append: "plain ls \<Longrightarrow> get_lines (put_lines ls @ s) = ls @ get_lines s"
  by (induction ls) (simp_all add: get_lines_line)

lemma get_put_lines [simp]: "plain ls \<Longrightarrow> get_lines (put_lines ls) = ls"
  using get_put_lines_append [of ls "[]"] by simp

text \<open>Every text is its lines, the last of them perhaps without its newline.\<close>

lemma text_split:
  "\<exists>ls l. plain ls \<and> NL \<notin> set l \<and> s = put_lines ls @ l"
proof (induction s rule: length_induct)
  case (1 s)
  show ?case
  proof (cases "NL \<in> set s")
    case True
    then obtain l t where t: "s = l @ NL # t" "NL \<notin> set l" by (metis split_list_first)
    then obtain ls m where "plain ls" "NL \<notin> set m" "t = put_lines ls @ m"
      using 1 [rule_format, of t] by auto
    then show ?thesis using t by (intro exI [of _ "l # ls"] exI [of _ m]) simp
  next
    case False
    then show ?thesis by (intro exI [of _ "[]"] exI [of _ s]) simp
  qed
qed

lemma text_cases:
  obtains (terminated) ls where "plain ls" "s = put_lines ls"
  | (open_end) ls l where "plain ls" "NL \<notin> set l" "l \<noteq> []" "s = put_lines ls @ l"
  using text_split [of s] by (metis append_Nil2)

lemma plain_get_lines [simp]: "plain (get_lines s)"
  by (rule text_cases [of s]) (simp_all add: get_put_lines_append get_lines_last)

section \<open>One pass over the lines\<close>

definition line_pass :: "(string list \<Rightarrow> string list) \<Rightarrow> string \<Rightarrow> string" where
  "line_pass f text = restore_end text (put_lines (f (get_lines text)))"

lemma passes:
  "trim_trailing_whitespace = line_pass (map rtrim)"
  "collapse_blank_lines = line_pass (collapse 0)"
  "normalize_headings = line_pass (map heading)"
  by (simp_all add: fun_eq_iff line_pass_def trim_trailing_whitespace_def collapse_blank_lines_def
      normalize_headings_def)

lemma put_lines_last: "ls \<noteq> [] \<Longrightarrow> put_lines ls \<noteq> [] \<and> last (put_lines ls) = NL"
  by (cases ls rule: rev_cases) simp_all

lemma restore_end_put:
  "restore_end text (put_lines ls) = put_lines ls \<or> restore_end text (put_lines ls) = butlast (put_lines ls)"
  by (simp add: restore_end_def)

lemma get_lines_butlast:
  assumes "plain ls"
  shows "get_lines (butlast (put_lines ls)) = ls \<or> get_lines (butlast (put_lines ls)) = butlast ls"
proof (cases ls rule: rev_cases)
  case (snoc ms l)
  then show ?thesis
    using assms by (cases "l = []") (simp_all add: butlast_append get_put_lines_append get_lines_last)
qed simp

lemma get_lines_pass:
  "plain (f (get_lines s)) \<Longrightarrow>
     get_lines (line_pass f s) = f (get_lines s) \<or> get_lines (line_pass f s) = butlast (f (get_lines s))"
  using restore_end_put [of s "f (get_lines s)"] get_lines_butlast [of "f (get_lines s)"]
  by (auto simp: line_pass_def)

text \<open>A pass that keeps the lines keeps the text.\<close>

lemma line_pass_id:
  assumes "CR \<notin> set s" "f (get_lines s) = get_lines s"
  shows "line_pass f s = s"
proof (rule text_cases [of s])
  fix ls assume "plain ls" "s = put_lines ls"
  then show ?thesis
    using assms(2) put_lines_last [of ls] by (cases "ls = []") (simp_all add: line_pass_def restore_end_def)
next
  fix ls l assume s: "plain ls" "NL \<notin> set l" "l \<noteq> []" "s = put_lines ls @ l"
  have "last s \<in> set l" "s \<noteq> []" using s by simp_all
  then have "last s \<noteq> NL" "last s \<noteq> CR" "s \<noteq> []" using s(2,4) assms(1) by auto
  moreover have "put_lines (get_lines s) = s @ [NL]"
    using s by (simp add: get_put_lines_append get_lines_last)
  ultimately show ?thesis using assms(2) by (simp add: line_pass_def restore_end_def)
qed

lemma set_line_pass: "set (line_pass f s) \<subseteq> insert NL (\<Union>l \<in> set (f (get_lines s)). set l)"
proof -
  let ?r = "put_lines (f (get_lines s))"
  have "set (line_pass f s) \<subseteq> set ?r"
    by (auto simp: line_pass_def restore_end_def dest: in_set_butlastD)
  also have "\<dots> \<subseteq> insert NL (\<Union>l \<in> set (f (get_lines s)). set l)" by (auto simp: put_lines_def)
  finally show ?thesis .
qed

section \<open>What the passes do to lines\<close>

lemma normalize_line_endings_no_CR: "CR \<notin> set (normalize_line_endings s)"
  by (induction s rule: normalize_line_endings.induct) auto

lemma normalize_line_endings_id: "CR \<notin> set s \<Longrightarrow> normalize_line_endings s = s"
  by (induction s rule: normalize_line_endings.induct) auto

lemma set_rtrim: "set (rtrim l) \<subseteq> set l"
  using set_dropWhileD by (fastforce simp: rtrim_def)

lemma rtrim_idem [simp]: "rtrim (rtrim l) = rtrim l"
  by (simp add: rtrim_def)

lemma rtrim_fixed_iff: "rtrim l = l \<longleftrightarrow> l = [] \<or> \<not> is_c_space (last l)"
proof (cases l rule: rev_cases)
  case (snoc m c)
  have "length (rtrim (m @ [c])) \<le> length m" if "is_c_space c"
    using that length_dropWhile_le [of is_c_space "rev m"] by (simp add: rtrim_def)
  then have "rtrim (m @ [c]) \<noteq> m @ [c]" if "is_c_space c" using that by fastforce
  then show ?thesis using snoc by (auto simp: rtrim_def)
qed (simp add: rtrim_def)

lemma set_collapse: "set (collapse n ls) \<subseteq> set ls"
  by (induction n ls rule: collapse.induct) auto

lemma collapse_idem: "m \<le> n \<Longrightarrow> collapse m (collapse n ls) = collapse n ls"
proof (induction ls arbitrary: m n)
  case (Cons l ls)
  show ?case
  proof (cases "l = []")
    case True
    then show ?thesis using Cons by auto
  next
    case False
    then show ?thesis using Cons.IH [of 0 0] by simp
  qed
qed simp

lemma collapse_butlast: "collapse n ls = ls \<Longrightarrow> collapse n (butlast ls) = butlast ls"
proof (induction n ls rule: collapse.induct)
  case (2 n l ls)
  have "length (collapse k ls) \<le> length ls" for k
    by (induction ls arbitrary: k) (auto intro: le_SucI)
  then have "collapse k ls \<noteq> [] # ls" for k by (metis Suc_n_not_le_n length_Cons)
  then show ?case using 2 by (cases "ls = []") (auto split: if_splits)
qed simp

lemma collapse_map:
  assumes "\<And>l. f l = [] \<longleftrightarrow> l = []"
  shows "collapse n (map f ls) = map f (collapse n ls)"
proof -
  have f: "f [] = []" by (simp add: assms)
  show ?thesis by (induction n ls rule: collapse.induct) (auto simp: assms f)
qed

lemma heading_eq_Nil_iff [simp]: "heading l = [] \<longleftrightarrow> l = []"
  by (auto simp: heading_def Let_def)

lemma heading_hash:
  assumes "body \<noteq> []" "hd body \<noteq> CHR '' ''" "hd body \<noteq> CHR 0x09" "0 < n"
  shows "heading (replicate n CHR ''#'' @ CHR '' '' # body) = replicate n CHR ''#'' @ CHR '' '' # body"
proof -
  have t: "takeWhile (\<lambda>c. c = CHR ''#'') (replicate n CHR ''#'' @ CHR '' '' # body) = replicate n CHR ''#''"
    "dropWhile (\<lambda>c. c = CHR ''#'') (replicate n CHR ''#'' @ CHR '' '' # body) = CHR '' '' # body"
    by (induction n) simp_all
  have "dropWhile (\<lambda>c. c = CHR '' '' \<or> c = CHR 0x09) body = body"
    using assms by (cases body) simp_all
  moreover from this have "dropWhile (\<lambda>c. c = CHR '' '' \<or> c = CHR 0x09) (CHR '' '' # body) = body" by simp
  ultimately show ?thesis
    using assms(1,4) unfolding heading_def t by (cases n) (simp_all add: Let_def del: dropWhile.simps)
qed

lemma heading_idem [simp]: "heading (heading l) = heading l"
proof -
  let ?h = "takeWhile (\<lambda>c. c = CHR ''#'') l" and ?r = "dropWhile (\<lambda>c. c = CHR ''#'') l"
  let ?t = "dropWhile (\<lambda>c. c = CHR '' '' \<or> c = CHR 0x09) ?r"
  show ?thesis
  proof (cases "l \<noteq> [] \<and> hd l = CHR ''#'' \<and> ?r \<noteq> [] \<and> ?t \<noteq> []")
    case True
    have "?h = replicate (length ?h) CHR ''#''"
      by (rule replicate_length_same [symmetric]) (auto dest: set_takeWhileD)
    moreover have "?h \<noteq> []" using True by (cases l) simp_all
    moreover have "hd ?t \<noteq> CHR '' ''" "hd ?t \<noteq> CHR 0x09"
      using True hd_dropWhile [of "\<lambda>c. c = CHR '' '' \<or> c = CHR 0x09" ?r] by auto
    ultimately have "heading (?h @ CHR '' '' # ?t) = ?h @ CHR '' '' # ?t"
      using heading_hash [of ?t "length ?h"] True by simp
    then show ?thesis using True by (simp add: heading_def [of l] Let_def)
  next
    case False
    then have "heading l = l" by (auto simp: heading_def Let_def)
    then show ?thesis by simp
  qed
qed

lemma set_heading: "set (heading l) \<subseteq> insert CHR '' '' (set l)"
  by (auto simp: heading_def Let_def dest: set_takeWhileD set_dropWhileD)

lemma heading_rtrim: "rtrim l = l \<Longrightarrow> rtrim (heading l) = heading l"
proof -
  assume l: "rtrim l = l"
  let ?r = "dropWhile (\<lambda>c. c = CHR ''#'') l"
  let ?t = "dropWhile (\<lambda>c. c = CHR '' '' \<or> c = CHR 0x09) ?r"
  have d: "dropWhile P xs \<noteq> [] \<Longrightarrow> last (dropWhile P xs) = last xs" for P and xs :: string
    by (induction xs) auto
  have "last ?t = last l" if "?t \<noteq> []" using d that by (metis dropWhile.simps(1))
  then show ?thesis using l by (auto simp: rtrim_fixed_iff heading_def Let_def)
qed

section \<open>The pipeline\<close>

text \<open>The shape of the lines of a result.\<close>

definition hygienic_lines :: "string list \<Rightarrow> bool" where
  "hygienic_lines ls \<longleftrightarrow>
     (\<forall>l \<in> set ls. rtrim l = l \<and> heading l = l \<and> CR \<notin> set l) \<and> collapse 0 ls = ls"

lemma hygienic_fixed:
  assumes "CR \<notin> set s" "hygienic_lines (get_lines s)"
  shows "apply_hygiene s = s"
  using assms
  by (simp add: apply_hygiene_def normalize_line_endings_id passes line_pass_id hygienic_lines_def map_idI)

lemma no_CR_pass:
  assumes "\<And>l. l \<in> set (f (get_lines s)) \<Longrightarrow> CR \<notin> set l"
  shows "CR \<notin> set (line_pass f s)"
  using set_line_pass [of f s] assms by auto

lemma no_CR_lines: "CR \<notin> set s \<Longrightarrow> l \<in> set (get_lines s) \<Longrightarrow> CR \<notin> set l"
proof (rule text_cases [of s])
  fix ls assume "CR \<notin> set s" "l \<in> set (get_lines s)" "plain ls" "s = put_lines ls"
  then show ?thesis by (simp) (auto simp: put_lines_def split: if_splits)
next
  fix ls m assume "CR \<notin> set s" "l \<in> set (get_lines s)" "plain ls" "NL \<notin> set m" "m \<noteq> []" "s = put_lines ls @ m"
  then show ?thesis
    by (auto simp: get_put_lines_append get_lines_last) (auto simp: put_lines_def split: if_splits)
qed

lemma plain_map: "plain ls \<Longrightarrow> (\<And>l. NL \<notin> set l \<Longrightarrow> NL \<notin> set (f l)) \<Longrightarrow> plain (map f ls)"
  by (auto simp: plain_def)

lemma hygiene_result:
  "CR \<notin> set (apply_hygiene s) \<and> hygienic_lines (get_lines (apply_hygiene s))"
proof -
  define n where "n = normalize_line_endings s"
  define t where "t = line_pass (map rtrim) n"
  define c where "c = line_pass (collapse 0) t"
  define h where "h = line_pass (map heading) c"
  have h_eq: "apply_hygiene s = h" by (simp add: apply_hygiene_def passes n_def t_def c_def h_def)
  have n: "CR \<notin> set n" by (simp add: n_def normalize_line_endings_no_CR)
  have t: "CR \<notin> set t"
    unfolding t_def by (rule no_CR_pass) (use set_rtrim no_CR_lines [OF n] in auto)
  have tl: "rtrim l = l" if "l \<in> set (get_lines t)" for l
  proof -
    have "plain (map rtrim (get_lines n))" by (rule plain_map) (use set_rtrim in auto)
    from get_lines_pass [where f = "map rtrim", OF this] that show ?thesis by (auto simp: t_def dest!: in_set_butlastD)
  qed
  have c: "CR \<notin> set c"
    unfolding c_def by (rule no_CR_pass) (use set_collapse no_CR_lines [OF t] in blast)
  have "plain (collapse 0 (get_lines t))"
    using plain_get_lines [of t] set_collapse unfolding plain_def by blast
  from get_lines_pass [where f = "collapse 0", OF this]
  have cl: "collapse 0 (get_lines c) = get_lines c" and ct: "set (get_lines c) \<subseteq> set (get_lines t)"
    using collapse_butlast [OF collapse_idem [of 0 0]] collapse_idem [of 0 0] set_collapse [of 0 "get_lines t"]
    by (auto simp: c_def dest!: in_set_butlastD)
  have h: "CR \<notin> set h"
    unfolding h_def by (rule no_CR_pass) (use set_heading no_CR_lines [OF c] in fastforce)
  have "plain (map heading (get_lines c))" by (rule plain_map) (use set_heading in auto)
  from get_lines_pass [where f = "map heading", OF this]
  have hl: "get_lines h = map heading (get_lines c) \<or> get_lines h = butlast (map heading (get_lines c))"
    by (simp add: h_def)
  have m: "collapse 0 (map heading (get_lines c)) = map heading (get_lines c)"
    by (simp add: collapse_map cl)
  have "collapse 0 (get_lines h) = get_lines h" using hl m collapse_butlast [OF m] by auto
  moreover have "rtrim l = l \<and> heading l = l" if "l \<in> set (get_lines h)" for l
  proof -
    have "l \<in> set (map heading (get_lines c))" using hl that in_set_butlastD by metis
    then obtain x where x: "x \<in> set (get_lines c)" "l = heading x" by auto
    then have "rtrim x = x" using tl ct by blast
    then show ?thesis using x heading_rtrim by simp
  qed
  moreover have "CR \<notin> set l" if "l \<in> set (get_lines h)" for l using no_CR_lines [OF h that] .
  ultimately show ?thesis using h by (simp add: h_eq hygienic_lines_def)
qed

interpretation hygiene: normalizer apply_hygiene
  by unfold_locales (simp add: hygienic_fixed hygiene_result)

section \<open>Properties\<close>

text \<open>The hygiene pipeline is idempotent: normalising an already normalised resume changes nothing, so
  the hash of the stored text is reproducible from the stored text. A text is left alone exactly when it is
  a result of the pipeline.\<close>

theorem hygiene_idempotent:
  "apply_hygiene (apply_hygiene source) = apply_hygiene source \<and>
   (apply_hygiene source = source \<longleftrightarrow> (\<exists>original. source = apply_hygiene original))"
  using hygiene.norm_idem hygiene.normal_iff by blast

text \<open>A heading as the pipeline leaves it: hashes alone, or hashes, one space and a text that begins with
  neither space nor tab.\<close>

definition atx_form :: "string \<Rightarrow> bool" where
  "atx_form l \<longleftrightarrow> (\<exists>n. l = replicate n CHR ''#'' \<or>
     (\<exists>text. l = replicate n CHR ''#'' @ CHR '' '' # text \<and> text \<noteq> [] \<and> hd text \<notin> {CHR '' '', CHR 0x09}))"

lemma heading_atx_form:
  assumes "heading l = l" "rtrim l = l" "l \<noteq> []" "hd l = CHR ''#''"
  shows "atx_form l"
proof -
  let ?h = "takeWhile (\<lambda>c. c = CHR ''#'') l" and ?r = "dropWhile (\<lambda>c. c = CHR ''#'') l"
  let ?t = "dropWhile (\<lambda>c. c = CHR '' '' \<or> c = CHR 0x09) ?r"
  have h: "?h = replicate (length ?h) CHR ''#''"
    by (rule replicate_length_same [symmetric]) (auto dest: set_takeWhileD)
  show ?thesis
  proof (cases "?r = []")
    case True
    then have "l = replicate (length ?h) CHR ''#''"
      using h takeWhile_dropWhile_id [of "\<lambda>c. c = CHR ''#''" l] by (metis append_Nil2)
    then show ?thesis unfolding atx_form_def by blast
  next
    case False
    have last: "last ?r = last l" using False takeWhile_dropWhile_id [of "\<lambda>c. c = CHR ''#''" l] by (metis last_appendR)
    have "?t \<noteq> []"
    proof
      assume "?t = []"
      then have "last ?r = CHR '' '' \<or> last ?r = CHR 0x09" using False by (simp add: dropWhile_eq_Nil_conv)
      then have "is_c_space (last l)" unfolding last by (auto simp: is_c_space_def)
      then show False using assms(2,3) by (simp add: rtrim_fixed_iff)
    qed
    then have "l = ?h @ CHR '' '' # ?t" using assms False by (simp add: heading_def Let_def)
    moreover have "hd ?t \<notin> {CHR '' '', CHR 0x09}"
      using hd_dropWhile [of "\<lambda>c. c = CHR '' '' \<or> c = CHR 0x09" ?r] \<open>?t \<noteq> []\<close> by auto
    ultimately show ?thesis using h \<open>?t \<noteq> []\<close> unfolding atx_form_def by metis
  qed
qed

text \<open>Three empty lines in a row are shortened.\<close>

lemma length_collapse: "length (collapse n ls) \<le> length ls"
  by (induction ls arbitrary: n) (auto intro: le_SucI)

lemma collapse_three: "length (collapse n (us @ [[], [], []] @ vs)) < length (us @ [[], [], []] @ vs)"
proof (induction us arbitrary: n)
  case Nil
  show ?case using length_collapse [of "Suc (Suc (Suc n))" vs] length_collapse [of "Suc (Suc (Suc 0))" vs] by auto
next
  case (Cons l us)
  show ?case using Cons [of "Suc n"] Cons [of 0] by (auto intro: less_SucI)
qed

text \<open>The characters that are not white space.\<close>

definition solid :: "string \<Rightarrow> string" where
  "solid s = filter (\<lambda>c. \<not> is_c_space c) s"

lemma solid_simps [simp]:
  "solid [] = []" "solid (s @ t) = solid s @ solid t" "solid (c # s) = (if is_c_space c then solid s else c # solid s)"
  by (simp_all add: solid_def)

lemma blanks: "is_c_space NL" "is_c_space CR" "is_c_space CHR '' ''" "is_c_space CHR 0x09" "\<not> is_c_space CHR ''#''"
  by (simp_all add: is_c_space_def)

lemma solid_line_endings: "solid (normalize_line_endings s) = solid s"
  by (induction s rule: normalize_line_endings.induct) (auto simp: blanks)

lemma solid_put_lines: "solid (put_lines ls) = concat (map solid ls)"
  by (induction ls) (simp_all add: blanks)

lemma solid_get_lines: "concat (map solid (get_lines s)) = solid s"
  by (rule text_cases [of s]) (simp_all add: get_put_lines_append get_lines_last solid_put_lines)

lemma solid_restore_end: "solid (restore_end text (put_lines ls)) = concat (map solid ls)"
proof -
  have "solid (butlast t) = solid t" if "t \<noteq> []" "last t = NL" for t
    using that by (cases t rule: rev_cases) (simp_all add: blanks)
  then show ?thesis by (simp add: restore_end_def solid_put_lines)
qed

lemma solid_dropWhile: "(\<And>c. P c \<Longrightarrow> is_c_space c) \<Longrightarrow> solid (dropWhile P s) = solid s"
  by (induction s) auto

lemma solid_rtrim: "solid (rtrim l) = solid l"
  using solid_dropWhile [of is_c_space "rev l"] by (simp add: rtrim_def solid_def rev_filter [symmetric] rev_swap)

lemma solid_heading: "solid (heading l) = solid l"
proof -
  let ?h = "takeWhile (\<lambda>c. c = CHR ''#'') l" and ?r = "dropWhile (\<lambda>c. c = CHR ''#'') l"
  let ?t = "dropWhile (\<lambda>c. c = CHR '' '' \<or> c = CHR 0x09) ?r"
  have l: "solid l = solid ?h @ solid ?r" by (metis solid_simps(2) takeWhile_dropWhile_id)
  have "solid ?t = solid ?r" by (rule solid_dropWhile) (auto simp: blanks)
  then have "solid (?h @ CHR '' '' # ?t) = solid l" unfolding l by (simp add: blanks)
  then show ?thesis unfolding heading_def Let_def by (auto split: if_splits)
qed

lemma solid_collapse: "concat (map solid (collapse n ls)) = concat (map solid ls)"
  by (induction n ls rule: collapse.induct) auto

lemma solid_hygiene: "solid (apply_hygiene s) = solid s"
  by (simp add: apply_hygiene_def passes line_pass_def solid_restore_end solid_get_lines solid_line_endings solid_rtrim
      solid_heading solid_collapse comp_def)

text \<open>The shape of a result, stated without the passes.\<close>

definition well_shaped :: "string \<Rightarrow> bool" where
  "well_shaped text \<longleftrightarrow> CR \<notin> set text \<and>
     (\<forall>l \<in> set (get_lines text).
        (l = [] \<or> \<not> is_c_space (last l)) \<and> (l \<noteq> [] \<and> hd l = CHR ''#'' \<longrightarrow> atx_form l)) \<and>
     (\<nexists>us vs. get_lines text = us @ [[], [], []] @ vs)"

lemma atx_form_heading:
  assumes "l \<noteq> [] \<and> hd l = CHR ''#'' \<longrightarrow> atx_form l"
  shows "heading l = l"
proof (cases "l \<noteq> [] \<and> hd l = CHR ''#''")
  case True
  then obtain n where n: "l = replicate n CHR ''#'' \<or> (\<exists>text. l = replicate n CHR ''#'' @ CHR '' '' # text \<and> text \<noteq> [] \<and>
      hd text \<notin> {CHR '' '', CHR 0x09})" using assms by (auto simp: atx_form_def)
  then have "0 < n" using True by (cases n) auto
  moreover have "dropWhile (\<lambda>c. c = CHR ''#'') (replicate n CHR ''#'') = []" by simp
  ultimately show ?thesis using n heading_hash by (auto simp: heading_def [of "replicate n CHR ''#''"])
qed (auto simp: heading_def)

lemma collapse_fixed:
  "n \<le> 2 \<Longrightarrow> \<nexists>us vs. replicate n [] @ ls = us @ [[], [], []] @ vs \<Longrightarrow> collapse n ls = ls"
proof (induction ls arbitrary: n)
  case (Cons l ls)
  show ?case
  proof (cases "l = []")
    case True
    have "n \<noteq> 2"
    proof
      assume "n = 2"
      then have "replicate n [] @ l # ls = [] @ [[], [], []] @ ls" using True by (simp add: numeral_2_eq_2)
      then show False using Cons.prems(2) by blast
    qed
    moreover have "replicate (Suc n) [] @ ls = replicate n [] @ l # ls"
      using True by (simp add: replicate_app_Cons_same)
    ultimately show ?thesis using Cons.IH [of "Suc n"] Cons.prems True by simp
  next
    case False
    have "\<nexists>us vs. replicate 0 [] @ ls = us @ [[], [], []] @ vs"
      using Cons.prems(2) by (metis append.assoc append_Cons append_Nil replicate_0)
    then show ?thesis using Cons.IH [of 0] False by simp
  qed
qed simp

lemma well_shaped_iff: "well_shaped text \<longleftrightarrow> CR \<notin> set text \<and> hygienic_lines (get_lines text)"
proof
  assume w: "well_shaped text"
  then have "collapse 0 (get_lines text) = get_lines text"
    using collapse_fixed [of 0 "get_lines text"] by (simp add: well_shaped_def)
  then show "CR \<notin> set text \<and> hygienic_lines (get_lines text)"
    using w atx_form_heading no_CR_lines by (auto simp: well_shaped_def hygienic_lines_def rtrim_fixed_iff)
next
  assume h: "CR \<notin> set text \<and> hygienic_lines (get_lines text)"
  then have r: "\<forall>l \<in> set (get_lines text). rtrim l = l \<and> heading l = l" "collapse 0 (get_lines text) = get_lines text"
    by (simp_all add: hygienic_lines_def)
  have "\<nexists>us vs. get_lines text = us @ [[], [], []] @ vs" using collapse_three [of 0] r(2) by (metis less_irrefl)
  then show "well_shaped text" using h r(1) heading_atx_form by (auto simp: well_shaped_def rtrim_fixed_iff)
qed

text \<open>C23. What the pipeline guarantees of every result: no carriage return; no line that ends in white space;
  no three empty lines in a row; a line that begins with a hash is hashes alone, or hashes, one space and a
  text that begins with neither space nor tab. A text of this shape is left alone, and only such a text is.
  And the pipeline takes nothing away but white space: the other characters of the resume are there, in their order, and no
  others.\<close>

theorem hygiene_shape:
  "well_shaped (apply_hygiene source) \<and>
   (apply_hygiene source = source \<longleftrightarrow> well_shaped source) \<and>
   filter (\<lambda>c. \<not> is_c_space c) (apply_hygiene source) = filter (\<lambda>c. \<not> is_c_space c) source"
  using hygiene_result [of source] hygienic_fixed [of source] solid_hygiene [of source, unfolded solid_def]
  by (metis well_shaped_iff)

theorem hygiene_shape_witness:
  "apply_hygiene (''#  A '' @ [CR, NL, NL, NL, NL] @ ''x'') = ''# A'' @ [NL, NL, NL] @ ''x'' \<and>
   apply_hygiene (''# A'' @ [NL, NL, NL] @ ''x'') = ''# A'' @ [NL, NL, NL] @ ''x'' \<and>
   filter (\<lambda>c. \<not> is_c_space c) (apply_hygiene (''#  A '' @ [CR, NL, NL, NL, NL] @ ''x'')) = ''#Ax''"
proof -
  have a: "apply_hygiene (''#  A '' @ [CR, NL, NL, NL, NL] @ ''x'') = ''# A'' @ [NL, NL, NL] @ ''x''"
    by code_simp
  then have "well_shaped (''# A'' @ [NL, NL, NL] @ ''x'')" using hygiene_shape [of "''#  A '' @ [CR, NL, NL, NL, NL] @ ''x''"] by simp
  then have "apply_hygiene (''# A'' @ [NL, NL, NL] @ ''x'') = ''# A'' @ [NL, NL, NL] @ ''x''"
    using hygiene_shape [of "''# A'' @ [NL, NL, NL] @ ''x''"] by blast
  moreover have "filter (\<lambda>c. \<not> is_c_space c) (apply_hygiene (''#  A '' @ [CR, NL, NL, NL, NL] @ ''x'')) = ''#Ax''"
    using hygiene_shape [of "''#  A '' @ [CR, NL, NL, NL, NL] @ ''x''"] by (simp add: is_c_space_def)
  ultimately show ?thesis using a by simp
qed

end
