(* ===== verification/Format_Adapters.thy ===== *)
theory Format_Adapters
  imports Ccmcp_Prelude "HOL-Library.Word"
begin

text \<open>
  Extraction of markdown from resume files, \<open>src/ingest/format_adapter.cpp\<close>. Bytes are
  characters. The PDF adapter is a scan of the raw file for streams and, inside them, for parenthesised
  strings; its index arithmetic is in \<open>std::size_t\<close> and wraps. libzip and pugixml are the
  record \<open>docx_api\<close>. The lemmas give the strings the scanner finds in well-formed streams and
  what it does on an empty stream.
\<close>

section \<open>std::string searching\<close>

definition size_sub :: "nat \<Rightarrow> nat \<Rightarrow> nat" where
  "size_sub a b = unat ((of_nat a :: 64 word) - of_nat b)"

definition matches_at :: "string \<Rightarrow> string \<Rightarrow> nat \<Rightarrow> bool" where
  "matches_at s pat i \<longleftrightarrow> take (length pat) (drop i s) = pat"

definition str_find :: "string \<Rightarrow> string \<Rightarrow> nat \<Rightarrow> nat option" where
  "str_find s pat pos = find (matches_at s pat) [pos..<length s]"

definition substr :: "string \<Rightarrow> nat \<Rightarrow> nat \<Rightarrow> string" where
  "substr s pos n = take n (drop pos s)"

lemma str_find_Some:
  "str_find s pat pos = Some i \<Longrightarrow> pos \<le> i \<and> i < length s \<and> take (length pat) (drop i s) = pat"
  by (auto simp: str_find_def find_Some_iff matches_at_def)

lemma str_find_bound: "str_find s pat pos = Some i \<Longrightarrow> i + length pat \<le> length s"
proof -
  assume "str_find s pat pos = Some i"
  then have "take (length pat) (drop i s) = pat" "i < length s" by (auto dest: str_find_Some)
  then have "length pat \<le> length (drop i s)" by (metis length_take min.cobounded1 min_def nat_le_linear)
  then show ?thesis using \<open>i < length s\<close> by simp
qed

lemma str_find_bounds: "str_find s pat pos = Some i \<Longrightarrow> pos \<le> i \<and> i + length pat \<le> length s"
  using str_find_Some str_find_bound by blast

lemma size_sub_eq:
  "a < 2 ^ 64 \<Longrightarrow> b < 2 ^ 64 \<Longrightarrow> size_sub a b = (if b \<le> a then a - b else a + 2 ^ 64 - b)"
  by (simp add: size_sub_def unat_sub_if' unat_of_nat take_bit_nat_eq_self)

section \<open>Strings in a content stream\<close>

text \<open>The inner loop: the position after the matching parenthesis and the depth reached.\<close>

function close_paren :: "string \<Rightarrow> nat \<Rightarrow> nat \<Rightarrow> nat \<times> nat" where
  "close_paren content paren_end depth =
     (if paren_end < length content \<and> 0 < depth
      then (if content ! paren_end = CHR 0x5C \<and> paren_end + 1 < length content
            then close_paren content (paren_end + 2) depth
            else close_paren content (paren_end + 1)
                   (if content ! paren_end = CHR ''('' then depth + 1
                    else if content ! paren_end = CHR '')'' then depth - 1 else depth))
      else (paren_end, depth))"
  by pat_completeness auto
termination by (relation "measure (\<lambda>(content, paren_end, depth). length content - paren_end)") auto

declare close_paren.simps [simp del]

lemma close_paren_ge: "p \<le> fst (close_paren content p depth)"
proof (induction content p depth rule: close_paren.induct)
  case (1 content p depth)
  then show ?case
    by (subst close_paren.simps) (auto intro: order_trans [of p "Suc p"] order_trans [of p "Suc (Suc p)"])
qed

lemma close_paren_result: "(paren_end, d) = close_paren content p depth \<Longrightarrow> p \<le> paren_end"
  using close_paren_ge [of p content depth] by (metis fst_conv)

fun pdf_unescape :: "string \<Rightarrow> string" where
  "pdf_unescape [] = []"
| "pdf_unescape [c] = [c]"
| "pdf_unescape (c # d # s) =
     (if c = CHR 0x5C
      then (if d = CHR ''n'' then CHR 0x0A # pdf_unescape s
            else if d = CHR ''r'' then CHR 0x0D # pdf_unescape s
            else if d = CHR ''t'' then CHR 0x09 # pdf_unescape s
            else if d = CHR 0x5C \<or> d = CHR ''('' \<or> d = CHR '')'' then d # pdf_unescape s
            else c # pdf_unescape (d # s))
      else c # pdf_unescape (d # s))"

function pdf_strings :: "string \<Rightarrow> nat \<Rightarrow> string" where
  "pdf_strings content pos =
     (if pos < length content
      then (case str_find content ''('' pos of
              None \<Rightarrow> []
            | Some paren_start \<Rightarrow>
                (case close_paren content (paren_start + 1) 1 of (paren_end, depth) \<Rightarrow>
                   if depth = 0
                   then pdf_unescape (substr content (paren_start + 1) (paren_end - paren_start - 2)) @ '' '' @
                          pdf_strings content paren_end
                   else pdf_strings content (paren_start + 1)))
      else [])"
  by pat_completeness auto
termination
  by (relation "measure (\<lambda>(content, pos). length content - pos)")
    (auto dest!: str_find_Some close_paren_result)

declare pdf_strings.simps [simp del]

definition extract_text_from_pdf_content :: "string \<Rightarrow> string" where
  "extract_text_from_pdf_content content = pdf_strings content 0"

section \<open>The adapters\<close>

definition resume_title :: string where
  "resume_title = ''# Resume'' @ [CHR 0x0A, CHR 0x0A]"

definition markdown_extract :: "string \<Rightarrow> (string, string) result" where
  "markdown_extract data = (if data = [] then Inl ''Empty input data'' else Inr data)"

definition text_extract :: "string \<Rightarrow> (string, string) result" where
  "text_extract data = (if data = [] then Inl ''Empty input data'' else Inr (resume_title @ data))"

text \<open>\<open>\nstream\n\<close> and its end, or the variants with carriage returns.\<close>

definition find_stream_start :: "string \<Rightarrow> nat \<Rightarrow> nat option" where
  "find_stream_start data pos =
     (case str_find data ([CHR 0x0A] @ ''stream'' @ [CHR 0x0A]) pos of
        Some i \<Rightarrow> Some i | None \<Rightarrow> str_find data ([CHR 0x0D] @ ''stream'' @ [CHR 0x0D]) pos)"

definition find_stream_end :: "string \<Rightarrow> nat \<Rightarrow> nat option" where
  "find_stream_end data stream_start =
     (case str_find data ([CHR 0x0A] @ ''endstream'') stream_start of
        Some i \<Rightarrow> Some i | None \<Rightarrow> str_find data ([CHR 0x0D] @ ''endstream'') stream_start)"

lemma find_stream_start_bounds:
  "find_stream_start data pos = Some i \<Longrightarrow> pos \<le> i \<and> i + 8 \<le> length data"
  unfolding find_stream_start_def
  by (auto split: option.splits dest: str_find_Some dest!: str_find_bounds)

lemma find_stream_end_bounds:
  "find_stream_end data pos = Some i \<Longrightarrow> pos \<le> i \<and> i + 10 \<le> length data"
  unfolding find_stream_end_def
  by (auto split: option.splits dest: str_find_Some dest!: str_find_bounds)

function pdf_streams :: "string \<Rightarrow> nat \<Rightarrow> string" where
  "pdf_streams data pos =
     (if pos < length data
      then (case find_stream_start data pos of
              None \<Rightarrow> []
            | Some stream_start \<Rightarrow>
                (case find_stream_end data stream_start of
                   None \<Rightarrow> []
                 | Some stream_end \<Rightarrow>
                     extract_text_from_pdf_content
                       (substr data (stream_start + 8) (size_sub (size_sub stream_end stream_start) 8)) @
                     pdf_streams data (stream_end + 10)))
      else [])"
  by pat_completeness auto
termination
  by (relation "measure (\<lambda>(data, pos). length data - pos)")
    (auto dest!: find_stream_start_bounds find_stream_end_bounds)

declare pdf_streams.simps [simp del]

definition pdf_extract :: "string \<Rightarrow> (string, string) result" where
  "pdf_extract data =
     (if data = [] then Inl ''Empty input data''
      else if length data < 5 \<or> substr data 0 4 \<noteq> ''%PDF'' then Inl ''Invalid PDF: missing %PDF header''
      else (let res = resume_title @ pdf_streams data 0
            in if res = resume_title then Inl ''No text content found in PDF'' else Inr res))"

text \<open>
  libzip and pugixml: the archive of a buffer, the size, handle and contents of an entry, the parsed
  document, its paragraphs (\<open>//w:p\<close>), their text nodes (\<open>.//w:t\<close>) and the text of a node.
\<close>

record ('src, 'zip, 'file, 'doc, 'node) docx_api =
  zip_source_buffer_create :: "string \<Rightarrow> 'src option"
  zip_open_from_source :: "'src \<Rightarrow> 'zip option"
  zip_stat_size :: "'zip \<Rightarrow> string \<Rightarrow> nat option"
  zip_fopen :: "'zip \<Rightarrow> string \<Rightarrow> 'file option"
  zip_fread :: "'file \<Rightarrow> nat \<Rightarrow> int \<times> string"
  xml_load_buffer :: "string \<Rightarrow> 'doc option"
  xml_paragraphs :: "'doc \<Rightarrow> 'node list"
  xml_text_nodes :: "'node \<Rightarrow> 'node list"
  xml_child_value :: "'node \<Rightarrow> string"

definition paragraph_text :: "('src, 'zip, 'file, 'doc, 'node) docx_api \<Rightarrow> 'node \<Rightarrow> string" where
  "paragraph_text D paragraph =
     (let texts = map (xml_child_value D) (xml_text_nodes D paragraph)
      in concat texts @ (if \<exists>t \<in> set texts. t \<noteq> [] then [CHR 0x0A] else []))"

definition docx_extract :: "('src, 'zip, 'file, 'doc, 'node) docx_api \<Rightarrow> string \<Rightarrow> (string, string) result" where
  "docx_extract D data =
     (if data = [] then Inl ''Empty input data''
      else case zip_source_buffer_create D data of
        None \<Rightarrow> Inl ''Failed to create ZIP source from DOCX data''
      | Some src \<Rightarrow>
        (case zip_open_from_source D src of
          None \<Rightarrow> Inl ''Failed to open DOCX as ZIP archive''
        | Some archive \<Rightarrow>
          (case zip_stat_size D archive ''word/document.xml'' of
            None \<Rightarrow> Inl ''Failed to find word/document.xml in DOCX''
          | Some len \<Rightarrow>
            (case zip_fopen D archive ''word/document.xml'' of
              None \<Rightarrow> Inl ''Failed to open word/document.xml''
            | Some file \<Rightarrow>
              (case zip_fread D file len of (bytes_read, xml_data) \<Rightarrow>
                if bytes_read \<noteq> int len then Inl ''Failed to read word/document.xml completely''
                else case xml_load_buffer D xml_data of
                  None \<Rightarrow> Inl ''Failed to parse word/document.xml as XML''
                | Some doc \<Rightarrow> Inr (resume_title @ concat (map (paragraph_text D) (xml_paragraphs D doc))))))))"

section \<open>Well-formed content streams\<close>

fun pdf_escape :: "string \<Rightarrow> string" where
  "pdf_escape [] = []"
| "pdf_escape (c # s) =
     (if c = CHR 0x5C \<or> c = CHR ''('' \<or> c = CHR '')'' then CHR 0x5C # c # pdf_escape s
      else c # pdf_escape s)"

lemma drop_ConsD:
  "drop p xs = x # ys \<Longrightarrow> p < length xs \<and> xs ! p = x \<and> drop (Suc p) xs = ys"
  by (metis Cons_nth_drop_Suc drop_eq_Nil list.distinct(1) list.inject not_le)

lemma close_paren_escaped:
  "drop p content = pdf_escape s @ CHR '')'' # rest \<Longrightarrow>
     close_paren content p 1 = (p + length (pdf_escape s) + 1, 0)"
proof (induction s arbitrary: p)
  case Nil
  then have "p < length content" "content ! p = CHR '')''" by (auto dest: drop_ConsD)
  then have "close_paren content p 1 = close_paren content (p + 1) 0"
    by (simp add: close_paren.simps [of content p])
  then show ?case by (simp add: close_paren.simps)
next
  case (Cons c s)
  show ?case
  proof (cases "c = CHR 0x5C \<or> c = CHR ''('' \<or> c = CHR '')''")
    case True
    then have d: "drop p content = CHR 0x5C # c # pdf_escape s @ CHR '')'' # rest" using Cons.prems by simp
    from drop_ConsD [OF d] have 1: "p < length content" "content ! p = CHR 0x5C"
      "drop (Suc p) content = c # pdf_escape s @ CHR '')'' # rest" by simp_all
    from drop_ConsD [OF 1(3)] have "Suc p < length content"
      "drop (p + 2) content = pdf_escape s @ CHR '')'' # rest" by simp_all
    then show ?thesis using 1 True Cons.IH [of "p + 2"] by (simp add: close_paren.simps [of content p])
  next
    case False
    then have d: "drop p content = c # pdf_escape s @ CHR '')'' # rest" using Cons.prems by simp
    from drop_ConsD [OF this] show ?thesis
      using False Cons.IH [of "p + 1"] by (simp add: close_paren.simps [of content p])
  qed
qed

lemma pdf_unescape_plain: "c \<noteq> CHR 0x5C \<Longrightarrow> pdf_unescape (c # s) = c # pdf_unescape s"
  by (cases s) simp_all

lemma pdf_unescape_escape: "pdf_unescape (pdf_escape s) = s"
  by (induction s) (auto simp: pdf_unescape_plain)

lemma str_find_char:
  assumes "drop pos content = gap @ c # rest" "c \<notin> set gap"
  shows "str_find content [c] pos = Some (pos + length gap)"
proof -
  have l: "length content = pos + length gap + Suc (length rest)"
  proof -
    have "length (drop pos content) = length gap + Suc (length rest)" using assms(1) by simp
    then show ?thesis by simp
  qed
  have m: "matches_at content [c] (pos + j) \<longleftrightarrow> (gap @ c # rest) ! j = c" if "j \<le> length gap" for j
  proof -
    have "drop (pos + j) content = drop j (gap @ c # rest)" by (metis add.commute assms(1) drop_drop)
    also have "\<dots> = (gap @ c # rest) ! j # drop (Suc j) (gap @ c # rest)"
      using that by (intro Cons_nth_drop_Suc [symmetric]) simp
    finally show ?thesis by (simp add: matches_at_def)
  qed
  show ?thesis
    unfolding str_find_def find_Some_iff
    using m [of "length gap"] m assms(2) l
    by (intro exI [of _ "length gap"]) (auto simp: nth_append)
qed

lemma str_find_char_None:
  assumes "c \<notin> set (drop pos content)"
  shows "str_find content [c] pos = None"
proof -
  have "\<not> matches_at content [c] i" if "pos \<le> i" "i < length content" for i
  proof -
    have "content ! i \<in> set (drop pos content)"
      using that nth_mem [of "i - pos" "drop pos content"] by simp
    moreover have "drop i content = content ! i # drop (Suc i) content"
      using that by (intro Cons_nth_drop_Suc [symmetric]) simp
    ultimately show ?thesis using assms by (auto simp: matches_at_def)
  qed
  then show ?thesis by (simp add: str_find_def find_None_iff)
qed

lemma pdf_strings_item:
  assumes "drop pos content = gap @ CHR ''('' # pdf_escape s @ CHR '')'' # rest" "CHR ''('' \<notin> set gap"
  shows "pdf_strings content pos =
    s @ '' '' @ pdf_strings content (pos + length gap + length (pdf_escape s) + 2)"
    and "drop (pos + length gap + length (pdf_escape s) + 2) content = rest"
proof -
  let ?a = "pos + length gap"
  have f: "str_find content ''('' pos = Some ?a" by (rule str_find_char [OF assms])
  have d: "drop (?a + 1) content = pdf_escape s @ CHR '')'' # rest"
    using assms(1) by (simp flip: drop_drop add: drop_Suc_Cons add.commute [of pos])
      (metis (no_types) append_eq_conv_conj drop_Suc_Cons drop_drop add.commute add_Suc_right drop0)?
  have c: "close_paren content (?a + 1) 1 = (?a + 1 + length (pdf_escape s) + 1, 0)"
    by (rule close_paren_escaped [OF d])
  have l: "pos < length content" using assms(1) by (metis append_is_Nil_conv drop_eq_Nil list.distinct(1) not_le)
  have u: "pdf_unescape (substr content (?a + 1) (length (pdf_escape s))) = s"
    unfolding substr_def d by (simp add: pdf_unescape_escape)
  show "pdf_strings content pos =
    s @ '' '' @ pdf_strings content (pos + length gap + length (pdf_escape s) + 2)"
    by (subst pdf_strings.simps) (use l f c u in \<open>simp add: add.commute add.left_commute\<close>)
  have "drop (?a + length (pdf_escape s) + 2) content = drop (length (pdf_escape s) + 1) (drop (?a + 1) content)"
    by (simp add: add.commute add.left_commute)
  then show "drop (?a + length (pdf_escape s) + 2) content = rest" by (simp only: d) simp
qed

lemma pdf_strings_items:
  assumes "drop pos content =
      concat (map (\<lambda>(gap, s). gap @ CHR ''('' # pdf_escape s @ '')'') items) @ tail"
    and "\<forall>(gap, s) \<in> set items. CHR ''('' \<notin> set gap" "CHR ''('' \<notin> set tail"
  shows "pdf_strings content pos = concat (map (\<lambda>(gap, s). s @ '' '') items)"
  using assms(1,2)
proof (induction items arbitrary: pos)
  case Nil
  then show ?case
    using assms(3) str_find_char_None [of "CHR ''(''" pos content]
    by (simp add: pdf_strings.simps [of content pos])
next
  case (Cons item items)
  obtain gap s where i: "item = (gap, s)" by (cases item)
  have "drop pos content = gap @ CHR ''('' # pdf_escape s @ CHR '')'' #
      (concat (map (\<lambda>(gap, s). gap @ CHR ''('' # pdf_escape s @ '')'') items) @ tail)"
    using Cons.prems(1) by (simp add: i)
  note p = pdf_strings_item [OF this]
  show ?case using p Cons.IH Cons.prems(2) by (simp add: i)
qed

section \<open>Properties\<close>

text \<open>From a content stream whose strings are escaped as the format asks (backslashes and both
  parentheses), with anything but an opening parenthesis between them, the scanner extracts exactly the
  strings, in order, each followed by a space.\<close>

theorem pdf_content_roundtrip:
  assumes "\<forall>(gap, s) \<in> set items. CHR ''('' \<notin> set gap" "CHR ''('' \<notin> set tail"
  shows "extract_text_from_pdf_content
      (concat (map (\<lambda>(gap, s). gap @ CHR ''('' # pdf_escape s @ '')'') items) @ tail) =
    concat (map (\<lambda>(gap, s). s @ '' '') items)"
  unfolding extract_text_from_pdf_content_def
  by (rule pdf_strings_items [OF _ assms]) simp

theorem pdf_content_roundtrip_witness:
  "extract_text_from_pdf_content (''BT (Jo '' @ [CHR 0x5C] @ ''(x'' @ [CHR 0x5C] @ '')) Tj ('' @ [CHR 0x5C, CHR 0x5C] @ '') Tj ET'') =
     ''Jo (x) '' @ [CHR 0x5C] @ '' ''"
  using pdf_content_roundtrip [of "[(''BT '', ''Jo (x)''), ('' Tj '', [CHR 0x5C])]" "'' Tj ET''"] by simp

text \<open>A stream that is empty, so that the newline after \<open>stream\<close> is the one before
  \<open>endstream\<close>, makes the length wrap around below zero: the scanner then takes everything from
  there to the end of the file for the stream, and the strings of the rest of the file are extracted
  whether or not they are in a stream.\<close>

theorem pdf_empty_stream:
  assumes "find_stream_start data pos = Some start" "find_stream_end data start = Some (start + 7)"
    and "length data < 2 ^ 64"
  shows "pdf_streams data pos =
    extract_text_from_pdf_content (drop (start + 8) data) @ pdf_streams data (start + 17)"
proof -
  have b: "pos \<le> start" "start + 8 \<le> length data" using find_stream_start_bounds [OF assms(1)] by auto
  have "size_sub (start + 7) start = 7" using b(2) assms(3) by (simp add: size_sub_eq)
  then have "size_sub (size_sub (start + 7) start) 8 = 2 ^ 64 - 1" by (simp add: size_sub_eq)
  then have "substr data (start + 8) (size_sub (size_sub (start + 7) start) 8) = drop (start + 8) data"
    using assms(3) by (simp add: substr_def)
  then show ?thesis using b by (subst pdf_streams.simps) (simp add: assms(1,2) add.commute)
qed

theorem pdf_empty_stream_witness:
  "pdf_streams (''%PDF'' @ [CHR 0x0A] @ ''stream'' @ [CHR 0x0A] @ ''endstream /Author (me)'') 0 = ''me ''"
proof -
  let ?d = "''%PDF'' @ [CHR 0x0A] @ ''stream'' @ [CHR 0x0A] @ ''endstream /Author (me)''"
  have "find_stream_start ?d 0 = Some 4" "find_stream_end ?d 4 = Some (4 + 7)" "length ?d < 2 ^ 64"
    by (code_simp, code_simp, simp)
  from pdf_empty_stream [OF this] have "pdf_streams ?d 0 =
      extract_text_from_pdf_content (drop (4 + 8) ?d) @ pdf_streams ?d (4 + 17)" .
  moreover have "extract_text_from_pdf_content (drop (4 + 8) ?d) = ''me ''" by code_simp
  moreover have "pdf_streams ?d (4 + 17) = []" by code_simp
  ultimately show ?thesis by simp
qed

end
