(* ===== verification/Resume_Ingestor.thy ===== *)
theory Resume_Ingestor
  imports Hashing Hygiene Format_Adapters Domain_Model
begin

text \<open>
  Ingestion of resumes, \<open>src/ingest/resume_ingestor.cpp\<close> with the structures of
  \<open>include/ccmcp/ingest\<close>: reading the file, choosing the adapter by the extension, extraction,
  hygiene, hashes and metadata. The file system is a function from paths to what reading them gives, the
  clock a string, the identifier generator an argument with its state.
\<close>

record ingest_options =
  io_source_path :: "string option"
  io_extracted_at :: "string option"
  io_enable_hygiene :: bool

record resume_meta =
  meta_source_path :: "string option"
  meta_source_hash :: string
  meta_extraction_method :: string
  meta_extracted_at :: "string option"
  meta_ingestion_version :: string

record ingested_resume =
  ir_resume_id :: resume_id
  ir_resume_md :: string
  ir_resume_hash :: string
  ir_meta :: resume_meta
  ir_created_at :: "string option"

text \<open>\<open>std::filesystem::path::extension\<close>, on paths separated by slashes.\<close>

definition file_name :: "string \<Rightarrow> string" where
  "file_name path = rev (takeWhile (\<lambda>c. c \<noteq> CHR ''/'') (rev path))"

definition path_extension :: "string \<Rightarrow> string" where
  "path_extension path =
     (let name = file_name path;
          suffix = rev (takeWhile (\<lambda>c. c \<noteq> CHR ''.'') (rev name))
      in if name = ''.'' \<or> name = ''..'' \<or> CHR ''.'' \<notin> set (tl name) then []
         else CHR ''.'' # suffix)"

definition detect_format_from_path :: "string \<Rightarrow> string" where
  "detect_format_from_path path =
     (let ext = map ascii_lower (path_extension path)
      in if ext = ''.md'' \<or> ext = ''.markdown'' then ''md''
         else if ext = ''.txt'' \<or> ext = ''.text'' then ''txt''
         else if ext = ''.pdf'' then ''pdf''
         else if ext = ''.docx'' then ''docx''
         else ''txt'')"

datatype file_read = CannotOpen | CannotRead | FileBytes string

definition read_file_bytes :: "(string \<Rightarrow> file_read) \<Rightarrow> string \<Rightarrow> (string, string) result" where
  "read_file_bytes files path =
     (case files path of
        CannotOpen \<Rightarrow> Inl (''Failed to open file: '' @ path)
      | CannotRead \<Rightarrow> Inl (''Failed to read file: '' @ path)
      | FileBytes data \<Rightarrow> Inr data)"

datatype adapter = MarkdownAdapter | TextAdapter | PdfAdapter | DocxAdapter

definition create_adapter :: "string \<Rightarrow> adapter" where
  "create_adapter format =
     (if format = ''md'' \<or> format = ''markdown'' then MarkdownAdapter
      else if format = ''txt'' \<or> format = ''text'' then TextAdapter
      else if format = ''pdf'' then PdfAdapter
      else if format = ''docx'' then DocxAdapter
      else TextAdapter)"

fun extraction_method :: "adapter \<Rightarrow> string" where
  "extraction_method MarkdownAdapter = ''md-pass-through-v1''"
| "extraction_method TextAdapter = ''txt-wrap-v1''"
| "extraction_method PdfAdapter = ''pdf-text-extract-v1''"
| "extraction_method DocxAdapter = ''docx-extract-v1''"

fun adapter_extract :: "('src, 'zip, 'file, 'doc, 'node) docx_api \<Rightarrow> adapter \<Rightarrow> string \<Rightarrow> (string, string) result" where
  "adapter_extract D MarkdownAdapter data = markdown_extract data"
| "adapter_extract D TextAdapter data = text_extract data"
| "adapter_extract D PdfAdapter data = pdf_extract data"
| "adapter_extract D DocxAdapter data = docx_extract D data"

definition ingest_bytes ::
  "('src, 'zip, 'file, 'doc, 'node) docx_api \<Rightarrow> (string \<Rightarrow> 'g \<Rightarrow> string \<times> 'g) \<Rightarrow> string \<Rightarrow>
   string \<Rightarrow> string \<Rightarrow> ingest_options \<Rightarrow> 'g \<Rightarrow> (string, ingested_resume) result \<times> 'g" where
  "ingest_bytes D next_id now data format options g =
     (if data = [] then (Inl ''Empty input data'', g)
      else case adapter_extract D (create_adapter format) data of
        Inl e \<Rightarrow> (Inl (''Extraction failed: '' @ e), g)
      | Inr extracted \<Rightarrow>
          (let resume_md = (if io_enable_hygiene options then apply_hygiene extracted else extracted);
               meta = \<lparr>meta_source_path = io_source_path options,
                       meta_source_hash = ''sha256:'' @ stable_hash64_hex data,
                       meta_extraction_method = extraction_method (create_adapter format),
                       meta_extracted_at = (case io_extracted_at options of Some t \<Rightarrow> Some t | None \<Rightarrow> Some now),
                       meta_ingestion_version = ''0.3''\<rparr>
           in case next_id ''resume-'' g of (rid, g') \<Rightarrow>
                (Inr \<lparr>ir_resume_id = ResumeId rid, ir_resume_md = resume_md,
                      ir_resume_hash = ''sha256:'' @ stable_hash64_hex resume_md,
                      ir_meta = meta, ir_created_at = None\<rparr>, g')))"

definition ingest_file ::
  "('src, 'zip, 'file, 'doc, 'node) docx_api \<Rightarrow> (string \<Rightarrow> 'g \<Rightarrow> string \<times> 'g) \<Rightarrow> string \<Rightarrow>
   (string \<Rightarrow> file_read) \<Rightarrow> string \<Rightarrow> ingest_options \<Rightarrow> 'g \<Rightarrow> (string, ingested_resume) result \<times> 'g" where
  "ingest_file D next_id now files file_path options g =
     (case read_file_bytes files file_path of
        Inl e \<Rightarrow> (Inl e, g)
      | Inr data \<Rightarrow>
          ingest_bytes D next_id now data (detect_format_from_path file_path)
            (case io_source_path options of
               Some p \<Rightarrow> options | None \<Rightarrow> options\<lparr>io_source_path := Some file_path\<rparr>) g)"

section \<open>Lemmas\<close>

lemma adapter_extract_Nil [simp]: "adapter_extract D a [] = Inl ''Empty input data''"
  by (cases a) (simp_all add: markdown_extract_def text_extract_def pdf_extract_def docx_extract_def)

lemma ingest_bytes_Inr_iff:
  "ingest_bytes D next_id now data format options g = (Inr r, g') \<longleftrightarrow>
     (\<exists>extracted. adapter_extract D (create_adapter format) data = Inr extracted \<and>
        r = \<lparr>ir_resume_id = ResumeId (fst (next_id ''resume-'' g)),
             ir_resume_md = (if io_enable_hygiene options then apply_hygiene extracted else extracted),
             ir_resume_hash = ''sha256:'' @ stable_hash64_hex
               (if io_enable_hygiene options then apply_hygiene extracted else extracted),
             ir_meta = \<lparr>meta_source_path = io_source_path options,
                        meta_source_hash = ''sha256:'' @ stable_hash64_hex data,
                        meta_extraction_method = extraction_method (create_adapter format),
                        meta_extracted_at = (case io_extracted_at options of Some t \<Rightarrow> Some t | None \<Rightarrow> Some now),
                        meta_ingestion_version = ''0.3''\<rparr>,
             ir_created_at = None\<rparr> \<and>
        g' = snd (next_id ''resume-'' g))"
  by (cases "data = []"; cases "adapter_extract D (create_adapter format) data")
    (auto simp: ingest_bytes_def Let_def split: prod.splits)

text \<open>An identifier is taken from the generator exactly when the ingestion succeeds.\<close>

lemma ingest_bytes_generator:
  "snd (ingest_bytes D next_id now data format options g) =
     (case fst (ingest_bytes D next_id now data format options g) of
        Inl _ \<Rightarrow> g | Inr _ \<Rightarrow> snd (next_id ''resume-'' g))"
  by (cases "data = []"; cases "adapter_extract D (create_adapter format) data")
    (auto simp: ingest_bytes_def Let_def split: prod.splits)

section \<open>Properties\<close>

definition no_docx :: "(unit, unit, unit, unit, unit) docx_api" where
  "no_docx = \<lparr>zip_source_buffer_create = (\<lambda>_. None), zip_open_from_source = (\<lambda>_. None),
     zip_stat_size = (\<lambda>_ _. None), zip_fopen = (\<lambda>_ _. None), zip_fread = (\<lambda>_ _. (0, [])),
     xml_load_buffer = (\<lambda>_. None), xml_paragraphs = (\<lambda>_. []), xml_text_nodes = (\<lambda>_. []),
     xml_child_value = (\<lambda>_. [])\<rparr>"

text \<open>C24. Ingesting the markdown that an ingestion with hygiene produced gives the same text and the same
  content hash again: the stored form of a resume is a fixed point of the pipeline, whatever format the
  first ingestion read.\<close>

theorem reingest_fixed_point:
  assumes "ingest_bytes D next_id now data format options g = (Inr r, g')" "io_enable_hygiene options"
    and "ir_resume_md r \<noteq> []"
  shows "\<exists>r2 g2. ingest_bytes D next_id now2 (ir_resume_md r) ''md'' options g' = (Inr r2, g2) \<and>
    ir_resume_md r2 = ir_resume_md r \<and> ir_resume_hash r2 = ir_resume_hash r \<and>
    meta_source_hash (ir_meta r2) = ir_resume_hash r"
proof -
  have h: "apply_hygiene (ir_resume_md r) = ir_resume_md r"
    "ir_resume_hash r = ''sha256:'' @ stable_hash64_hex (ir_resume_md r)"
    using assms(1,2) by (auto simp: ingest_bytes_Inr_iff hygiene.norm_idem)
  have "adapter_extract D (create_adapter ''md'') (ir_resume_md r) = Inr (ir_resume_md r)"
    using assms(3) by (simp add: create_adapter_def markdown_extract_def)
  then show ?thesis
    unfolding ingest_bytes_Inr_iff using h assms(2) by auto
qed

theorem reingest_fixed_point_witness:
  "\<exists>r2 g2. ingest_bytes no_docx deterministic_next ''t2'' ''# A'' ''md''
     \<lparr>io_source_path = None, io_extracted_at = None, io_enable_hygiene = True\<rparr> 1 = (Inr r2, g2) \<and>
   ir_resume_md r2 = ''# A''"
proof -
  have h: "apply_hygiene ''#  A  '' = ''# A''" by code_simp
  define opts where "opts = \<lparr>io_source_path = None, io_extracted_at = None, io_enable_hygiene = True\<rparr>"
  define r where "r = \<lparr>ir_resume_id = ResumeId ''resume--0'', ir_resume_md = ''# A'',
    ir_resume_hash = ''sha256:'' @ stable_hash64_hex ''# A'',
    ir_meta = \<lparr>meta_source_path = None, meta_source_hash = ''sha256:'' @ stable_hash64_hex ''#  A  '',
      meta_extraction_method = ''md-pass-through-v1'', meta_extracted_at = Some ''t1'',
      meta_ingestion_version = ''0.3''\<rparr>, ir_created_at = None\<rparr>"
  have n: "deterministic_next ''resume-'' 0 = (''resume--0'', 1)" by code_simp
  have "ingest_bytes no_docx deterministic_next ''t1'' ''#  A  '' ''md'' opts 0 = (Inr r, 1)"
    by (simp add: ingest_bytes_Inr_iff create_adapter_def markdown_extract_def h n opts_def r_def)
  from reingest_fixed_point [OF this, of "''t2''"] show ?thesis by (simp add: opts_def r_def) blast
qed

text \<open>The errors of an ingestion from a file, exactly: the file cannot be opened or read, it is
  empty, or the extraction its extension selects fails; in every other case a resume is returned. Only a
  success takes an identifier from the generator.\<close>

theorem ingest_file_errors:
  "(fst (ingest_file D next_id now files path options g) = Inl e \<longleftrightarrow>
     (files path = CannotOpen \<and> e = ''Failed to open file: '' @ path) \<or>
     (files path = CannotRead \<and> e = ''Failed to read file: '' @ path) \<or>
     (files path = FileBytes [] \<and> e = ''Empty input data'') \<or>
     (\<exists>data m. files path = FileBytes data \<and> data \<noteq> [] \<and> e = ''Extraction failed: '' @ m \<and>
        adapter_extract D (create_adapter (detect_format_from_path path)) data = Inl m)) \<and>
   snd (ingest_file D next_id now files path options g) =
     (if has_value (fst (ingest_file D next_id now files path options g))
      then snd (next_id ''resume-'' g) else g)"
  by (cases "files path")
    (auto simp: ingest_file_def read_file_bytes_def ingest_bytes_def Let_def split: sum.splits prod.splits)

text \<open>The hashes carry the prefix \<open>sha256:\<close> but are the 64-bit hash: their text is 23 characters.\<close>

lemma resume_hash_length:
  "ingest_bytes D next_id now data format options g = (Inr r, g') \<Longrightarrow> length (ir_resume_hash r) = 23"
  by (auto simp: ingest_bytes_Inr_iff)

end
