(* ===== verification/Tokenization.thy ===== *)
theory Tokenization
  imports Normalization Constitution Ordered_Map
begin

text \<open>
  The tokenizers, \<open>src/tokenization/*.cpp\<close>: the deterministic lexical one with its stop words
  and the stub of the inference-assisted one with its three word lists. The contract of
  \<open>ITokenizationProvider\<close> that the constitution relies on is the locale
  \<open>tokenization_provider\<close>: the representation is bound to the source hash, and its tokens are
  tokens of the text, sorted without repetition in each category. Both tokenizers interpret it, so the
  first four resume token rules never find anything to complain about in their output.
\<close>

section \<open>The deterministic lexical tokenizer\<close>

definition kStopWords :: "string list" where
  "kStopWords =
     [''a'', ''an'', ''the'', ''about'', ''above'', ''across'', ''after'', ''against'',
      ''along'', ''among'', ''around'', ''at'', ''before'', ''behind'', ''below'', ''beneath'',
      ''beside'', ''between'', ''beyond'', ''by'', ''down'', ''during'', ''except'', ''for'',
      ''from'', ''in'', ''inside'', ''into'', ''near'', ''of'', ''off'', ''on'', ''onto'',
      ''out'', ''outside'', ''over'', ''past'', ''since'', ''through'', ''throughout'', ''to'',
      ''toward'', ''under'', ''underneath'', ''until'', ''up'', ''upon'', ''with'', ''within'',
      ''without'', ''and'', ''but'', ''or'', ''nor'', ''so'', ''yet'', ''as'', ''if'', ''than'',
      ''that'', ''though'', ''unless'', ''until'', ''when'', ''where'', ''whether'', ''while'',
      ''i'', ''me'', ''my'', ''mine'', ''myself'', ''you'', ''your'', ''yours'', ''yourself'',
      ''he'', ''him'', ''his'', ''himself'', ''she'', ''her'', ''hers'', ''herself'', ''it'',
      ''its'', ''itself'', ''we'', ''us'', ''our'', ''ours'', ''ourselves'', ''they'', ''them'',
      ''their'', ''theirs'', ''themselves'', ''this'', ''that'', ''these'', ''those'', ''who'',
      ''whom'', ''whose'', ''which'', ''what'', ''am'', ''is'', ''are'', ''was'', ''were'',
      ''be'', ''been'', ''being'', ''have'', ''has'', ''had'', ''having'', ''do'', ''does'',
      ''did'', ''doing'', ''will'', ''would'', ''shall'', ''should'', ''may'', ''might'',
      ''must'', ''can'', ''could'', ''all'', ''any'', ''both'', ''each'', ''few'', ''more'',
      ''most'', ''other'', ''some'', ''such'', ''no'', ''not'', ''only'', ''own'', ''same'',
      ''then'', ''there'', ''very'', ''get'', ''got'', ''make'', ''made'', ''just'', ''like'',
      ''well'', ''also'', ''back'', ''even'', ''still'', ''way'', ''take'', ''come'', ''give'',
      ''use'', ''find'', ''tell'', ''ask'', ''work'', ''seem'', ''feel'', ''try'', ''leave'',
      ''call'']"

definition tokenize_deterministic :: "string \<Rightarrow> string list" where
  "tokenize_deterministic s = std_set_of (tokenize_ascii s)"

definition lexical_tokenize :: "bool \<Rightarrow> string \<Rightarrow> string \<Rightarrow> resume_token_ir" where
  "lexical_tokenize filter_stop_words resume_md source_hash =
     (let tokens = tokenize_deterministic resume_md;
          kept = (if filter_stop_words then filter (\<lambda>token. token \<notin> set kStopWords) tokens else tokens)
      in \<lparr>ir_schema_version = ''0.3'', ir_source_hash = source_hash,
          ir_tokenizer = \<lparr>tm_type = kDeterministicLexical, tm_model_id = None, tm_prompt_version = None\<rparr>,
          ir_tokens = [(''lexical'', kept)], ir_spans = []\<rparr>)"

section \<open>The stub inference tokenizer\<close>

definition known_skills :: "string list" where
  "known_skills =
     [''python'', ''java'', ''cpp'', ''c'', ''javascript'', ''typescript'', ''rust'', ''go'',
      ''sql'', ''docker'', ''kubernetes'', ''aws'', ''gcp'', ''azure'', ''react'', ''angular'',
      ''vue'', ''django'', ''flask'', ''spring'', ''node'', ''git'', ''ci'', ''cd'',
      ''terraform'', ''ansible'', ''jenkins'', ''cmake'', ''make'', ''gradle'', ''maven'',
      ''pytest'', ''junit'', ''testing'', ''tdd'', ''agile'', ''scrum'', ''rest'', ''api'',
      ''graphql'', ''mongodb'', ''postgresql'', ''mysql'', ''redis'', ''kafka'', ''spark'',
      ''hadoop'', ''machine'', ''learning'', ''deep'', ''neural'', ''tensorflow'', ''pytorch'',
      ''scikit'', ''pandas'', ''numpy'']"

definition known_domains :: "string list" where
  "known_domains =
     [''backend'', ''frontend'', ''fullstack'', ''devops'', ''infrastructure'', ''security'',
      ''mobile'', ''web'', ''cloud'', ''distributed'', ''systems'', ''architecture'',
      ''database'', ''data'', ''engineering'', ''software'', ''platform'', ''network'',
      ''embedded'', ''performance'', ''scalability'', ''reliability'', ''observability'',
      ''automation'', ''testing'', ''quality'', ''assurance'', ''integration'', ''deployment'',
      ''monitoring'', ''analytics'', ''visualization'', ''reporting'', ''optimization'', ''ai'',
      ''ml'']"

definition known_roles :: "string list" where
  "known_roles =
     [''engineer'', ''developer'', ''architect'', ''lead'', ''senior'', ''staff'', ''principal'',
      ''manager'', ''director'', ''head'', ''vp'', ''cto'', ''technical'', ''software'',
      ''platform'', ''infrastructure'', ''site'', ''reliability'', ''consultant'', ''analyst'',
      ''specialist'', ''coordinator'', ''associate'', ''intern'']"

definition is_likely_skill :: "string \<Rightarrow> bool" where
  "is_likely_skill token \<longleftrightarrow> token \<in> set known_skills"

definition is_likely_domain :: "string \<Rightarrow> bool" where
  "is_likely_domain token \<longleftrightarrow> token \<in> set known_domains"

definition is_likely_role :: "string \<Rightarrow> bool" where
  "is_likely_role token \<longleftrightarrow> token \<in> set known_roles"

text \<open>The category of a token by the cascade of the loop.\<close>

definition stub_category :: "string \<Rightarrow> string" where
  "stub_category token =
     (if is_likely_skill token then ''skills''
      else if is_likely_domain token then ''domains''
      else if is_likely_role token then ''roles'' else ''entities'')"

text \<open>A set is stored in the map only when it is not empty.\<close>

definition store_category :: "string \<Rightarrow> string list \<Rightarrow> (string \<times> string list) list \<Rightarrow> (string \<times> string list) list" where
  "store_category category tokens m = (if tokens \<noteq> [] then omap_insert category tokens m else m)"

definition stub_tokenize :: "string \<Rightarrow> string \<Rightarrow> resume_token_ir" where
  "stub_tokenize resume_md source_hash =
     (let all_toks = tokenize_ascii resume_md;
          bucket = (\<lambda>category. std_set_of (filter (\<lambda>token. stub_category token = category) all_toks))
      in \<lparr>ir_schema_version = ''0.3'', ir_source_hash = source_hash,
          ir_tokenizer = \<lparr>tm_type = kInferenceAssisted, tm_model_id = Some ''stub-inference-v1'',
                          tm_prompt_version = Some ''resume-tokenizer-stub-v1''\<rparr>,
          ir_tokens = store_category ''entities'' (bucket ''entities'')
                        (store_category ''roles'' (bucket ''roles'')
                          (store_category ''domains'' (bucket ''domains'')
                            (store_category ''skills'' (bucket ''skills'') []))),
          ir_spans = []\<rparr>)"

section \<open>The contract\<close>

locale tokenization_provider =
  fixes tokenize :: "string \<Rightarrow> string \<Rightarrow> resume_token_ir"
  assumes source_hash: "ir_source_hash (tokenize md hash) = hash"
    and tokens: "t \<in> set (all_tokens (tokenize md hash)) \<Longrightarrow> t \<in> set (tokenize_ascii md)"
    and spans: "ir_spans (tokenize md hash) = []"
    and ordered: "omap_inv (ir_tokens (tokenize md hash))"
    and sorted_tokens: "(c, ts) \<in> set (ir_tokens (tokenize md hash)) \<Longrightarrow> sorted_set ts"
begin

lemma rules_accept_iff:
  assumes "env_artifact env = Some (TokenIRArtifactView (tokenize md hash) hash md)"
  shows "tok_001 env ctx @ tok_002 env ctx @ tok_003 env ctx @ tok_004 env ctx = []"
    and "tok_005 env ctx = [] \<longleftrightarrow>
      (\<forall>(c, ts) \<in> set (ir_tokens (tokenize md hash)). length ts \<le> 200) \<and>
      length (all_tokens (tokenize md hash)) \<le> 500"
  using assms by (auto simp: tok_001_accepts_iff tok_rules_iffs [OF assms] source_hash spans
      intro: tokens tokenize_ascii_tokens [OF tokens])

end

interpretation lexical: tokenization_provider "lexical_tokenize filter_stop_words" for filter_stop_words
  by unfold_locales
    (auto simp: lexical_tokenize_def tokenize_deterministic_def all_tokens_def Let_def omap_inv_Cons
      sorted_set_filter split: if_splits)

text \<open>The map of the stub: its categories in order, the empty ones left out.\<close>

lemma store_category_inv [simp]: "omap_inv m \<Longrightarrow> omap_inv (store_category c ts m)"
  by (simp add: store_category_def)

lemma store_category_entries:
  "omap_inv m \<Longrightarrow> (k, ts) \<in> set (store_category c bucket m) \<Longrightarrow>
     (k = c \<and> ts = bucket \<and> bucket \<noteq> []) \<or> (k, ts) \<in> set m"
  by (auto simp: store_category_def simp flip: omap_map_of_iff split: if_splits)

lemma stub_entries:
  "(c, ts) \<in> set (ir_tokens (stub_tokenize md hash)) \<Longrightarrow>
     ts = std_set_of (filter (\<lambda>t. stub_category t = c) (tokenize_ascii md)) \<and> ts \<noteq> []"
  unfolding stub_tokenize_def Let_def
  by (auto dest!: store_category_entries [rotated])

interpretation stub: tokenization_provider stub_tokenize
proof
  fix md hash t
  show "ir_source_hash (stub_tokenize md hash) = hash" "ir_spans (stub_tokenize md hash) = []"
    "omap_inv (ir_tokens (stub_tokenize md hash))"
    by (simp_all add: stub_tokenize_def Let_def)
  show "t \<in> set (tokenize_ascii md)" if "t \<in> set (all_tokens (stub_tokenize md hash))"
    using that stub_entries by (fastforce simp: all_tokens_def)
  show "sorted_set ts" if "(c, ts) \<in> set (ir_tokens (stub_tokenize md hash))" for c ts
    using stub_entries [OF that] by simp
qed

text \<open>Each token of the text is in the list of its category, and in that one only.\<close>

lemma map_of_store_category:
  "omap_inv m \<Longrightarrow> map_of (store_category k ts m) c = (if c = k \<and> ts \<noteq> [] then Some ts else map_of m c)"
  by (simp add: store_category_def)

lemma stub_tokens_category:
  assumes "t \<in> set (tokenize_ascii md)"
  shows "(\<exists>ts. map_of (ir_tokens (stub_tokenize md hash)) c = Some ts \<and> t \<in> set ts) \<longleftrightarrow> c = stub_category t"
proof
  assume "\<exists>ts. map_of (ir_tokens (stub_tokenize md hash)) c = Some ts \<and> t \<in> set ts"
  then obtain ts where "(c, ts) \<in> set (ir_tokens (stub_tokenize md hash))" "t \<in> set ts"
    by (blast dest: map_of_SomeD)
  then show "c = stub_category t" using stub_entries [of c ts md hash] by auto
next
  let ?b = "std_set_of (filter (\<lambda>u. stub_category u = stub_category t) (tokenize_ascii md))"
  assume c: "c = stub_category t"
  have t: "t \<in> set ?b" using assms by simp
  then have "?b \<noteq> []" by (metis list.set(1) empty_iff)
  moreover have cat: "stub_category t = ''skills'' \<or> stub_category t = ''domains'' \<or> stub_category t = ''roles'' \<or>
      stub_category t = ''entities''" by (simp add: stub_category_def)
  ultimately have "map_of (ir_tokens (stub_tokenize md hash)) (stub_category t) = Some ?b"
    using cat unfolding stub_tokenize_def Let_def by (elim disjE) (simp_all add: map_of_store_category)
  then show "\<exists>ts. map_of (ir_tokens (stub_tokenize md hash)) c = Some ts \<and> t \<in> set ts" using c t by blast
qed

section \<open>Properties\<close>

text \<open>C25. Whatever the resume says, what either tokenizer produces from it passes the first four resume
  token rules of the constitution when it is validated against the same text and hash; only the volume rule
  TOK-005 can have findings, exactly when a category has more than 200 tokens or all together more
  than 500.\<close>

theorem tokenizers_pass_rules:
  assumes "tokenize = lexical_tokenize filter_stop_words \<or> tokenize = stub_tokenize"
    and "env_artifact env = Some (TokenIRArtifactView (tokenize md hash) hash md)"
  shows "tok_001 env ctx @ tok_002 env ctx @ tok_003 env ctx @ tok_004 env ctx = [] \<and>
    (tok_005 env ctx = [] \<longleftrightarrow>
      (\<forall>(c, ts) \<in> set (ir_tokens (tokenize md hash)). length ts \<le> 200) \<and>
      length (all_tokens (tokenize md hash)) \<le> 500)"
  using assms(1)
proof
  assume t: "tokenize = lexical_tokenize filter_stop_words"
  show ?thesis using lexical.rules_accept_iff [OF assms(2) [unfolded t], of ctx] unfolding t by blast
next
  assume t: "tokenize = stub_tokenize"
  show ?thesis using stub.rules_accept_iff [OF assms(2) [unfolded t], of ctx] unfolding t by blast
qed

definition tokenized_envelope :: artifact_envelope where
  "tokenized_envelope = \<lparr>env_artifact_id = ''r1'', env_content = [], env_source_refs = [],
     env_artifact = Some (TokenIRArtifactView (stub_tokenize ''Senior C++ and Rust'' ''h'') ''h'' ''Senior C++ and Rust'')\<rparr>"

theorem tokenizers_pass_rules_witness:
  "(\<forall>ctx. tok_001 tokenized_envelope ctx @ tok_002 tokenized_envelope ctx @ tok_003 tokenized_envelope ctx @
     tok_004 tokenized_envelope ctx = []) \<and>
   ir_tokens (stub_tokenize ''Senior C++ and Rust'' ''h'') =
     [(''entities'', [''and'']), (''roles'', [''senior'']), (''skills'', [''rust''])]"
proof
  show "\<forall>ctx. tok_001 tokenized_envelope ctx @ tok_002 tokenized_envelope ctx @ tok_003 tokenized_envelope ctx @
     tok_004 tokenized_envelope ctx = []"
    by (rule allI, rule conjunct1, rule tokenizers_pass_rules [of stub_tokenize True tokenized_envelope "''Senior C++ and Rust''" "''h''"])
      (simp_all add: tokenized_envelope_def)
  show "ir_tokens (stub_tokenize ''Senior C++ and Rust'' ''h'') =
     [(''entities'', [''and'']), (''roles'', [''senior'']), (''skills'', [''rust''])]"
    by code_simp
qed

end
