(* ===== verification/Vector_Index.thy ===== *)
theory Vector_Index
  imports Matcher Ordered_Map Hashing
begin

text \<open>
  The embedding providers (\<open>src/embedding/deterministic_stub_embedding_provider.cpp\<close>) and the vector indexes
  (\<open>src/vector/inmemory_embedding_index.cpp\<close>, \<open>null_embedding_index.cpp\<close>,
  \<open>lancedb_embedding_index.cpp\<close>). A \<open>float\<close> is the rational it denotes, rounded at 24 bits
  after each operation; \<open>std::sqrt\<close> is correctly rounded. Overflow is outside the model, as in
  \<open>Binary64\<close>. The lemmas show that an embedding depends only on the tokens with their counts, that
  similarity is symmetric, what a query returns, and that its comparison is no ordering when scores lie
  within its tolerance of each other.
\<close>

section \<open>Single precision and square roots\<close>

definition ulp_exp32 :: "rat \<Rightarrow> int" where
  "ulp_exp32 x = max (ilog2 \<bar>x\<bar> - 23) (- 149)"

definition rnd32 :: "rat \<Rightarrow> rat" where
  "rnd32 x =
     (if x = 0 then 0 else of_int (round_half_even (x / 2 powi ulp_exp32 x)) * 2 powi ulp_exp32 x)"

fun isqrt :: "nat \<Rightarrow> nat" where
  "isqrt n =
     (if n = 0 then 0
      else let r = 2 * isqrt (n div 4) in if (r + 1) * (r + 1) \<le> n then r + 1 else r)"

declare isqrt.simps [simp del]

text \<open>The root of a positive number, rounded to a multiple of \<open>2 powi e\<close>, ties to even.\<close>

definition sqrt_at :: "int \<Rightarrow> rat \<Rightarrow> rat" where
  "sqrt_at e x =
     (let y = x / 4 powi e; f = int (isqrt (nat \<lfloor>y\<rfloor>)); h = of_int f + 1 / 2
      in of_int (if y < h * h then f else if h * h < y then f + 1 else if even f then f else f + 1) * 2 powi e)"

definition double_sqrt :: "double \<Rightarrow> double" where
  "double_sqrt x = (if x = 0 then 0 else sqrt_at (max (ilog2 x div 2 - 52) (- 1074)) x)"

definition float_sqrt :: "rat \<Rightarrow> rat" where
  "float_sqrt x = (if x = 0 then 0 else sqrt_at (max (ilog2 x div 2 - 23) (- 149)) x)"

lemma isqrt_bounds: "isqrt n * isqrt n \<le> n \<and> n < (isqrt n + 1) * (isqrt n + 1)"
proof (induction n rule: isqrt.induct)
  case (1 n)
  show ?case
  proof (cases "n = 0")
    case False
    define s where "s = isqrt (n div 4)"
    have "s * s \<le> n div 4" "n div 4 < (s + 1) * (s + 1)" using 1 False by (simp_all add: s_def)
    then have "4 * (s * s) \<le> n" "n < 4 * ((s + 1) * (s + 1))" by linarith+
    then show ?thesis
      by (simp add: isqrt.simps [of n] False Let_def algebra_simps flip: s_def)
  qed (simp add: isqrt.simps)
qed

section \<open>Embedding providers\<close>

definition null_provider :: embedding_provider where
  "null_provider = \<lparr>ep_embed_text = (\<lambda>_. []), ep_dimension = 0\<rparr>"

definition count_tokens :: "string list \<Rightarrow> (string \<times> int) list" where
  "count_tokens tokens =
     foldl (\<lambda>m token. omap_insert token ((case map_of m token of Some n \<Rightarrow> n | None \<Rightarrow> 0) + 1) m) [] tokens"

definition float_add_at :: "vec \<Rightarrow> nat \<Rightarrow> rat \<Rightarrow> vec" where
  "float_add_at embedding i x = embedding[i := rnd32 (embedding ! i + x)]"

definition spread_token :: "nat \<Rightarrow> vec \<Rightarrow> string \<times> int \<Rightarrow> vec" where
  "spread_token dimension embedding entry =
     (let count = rnd32 (of_int (snd entry));
          side = rnd32 (count * rnd32 (3 / 10));
          i = unat (stable_hash64 (fst entry)) mod dimension
      in float_add_at (float_add_at (float_add_at embedding i count) ((i + dimension - 1) mod dimension) side)
           ((i + 1) mod dimension) side)"

definition normalize_vector :: "vec \<Rightarrow> vec" where
  "normalize_vector embedding =
     (let sq = foldl (\<lambda>acc v. rnd32 (acc + rnd32 (v * v))) 0 embedding
      in if 0 < sq then map (\<lambda>v. rnd32 (v / float_sqrt sq)) embedding else embedding)"

definition stub_embed :: "nat \<Rightarrow> string \<Rightarrow> vec" where
  "stub_embed dimension txt_in =
     (if dimension = 0 then []
      else let embedding = replicate dimension 0; tokens = tokenize_ascii txt_in
           in if tokens = [] then embedding
              else normalize_vector (foldl (spread_token dimension) embedding (count_tokens tokens)))"

definition stub_provider :: "nat \<Rightarrow> embedding_provider" where
  "stub_provider dimension = \<lparr>ep_embed_text = stub_embed dimension, ep_dimension = dimension\<rparr>"

lemma count_tokens_snoc:
  "count_tokens (ts @ [t]) =
     omap_insert t ((case map_of (count_tokens ts) t of Some n \<Rightarrow> n | None \<Rightarrow> 0) + 1) (count_tokens ts)"
  by (simp add: count_tokens_def)

lemma count_tokens_spec:
  "omap_inv (count_tokens ts) \<and>
   map_of (count_tokens ts) t = (if t \<in> set ts then Some (int (count_list ts t)) else None)"
proof (induction ts arbitrary: t rule: rev_induct)
  case (snoc u ts)
  have i: "omap_inv (count_tokens ts)" using snoc by blast
  show ?case
    using snoc [of t] snoc [of u] by (auto simp: count_tokens_snoc i)
qed (simp add: count_tokens_def)

lemma count_tokens_cong:
  assumes "mset ts = mset us"
  shows "count_tokens ts = count_tokens us"
  by (rule omap_eqI)
    (use assms in \<open>auto simp: count_tokens_spec fun_eq_iff count_mset [symmetric] dest: mset_eq_setD\<close>)

lemma length_stub_embed: "length (stub_embed dimension s) = dimension"
proof -
  have "length (foldl (spread_token dimension) v es) = length v" for v es
    by (induction es arbitrary: v) (simp_all add: spread_token_def Let_def float_add_at_def)
  then show ?thesis by (simp add: stub_embed_def Let_def normalize_vector_def)
qed

lemma stub_embed_bag:
  "mset (tokenize_ascii s) = mset (tokenize_ascii t) \<Longrightarrow> stub_embed dimension s = stub_embed dimension t"
  using count_tokens_cong [of "tokenize_ascii s" "tokenize_ascii t"]
  by (auto simp: stub_embed_def Let_def)

section \<open>Similarity\<close>

definition cosine_step :: "double \<times> double \<times> double \<Rightarrow> rat \<times> rat \<Rightarrow> double \<times> double \<times> double" where
  "cosine_step acc ab =
     (case acc of (dot, na, nb) \<Rightarrow> case ab of (x, y) \<Rightarrow>
        (double_add dot (rnd32 (x * y)), double_add na (rnd32 (x * x)), double_add nb (rnd32 (y * y))))"

definition cosine_similarity :: "vec \<Rightarrow> vec \<Rightarrow> double" where
  "cosine_similarity a b =
     (if length a \<noteq> length b \<or> a = [] then 0
      else case foldl cosine_step (0, 0, 0) (zip a b) of (dot, sa, sb) \<Rightarrow>
        (let na = double_sqrt sa; nb = double_sqrt sb
         in if na = 0 \<or> nb = 0 then 0 else double_div dot (double_mul na nb)))"

lemma cosine_symmetric: "cosine_similarity a b = cosine_similarity b a"
proof (cases "length a = length b")
  case True
  have "foldl cosine_step (d, x, y) (zip b a) =
      (case foldl cosine_step (d, y, x) (zip a b) of (d', y', x') \<Rightarrow> (d', x', y'))" for d x y
    using True
    by (induction a b arbitrary: d x y rule: list_induct2) (simp_all add: cosine_step_def mult.commute)
  then show ?thesis using True
    by (auto simp: cosine_similarity_def double_mul_def Let_def mult.commute split: prod.splits)
qed (simp add: cosine_similarity_def)

section \<open>The in-memory index\<close>

type_synonym vector_map = "(string \<times> vec \<times> string) list"

definition vectors_upsert :: "string \<Rightarrow> vec \<Rightarrow> string \<Rightarrow> vector_map \<Rightarrow> vector_map" where
  "vectors_upsert key embedding metadata vectors = omap_insert key (embedding, metadata) vectors"

definition vectors_get :: "vector_map \<Rightarrow> string \<Rightarrow> vec option" where
  "vectors_get vectors key = map_option fst (map_of vectors key)"

definition kEpsilon :: double where
  "kEpsilon = rnd (1 / 10 ^ 9)"

definition result_less :: "vector_search_result \<Rightarrow> vector_search_result \<Rightarrow> bool" where
  "result_less a b =
     (if kEpsilon < \<bar>rnd (vsr_score a - vsr_score b)\<bar> then vsr_score b < vsr_score a
      else vsr_key a < vsr_key b)"

definition vectors_results :: "vector_map \<Rightarrow> vec \<Rightarrow> vector_search_result list" where
  "vectors_results vectors query_vector =
     map (\<lambda>(key, embedding, metadata).
            \<lparr>vsr_key = key, vsr_score = cosine_similarity query_vector embedding, vsr_metadata = metadata\<rparr>)
       vectors"

definition vectors_query :: "vector_map \<Rightarrow> index_query" where
  "vectors_query vectors query_vector top_k =
     take top_k (std_sort result_less (vectors_results vectors query_vector))"

definition null_query :: index_query where
  "null_query query_vector top_k = []"

definition lancedb_error :: "(string, 'a) result" where
  "lancedb_error = Inl ''LanceDB not implemented in v0.2''"

text \<open>The ordering meant: descending scores, ascending keys among equal scores.\<close>

definition exact_less :: "vector_search_result \<Rightarrow> vector_search_result \<Rightarrow> bool" where
  "exact_less a b \<longleftrightarrow> vsr_score b < vsr_score a \<or> vsr_score a = vsr_score b \<and> vsr_key a < vsr_key b"

interpretation exact_order: comparison exact_less
  by unfold_locales (auto simp: exact_less_def)

definition separated :: "vector_search_result list \<Rightarrow> bool" where
  "separated rs \<longleftrightarrow> (\<forall>a \<in> set rs. \<forall>b \<in> set rs.
     vsr_score a = vsr_score b \<or> kEpsilon < \<bar>rnd (vsr_score a - vsr_score b)\<bar>)"

lemma std_sort_cong:
  "(\<And>a b. a \<in> set xs \<Longrightarrow> b \<in> set xs \<Longrightarrow> lt a b = lt' a b) \<Longrightarrow> std_sort lt xs = std_sort lt' xs"
proof (induction xs)
  case (Cons x xs)
  have "std_insert lt x ys = std_insert lt' x ys" if "set ys \<subseteq> set xs" for ys
    using that Cons.prems by (induction ys) auto
  with Cons show ?case by simp
qed simp

lemma kEpsilon_nonneg: "0 \<le> kEpsilon"
  unfolding kEpsilon_def by (rule rnd_nonneg) simp

lemma result_less_exact:
  "vsr_score a = vsr_score b \<or> kEpsilon < \<bar>rnd (vsr_score a - vsr_score b)\<bar> \<Longrightarrow>
     result_less a b = exact_less a b"
  using kEpsilon_nonneg by (auto simp: result_less_def exact_less_def)

lemma query_sorted:
  assumes "separated (vectors_results vectors q)"
  shows "vectors_query vectors q k = take k (std_sort exact_less (vectors_results vectors q))"
  unfolding vectors_query_def
  by (subst std_sort_cong [where lt' = exact_less]) (use assms in \<open>auto simp: separated_def result_less_exact\<close>)

text \<open>When two scores are within the tolerance the comparison can be cyclic: \<open>std::sort\<close> is then
  undefined, and no order of the results is sorted.\<close>

lemma representable_scaled:
  assumes "0 < n" "n < 2 ^ 53" "- 1074 \<le> k"
  shows "representable (of_int n * 2 powi k)"
proof -
  let ?x = "of_int n * 2 powi k :: rat"
  have pos: "0 < ?x" using assms(1) by simp
  have "(of_int n :: rat) < of_int (2 ^ 53)" using assms(2) by (simp only: of_int_less_iff)
  then have "?x < 2 powi 53 * 2 powi k" by (simp add: power_int_def)
  also have "\<dots> = 2 powi (53 + k)" by (rule power_int_add [symmetric]) simp
  finally have "2 powi ilog2 ?x < (2 :: rat) powi (53 + k)"
    using ilog2_bounds(1) [OF pos] by (rule le_less_trans [rotated])
  then have "ilog2 ?x < 53 + k" by (simp only: powi_rat_less_iff)
  then have e: "ulp_exp ?x \<le> k" using assms(3) pos by (simp add: ulp_exp_def)
  define d where "d = nat (k - ulp_exp ?x)"
  have "2 powi int d * 2 powi ulp_exp ?x = (2 :: rat) powi k"
    using e by (simp add: d_def flip: power_int_add)
  then have "?x = of_int (n * 2 ^ d) * 2 powi ulp_exp ?x" by (simp add: power_int_of_nat mult.assoc)
  then show ?thesis unfolding representable_def by blast
qed

lemma representable_minus: "representable x \<Longrightarrow> representable (- x)"
  by (auto simp: representable_def ulp_exp_def) (metis mult_minus_left of_int_minus)

lemma powi_minus: "(2 :: rat) powi - 30 = 1 / 1073741824" "(2 :: rat) powi - 31 = 1 / 2147483648"
  "(2 :: rat) powi - 29 = 1 / 536870912"
  by (simp_all add: power_int_def power_divide)

lemma kEpsilon_bounds: "1 / 1073741824 \<le> kEpsilon" "kEpsilon < 1 / 536870912"
proof -
  have r: "representable (1 / 1073741824)" "representable (3 / 2147483648)"
    using representable_scaled [of 1 "- 30"] representable_scaled [of 3 "- 31"] by (simp_all add: powi_minus)
  have "rnd (1 / 1073741824) \<le> kEpsilon" unfolding kEpsilon_def by (rule rnd_mono) simp_all
  then show "1 / 1073741824 \<le> kEpsilon" by (simp add: rnd_representable [OF r(1)])
  have "kEpsilon \<le> rnd (3 / 2147483648)" unfolding kEpsilon_def by (rule rnd_mono) simp_all
  then show "kEpsilon < 1 / 536870912" by (simp add: rnd_representable [OF r(2)])
qed

lemma result_less_cycle:
  "\<exists>a b c. result_less a b \<and> result_less b c \<and> result_less c a"
proof -
  let ?r = "\<lambda>k s. \<lparr>vsr_key = k, vsr_score = s, vsr_metadata = []\<rparr>"
  have r: "representable (1 / 1073741824)" "representable (1 / 536870912)"
    using representable_scaled [of 1 "- 30"] representable_scaled [of 1 "- 29"] by (simp_all add: powi_minus)
  then have m: "rnd (- (1 / 1073741824)) = - (1 / 1073741824)"
    using rnd_representable representable_minus by blast
  have "result_less (?r ''a'' 0) (?r ''b'' (1 / 1073741824))"
    using kEpsilon_bounds m by (simp add: result_less_def)
  moreover have "result_less (?r ''b'' (1 / 1073741824)) (?r ''c'' (1 / 536870912))"
    using kEpsilon_bounds m by (simp add: result_less_def)
  moreover have "result_less (?r ''c'' (1 / 536870912)) (?r ''a'' 0)"
    using kEpsilon_bounds rnd_representable [OF r(2)] by (simp add: result_less_def)
  ultimately show ?thesis by blast
qed

section \<open>Properties\<close>

text \<open>What the in-memory index answers: at most \<open>top_k\<close> of the stored vectors, each with its
  similarity to the query, best first and by key among equals, and none left out that is better than one
  returned. The hypothesis keeps different scores further apart than the comparison's tolerance; without
  it the comparison is cyclic and the sort undefined.\<close>

theorem query_returns_best:
  assumes "separated (vectors_results vectors q)"
  shows "length (vectors_query vectors q k) = min k (length vectors) \<and>
    set (vectors_query vectors q k) \<subseteq> set (vectors_results vectors q) \<and>
    sorted_wrt (\<lambda>a b. \<not> exact_less b a) (vectors_query vectors q k) \<and>
    (\<forall>a \<in> set (vectors_query vectors q k). \<forall>b \<in> set (vectors_results vectors q).
       b \<notin> set (vectors_query vectors q k) \<longrightarrow> \<not> exact_less b a)"
proof -
  let ?s = "std_sort exact_less (vectors_results vectors q)"
  have s: "sorted_wrt (\<lambda>a b. \<not> exact_less b a) ?s" by (rule exact_order.sorted_std_sort)
  have "\<not> exact_less b a" if "a \<in> set (take k ?s)" "b \<in> set ?s" "b \<notin> set (take k ?s)" for a b
  proof -
    have "b \<in> set (drop k ?s)" using that by (metis Un_iff append_take_drop_id set_append)
    then show ?thesis using s that(1)
      by (metis append_take_drop_id sorted_wrt_append)
  qed
  then show ?thesis
    using s set_take_subset [of k ?s] by (auto simp: query_sorted [OF assms] vectors_results_def sorted_wrt_take)
qed

theorem query_returns_best_witness:
  "length (vectors_query [(''a1'', [1], []), (''a2'', [0], [])] [1, 0] 1) = 1 \<and>
   map vsr_key (vectors_query [(''a1'', [1], []), (''a2'', [0], [])] [1, 0] 1) = [''a1'']"
proof -
  let ?v = "[(''a1'', [1], []), (''a2'', [0], [])]"
  have "separated (vectors_results ?v [1, 0])"
    by (simp add: separated_def vectors_results_def cosine_similarity_def)
  from query_returns_best [OF this, of 1] query_sorted [OF this, of 1] show ?thesis
    by (simp add: vectors_results_def cosine_similarity_def exact_less_def)
qed

end
