(* ===== verification/Actions.thy ===== *)
theory Actions
  imports Ccmcp_Prelude
begin

text \<open>
  The effects the code runs in. An action takes the state of the world to a result, a value or the
  message of an exception, and the next state: what was done before a throw stays done.
\<close>

type_synonym ('w, 'a) action = "'w \<Rightarrow> (string, 'a) result \<times> 'w"

definition act_return :: "'a \<Rightarrow> ('w, 'a) action" where
  "act_return a w = (Inr a, w)"

definition act_throw :: "string \<Rightarrow> ('w, 'a) action" where
  "act_throw e w = (Inl e, w)"

definition act_lift :: "(string, 'a) result \<Rightarrow> ('w, 'a) action" where
  "act_lift r w = (r, w)"

definition act_bind :: "('w, 'a) action \<Rightarrow> ('a \<Rightarrow> ('w, 'b) action) \<Rightarrow> ('w, 'b) action" where
  "act_bind m f w = (case m w of (Inl e, w') \<Rightarrow> (Inl e, w') | (Inr a, w') \<Rightarrow> f a w')"

fun act_map :: "('a \<Rightarrow> ('w, 'b) action) \<Rightarrow> 'a list \<Rightarrow> ('w, 'b list) action" where
  "act_map f [] = act_return []"
| "act_map f (x # xs) = act_bind (f x) (\<lambda>y. act_bind (act_map f xs) (\<lambda>ys. act_return (y # ys)))"

text \<open>A loop that threads an accumulator.\<close>

fun act_fold :: "('a \<Rightarrow> 'b \<Rightarrow> ('w, 'b) action) \<Rightarrow> 'a list \<Rightarrow> 'b \<Rightarrow> ('w, 'b) action" where
  "act_fold f [] b = act_return b"
| "act_fold f (x # xs) b = act_bind (f x b) (act_fold f xs)"

text \<open>\<open>catch (...)\<close>.\<close>

definition act_catch :: "('w, 'a) action \<Rightarrow> (string \<Rightarrow> ('w, 'a) action) \<Rightarrow> ('w, 'a) action" where
  "act_catch m h w = (case m w of (Inl e, w') \<Rightarrow> h e w' | (Inr a, w') \<Rightarrow> (Inr a, w'))"

definition act_get :: "('w \<Rightarrow> 'a) \<Rightarrow> ('w, 'a) action" where
  "act_get f w = (Inr (f w), w)"

definition act_modify :: "('w \<Rightarrow> 'w) \<Rightarrow> ('w, unit) action" where
  "act_modify f w = (Inr (), f w)"

text \<open>An action on a part of the state.\<close>

definition act_on :: "('w \<Rightarrow> 'p) \<Rightarrow> ('p \<Rightarrow> 'w \<Rightarrow> 'w) \<Rightarrow> ('p, 'a) action \<Rightarrow> ('w, 'a) action" where
  "act_on part put m w = (case m (part w) of (r, p) \<Rightarrow> (r, put p w))"

lemma act_bind_simps [simp]:
  "act_bind (act_return a) f = f a"
  "act_bind (act_throw e) f = act_throw e"
  "act_bind (act_get g) f w = f (g w) w"
  "act_bind (act_modify g) f w = f () (g w)"
  by (simp_all add: fun_eq_iff act_bind_def act_return_def act_throw_def act_get_def act_modify_def)

lemma act_bind_eq: "m w = (Inr a, w') \<Longrightarrow> act_bind m f w = f a w'"
  "m w = (Inl e, w') \<Longrightarrow> act_bind m f w = (Inl e, w')"
  by (simp_all add: act_bind_def)

lemma act_bind_Inr_iff:
  "act_bind m f w = (Inr b, w') \<longleftrightarrow> (\<exists>a v. m w = (Inr a, v) \<and> f a v = (Inr b, w'))"
  by (auto simp: act_bind_def split: prod.splits sum.splits)

text \<open>A sequence of actions that each preserve a simulation.\<close>

lemma act_map_rel:
  assumes step: "\<And>a m w. R m w \<Longrightarrow> P a \<Longrightarrow> \<exists>w'. f a w = (Inr (), w') \<and> R (g a m) w'"
    and "R m w" "\<forall>a \<in> set items. P a"
  shows "\<exists>us w'. act_map f items w = (Inr us, w') \<and> R (fold g items m) w'"
  using assms(2,3)
proof (induction items arbitrary: m w)
  case (Cons a items)
  obtain w1 where w1: "f a w = (Inr (), w1)" "R (g a m) w1"
    using step [of m w a] Cons.prems by auto
  obtain us w' where "act_map f items w1 = (Inr us, w')" "R (fold g items (g a m)) w'"
    using Cons.IH [OF w1(2)] Cons.prems(2) by auto
  then show ?case using w1 by (simp add: act_bind_eq act_return_def)
qed (simp add: act_return_def)

end
