(* ===== verification/Sqlite_Db.thy ===== *)
theory Sqlite_Db
  imports Actions Audit_Log "HOL-Library.Option_ord" "HOL-Library.Product_Lexorder"
begin

text \<open>
  The database of \<open>src/storage/sqlite/\<close> and its migrations (\<open>sqlite_db.cpp\<close>). A table is the
  ordered map of its rows by primary key, \<open>audit_events\<close> the list of its rows in the order of
  insertion; the SQL text of the sources is translated into operations on them. A statement can be
  prepared when the tables and columns it names exist; a step fails on a violated constraint. I/O errors
  of the engine, and the columns that no query reads (\<open>schema_version.applied_at\<close>, the
  \<open>created_at\<close> of token representations and vectors), are left out.
\<close>

section \<open>Tables\<close>

record atom_row =
  ar_domain :: string
  ar_title :: string
  ar_claim :: string
  ar_tags_json :: string
  ar_verified :: int
  ar_evidence_refs_json :: string

record opportunity_row =
  or_company :: string
  or_role_title :: string
  or_source :: string

record requirement_row =
  qr_text :: string
  qr_tags_json :: string
  qr_required :: int

record interaction_row =
  nr_contact_id :: string
  nr_opportunity_id :: string
  nr_state :: int

record audit_row =
  er_event_id :: string
  er_trace_id :: string
  er_event_type :: string
  er_payload :: string
  er_created_at :: string
  er_entity_ids_json :: string
  er_idx :: int
  er_previous_hash :: string
  er_event_hash :: string

record resume_row =
  sr_resume_md :: string
  sr_resume_hash :: string
  sr_created_at :: string

record resume_meta_row =
  mr_source_path :: "string option"
  mr_source_hash :: string
  mr_extraction_method :: string
  mr_extracted_at :: "string option"
  mr_ingestion_version :: string

record token_ir_row =
  kr_resume_id :: string
  kr_token_ir_json :: string

record run_row =
  rr_started_at :: "string option"
  rr_completed_at :: "string option"
  rr_provider_id :: string
  rr_model_id :: string
  rr_prompt_version :: string
  rr_status :: string
  rr_summary_json :: string

record entry_row =
  ny_source_hash :: string
  ny_vector_hash :: string
  ny_indexed_at :: "string option"

record decision_row =
  dw_trace_id :: string
  dw_opportunity_id :: string
  dw_artifact_id :: string
  dw_decision_json :: string
  dw_created_at :: "string option"

record snapshot_row =
  pr_snapshot_json :: string
  pr_snapshot_hash :: string
  pr_created_at :: string

type_synonym 'r sql_table = "(string \<times> 'r) list"

text \<open>What a transaction can roll back: the names of the tables, the added columns of
  \<open>audit_events\<close>, and the rows.\<close>

record sqlite_content =
  sc_tables :: "string list"
  sc_audit_columns :: "string list"
  sc_schema_version :: "int list"
  sc_atoms :: "atom_row sql_table"
  sc_opportunities :: "opportunity_row sql_table"
  sc_requirements :: "((string \<times> int) \<times> requirement_row) list"
  sc_interactions :: "interaction_row sql_table"
  sc_audit_events :: "audit_row list"
  sc_resumes :: "resume_row sql_table"
  sc_resume_meta :: "resume_meta_row sql_table"
  sc_resume_token_ir :: "token_ir_row sql_table"
  sc_index_runs :: "run_row sql_table"
  sc_index_entries :: "((string \<times> string \<times> string) \<times> entry_row) list"
  sc_decision_records :: "decision_row sql_table"
  sc_id_counters :: "(string \<times> int) list"
  sc_runtime_snapshots :: "snapshot_row sql_table"

text \<open>The database of a connection; \<open>db_saved\<close> is the state a \<open>ROLLBACK\<close> restores while a
  transaction is open.\<close>

record sqlite_db =
  db_now :: sqlite_content
  db_saved :: "sqlite_content option"

type_synonym 'a sql_action = "(sqlite_db, 'a) action"

definition empty_content :: sqlite_content where
  "empty_content =
     \<lparr>sc_tables = [], sc_audit_columns = [], sc_schema_version = [], sc_atoms = [], sc_opportunities = [],
      sc_requirements = [], sc_interactions = [], sc_audit_events = [], sc_resumes = [], sc_resume_meta = [],
      sc_resume_token_ir = [], sc_index_runs = [], sc_index_entries = [], sc_decision_records = [],
      sc_id_counters = [], sc_runtime_snapshots = []\<rparr>"

definition sqlite_open :: sqlite_db where
  "sqlite_open = \<lparr>db_now = empty_content, db_saved = None\<rparr>"

section \<open>Statements\<close>

text \<open>\<open>sqlite3_bind_text(stmt, i, s.c_str(), -1, SQLITE_TRANSIENT)\<close> binds the text up to its first
  NUL character.\<close>

definition c_str :: "string \<Rightarrow> string" where
  "c_str s = takeWhile (\<lambda>c. c \<noteq> CHR 0x00) s"

text \<open>\<open>PreparedStatement\<close>: \<open>None\<close> is a valid statement, otherwise the error of the engine.\<close>

definition prepare_error :: "string list \<Rightarrow> string list \<Rightarrow> sqlite_content \<Rightarrow> string option" where
  "prepare_error tables columns c =
     (case find (\<lambda>t. t \<notin> set (sc_tables c)) tables of
        Some t \<Rightarrow> Some (''no such table: '' @ t)
      | None \<Rightarrow>
        (case find (\<lambda>k. k \<notin> set (sc_audit_columns c)) columns of
           Some k \<Rightarrow> Some (''table audit_events has no column named '' @ k)
         | None \<Rightarrow> None))"

lemma find_SomeD: "find P xs = Some x \<Longrightarrow> x \<in> set xs \<and> P x"
  by (induction xs) (auto split: if_splits)

lemma prepare_error_None:
  "prepare_error ts ks c = None \<longleftrightarrow> set ts \<subseteq> set (sc_tables c) \<and> set ks \<subseteq> set (sc_audit_columns c)"
  by (auto simp: prepare_error_def find_None_iff split: option.splits dest!: find_SomeD)

definition has_tables :: "string list \<Rightarrow> sqlite_db \<Rightarrow> bool" where
  "has_tables tables db \<longleftrightarrow> set tables \<subseteq> set (sc_tables (db_now db))"

text \<open>A statement that writes.\<close>

definition sql_update :: "(sqlite_content \<Rightarrow> sqlite_content) \<Rightarrow> unit sql_action" where
  "sql_update f db = (Inr (), db\<lparr>db_now := f (db_now db)\<rparr>)"

text \<open>Transactions. \<open>sql_exec\<close> is \<open>SqliteDb::exec\<close>, whose result the stores discard.\<close>

definition sql_begin :: "unit sql_action" where
  "sql_begin db =
     (if db_saved db \<noteq> None then (Inl ''cannot start a transaction within a transaction'', db)
      else (Inr (), db\<lparr>db_saved := Some (db_now db)\<rparr>))"

definition sql_commit :: "unit sql_action" where
  "sql_commit db =
     (if db_saved db = None then (Inl ''cannot commit - no transaction is active'', db)
      else (Inr (), db\<lparr>db_saved := None\<rparr>))"

definition sql_rollback :: "unit sql_action" where
  "sql_rollback db =
     (case db_saved db of
        None \<Rightarrow> (Inl ''cannot rollback - no transaction is active'', db)
      | Some c \<Rightarrow> (Inr (), \<lparr>db_now = c, db_saved = None\<rparr>))"

definition sql_exec :: "unit sql_action \<Rightarrow> ((string, bool) result) sql_action" where
  "sql_exec statement db =
     (case statement db of
        (Inl e, db') \<Rightarrow> (Inr (Inl (''SQL execution failed: '' @ e)), db')
      | (Inr u, db') \<Rightarrow> (Inr (Inr True), db'))"

section \<open>Migrations\<close>

definition get_schema_version :: "sqlite_db \<Rightarrow> nat" where
  "get_schema_version db =
     (if ''schema_version'' \<notin> set (sc_tables (db_now db)) then 0
      else fold max (map nat (sc_schema_version (db_now db))) 0)"

definition create_table :: "string \<Rightarrow> sqlite_content \<Rightarrow> sqlite_content" where
  "create_table t c = (if t \<in> set (sc_tables c) then c else c\<lparr>sc_tables := sc_tables c @ [t]\<rparr>)"

definition insert_version :: "int \<Rightarrow> sqlite_content \<Rightarrow> sqlite_content" where
  "insert_version v c = c\<lparr>sc_schema_version := List.insert v (sc_schema_version c)\<rparr>"

definition kSchemaV1 :: "string list" where
  "kSchemaV1 = [''schema_version'', ''atoms'', ''opportunities'', ''requirements'', ''interactions'',
                ''audit_events'']"

definition kSchemaV2 :: "string list" where
  "kSchemaV2 = [''resumes'', ''resume_meta'']"

definition kSchemaV3 :: "string list" where
  "kSchemaV3 = [''resume_token_ir'']"

definition kSchemaV4 :: "string list" where
  "kSchemaV4 = [''index_runs'', ''index_entries'']"

definition kSchemaV5 :: "string list" where
  "kSchemaV5 = [''decision_records'']"

definition kSchemaV6 :: "string list" where
  "kSchemaV6 = [''id_counters'']"

definition kSchemaV7 :: "string list" where
  "kSchemaV7 = [''runtime_snapshots'']"

text \<open>One script: the tables that do not exist are created, then the version is recorded.\<close>

definition apply_schema :: "nat \<Rightarrow> string list \<Rightarrow> bool sql_action" where
  "apply_schema v tables db =
     (if v \<le> get_schema_version db then (Inr True, db)
      else let c = fold create_table tables (db_now db)
           in if ''schema_version'' \<notin> set (sc_tables c)
              then (Inl (''Failed to apply schema v'' @ to_string_nat v @ '': no such table: schema_version''),
                    db\<lparr>db_now := c\<rparr>)
              else (Inr True, db\<lparr>db_now := insert_version (int v) c\<rparr>))"

definition ensure_schema_v1 :: "bool sql_action" where
  "ensure_schema_v1 = apply_schema 1 kSchemaV1"

definition ensure_schema_v2 :: "bool sql_action" where
  "ensure_schema_v2 = act_bind ensure_schema_v1 (\<lambda>_. apply_schema 2 kSchemaV2)"

definition ensure_schema_v3 :: "bool sql_action" where
  "ensure_schema_v3 = act_bind ensure_schema_v2 (\<lambda>_. apply_schema 3 kSchemaV3)"

definition ensure_schema_v4 :: "bool sql_action" where
  "ensure_schema_v4 = act_bind ensure_schema_v3 (\<lambda>_. apply_schema 4 kSchemaV4)"

definition ensure_schema_v5 :: "bool sql_action" where
  "ensure_schema_v5 = act_bind ensure_schema_v4 (\<lambda>_. apply_schema 5 kSchemaV5)"

definition ensure_schema_v6 :: "bool sql_action" where
  "ensure_schema_v6 = act_bind ensure_schema_v5 (\<lambda>_. apply_schema 6 kSchemaV6)"

definition ensure_schema_v7 :: "bool sql_action" where
  "ensure_schema_v7 = act_bind ensure_schema_v6 (\<lambda>_. apply_schema 7 kSchemaV7)"

text \<open>\<open>ALTER TABLE audit_events ADD COLUMN ... DEFAULT ''\<close>.\<close>

definition add_audit_column :: "string \<Rightarrow> (audit_row \<Rightarrow> audit_row) \<Rightarrow> sqlite_content \<Rightarrow> (string, sqlite_content) result" where
  "add_audit_column column default_row c =
     (if ''audit_events'' \<notin> set (sc_tables c) then Inl ''no such table: audit_events''
      else if column \<in> set (sc_audit_columns c) then Inl (''duplicate column name: '' @ column)
      else Inr (c\<lparr>sc_audit_columns := sc_audit_columns c @ [column],
                 sc_audit_events := map default_row (sc_audit_events c)\<rparr>))"

definition alter_audit :: "string \<Rightarrow> (audit_row \<Rightarrow> audit_row) \<Rightarrow> unit sql_action" where
  "alter_audit column default_row db =
     (case add_audit_column column default_row (db_now db) of
        Inl e \<Rightarrow> (Inl (''Failed to apply schema v8 ('' @ column @ ''): '' @ e), db)
      | Inr c \<Rightarrow> (Inr (), db\<lparr>db_now := c\<rparr>))"

definition ensure_schema_v8 :: "bool sql_action" where
  "ensure_schema_v8 =
     act_bind ensure_schema_v7 (\<lambda>_ db.
       if 8 \<le> get_schema_version db then (Inr True, db)
       else act_bind (alter_audit ''previous_hash'' (er_previous_hash_update (\<lambda>_. []))) (\<lambda>_.
            act_bind (alter_audit ''event_hash'' (er_event_hash_update (\<lambda>_. []))) (\<lambda>_.
            act_bind (sql_update (insert_version 8)) (\<lambda>_.
              act_return True))) db)"

section \<open>Migrated databases\<close>

text \<open>What a database contains once the schema of a version has been applied.\<close>

definition schema_of :: "nat \<Rightarrow> string list" where
  "schema_of v = [kSchemaV1, kSchemaV2, kSchemaV3, kSchemaV4, kSchemaV5, kSchemaV6, kSchemaV7] ! (v - 1)"

definition migrated :: "nat \<Rightarrow> sqlite_content \<Rightarrow> bool" where
  "migrated v c \<longleftrightarrow> v \<le> 8 \<and>
     (\<forall>k \<in> {1..min v 7}. set (schema_of k) \<subseteq> set (sc_tables c)) \<and>
     set (sc_schema_version c) = int ` {1..v} \<and>
     sc_audit_columns c = (if v = 8 then [''previous_hash'', ''event_hash''] else [])"

text \<open>The rows without the columns that version 8 adds.\<close>

definition stored_rows :: "sqlite_content \<Rightarrow> sqlite_content" where
  "stored_rows c = c\<lparr>sc_tables := [], sc_audit_columns := [], sc_schema_version := [],
     sc_audit_events := map (\<lambda>r. r\<lparr>er_previous_hash := [], er_event_hash := []\<rparr>) (sc_audit_events c)\<rparr>"

lemma migrated_empty: "migrated 0 empty_content"
  by (simp add: migrated_def empty_content_def)

lemma migrated_table:
  "migrated v c \<Longrightarrow> t \<in> set (schema_of k) \<Longrightarrow> 1 \<le> k \<Longrightarrow> k \<le> v \<Longrightarrow> k \<le> 7 \<Longrightarrow> t \<in> set (sc_tables c)"
  by (auto simp: migrated_def)

lemma schema_of_simps:
  "schema_of (Suc 0) = kSchemaV1" "schema_of 2 = kSchemaV2" "schema_of 3 = kSchemaV3" "schema_of 4 = kSchemaV4"
  "schema_of 5 = kSchemaV5" "schema_of 6 = kSchemaV6" "schema_of 7 = kSchemaV7"
  by (simp_all add: schema_of_def)

lemma migrated_version_table:
  "migrated v c \<Longrightarrow> 1 \<le> v \<Longrightarrow> ''schema_version'' \<in> set (sc_tables c)"
  by (rule migrated_table [of v c _ 1]) (simp_all add: schema_of_simps kSchemaV1_def)

lemma get_schema_version_migrated: "migrated v (db_now db) \<Longrightarrow> get_schema_version db = v"
proof -
  assume m: "migrated v (db_now db)"
  have s: "set (map nat (sc_schema_version (db_now db))) = {1..v}"
    using m by (auto simp: migrated_def image_image)
  have "fold max (map nat (sc_schema_version (db_now db))) 0 = Max (insert 0 {1..v})"
    using Max.set_eq_fold [of 0 "map nat (sc_schema_version (db_now db))"] by (simp only: list.set s)
  also have "insert 0 {1..v} = {0..v}" by auto
  also have "Max {0..v} = v" by (rule Max_eqI) auto
  finally have f: "fold max (map nat (sc_schema_version (db_now db))) 0 = v" .
  then show ?thesis
    using migrated_version_table [OF m] by (cases "v = 0") (auto simp: get_schema_version_def)
qed

lemma create_tables:
  "\<exists>ts'. fold create_table ts c = c\<lparr>sc_tables := ts'\<rparr> \<and> set ts' = set (sc_tables c) \<union> set ts"
proof (induction ts arbitrary: c)
  case Nil
  then show ?case by (intro exI [of _ "sc_tables c"]) simp
next
  case (Cons t ts)
  obtain us where u: "create_table t c = c\<lparr>sc_tables := us\<rparr>" "set us = insert t (set (sc_tables c))"
    by (rule that [of "if t \<in> set (sc_tables c) then sc_tables c else sc_tables c @ [t]"])
      (auto simp: create_table_def)
  obtain ts' where "fold create_table ts (c\<lparr>sc_tables := us\<rparr>) = c\<lparr>sc_tables := us\<rparr>\<lparr>sc_tables := ts'\<rparr>"
    "set ts' = set us \<union> set ts" using Cons.IH [of "c\<lparr>sc_tables := us\<rparr>"] by auto
  then show ?case using u by (intro exI [of _ ts']) auto
qed

lemma apply_schema_migrated:
  assumes m: "migrated v (db_now db)" and k: "1 \<le> k" "k \<le> Suc v" "k \<le> 7"
  shows "\<exists>c. apply_schema k (schema_of k) db = (Inr True, db\<lparr>db_now := c\<rparr>) \<and>
    migrated (max v k) c \<and> stored_rows c = stored_rows (db_now db)"
proof (cases "k \<le> v")
  case True
  then show ?thesis
    using m by (intro exI [of _ "db_now db"]) (simp add: apply_schema_def get_schema_version_migrated max_absorb1)
next
  case False
  with k have k': "k = Suc v" by simp
  obtain ts where f: "fold create_table (schema_of k) (db_now db) = (db_now db)\<lparr>sc_tables := ts\<rparr>"
    and ts: "set ts = set (sc_tables (db_now db)) \<union> set (schema_of k)" using create_tables by blast
  let ?c = "insert_version (int k) ((db_now db)\<lparr>sc_tables := ts\<rparr>)"
  have sv: "''schema_version'' \<in> set ts"
    using migrated_version_table [OF m] k' by (cases v) (auto simp: ts schema_of_simps kSchemaV1_def)
  have "migrated k ?c"
    using m k k' ts
    by (auto simp: migrated_def insert_version_def le_Suc_eq atLeastAtMostSuc_conv)
  moreover have "stored_rows ?c = stored_rows (db_now db)" by (simp add: stored_rows_def insert_version_def)
  ultimately show ?thesis
    using False sv by (intro exI [of _ ?c])
      (simp add: apply_schema_def get_schema_version_migrated [OF m] f Let_def max_absorb2)
qed

lemma ensure_step:
  assumes e: "\<exists>c. ensure db = (Inr True, db\<lparr>db_now := c\<rparr>) \<and> migrated (max v j) c \<and>
      stored_rows c = stored_rows (db_now db)"
    and j: "k = Suc j" "k \<le> 7"
  shows "\<exists>c. act_bind ensure (\<lambda>_. apply_schema k (schema_of k)) db = (Inr True, db\<lparr>db_now := c\<rparr>) \<and>
    migrated (max v k) c \<and> stored_rows c = stored_rows (db_now db)"
proof -
  obtain c where c: "ensure db = (Inr True, db\<lparr>db_now := c\<rparr>)" "migrated (max v j) c"
    "stored_rows c = stored_rows (db_now db)"
    using e by blast
  show ?thesis
    using apply_schema_migrated [of "max v j" "db\<lparr>db_now := c\<rparr>" k] c j
    by (auto simp: act_bind_eq(1) [where m = ensure] max.assoc max_absorb2 intro!: exI)
qed

lemma ensure_schema_v7:
  assumes "migrated v (db_now db)"
  shows "\<exists>c. ensure_schema_v7 db = (Inr True, db\<lparr>db_now := c\<rparr>) \<and> migrated (max v 7) c \<and>
    stored_rows c = stored_rows (db_now db)"
  unfolding ensure_schema_v7_def ensure_schema_v6_def ensure_schema_v5_def ensure_schema_v4_def
    ensure_schema_v3_def ensure_schema_v2_def ensure_schema_v1_def schema_of_simps [symmetric]
  by (rule ensure_step | use apply_schema_migrated [OF assms, of 1] in simp)+

lemma ensure_schema_v8:
  assumes "migrated v (db_now db)"
  shows "\<exists>c. ensure_schema_v8 db = (Inr True, db\<lparr>db_now := c\<rparr>) \<and> migrated 8 c \<and>
    stored_rows c = stored_rows (db_now db) \<and> (v < 8 \<longrightarrow>
      sc_audit_events c = map (\<lambda>r. r\<lparr>er_previous_hash := [], er_event_hash := []\<rparr>) (sc_audit_events (db_now db)))"
proof -
  obtain c where c: "ensure_schema_v7 db = (Inr True, db\<lparr>db_now := c\<rparr>)" "migrated (max v 7) c"
    "stored_rows c = stored_rows (db_now db)" using ensure_schema_v7 [OF assms] by blast
  have v8: "v \<le> 8" using assms by (simp add: migrated_def)
  note version = get_schema_version_migrated [of _ "db\<lparr>db_now := c\<rparr>"]
  show ?thesis
  proof (cases "v = 8")
    case True
    then show ?thesis using c version [of 8] by (intro exI [of _ c]) (simp add: ensure_schema_v8_def act_bind_eq)
  next
    case False
    then have m7: "migrated 7 c" using v8 c(2) by (simp add: max_absorb2)
    have t: "''audit_events'' \<in> set (sc_tables c)"
      by (rule migrated_table [OF m7, of _ 1]) (simp_all add: schema_of_def kSchemaV1_def)
    let ?d = "insert_version 8 (c\<lparr>sc_audit_columns := [''previous_hash'', ''event_hash''],
      sc_audit_events := map (\<lambda>r. r\<lparr>er_previous_hash := [], er_event_hash := []\<rparr>) (sc_audit_events c)\<rparr>)"
    have "ensure_schema_v8 db = (Inr True, db\<lparr>db_now := ?d\<rparr>)"
      using m7 t by (simp add: ensure_schema_v8_def act_bind_eq c(1) version [of 7] alter_audit_def
          add_audit_column_def sql_update_def act_return_def migrated_def comp_def)
    moreover have "migrated 8 ?d"
      using m7 by (auto simp: migrated_def insert_version_def atLeastAtMostSuc_conv numeral_eq_Suc)
    moreover have "stored_rows ?d = stored_rows c" by (simp add: stored_rows_def insert_version_def comp_def)
    moreover have "sc_audit_events ?d =
        map (\<lambda>r. r\<lparr>er_previous_hash := [], er_event_hash := []\<rparr>) (sc_audit_events (db_now db))"
      using arg_cong [OF c(3), of sc_audit_events] by (simp add: stored_rows_def insert_version_def)
    ultimately show ?thesis using c(3) by (intro exI [of _ ?d]) simp
  qed
qed

lemmas ensure_defs = ensure_schema_v8_def ensure_schema_v7_def ensure_schema_v6_def ensure_schema_v5_def
  ensure_schema_v4_def ensure_schema_v3_def ensure_schema_v2_def ensure_schema_v1_def apply_schema_def

lemma ensure_schema_v8_done:
  "get_schema_version db = 8 \<Longrightarrow> ensure_schema_v8 db = (Inr True, db)"
  by (simp add: ensure_defs act_bind_def)

section \<open>Properties\<close>

text \<open>C28. Opening a database of any earlier version brings it to version 8 and keeps its rows: every
  migration that is missing is applied once, in order, the audit rows get two empty hash columns, and a
  second start changes nothing.\<close>

theorem migration_complete:
  assumes "migrated v (db_now db)" "v < 8"
  shows "\<exists>db'. ensure_schema_v8 db = (Inr True, db') \<and> ensure_schema_v8 db' = (Inr True, db') \<and>
    get_schema_version db' = 8 \<and> stored_rows (db_now db') = stored_rows (db_now db) \<and>
    (\<forall>k \<in> {1..7}. has_tables (schema_of k) db') \<and>
    sc_audit_events (db_now db') =
      map (\<lambda>r. r\<lparr>er_previous_hash := [], er_event_hash := []\<rparr>) (sc_audit_events (db_now db))"
proof -
  obtain c where c: "ensure_schema_v8 db = (Inr True, db\<lparr>db_now := c\<rparr>)" "migrated 8 c"
    "stored_rows c = stored_rows (db_now db)" and e: "sc_audit_events c =
      map (\<lambda>r. r\<lparr>er_previous_hash := [], er_event_hash := []\<rparr>) (sc_audit_events (db_now db))"
    using ensure_schema_v8 [OF assms(1)] assms(2) by blast
  have v: "get_schema_version (db\<lparr>db_now := c\<rparr>) = 8"
    by (rule get_schema_version_migrated) (simp add: c(2))
  show ?thesis
    using c e v ensure_schema_v8_done [OF v]
    by (intro exI [of _ "db\<lparr>db_now := c\<rparr>"]) (simp add: has_tables_def migrated_def)
qed

theorem migration_complete_witness:
  "\<exists>db'. ensure_schema_v8 sqlite_open = (Inr True, db') \<and> get_schema_version db' = 8"
  using migration_complete [of 0 sqlite_open] migrated_empty by (auto simp: sqlite_open_def)

text \<open>A migration to version 8 that stopped between its two \<open>ALTER TABLE\<close> statements cannot
  be completed: every later start fails on the first of them and leaves the database as it is. The two
  statements and the version row are not one transaction.\<close>

theorem interrupted_migration_stuck:
  assumes "migrated 7 (db_now db)" "add_audit_column ''previous_hash'' f (db_now db) = Inr c"
  shows "ensure_schema_v8 (db\<lparr>db_now := c\<rparr>) =
    (Inl ''Failed to apply schema v8 (previous_hash): duplicate column name: previous_hash'', db\<lparr>db_now := c\<rparr>)"
proof -
  have c: "c = (db_now db)\<lparr>sc_audit_columns := [''previous_hash''],
      sc_audit_events := map f (sc_audit_events (db_now db))\<rparr>" "''audit_events'' \<in> set (sc_tables (db_now db))"
    using assms by (auto simp: add_audit_column_def migrated_def split: if_splits)
  have v: "get_schema_version (db\<lparr>db_now := c\<rparr>) = 7"
    using get_schema_version_migrated [OF assms(1)] by (simp add: get_schema_version_def c(1) split: if_splits)
  show ?thesis
    using v c(2) by (simp add: ensure_defs act_bind_def alter_audit_def add_audit_column_def c(1))
qed

theorem interrupted_migration_stuck_witness:
  "\<exists>db c. ensure_schema_v7 sqlite_open = (Inr True, db) \<and>
     add_audit_column ''previous_hash'' (er_previous_hash_update (\<lambda>_. [])) (db_now db) = Inr c \<and>
     fst (ensure_schema_v8 (db\<lparr>db_now := c\<rparr>)) =
       Inl ''Failed to apply schema v8 (previous_hash): duplicate column name: previous_hash''"
proof -
  obtain c where c: "ensure_schema_v7 sqlite_open = (Inr True, sqlite_open\<lparr>db_now := c\<rparr>)" "migrated 7 c"
    using ensure_schema_v7 [of 0 sqlite_open] migrated_empty by (auto simp: sqlite_open_def)
  have "''audit_events'' \<in> set (sc_tables c)"
    by (rule migrated_table [OF c(2), of _ 1]) (simp_all add: schema_of_def kSchemaV1_def)
  then obtain d where d: "add_audit_column ''previous_hash'' (er_previous_hash_update (\<lambda>_. [])) c = Inr d"
    using c(2) by (auto simp: add_audit_column_def migrated_def)
  show ?thesis
    using interrupted_migration_stuck [of "sqlite_open\<lparr>db_now := c\<rparr>" _ d] c d by auto
qed

end
