(* ===== verification/Sqlite_Stores.thy ===== *)
theory Sqlite_Stores
  imports Sqlite_Db Repositories Json_Codecs Resume_Ingestor Redis_Coordinator
begin

text \<open>
  The repositories and stores over the SQLite tables: atoms, opportunities with their requirements,
  interactions, decision records, resumes with their metadata, token representations and runtime
  snapshots (\<open>src/storage/sqlite/sqlite_*.cpp\<close>). What they
  keep is compared with the in-memory classes in \<open>Sqlite_Refinement\<close> and \<open>Sqlite_Joins\<close>.
\<close>

section \<open>Running statements\<close>

definition sql_query :: "string list \<Rightarrow> 'a \<Rightarrow> (sqlite_content \<Rightarrow> (string, 'a) result) \<Rightarrow> 'a sql_action" where
  "sql_query tables none f db =
     (if has_tables tables db then (f (db_now db), db) else (Inr none, db))"

text \<open>\<open>sqlite3_step(stmt) == SQLITE_DONE\<close>, for a statement that a constraint may refuse.\<close>

definition sql_step :: "(sqlite_content \<Rightarrow> sqlite_content option) \<Rightarrow> bool sql_action" where
  "sql_step f db =
     (case f (db_now db) of Some c \<Rightarrow> (Inr True, db\<lparr>db_now := c\<rparr>) | None \<Rightarrow> (Inr False, db))"

definition sql_give_up :: "unit sql_action" where
  "sql_give_up = act_bind (sql_exec sql_rollback) (\<lambda>_. act_return ())"

definition tags_text :: "'j json_api \<Rightarrow> string list \<Rightarrow> (string, string) result" where
  "tags_text J ss = j_dump J (j_array J (map (j_string J) ss))"

definition tags_of_text :: "'j json_api \<Rightarrow> string \<Rightarrow> (string, string list) result" where
  "tags_of_text J s = result_bind (j_parse J s) (j_get_strings J)"

definition int_of_bool :: "bool \<Rightarrow> int" where
  "int_of_bool b = (if b then 1 else 0)"

section \<open>Atoms\<close>

definition atom_to_row :: "'j json_api \<Rightarrow> experience_atom \<Rightarrow> (string, atom_row) result" where
  "atom_to_row J atom =
     result_bind (tags_text J (atom_tags atom)) (\<lambda>tags_json.
     result_bind (tags_text J (atom_evidence_refs atom)) (\<lambda>evidence_json.
       Inr \<lparr>ar_domain = c_str (atom_domain atom), ar_title = c_str (atom_title atom),
            ar_claim = c_str (atom_claim atom), ar_tags_json = c_str tags_json,
            ar_verified = int_of_bool (atom_verified atom),
            ar_evidence_refs_json = c_str evidence_json\<rparr>))"

definition row_to_atom :: "'j json_api \<Rightarrow> string \<Rightarrow> atom_row \<Rightarrow> (string, experience_atom) result" where
  "row_to_atom J key row =
     result_bind (tags_of_text J (ar_tags_json row)) (\<lambda>tags.
     result_bind (tags_of_text J (ar_evidence_refs_json row)) (\<lambda>evidence_refs.
       Inr \<lparr>atom_id = AtomId key, atom_domain = ar_domain row, atom_title = ar_title row,
            atom_claim = ar_claim row, atom_tags = tags, atom_verified = (ar_verified row \<noteq> 0),
            atom_evidence_refs = evidence_refs\<rparr>))"

definition sqlite_atoms_upsert :: "'j json_api \<Rightarrow> experience_atom \<Rightarrow> unit sql_action" where
  "sqlite_atoms_upsert J atom db =
     (if \<not> has_tables [''atoms''] db then (Inr (), db)
      else act_bind (act_lift (atom_to_row J atom)) (\<lambda>row.
        sql_update (sc_atoms_update (omap_insert (c_str (atom_id_value (experience_atom.atom_id atom))) row))) db)"

definition sqlite_atoms_get :: "'j json_api \<Rightarrow> atom_id \<Rightarrow> experience_atom option sql_action" where
  "sqlite_atoms_get J i =
     sql_query [''atoms''] None (\<lambda>c.
       case map_of (sc_atoms c) (c_str (atom_id_value i)) of
         None \<Rightarrow> Inr None
       | Some row \<Rightarrow> result_bind (row_to_atom J (c_str (atom_id_value i)) row) (\<lambda>a. Inr (Some a)))"

definition sqlite_atoms_list_verified :: "'j json_api \<Rightarrow> experience_atom list sql_action" where
  "sqlite_atoms_list_verified J =
     sql_query [''atoms''] [] (\<lambda>c.
       result_map (\<lambda>(key, row). row_to_atom J key row) (filter (\<lambda>(key, row). ar_verified row = 1) (sc_atoms c)))"

definition sqlite_atoms_list_all :: "'j json_api \<Rightarrow> experience_atom list sql_action" where
  "sqlite_atoms_list_all J =
     sql_query [''atoms''] [] (\<lambda>c. result_map (\<lambda>(key, row). row_to_atom J key row) (sc_atoms c))"

section \<open>Opportunities\<close>

definition requirement_to_row :: "'j json_api \<Rightarrow> requirement \<Rightarrow> (string, requirement_row) result" where
  "requirement_to_row J req =
     result_bind (tags_text J (req_tags req)) (\<lambda>tags_json.
       Inr \<lparr>qr_text = c_str (req_text req), qr_tags_json = c_str tags_json,
            qr_required = int_of_bool (req_required req)\<rparr>)"

definition row_to_requirement :: "'j json_api \<Rightarrow> requirement_row \<Rightarrow> (string, requirement) result" where
  "row_to_requirement J row =
     result_bind (tags_of_text J (qr_tags_json row)) (\<lambda>tags.
       Inr \<lparr>req_text = qr_text row, req_tags = tags, req_required = (qr_required row \<noteq> 0)\<rparr>)"

text \<open>The foreign key: a requirement of an opportunity that is not stored is refused.\<close>

definition insert_requirement :: "string \<Rightarrow> nat \<Rightarrow> requirement_row \<Rightarrow> sqlite_content \<Rightarrow> sqlite_content option" where
  "insert_requirement opp i row c =
     (if opp \<notin> fst ` set (sc_opportunities c) \<or> (opp, int i) \<in> fst ` set (sc_requirements c) then None
      else Some (c\<lparr>sc_requirements := omap_insert (opp, int i) row (sc_requirements c)\<rparr>))"

fun insert_requirements :: "'j json_api \<Rightarrow> string \<Rightarrow> nat \<Rightarrow> requirement list \<Rightarrow> unit sql_action" where
  "insert_requirements J opp i [] = act_return ()"
| "insert_requirements J opp i (req # reqs) =
     act_bind (act_lift (requirement_to_row J req)) (\<lambda>row.
     act_bind (sql_step (insert_requirement opp i row)) (\<lambda>_.
       insert_requirements J opp (i + 1) reqs))"

definition sqlite_opps_upsert :: "'j json_api \<Rightarrow> opportunity \<Rightarrow> unit sql_action" where
  "sqlite_opps_upsert J opp =
     (let key = c_str (opportunity_id_value (opportunity.opportunity_id opp))
      in act_bind (sql_exec sql_begin) (\<lambda>_ db.
         if \<not> has_tables [''opportunities''] db
         then sql_give_up db
         else act_bind (sql_update (sc_opportunities_update (omap_insert key
                \<lparr>or_company = c_str (opp_company opp), or_role_title = c_str (opp_role_title opp),
                 or_source = c_str (opp_source opp)\<rparr>))) (\<lambda>_ db.
              if \<not> has_tables [''requirements''] db
              then sql_give_up db
              else act_bind (sql_update (sc_requirements_update (filter (\<lambda>((o', i), row). o' \<noteq> key)))) (\<lambda>_.
                   act_bind (insert_requirements J key 0 (opp_requirements opp)) (\<lambda>_.
                   act_bind (sql_exec sql_commit) (\<lambda>_. act_return ()))) db) db))"

definition load_requirements :: "'j json_api \<Rightarrow> string \<Rightarrow> sqlite_content \<Rightarrow> (string, requirement list) result" where
  "load_requirements J key c =
     (if ''requirements'' \<notin> set (sc_tables c) then Inr []
      else result_map (\<lambda>(k, row). row_to_requirement J row)
             (filter (\<lambda>((o', i), row). o' = key) (sc_requirements c)))"

definition row_to_opportunity ::
  "'j json_api \<Rightarrow> sqlite_content \<Rightarrow> string \<Rightarrow> opportunity_row \<Rightarrow> (string, opportunity) result" where
  "row_to_opportunity J c key row =
     result_bind (load_requirements J key c) (\<lambda>reqs.
       Inr \<lparr>opportunity_id = OpportunityId key, opp_company = or_company row,
            opp_role_title = or_role_title row, opp_requirements = reqs, opp_source = or_source row\<rparr>)"

definition sqlite_opps_get :: "'j json_api \<Rightarrow> opportunity_id \<Rightarrow> opportunity option sql_action" where
  "sqlite_opps_get J i =
     sql_query [''opportunities''] None (\<lambda>c.
       case map_of (sc_opportunities c) (c_str (opportunity_id_value i)) of
         None \<Rightarrow> Inr None
       | Some row \<Rightarrow>
           result_bind (row_to_opportunity J c (c_str (opportunity_id_value i)) row) (\<lambda>opp. Inr (Some opp)))"

definition sqlite_opps_list_all :: "'j json_api \<Rightarrow> opportunity list sql_action" where
  "sqlite_opps_list_all J =
     sql_query [''opportunities''] [] (\<lambda>c.
       result_map (\<lambda>(key, row). row_to_opportunity J c key row) (sc_opportunities c))"

section \<open>Interactions\<close>

definition interaction_to_row :: "interaction \<Rightarrow> interaction_row" where
  "interaction_to_row i =
     \<lparr>nr_contact_id = c_str (contact_id_value (int_contact_id i)),
      nr_opportunity_id = c_str (opportunity_id_value (int_opportunity_id i)),
      nr_state = state_to_int (int_state i)\<rparr>"

definition row_to_interaction :: "string \<Rightarrow> interaction_row \<Rightarrow> interaction" where
  "row_to_interaction key row =
     \<lparr>int_id = InteractionId key, int_contact_id = ContactId (nr_contact_id row),
      int_opportunity_id = OpportunityId (nr_opportunity_id row), int_state = int_to_state (nr_state row)\<rparr>"

definition insert_interaction :: "string \<Rightarrow> interaction_row \<Rightarrow> sqlite_content \<Rightarrow> sqlite_content option" where
  "insert_interaction key row c =
     (if nr_opportunity_id row \<notin> fst ` set (sc_opportunities c) then None
      else Some (c\<lparr>sc_interactions := omap_insert key row (sc_interactions c)\<rparr>))"

definition sqlite_ints_upsert :: "interaction \<Rightarrow> unit sql_action" where
  "sqlite_ints_upsert i db =
     (if \<not> has_tables [''interactions''] db then (Inr (), db)
      else act_bind (sql_step (insert_interaction (c_str (interaction_id_value (int_id i)))
             (interaction_to_row i))) (\<lambda>_. act_return ()) db)"

definition sqlite_ints_get :: "interaction_id \<Rightarrow> interaction option sql_action" where
  "sqlite_ints_get i =
     sql_query [''interactions''] None (\<lambda>c.
       Inr (map_option (row_to_interaction (c_str (interaction_id_value i)))
         (map_of (sc_interactions c) (c_str (interaction_id_value i)))))"

definition sqlite_ints_list_by_opportunity :: "opportunity_id \<Rightarrow> interaction list sql_action" where
  "sqlite_ints_list_by_opportunity opp =
     sql_query [''interactions''] [] (\<lambda>c.
       Inr (map (\<lambda>(key, row). row_to_interaction key row)
         (filter (\<lambda>(key, row). nr_opportunity_id row = c_str (opportunity_id_value opp)) (sc_interactions c))))"

definition sqlite_ints_list_all :: "interaction list sql_action" where
  "sqlite_ints_list_all =
     sql_query [''interactions''] [] (\<lambda>c.
       Inr (map (\<lambda>(key, row). row_to_interaction key row) (sc_interactions c)))"

section \<open>Decision records\<close>

definition decision_to_row :: "'j json_api \<Rightarrow> decision_record \<Rightarrow> (string, decision_row) result" where
  "decision_to_row J rec =
     result_bind (j_dump J (decision_record_to_json J rec)) (\<lambda>json_str.
       Inr \<lparr>dw_trace_id = c_str (dr_trace_id rec), dw_opportunity_id = c_str (dr_opportunity_id rec),
            dw_artifact_id = c_str (dr_artifact_id rec), dw_decision_json = c_str json_str,
            dw_created_at = map_option c_str (dr_created_at rec)\<rparr>)"

definition row_to_record :: "'j json_api \<Rightarrow> decision_row \<Rightarrow> (string, decision_record) result" where
  "row_to_record J row =
     result_bind (result_bind (j_parse J (dw_decision_json row)) (decision_record_from_json J)) (\<lambda>rec.
       Inr (rec\<lparr>dr_created_at := dw_created_at row\<rparr>))"

definition sqlite_decisions_upsert :: "'j json_api \<Rightarrow> decision_record \<Rightarrow> unit sql_action" where
  "sqlite_decisions_upsert J rec db =
     (if \<not> has_tables [''decision_records''] db then (Inr (), db)
      else act_bind (act_lift (decision_to_row J rec)) (\<lambda>row.
        sql_update (sc_decision_records_update (omap_insert (c_str (dr_decision_id rec)) row))) db)"

definition sqlite_decisions_get :: "'j json_api \<Rightarrow> string \<Rightarrow> decision_record option sql_action" where
  "sqlite_decisions_get J i =
     sql_query [''decision_records''] None (\<lambda>c.
       case map_of (sc_decision_records c) (c_str i) of
         None \<Rightarrow> Inr None
       | Some row \<Rightarrow> result_bind (row_to_record J row) (\<lambda>rec. Inr (Some rec)))"

definition sqlite_decisions_list_by_trace :: "'j json_api \<Rightarrow> string \<Rightarrow> decision_record list sql_action" where
  "sqlite_decisions_list_by_trace J trace =
     sql_query [''decision_records''] [] (\<lambda>c.
       result_map (\<lambda>(key, row). row_to_record J row)
         (filter (\<lambda>(key, row). dw_trace_id row = c_str trace) (sc_decision_records c)))"

section \<open>Resumes\<close>

text \<open>The content hash is \<open>UNIQUE\<close>: a row whose hash another resume has is refused.\<close>

definition insert_resume :: "string \<Rightarrow> resume_row \<Rightarrow> sqlite_content \<Rightarrow> sqlite_content option" where
  "insert_resume key row c =
     (if \<exists>(k, r) \<in> set (sc_resumes c). k \<noteq> key \<and> sr_resume_hash r = sr_resume_hash row then None
      else Some (c\<lparr>sc_resumes := omap_insert key row (sc_resumes c)\<rparr>))"

definition insert_resume_meta :: "string \<Rightarrow> resume_meta_row \<Rightarrow> sqlite_content \<Rightarrow> sqlite_content option" where
  "insert_resume_meta key row c =
     (if key \<notin> fst ` set (sc_resumes c) then None
      else Some (c\<lparr>sc_resume_meta := omap_insert key row (sc_resume_meta c)\<rparr>))"

definition resume_to_row :: "ingested_resume \<Rightarrow> resume_row" where
  "resume_to_row resume =
     \<lparr>sr_resume_md = c_str (ir_resume_md resume), sr_resume_hash = c_str (ir_resume_hash resume),
      sr_created_at = c_str (case ir_created_at resume of Some t \<Rightarrow> t | None \<Rightarrow> ''CURRENT_TIMESTAMP'')\<rparr>"

definition meta_to_row :: "resume_meta \<Rightarrow> resume_meta_row" where
  "meta_to_row meta =
     \<lparr>mr_source_path = map_option c_str (meta_source_path meta),
      mr_source_hash = c_str (meta_source_hash meta),
      mr_extraction_method = c_str (meta_extraction_method meta),
      mr_extracted_at = map_option c_str (meta_extracted_at meta),
      mr_ingestion_version = c_str (meta_ingestion_version meta)\<rparr>"

definition sqlite_resumes_upsert :: "ingested_resume \<Rightarrow> unit sql_action" where
  "sqlite_resumes_upsert resume =
     (let key = c_str (resume_id_value (ir_resume_id resume))
      in act_bind (sql_exec sql_begin) (\<lambda>_ db.
         if \<not> has_tables [''resumes''] db then sql_give_up db
         else act_bind (sql_step (insert_resume key (resume_to_row resume))) (\<lambda>inserted db.
                if \<not> inserted then sql_give_up db
                else if \<not> has_tables [''resume_meta''] db then sql_give_up db
                else act_bind (sql_step (insert_resume_meta key (meta_to_row (ir_meta resume)))) (\<lambda>stored.
                       if \<not> stored then sql_give_up
                       else act_bind (sql_exec sql_commit) (\<lambda>_. act_return ())) db) db))"

definition default_resume_meta :: resume_meta where
  "default_resume_meta =
     \<lparr>meta_source_path = None, meta_source_hash = [], meta_extraction_method = [],
      meta_extracted_at = None, meta_ingestion_version = ''0.3''\<rparr>"

definition get_meta :: "sqlite_content \<Rightarrow> string \<Rightarrow> resume_meta" where
  "get_meta c key =
     (if ''resume_meta'' \<notin> set (sc_tables c) then default_resume_meta
      else case map_of (sc_resume_meta c) key of
        None \<Rightarrow> default_resume_meta
      | Some row \<Rightarrow> \<lparr>meta_source_path = mr_source_path row, meta_source_hash = mr_source_hash row,
                     meta_extraction_method = mr_extraction_method row,
                     meta_extracted_at = mr_extracted_at row,
                     meta_ingestion_version = mr_ingestion_version row\<rparr>)"

definition row_to_resume :: "sqlite_content \<Rightarrow> string \<Rightarrow> resume_row \<Rightarrow> ingested_resume" where
  "row_to_resume c key row =
     \<lparr>ir_resume_id = ResumeId key, ir_resume_md = sr_resume_md row, ir_resume_hash = sr_resume_hash row,
      ir_meta = get_meta c key, ir_created_at = Some (sr_created_at row)\<rparr>"

definition sqlite_resumes_get :: "resume_id \<Rightarrow> ingested_resume option sql_action" where
  "sqlite_resumes_get i =
     sql_query [''resumes''] None (\<lambda>c.
       Inr (map_option (row_to_resume c (c_str (resume_id_value i)))
         (map_of (sc_resumes c) (c_str (resume_id_value i)))))"

definition sqlite_resumes_get_by_hash :: "string \<Rightarrow> ingested_resume option sql_action" where
  "sqlite_resumes_get_by_hash resume_hash =
     sql_query [''resumes''] None (\<lambda>c.
       Inr (map_option (\<lambda>(key, row). row_to_resume c key row)
         (find (\<lambda>(key, row). sr_resume_hash row = c_str resume_hash) (sc_resumes c))))"

definition sqlite_resumes_list_all :: "ingested_resume list sql_action" where
  "sqlite_resumes_list_all =
     sql_query [''resumes''] [] (\<lambda>c. Inr (map (\<lambda>(key, row). row_to_resume c key row) (sc_resumes c)))"

section \<open>Token representations\<close>

text \<open>On a conflict the row keeps its \<open>resume_id\<close>; a new row needs its resume.\<close>

definition insert_token_ir :: "string \<Rightarrow> token_ir_row \<Rightarrow> sqlite_content \<Rightarrow> sqlite_content option" where
  "insert_token_ir key row c =
     (case map_of (sc_resume_token_ir c) key of
        Some old \<Rightarrow> Some (c\<lparr>sc_resume_token_ir :=
          omap_insert key (old\<lparr>kr_token_ir_json := kr_token_ir_json row\<rparr>) (sc_resume_token_ir c)\<rparr>)
      | None \<Rightarrow>
          if kr_resume_id row \<notin> fst ` set (sc_resumes c) then None
          else Some (c\<lparr>sc_resume_token_ir := omap_insert key row (sc_resume_token_ir c)\<rparr>))"

definition sqlite_token_ir_upsert ::
  "'j json_api \<Rightarrow> string \<Rightarrow> resume_id \<Rightarrow> resume_token_ir \<Rightarrow> unit sql_action" where
  "sqlite_token_ir_upsert J token_ir_id rid ir db =
     (if \<not> has_tables [''resume_token_ir''] db then (Inr (), db)
      else act_bind (act_lift (token_ir_to_json_string J ir)) (\<lambda>json.
             act_bind (sql_step (insert_token_ir (c_str token_ir_id)
                 \<lparr>kr_resume_id = c_str (resume_id_value rid), kr_token_ir_json = c_str json\<rparr>)) (\<lambda>_.
               act_return ())) db)"

definition empty_token_ir :: resume_token_ir where
  "empty_token_ir =
     \<lparr>ir_schema_version = ''0.3'', ir_source_hash = [],
      ir_tokenizer = \<lparr>tm_type = kDeterministicLexical, tm_model_id = None, tm_prompt_version = None\<rparr>,
      ir_tokens = [], ir_spans = []\<rparr>"

definition row_to_token_ir :: "tokenizer_type \<Rightarrow> 'j json_api \<Rightarrow> token_ir_row \<Rightarrow> resume_token_ir" where
  "row_to_token_ir indeterminate J row =
     (case result_bind (j_parse J (kr_token_ir_json row)) (token_ir_from_json indeterminate J) of
        Inr ir \<Rightarrow> ir | Inl _ \<Rightarrow> empty_token_ir)"

definition sqlite_token_ir_get ::
  "tokenizer_type \<Rightarrow> 'j json_api \<Rightarrow> string \<Rightarrow> resume_token_ir option sql_action" where
  "sqlite_token_ir_get indeterminate J token_ir_id =
     sql_query [''resume_token_ir''] None (\<lambda>c.
       Inr (map_option (row_to_token_ir indeterminate J) (map_of (sc_resume_token_ir c) (c_str token_ir_id))))"

text \<open>The query has no \<open>ORDER BY\<close>: which of several rows comes first is the engine's choice, the
  parameter \<open>first\<close>.\<close>

definition sqlite_token_ir_get_by_resume ::
  "(token_ir_row list \<Rightarrow> token_ir_row) \<Rightarrow> tokenizer_type \<Rightarrow> 'j json_api \<Rightarrow> resume_id \<Rightarrow>
   resume_token_ir option sql_action" where
  "sqlite_token_ir_get_by_resume first indeterminate J rid =
     sql_query [''resume_token_ir''] None (\<lambda>c.
       case filter (\<lambda>row. kr_resume_id row = c_str (resume_id_value rid)) (map snd (sc_resume_token_ir c)) of
         [] \<Rightarrow> Inr None
       | row # rows \<Rightarrow> Inr (Some (row_to_token_ir indeterminate J (first (row # rows)))))"

definition sqlite_token_ir_list_all :: "tokenizer_type \<Rightarrow> 'j json_api \<Rightarrow> resume_token_ir list sql_action" where
  "sqlite_token_ir_list_all indeterminate J =
     sql_query [''resume_token_ir''] [] (\<lambda>c.
       Inr (map (row_to_token_ir indeterminate J) (map snd (sc_resume_token_ir c))))"

section \<open>Runtime snapshots\<close>

definition insert_snapshot :: "string \<Rightarrow> snapshot_row \<Rightarrow> sqlite_content \<Rightarrow> sqlite_content option" where
  "insert_snapshot key row c =
     (if key \<in> fst ` set (sc_runtime_snapshots c) then None
      else Some (c\<lparr>sc_runtime_snapshots := omap_insert key row (sc_runtime_snapshots c)\<rparr>))"

definition sqlite_snapshot_save :: "string \<Rightarrow> string \<Rightarrow> string \<Rightarrow> string \<Rightarrow> unit sql_action" where
  "sqlite_snapshot_save run_id snapshot_json snapshot_hash created_at db =
     (case prepare_error [''runtime_snapshots''] [] (db_now db) of
        Some e \<Rightarrow> (Inl (''SqliteRuntimeSnapshotStore::save failed to prepare: '' @ e), db)
      | None \<Rightarrow>
          act_bind (sql_step (insert_snapshot (c_str run_id)
              \<lparr>pr_snapshot_json = c_str snapshot_json, pr_snapshot_hash = c_str snapshot_hash,
               pr_created_at = c_str created_at\<rparr>)) (\<lambda>stored.
            if stored then act_return ()
            else act_throw (''SqliteRuntimeSnapshotStore::save failed: '' @
              ''UNIQUE constraint failed: runtime_snapshots.run_id'')) db)"

definition sqlite_snapshot_get :: "string \<Rightarrow> string option sql_action" where
  "sqlite_snapshot_get run_id =
     sql_query [''runtime_snapshots''] None (\<lambda>c.
       Inr (map_option pr_snapshot_json (map_of (sc_runtime_snapshots c) (c_str run_id))))"

end
