(* ===== verification/Sqlite_Refinement.thy ===== *)
theory Sqlite_Refinement
  imports Sqlite_Stores
begin

text \<open>
  That the SQLite stores keep what the in-memory repositories keep. A table refines an ordered map when
  its rows are the encoded values in the same order; the locale \<open>stored_table\<close> derives every query
  from the law that decoding undoes encoding, and is interpreted on the rows of the stores. Values are
  storable when their texts have no NUL character and their JSON parts can be printed.
\<close>

section \<open>Storable values\<close>

definition no_nul :: "string \<Rightarrow> bool" where
  "no_nul s \<longleftrightarrow> CHR 0x00 \<notin> set s"

lemma c_str_id [simp]: "no_nul s \<Longrightarrow> c_str s = s"
  by (auto simp: c_str_def no_nul_def takeWhile_eq_all_conv)

lemma no_nul_c_str [simp]: "no_nul (c_str s)"
  by (auto simp: c_str_def no_nul_def dest: set_takeWhileD)

lemma c_str_idem [simp]: "c_str (c_str s) = c_str s"
  by simp

definition is_ok :: "('e, 'a) result \<Rightarrow> bool" where
  "is_ok r \<longleftrightarrow> (case r of Inr _ \<Rightarrow> True | Inl _ \<Rightarrow> False)"

lemma is_ok_iff: "is_ok r \<longleftrightarrow> (\<exists>a. r = Inr a)"
  by (auto simp: is_ok_def split: sum.splits)

definition tags_ok :: "'j json_api \<Rightarrow> string list \<Rightarrow> bool" where
  "tags_ok J ss \<longleftrightarrow> is_ok (tags_text J ss)"

context json_text
begin

lemma tags_text_back: "tags_text J ss = Inr s \<Longrightarrow> tags_of_text J (c_str s) = Inr ss"
  using dump_no_nul [of _ s]
  by (auto simp: tags_text_def tags_of_text_def parse_dump get_strings_array no_nul_def)

end

section \<open>Tables and maps\<close>

definition table_rel ::
  "('k::linorder \<Rightarrow> string) \<Rightarrow> ('a \<Rightarrow> 'k) \<Rightarrow> ('a \<Rightarrow> (string, 'r) result) \<Rightarrow> ('a \<Rightarrow> bool) \<Rightarrow>
   ('k \<times> 'a) list \<Rightarrow> 'r sql_table \<Rightarrow> bool" where
  "table_rel key_text key enc storable m t \<longleftrightarrow>
     omap_inv m \<and> (\<forall>(k, a) \<in> set m. key a = k \<and> storable a) \<and>
     list_all2 (\<lambda>(k, a) (s, r). s = key_text k \<and> enc a = Inr r) m t"

lemma omap_insert_key: "(k', b) \<in> set (omap_insert k a m) \<Longrightarrow> k' = k \<or> (\<exists>c. (k', c) \<in> set m)"
  using fst_omap_insert [of k a m] by (force simp: image_iff)

locale stored_table =
  fixes key_text :: "'k::linorder \<Rightarrow> string"
    and key :: "'a \<Rightarrow> 'k"
    and enc :: "'a \<Rightarrow> (string, 'r) result"
    and dec :: "string \<Rightarrow> 'r \<Rightarrow> (string, 'a) result"
    and storable :: "'a \<Rightarrow> bool"
  assumes key_less: "k < k' \<longleftrightarrow> key_text k < key_text k'"
    and dec_enc: "storable a \<Longrightarrow> enc a = Inr r \<Longrightarrow> dec (key_text (key a)) r = Inr a"
begin

lemma key_text_eq: "key_text k = key_text k' \<longleftrightarrow> k = k'"
  using key_less [of k k'] key_less [of k' k] by (cases k k' rule: linorder_cases) auto

lemma rel_Nil [simp]: "table_rel key_text key enc storable [] t \<longleftrightarrow> t = []"
  by (simp add: table_rel_def)

lemma rel_Cons:
  "table_rel key_text key enc storable ((k, a) # m) t \<longleftrightarrow>
     (\<exists>r t'. t = (key_text k, r) # t' \<and> enc a = Inr r \<and> key a = k \<and> storable a \<and>
        (\<forall>k' b. (k', b) \<in> set m \<longrightarrow> k < k') \<and> table_rel key_text key enc storable m t')"
  by (fastforce simp: table_rel_def omap_inv_Cons list_all2_Cons1)

lemma rel_insert:
  assumes "table_rel key_text key enc storable m t" "storable a" "enc a = Inr r"
  shows "table_rel key_text key enc storable (omap_insert (key a) a m) (omap_insert (key_text (key a)) r t)"
  using assms(1)
proof (induction m arbitrary: t)
  case Nil
  then show ?case using assms(2,3) by (simp add: rel_Cons)
next
  case (Cons p m)
  then show ?case
    using assms(2,3)
    by (cases p) (auto simp: rel_Cons key_text_eq key_less [symmetric] dest!: omap_insert_key, (metis less_trans)+)
qed

lemma rel_lookup:
  assumes "table_rel key_text key enc storable m t"
  shows "map_of t (key_text k) = (case map_of m k of None \<Rightarrow> None | Some a \<Rightarrow> (case enc a of Inr r \<Rightarrow> Some r | Inl _ \<Rightarrow> None))"
  using assms by (induction m arbitrary: t) (auto simp: rel_Cons key_text_eq)

lemma rel_get:
  assumes "table_rel key_text key enc storable m t"
  shows "(case map_of t (key_text k) of None \<Rightarrow> Inr None
    | Some r \<Rightarrow> result_bind (dec (key_text k) r) (\<lambda>a. Inr (Some a))) = Inr (map_of m k)"
  using assms by (induction m arbitrary: t) (auto simp: rel_Cons key_text_eq dec_enc)

lemma rel_listing:
  assumes "table_rel key_text key enc storable m t"
    and "\<And>a r. storable a \<Longrightarrow> enc a = Inr r \<Longrightarrow> P (key_text (key a)) r = Q a"
  shows "result_map (\<lambda>(s, r). dec s r) (filter (\<lambda>(s, r). P s r) t) = Inr (filter Q (map snd m))"
  using assms(1) by (induction m arbitrary: t) (auto simp: rel_Cons dec_enc assms(2))

lemma rel_list_all:
  assumes "table_rel key_text key enc storable m t"
  shows "result_map (\<lambda>(s, r). dec s r) t = Inr (map snd m)"
  using rel_listing [OF assms, of "\<lambda>_ _. True" "\<lambda>_. True"] by simp

end

section \<open>The stores\<close>

definition atom_storable :: "'j json_api \<Rightarrow> experience_atom \<Rightarrow> bool" where
  "atom_storable J a \<longleftrightarrow> no_nul (atom_id_value (experience_atom.atom_id a)) \<and> no_nul (atom_domain a) \<and>
     no_nul (atom_title a) \<and> no_nul (atom_claim a) \<and>
     tags_ok J (atom_tags a) \<and> tags_ok J (atom_evidence_refs a)"

sublocale json_text \<subseteq> atom_rows: stored_table atom_id_value experience_atom.atom_id "atom_to_row J"
  "row_to_atom J" "atom_storable J"
  by unfold_locales
    (auto simp: less_atom_id_def atom_to_row_def row_to_atom_def atom_storable_def result_bind_Inr_iff
      tags_text_back int_of_bool_def)

definition atoms_rel :: "'j json_api \<Rightarrow> (atom_id \<times> experience_atom) list \<Rightarrow> sqlite_db \<Rightarrow> bool" where
  "atoms_rel J m db \<longleftrightarrow> has_tables [''atoms''] db \<and>
     table_rel atom_id_value experience_atom.atom_id (atom_to_row J) (atom_storable J) m (sc_atoms (db_now db))"

context json_text
begin

lemma atoms_upsert_rel:
  assumes "atoms_rel J m db" "atom_storable J a"
  shows "\<exists>db'. sqlite_atoms_upsert J a db = (Inr (), db') \<and> atoms_rel J (atoms_upsert a m) db'"
proof -
  obtain row where row: "atom_to_row J a = Inr row"
    using assms(2) by (auto simp: atom_storable_def tags_ok_def is_ok_iff atom_to_row_def)
  show ?thesis
    using assms atom_rows.rel_insert [OF _ assms(2) row, of m "sc_atoms (db_now db)"]
    by (auto simp: sqlite_atoms_upsert_def atoms_rel_def row act_lift_def act_bind_def sql_update_def
        has_tables_def atoms_upsert_def atom_storable_def)
qed

lemma atoms_queries:
  assumes "atoms_rel J m db"
  shows "no_nul (atom_id_value i) \<Longrightarrow> sqlite_atoms_get J i db = (Inr (atoms_get m i), db)"
    and "sqlite_atoms_list_verified J db = (Inr (atoms_list_verified m), db)"
    and "sqlite_atoms_list_all J db = (Inr (atoms_list_all m), db)"
proof -
  have r: "table_rel atom_id_value experience_atom.atom_id (atom_to_row J) (atom_storable J) m (sc_atoms (db_now db))"
    and t: "has_tables [''atoms''] db" using assms by (simp_all add: atoms_rel_def)
  show "no_nul (atom_id_value i) \<Longrightarrow> sqlite_atoms_get J i db = (Inr (atoms_get m i), db)"
    using atom_rows.rel_get [OF r, of i] t
    by (simp add: sqlite_atoms_get_def sql_query_def atoms_get_def cong: option.case_cong)
  have v: "(ar_verified row = 1) = atom_verified a" if "atom_to_row J a = Inr row" for a row
    using that by (auto simp: atom_to_row_def result_bind_Inr_iff int_of_bool_def split: if_splits)
  show "sqlite_atoms_list_verified J db = (Inr (atoms_list_verified m), db)"
    using atom_rows.rel_listing [OF r, of "\<lambda>_ row. ar_verified row = 1" atom_verified] t v
    by (simp add: sqlite_atoms_list_verified_def sql_query_def atoms_list_verified_def)
  show "sqlite_atoms_list_all J db = (Inr (atoms_list_all m), db)"
    using atom_rows.rel_list_all [OF r] t
    by (simp add: sqlite_atoms_list_all_def sql_query_def atoms_list_all_def)
qed

end

text \<open>Decision records. The in-memory store is a vector; what it holds is the map.\<close>

definition decision_storable :: "'j json_api \<Rightarrow> decision_record \<Rightarrow> bool" where
  "decision_storable J rec \<longleftrightarrow> no_nul (dr_decision_id rec) \<and> no_nul (dr_trace_id rec) \<and>
     (\<forall>t. dr_created_at rec = Some t \<longrightarrow> no_nul t) \<and> record_in_range rec \<and>
     is_ok (j_dump J (decision_record_to_json J rec))"

sublocale json_text \<subseteq> decision_rows: stored_table "\<lambda>s. s" dr_decision_id "decision_to_row J"
  "\<lambda>_. row_to_record J" "decision_storable J"
proof
  fix rec row
  assume s: "decision_storable J rec" and e: "decision_to_row J rec = Inr row"
  obtain json where j: "j_dump J (decision_record_to_json J rec) = Inr json"
    using s by (auto simp: decision_storable_def is_ok_iff)
  have n: "no_nul json" using dump_no_nul [OF j] by (simp add: no_nul_def)
  have c: "map_option c_str (dr_created_at rec) = dr_created_at rec"
    using s by (cases "dr_created_at rec") (auto simp: decision_storable_def)
  have "result_bind (j_parse J json) (decision_record_from_json J) = Inr rec"
    using decision_record_json_roundtrip [of rec] s
    by (simp add: parse_dump [OF j] decision_storable_def)
  then show "row_to_record J row = Inr rec"
    using e by (auto simp: decision_to_row_def row_to_record_def j n c)
qed simp

definition decisions_rel :: "'j json_api \<Rightarrow> decision_record list \<Rightarrow> sqlite_db \<Rightarrow> bool" where
  "decisions_rel J records db \<longleftrightarrow> has_tables [''decision_records''] db \<and> decisions_inv records \<and>
     (\<exists>m. decisions_get records = map_of m \<and>
        table_rel (\<lambda>s. s) dr_decision_id (decision_to_row J) (decision_storable J) m
          (sc_decision_records (db_now db)))"

lemma sorted_contents_unique:
  assumes "sorted_set (map key xs)" "sorted_set (map key ys)" "set xs = set ys"
  shows "xs = ys"
proof -
  have "map key xs = map key ys"
    by (rule sorted_set_unique) (simp_all add: assms)
  moreover have "inj_on key (set xs \<union> set ys)"
    using assms(1,3) by (simp add: sorted_set_def distinct_map)
  ultimately show ?thesis by (rule map_inj_on)
qed

context json_text
begin

lemma decisions_upsert_rel:
  assumes "decisions_rel J records db" "decision_storable J rec"
  shows "\<exists>db'. sqlite_decisions_upsert J rec db = (Inr (), db') \<and> decisions_rel J (decisions_upsert rec records) db'"
proof -
  obtain json where "j_dump J (decision_record_to_json J rec) = Inr json"
    using assms(2) by (auto simp: decision_storable_def is_ok_iff)
  then obtain row where row: "decision_to_row J rec = Inr row" by (simp add: decision_to_row_def)
  obtain m where m: "decisions_get records = map_of m"
    "table_rel (\<lambda>s. s) dr_decision_id (decision_to_row J) (decision_storable J) m (sc_decision_records (db_now db))"
    and i: "decisions_inv records" and t: "has_tables [''decision_records''] db"
    using assms(1) by (auto simp: decisions_rel_def)
  have "omap_inv m" using m(2) by (simp add: table_rel_def)
  then have "decisions_get (decisions_upsert rec records) = map_of (omap_insert (dr_decision_id rec) rec m)"
    using trace_decisions.get_upsert [OF i, of rec] m(1) by simp
  let ?db = "db\<lparr>db_now := sc_decision_records_update
    (omap_insert (c_str (dr_decision_id rec)) row) (db_now db)\<rparr>"
  have c: "c_str (dr_decision_id rec) = dr_decision_id rec" using assms(2) by (simp add: decision_storable_def)
  have "sqlite_decisions_upsert J rec db = (Inr (), ?db)"
    using t by (simp add: sqlite_decisions_upsert_def row act_lift_def act_bind_def sql_update_def)
  moreover have "decisions_rel J (decisions_upsert rec records) ?db"
    unfolding decisions_rel_def
  proof (intro conjI exI)
    show "has_tables [''decision_records''] ?db" using t by (simp add: has_tables_def)
    show "decisions_inv (decisions_upsert rec records)" by (rule trace_decisions.upsert_inv [OF i])
    show "decisions_get (decisions_upsert rec records) = map_of (omap_insert (dr_decision_id rec) rec m)"
      by (rule \<open>decisions_get (decisions_upsert rec records) = _\<close>)
    show "table_rel (\<lambda>s. s) dr_decision_id (decision_to_row J) (decision_storable J)
        (omap_insert (dr_decision_id rec) rec m) (sc_decision_records (db_now ?db))"
      using decision_rows.rel_insert [OF m(2) assms(2) row] by (simp add: c)
  qed
  ultimately show ?thesis by blast
qed

lemma decisions_queries:
  assumes "decisions_rel J records db"
  shows "no_nul i \<Longrightarrow> sqlite_decisions_get J i db = (Inr (decisions_get records i), db)"
    and "no_nul trace \<Longrightarrow>
      sqlite_decisions_list_by_trace J trace db = (Inr (decisions_list_by_trace trace records), db)"
proof -
  obtain m where m: "decisions_get records = map_of m"
    "table_rel (\<lambda>s. s) dr_decision_id (decision_to_row J) (decision_storable J) m (sc_decision_records (db_now db))"
    and i: "decisions_inv records" and t: "has_tables [''decision_records''] db"
    using assms(1) by (auto simp: decisions_rel_def)
  show "no_nul i \<Longrightarrow> sqlite_decisions_get J i db = (Inr (decisions_get records i), db)"
    using decision_rows.rel_get [OF m(2), of i] t
    by (simp add: sqlite_decisions_get_def sql_query_def m(1) cong: option.case_cong)
  assume n: "no_nul trace"
  have "(dw_trace_id row = c_str trace) = (dr_trace_id rec = trace)"
    if "decision_storable J rec" "decision_to_row J rec = Inr row" for rec row
    using that n by (auto simp: decision_to_row_def result_bind_Inr_iff decision_storable_def)
  from decision_rows.rel_listing [OF m(2), of "\<lambda>_ row. dw_trace_id row = c_str trace"
      "\<lambda>rec. dr_trace_id rec = trace", OF this]
  have l: "sqlite_decisions_list_by_trace J trace db =
      (Inr (filter (\<lambda>rec. dr_trace_id rec = trace) (map snd m)), db)"
    using t by (simp add: sqlite_decisions_list_by_trace_def sql_query_def)
  have k: "omap_inv m" "\<forall>(k, a) \<in> set m. dr_decision_id a = k"
    using m(2) by (auto simp: table_rel_def)
  then have fk: "map fst m = map dr_decision_id (map snd m)" by auto
  have s: "sorted_set (map dr_decision_id (map snd m))" using k(1) by (simp only: fk omap_inv_def)
  have "filter (\<lambda>rec. dr_trace_id rec = trace) (map snd m) = decisions_list_by_trace trace records"
  proof (rule sorted_contents_unique [where key = dr_decision_id])
    show "sorted_set (map dr_decision_id (filter (\<lambda>rec. dr_trace_id rec = trace) (map snd m)))"
      using s by (simp add: sorted_set_def sorted_filter distinct_map_filter)
    show "sorted_set (map dr_decision_id (decisions_list_by_trace trace records))"
      by (rule trace_decisions.listing_sorted [OF i])
    have "a \<in> snd ` set m \<longleftrightarrow> (dr_decision_id a, a) \<in> set m" for a using k(2) by force
    then show "set (filter (\<lambda>rec. dr_trace_id rec = trace) (map snd m)) =
        set (decisions_list_by_trace trace records)"
      by (simp add: set_eq_iff trace_decisions.listing_iff [OF i] m(1) omap_map_of_iff [OF k(1)] conj_commute)
  qed
  with l show "sqlite_decisions_list_by_trace J trace db = (Inr (decisions_list_by_trace trace records), db)"
    by simp
qed

end

text \<open>Interactions. The foreign key refuses those of an opportunity that is not stored.\<close>

definition interaction_storable :: "interaction \<Rightarrow> bool" where
  "interaction_storable i \<longleftrightarrow> no_nul (interaction_id_value (int_id i)) \<and>
     no_nul (contact_id_value (int_contact_id i)) \<and> no_nul (opportunity_id_value (int_opportunity_id i))"

interpretation interaction_rows: stored_table interaction_id_value int_id "\<lambda>i. Inr (interaction_to_row i)"
  "\<lambda>key row. Inr (row_to_interaction key row)" interaction_storable
  by unfold_locales
    (auto simp: less_interaction_id_def interaction_to_row_def row_to_interaction_def interaction_storable_def)

definition ints_rel :: "(interaction_id \<times> interaction) list \<Rightarrow> sqlite_db \<Rightarrow> bool" where
  "ints_rel m db \<longleftrightarrow> has_tables [''interactions''] db \<and>
     table_rel interaction_id_value int_id (\<lambda>i. Inr (interaction_to_row i)) interaction_storable m
       (sc_interactions (db_now db))"

definition opportunity_stored :: "sqlite_db \<Rightarrow> opportunity_id \<Rightarrow> bool" where
  "opportunity_stored db opp \<longleftrightarrow> c_str (opportunity_id_value opp) \<in> fst ` set (sc_opportunities (db_now db))"

lemma ints_upsert_rel:
  assumes "ints_rel m db" "interaction_storable i"
  shows "\<exists>db'. sqlite_ints_upsert i db = (Inr (), db') \<and>
    ints_rel (if opportunity_stored db (int_opportunity_id i) then ints_upsert i m else m) db' \<and>
    sc_opportunities (db_now db') = sc_opportunities (db_now db)"
  using assms interaction_rows.rel_insert [OF _ assms(2) refl, of m "sc_interactions (db_now db)"]
  by (auto simp: sqlite_ints_upsert_def ints_rel_def act_bind_def act_return_def sql_step_def insert_interaction_def
      has_tables_def ints_upsert_def interaction_storable_def opportunity_stored_def interaction_to_row_def
      split: option.splits)

lemma ints_queries:
  assumes "ints_rel m db"
  shows "no_nul (interaction_id_value i) \<Longrightarrow> sqlite_ints_get i db = (Inr (ints_get m i), db)"
    and "no_nul (opportunity_id_value opp) \<Longrightarrow>
      sqlite_ints_list_by_opportunity opp db = (Inr (ints_list_by_opportunity opp m), db)"
    and "sqlite_ints_list_all db = (Inr (ints_list_all m), db)"
proof -
  have r: "table_rel interaction_id_value int_id (\<lambda>i. Inr (interaction_to_row i)) interaction_storable m
      (sc_interactions (db_now db))" and t: "has_tables [''interactions''] db"
    using assms by (simp_all add: ints_rel_def)
  have total: "result_map (\<lambda>(s, r). Inr (f s r)) xs = Inr (map (\<lambda>(s, r). f s r) xs)"
    for f :: "string \<Rightarrow> interaction_row \<Rightarrow> interaction" and xs
    by (induction xs) auto
  show "no_nul (interaction_id_value i) \<Longrightarrow> sqlite_ints_get i db = (Inr (ints_get m i), db)"
    using interaction_rows.rel_get [OF r, of i] t
    by (auto simp: sqlite_ints_get_def sql_query_def ints_get_def split: option.splits)
  show "sqlite_ints_list_all db = (Inr (ints_list_all m), db)"
    using interaction_rows.rel_list_all [OF r] t
    by (simp add: sqlite_ints_list_all_def sql_query_def ints_list_all_def total)
  assume n: "no_nul (opportunity_id_value opp)"
  have "(nr_opportunity_id row = c_str (opportunity_id_value opp)) = (int_opportunity_id i = opp)"
    if "interaction_storable i" "Inr (interaction_to_row i) = (Inr row :: (string, interaction_row) result)" for i row
    using that n by (auto simp: interaction_to_row_def interaction_storable_def intro: opportunity_id.expand)
  from interaction_rows.rel_listing [OF r, of "\<lambda>_ row. nr_opportunity_id row = c_str (opportunity_id_value opp)"
      "\<lambda>i. int_opportunity_id i = opp", OF this]
  show "sqlite_ints_list_by_opportunity opp db = (Inr (ints_list_by_opportunity opp m), db)"
    using t by (simp add: sqlite_ints_list_by_opportunity_def sql_query_def ints_list_by_opportunity_def total)
qed

section \<open>Properties\<close>

text \<open>An empty database after the migrations, for the examples.\<close>

definition migrated_database :: sqlite_db where
  "migrated_database =
     \<lparr>db_now = empty_content\<lparr>sc_tables := concat (map schema_of [1, 2, 3, 4, 5, 6, 7]),
        sc_audit_columns := [''previous_hash'', ''event_hash''], sc_schema_version := [1, 2, 3, 4, 5, 6, 7, 8]\<rparr>,
      db_saved = None\<rparr>"

lemma migrated_database_tables:
  "has_tables [''atoms''] migrated_database" "has_tables [''decision_records''] migrated_database"
  "has_tables [''interactions''] migrated_database" "has_tables [''opportunities'', ''requirements''] migrated_database"
  "has_tables [''resumes'', ''resume_meta''] migrated_database"
  by (simp_all add: has_tables_def migrated_database_def schema_of_def kSchemaV1_def kSchemaV2_def kSchemaV5_def)

lemma migrated_database_rows:
  "sc_atoms (db_now migrated_database) = []" "sc_decision_records (db_now migrated_database) = []"
  "sc_interactions (db_now migrated_database) = []" "sc_opportunities (db_now migrated_database) = []"
  "sc_requirements (db_now migrated_database) = []" "sc_resumes (db_now migrated_database) = []"
  "sc_resume_meta (db_now migrated_database) = []" "db_saved migrated_database = None"
  by (simp_all add: migrated_database_def empty_content_def)

lemma enc_no_nul [simp]:
  "CHR 0x00 \<notin> set (enc_nat n)" "CHR 0x00 \<notin> set (enc_int i)"
  "CHR 0x00 \<in> set (enc_string s) \<longleftrightarrow> CHR 0x00 \<in> set s"
  by (auto simp: enc_nat_def enc_int_def enc_string_def)

lemma text_json_dump_ok: "is_ok (j_dump text_json j) \<longleftrightarrow> CHR 0x00 \<notin> set (enc_tree j)"
  by (simp add: text_json_def is_ok_def)

lemma text_json_values:
  "j_string text_json = TString" "j_array text_json = TArray" "j_object text_json = TObject"
  "j_int text_json = TInt" "j_null text_json = TNull" "j_bool text_json = TBool"
  by (simp_all add: text_json_def tree_json_def)

definition sample_atom :: "string \<Rightarrow> bool \<Rightarrow> experience_atom" where
  "sample_atom i v = \<lparr>atom_id = AtomId i, atom_domain = ''cpp'', atom_title = ''t'', atom_claim = ''c'',
     atom_tags = [''cpp''], atom_verified = v, atom_evidence_refs = []\<rparr>"

text \<open>C32. The SQLite atom repository keeps what the in-memory one keeps: after any sequence of upserts of
  storable atoms into an empty table every lookup and both listings answer the same, in the same order.\<close>

theorem sqlite_atoms_refine:
  assumes "json_text J" "has_tables [''atoms''] db" "sc_atoms (db_now db) = []" "\<forall>a \<in> set items. atom_storable J a"
  shows "\<exists>us db'. act_map (sqlite_atoms_upsert J) items db = (Inr us, db') \<and>
    (\<forall>i. no_nul (atom_id_value i) \<longrightarrow>
       sqlite_atoms_get J i db' = (Inr (atoms_get (fold atoms_upsert items []) i), db')) \<and>
    sqlite_atoms_list_verified J db' = (Inr (atoms_list_verified (fold atoms_upsert items [])), db') \<and>
    sqlite_atoms_list_all J db' = (Inr (atoms_list_all (fold atoms_upsert items [])), db')"
proof -
  have "atoms_rel J [] db" using assms(2,3) by (simp add: atoms_rel_def table_rel_def)
  from act_map_rel [where R = "atoms_rel J" and g = atoms_upsert and f = "sqlite_atoms_upsert J",
      OF json_text.atoms_upsert_rel [OF assms(1)] this assms(4)]
  obtain us db' where u: "act_map (sqlite_atoms_upsert J) items db = (Inr us, db')"
    "atoms_rel J (fold atoms_upsert items []) db'" by blast
  then show ?thesis
    by (intro exI [of _ us] exI [of _ db']) (simp add: u json_text.atoms_queries [OF assms(1)])
qed

theorem sqlite_atoms_refine_witness:
  "\<exists>us db'. act_map (sqlite_atoms_upsert text_json) [sample_atom ''b'' True, sample_atom ''a'' True]
       migrated_database = (Inr us, db') \<and>
     sqlite_atoms_list_verified text_json db' = (Inr [sample_atom ''a'' True, sample_atom ''b'' True], db')"
proof -
  have ok: "\<forall>a \<in> set [sample_atom ''b'' True, sample_atom ''a'' True]. atom_storable text_json a"
    by (simp add: atom_storable_def sample_atom_def no_nul_def tags_ok_def tags_text_def text_json_dump_ok
        text_json_values)
  show ?thesis
    using sqlite_atoms_refine [OF printed.json_text_axioms migrated_database_tables(1) _ ok]
    by (auto simp: migrated_database_rows atoms_list_verified_def atoms_upsert_def sample_atom_def less_atom_id_def)
qed


text \<open>The decision store of SQLite and the vector of the in-memory one hold the same records: after any
  sequence of upserts of storable records they answer every lookup and every listing of a trace alike.\<close>

theorem sqlite_decisions_refine:
  assumes "json_text J" "has_tables [''decision_records''] db" "sc_decision_records (db_now db) = []"
    and "\<forall>rec \<in> set items. decision_storable J rec"
  shows "\<exists>us db'. act_map (sqlite_decisions_upsert J) items db = (Inr us, db') \<and>
    (\<forall>i. no_nul i \<longrightarrow> sqlite_decisions_get J i db' = (Inr (decisions_get (fold decisions_upsert items []) i), db')) \<and>
    (\<forall>trace. no_nul trace \<longrightarrow> sqlite_decisions_list_by_trace J trace db' =
       (Inr (decisions_list_by_trace trace (fold decisions_upsert items [])), db'))"
proof -
  have "decisions_rel J [] db"
    using assms(2,3) by (simp add: decisions_rel_def decisions_inv_def table_rel_def decisions_get_def fun_eq_iff
        exI [of _ "[]"])
  from act_map_rel [where R = "decisions_rel J" and g = decisions_upsert and f = "sqlite_decisions_upsert J",
      OF json_text.decisions_upsert_rel [OF assms(1)] this assms(4)]
  obtain us db' where u: "act_map (sqlite_decisions_upsert J) items db = (Inr us, db')"
    "decisions_rel J (fold decisions_upsert items []) db'" by blast
  then show ?thesis
    by (intro exI [of _ us] exI [of _ db']) (simp add: u json_text.decisions_queries [OF assms(1)])
qed

theorem sqlite_decisions_refine_witness:
  "\<exists>us db'. act_map (sqlite_decisions_upsert text_json) [sample_record] migrated_database = (Inr us, db') \<and>
     sqlite_decisions_get text_json ''d1'' db' = (Inr (Some sample_record), db')"
proof -
  have ok: "\<forall>rec \<in> set [sample_record]. decision_storable text_json rec"
    by (simp add: decision_storable_def text_json_dump_ok)
      (simp add: sample_record_def no_nul_def record_in_range_def stats_in_range_def summary_in_range_def
        text_json_values decision_record_to_json_def requirement_decision_to_json_def retrieval_stats_to_json_def
        validation_summary_to_json_def size_json_def opt_string_json_def Decision_Record.strings_json_def)
  show ?thesis
    using sqlite_decisions_refine [OF printed.json_text_axioms migrated_database_tables(2) _ ok]
    by (auto simp: migrated_database_rows decisions_get_def sample_record_def no_nul_def)
qed


text \<open>Storing an interaction of an opportunity that is not in the database changes nothing and reports
  nothing, where the in-memory repository stores it; of a stored opportunity both store it.\<close>

theorem sqlite_interaction_dropped:
  assumes "ints_rel m db" "interaction_storable i"
  shows "\<exists>db'. sqlite_ints_upsert i db = (Inr (), db') \<and>
    sqlite_ints_get (int_id i) db' = (Inr (if opportunity_stored db (int_opportunity_id i) then Some i
      else ints_get m (int_id i)), db') \<and>
    (\<not> opportunity_stored db (int_opportunity_id i) \<longrightarrow> db' = db) \<and>
    ints_get (ints_upsert i m) (int_id i) = Some i"
proof -
  have inv: "omap_inv m" using assms(1) by (simp add: ints_rel_def table_rel_def)
  obtain db' where d: "sqlite_ints_upsert i db = (Inr (), db')"
    "ints_rel (if opportunity_stored db (int_opportunity_id i) then ints_upsert i m else m) db'"
    using ints_upsert_rel [OF assms] by blast
  have g: "ints_get (ints_upsert i m) (int_id i) = Some i" by (simp add: ints_get_def ints_upsert_def inv)
  have "\<not> opportunity_stored db (int_opportunity_id i) \<longrightarrow> db' = db"
    using d(1) by (auto simp: sqlite_ints_upsert_def sql_step_def insert_interaction_def opportunity_stored_def
        interaction_to_row_def act_bind_def act_return_def split: if_splits)
  then show ?thesis
    using d ints_queries(1) [OF d(2), of "int_id i"] assms(2) g
    by (auto simp: interaction_storable_def)
qed

definition sample_interaction :: interaction where
  "sample_interaction = \<lparr>int_id = InteractionId ''i'', int_contact_id = ContactId ''c'',
     int_opportunity_id = OpportunityId ''o'', int_state = kDraft\<rparr>"

theorem sqlite_interaction_dropped_witness:
  "sqlite_ints_upsert sample_interaction migrated_database = (Inr (), migrated_database) \<and>
   sqlite_ints_get (InteractionId ''i'') migrated_database = (Inr None, migrated_database)"
proof -
  have "ints_rel [] migrated_database"
    by (simp add: ints_rel_def migrated_database_tables migrated_database_rows table_rel_def)
  from sqlite_interaction_dropped [OF this, of sample_interaction] show ?thesis
    by (auto simp: interaction_storable_def sample_interaction_def no_nul_def opportunity_stored_def
        migrated_database_rows ints_get_def)
qed

end
