(* ===== verification/Sqlite_Joins.thy ===== *)
theory Sqlite_Joins
  imports Sqlite_Refinement
begin

text \<open>
  The stores whose values span two tables and are written in a transaction: opportunities with their
  requirements, and resumes with their metadata. The lemmas give the state after an upsert on each of its
  exits: committed, rolled back, and left open by an exception.
\<close>

section \<open>Ordered maps\<close>

lemma omap_insert_front: "\<forall>k' \<in> fst ` set m. k < k' \<Longrightarrow> omap_insert k v m = (k, v) # m"
  by (cases m) auto

lemma filter_omap_insert:
  "omap_inv m \<Longrightarrow> filter (\<lambda>(k, v). P k) (omap_insert a b m) =
     (if P a then omap_insert a b (filter (\<lambda>(k, v). P k) m) else filter (\<lambda>(k, v). P k) m)"
proof (induction a b m rule: omap_insert.induct)
  case (2 k v k' v' m)
  have f: "\<forall>x \<in> fst ` set (filter (\<lambda>(k, v). P k) m). k < x" if "k < k'"
    using 2 that by (auto simp: omap_inv_Cons intro: less_trans)
  show ?case using 2 omap_insert_front [OF f] by (auto simp: omap_inv_Cons)
qed simp

lemma omap_inv_filter: "omap_inv m \<Longrightarrow> omap_inv (filter P m)"
  by (induction m) (auto simp: omap_inv_Cons)

lemma omap_insert_last: "\<forall>k' \<in> fst ` set m. k' < k \<Longrightarrow> omap_insert k v m = m @ [(k, v)]"
  by (induction m) auto

section \<open>Transactions\<close>

lemma sql_exec_simps:
  "db_saved db = None \<Longrightarrow> sql_exec sql_begin db = (Inr (Inr True), db\<lparr>db_saved := Some (db_now db)\<rparr>)"
  "db_saved db = Some c \<Longrightarrow> sql_exec sql_commit db = (Inr (Inr True), db\<lparr>db_saved := None\<rparr>)"
  "db_saved db = Some c \<Longrightarrow> sql_exec sql_rollback db = (Inr (Inr True), \<lparr>db_now = c, db_saved = None\<rparr>)"
  by (simp_all add: sql_exec_def sql_begin_def sql_commit_def sql_rollback_def)

lemma act_bind_step:
  "f (db_now db) = Some c \<Longrightarrow> act_bind (sql_step f) g db = g True (db\<lparr>db_now := c\<rparr>)"
  "f (db_now db) = None \<Longrightarrow> act_bind (sql_step f) g db = g False db"
  by (simp_all add: act_bind_def sql_step_def)

lemma sql_give_up_eq:
  "db_saved db = Some c \<Longrightarrow> sql_give_up db = (Inr (), \<lparr>db_now = c, db_saved = None\<rparr>)"
  by (simp add: sql_give_up_def act_bind_eq sql_exec_simps act_return_def)

section \<open>Resumes\<close>

definition resume_key :: "ingested_resume \<Rightarrow> string" where
  "resume_key resume = c_str (resume_id_value (ir_resume_id resume))"

definition hash_taken :: "sqlite_content \<Rightarrow> ingested_resume \<Rightarrow> bool" where
  "hash_taken c resume \<longleftrightarrow>
     (\<exists>(k, r) \<in> set (sc_resumes c). k \<noteq> resume_key resume \<and> sr_resume_hash r = c_str (ir_resume_hash resume))"

lemma sqlite_resumes_upsert_eq:
  assumes "has_tables [''resumes'', ''resume_meta''] db" "db_saved db = None"
  shows "sqlite_resumes_upsert resume db =
    (if hash_taken (db_now db) resume then (Inr (), db)
     else (Inr (), db\<lparr>db_now := (db_now db)
       \<lparr>sc_resumes := omap_insert (resume_key resume) (resume_to_row resume) (sc_resumes (db_now db)),
        sc_resume_meta := omap_insert (resume_key resume) (meta_to_row (ir_meta resume)) (sc_resume_meta (db_now db))\<rparr>\<rparr>))"
proof (cases "hash_taken (db_now db) resume")
  case True
  then have "insert_resume (resume_key resume) (resume_to_row resume) (db_now db) = None"
    by (simp add: insert_resume_def hash_taken_def resume_to_row_def)
  then show ?thesis
    using assms True
    by (simp add: sqlite_resumes_upsert_def Let_def act_bind_eq sql_exec_simps act_bind_step sql_give_up_eq
        has_tables_def flip: resume_key_def)
next
  case False
  then show ?thesis
    using assms
    by (simp add: sqlite_resumes_upsert_def Let_def act_bind_eq sql_exec_simps act_bind_step insert_resume_def
        hash_taken_def resume_to_row_def insert_resume_meta_def fst_omap_insert act_return_def has_tables_def
        resume_key_def)
qed

text \<open>What the audit log and the migrations read of a database.\<close>

definition audit_part :: "sqlite_content \<Rightarrow> string list \<times> int list \<times> string list \<times> audit_row list" where
  "audit_part c = (sc_tables c, sc_schema_version c, sc_audit_columns c, sc_audit_events c)"

text \<open>On every exit an upsert leaves no transaction open, and at most one row changed.\<close>

lemma resumes_upsert_rows:
  assumes "db_saved db = None"
  shows "\<exists>db'. sqlite_resumes_upsert resume db = (Inr (), db') \<and> db_saved db' = None \<and>
    audit_part (db_now db') = audit_part (db_now db) \<and>
    (sc_resumes (db_now db') = sc_resumes (db_now db) \<or>
     sc_resumes (db_now db') = omap_insert (resume_key resume) (resume_to_row resume) (sc_resumes (db_now db)))"
proof (cases "has_tables [''resumes'', ''resume_meta''] db")
  case True
  then show ?thesis using assms by (simp add: sqlite_resumes_upsert_eq audit_part_def)
next
  case False
  then consider "\<not> has_tables [''resumes''] db"
    | "has_tables [''resumes''] db" "\<not> has_tables [''resume_meta''] db" by (auto simp: has_tables_def)
  then show ?thesis
  proof cases
    case 1
    then show ?thesis using assms
      by (simp add: sqlite_resumes_upsert_def Let_def act_bind_eq sql_exec_simps sql_give_up_eq has_tables_def)
  next
    case 2
    then show ?thesis using assms
      by (cases "insert_resume (resume_key resume) (resume_to_row resume) (db_now db)")
        (auto simp: sqlite_resumes_upsert_def Let_def act_bind_eq sql_exec_simps act_bind_step sql_give_up_eq
          has_tables_def insert_resume_def audit_part_def split: if_splits simp flip: resume_key_def)
  qed
qed

text \<open>The stored resume: the creation time is never absent.\<close>

definition as_stored :: "ingested_resume \<Rightarrow> ingested_resume" where
  "as_stored resume = resume\<lparr>ir_created_at :=
     Some (case ir_created_at resume of Some t \<Rightarrow> t | None \<Rightarrow> ''CURRENT_TIMESTAMP'')\<rparr>"

definition resume_storable :: "ingested_resume \<Rightarrow> bool" where
  "resume_storable resume \<longleftrightarrow> no_nul (resume_id_value (ir_resume_id resume)) \<and> no_nul (ir_resume_md resume) \<and>
     no_nul (ir_resume_hash resume) \<and> no_nul (meta_source_hash (ir_meta resume)) \<and>
     no_nul (meta_extraction_method (ir_meta resume)) \<and> no_nul (meta_ingestion_version (ir_meta resume)) \<and>
     (\<forall>s \<in> set_option (meta_source_path (ir_meta resume)) \<union> set_option (meta_extracted_at (ir_meta resume)) \<union>
       set_option (ir_created_at resume). no_nul s)"

lemma map_option_c_str: "(\<forall>s \<in> set_option x. no_nul s) \<Longrightarrow> map_option c_str x = x"
  by (cases x) auto

lemma row_to_resume_back:
  assumes "resume_storable resume" "''resume_meta'' \<in> set (sc_tables c)"
    and "map_of (sc_resume_meta c) (resume_key resume) = Some (meta_to_row (ir_meta resume))"
  shows "row_to_resume c (resume_key resume) (resume_to_row resume) = as_stored resume"
proof (rule ingested_resume.equality)
  show "ir_meta (row_to_resume c (resume_key resume) (resume_to_row resume)) = ir_meta (as_stored resume)"
    using assms
    by (cases "ir_meta resume")
      (simp add: row_to_resume_def get_meta_def meta_to_row_def resume_storable_def as_stored_def map_option_c_str)
  show "ir_created_at (row_to_resume c (resume_key resume) (resume_to_row resume)) = ir_created_at (as_stored resume)"
    using assms(1) by (auto simp: row_to_resume_def resume_to_row_def as_stored_def resume_storable_def no_nul_def
        split: option.splits)
qed (use assms(1) in \<open>simp_all add: row_to_resume_def resume_to_row_def as_stored_def resume_storable_def resume_key_def\<close>)

section \<open>Opportunities\<close>

text \<open>The row of an opportunity joined with the rows of its requirements, in the order of their index.\<close>

type_synonym joined_row = "opportunity_row \<times> requirement_row list"

definition requirements_of :: "string \<Rightarrow> sqlite_content \<Rightarrow> requirement_row list" where
  "requirements_of key c = map snd (filter (\<lambda>(k, row). fst k = key) (sc_requirements c))"

definition joined :: "sqlite_content \<Rightarrow> joined_row sql_table" where
  "joined c = map (\<lambda>(key, row). (key, row, requirements_of key c)) (sc_opportunities c)"

definition opp_to_row :: "opportunity \<Rightarrow> opportunity_row" where
  "opp_to_row opp = \<lparr>or_company = c_str (opp_company opp), or_role_title = c_str (opp_role_title opp),
     or_source = c_str (opp_source opp)\<rparr>"

definition opp_encode :: "'j json_api \<Rightarrow> opportunity \<Rightarrow> (string, joined_row) result" where
  "opp_encode J opp =
     result_bind (result_map (requirement_to_row J) (opp_requirements opp)) (\<lambda>rs. Inr (opp_to_row opp, rs))"

definition opp_decode :: "'j json_api \<Rightarrow> string \<Rightarrow> joined_row \<Rightarrow> (string, opportunity) result" where
  "opp_decode J key jr =
     result_bind (result_map (row_to_requirement J) (snd jr)) (\<lambda>reqs.
       Inr \<lparr>opportunity_id = OpportunityId key, opp_company = or_company (fst jr),
            opp_role_title = or_role_title (fst jr), opp_requirements = reqs, opp_source = or_source (fst jr)\<rparr>)"

definition opp_storable :: "'j json_api \<Rightarrow> opportunity \<Rightarrow> bool" where
  "opp_storable J opp \<longleftrightarrow> no_nul (opportunity_id_value (opportunity.opportunity_id opp)) \<and>
     no_nul (opp_company opp) \<and> no_nul (opp_role_title opp) \<and> no_nul (opp_source opp) \<and>
     (\<forall>req \<in> set (opp_requirements opp). no_nul (req_text req) \<and> tags_ok J (req_tags req))"

context json_text
begin

lemma requirement_back:
  assumes "no_nul (req_text req)" "requirement_to_row J req = Inr row"
  shows "row_to_requirement J row = Inr req"
  using assms
  by (auto simp: requirement_to_row_def row_to_requirement_def result_bind_Inr_iff tags_text_back int_of_bool_def)

lemma requirements_back:
  "\<forall>req \<in> set reqs. no_nul (req_text req) \<Longrightarrow> result_map (requirement_to_row J) reqs = Inr rs \<Longrightarrow>
     result_map (row_to_requirement J) rs = Inr reqs"
  by (induction reqs arbitrary: rs) (auto simp: result_bind_Inr_iff requirement_back)

end

sublocale json_text \<subseteq> opp_rows: stored_table opportunity_id_value opportunity.opportunity_id "opp_encode J"
  "opp_decode J" "opp_storable J"
  by unfold_locales
    (auto simp: less_opportunity_id_def opp_encode_def opp_decode_def opp_storable_def opp_to_row_def
      result_bind_Inr_iff dest!: requirements_back [rotated])

lemma requirements_encoded:
  "(\<And>req. req \<in> set reqs \<Longrightarrow> tags_ok J (req_tags req)) \<Longrightarrow> \<exists>rs. result_map (requirement_to_row J) reqs = Inr rs"
proof (induction reqs)
  case (Cons req reqs)
  have "tags_ok J (req_tags req)" using Cons.prems by simp
  then obtain row where "requirement_to_row J req = Inr row"
    by (auto simp: tags_ok_def is_ok_iff requirement_to_row_def)
  with Cons show ?case by auto
qed simp

text \<open>The inserts of the requirements, from index \<open>i\<close>.\<close>

lemma insert_requirements_eq:
  assumes "result_map (requirement_to_row J) reqs = Inr rs" "key \<in> fst ` set (sc_opportunities (db_now db))"
    and "omap_inv (sc_requirements (db_now db))" "\<forall>k \<in> fst ` set (sc_requirements (db_now db)). fst k = key \<longrightarrow> snd k < int i"
  shows "\<exists>t. insert_requirements J key i reqs db = (Inr (), db\<lparr>db_now := db_now db\<lparr>sc_requirements := t\<rparr>\<rparr>) \<and>
    omap_inv t \<and> map snd (filter (\<lambda>(k, row). fst k = key) t) = requirements_of key (db_now db) @ rs \<and>
    (\<forall>o'. o' \<noteq> key \<longrightarrow> filter (\<lambda>(k, row). fst k = o') t = filter (\<lambda>(k, row). fst k = o') (sc_requirements (db_now db)))"
  using assms
proof (induction reqs arbitrary: rs i db)
  case Nil
  then show ?case by (intro exI [of _ "sc_requirements (db_now db)"]) (simp add: act_return_def requirements_of_def)
next
  case (Cons req reqs)
  obtain row rs' where row: "requirement_to_row J req = Inr row" and rs': "result_map (requirement_to_row J) reqs = Inr rs'"
    and rs: "rs = row # rs'" using Cons.prems(1) by (auto simp: result_bind_Inr_iff)
  let ?r = "sc_requirements (db_now db)"
  let ?t = "omap_insert (key, int i) row ?r"
  let ?db = "db\<lparr>db_now := db_now db\<lparr>sc_requirements := ?t\<rparr>\<rparr>"
  have new: "(key, int i) \<notin> fst ` set ?r" using Cons.prems(4) by force
  have fkey: "filter (\<lambda>(k, row). fst k = key) ?t = filter (\<lambda>(k, row). fst k = key) ?r @ [((key, int i), row)]"
    using Cons.prems(4)
    by (simp add: filter_omap_insert [OF Cons.prems(3), of "\<lambda>k. fst k = key"])
      (rule omap_insert_last, force)
  have prem: "key \<in> fst ` set (sc_opportunities (db_now ?db))" "omap_inv (sc_requirements (db_now ?db))"
    "\<forall>k \<in> fst ` set (sc_requirements (db_now ?db)). fst k = key \<longrightarrow> snd k < int (i + 1)"
    using Cons.prems(2-4) by (auto simp: fst_omap_insert simp del: fst_conv)
  have step: "insert_requirements J key i (req # reqs) db = insert_requirements J key (i + 1) reqs ?db"
    using Cons.prems(2) new
    by (simp add: row act_lift_def act_bind_eq act_bind_step insert_requirement_def)
  obtain t where t: "insert_requirements J key (i + 1) reqs ?db = (Inr (), ?db\<lparr>db_now := db_now ?db\<lparr>sc_requirements := t\<rparr>\<rparr>)"
    "omap_inv t" "map snd (filter (\<lambda>(k, row). fst k = key) t) = requirements_of key (db_now ?db) @ rs'"
    "\<forall>o'. o' \<noteq> key \<longrightarrow> filter (\<lambda>(k, row). fst k = o') t = filter (\<lambda>(k, row). fst k = o') ?t"
    using Cons.IH [OF rs' prem] by (elim exE conjE) (rule that, assumption+, simp)
  have own: "requirements_of key (db_now ?db) = requirements_of key (db_now db) @ [row]"
    by (simp add: requirements_of_def fkey)
  have other: "filter (\<lambda>(k, row). fst k = o') ?t = filter (\<lambda>(k, row). fst k = o') ?r" if "o' \<noteq> key" for o'
    using that by (simp add: filter_omap_insert [OF Cons.prems(3), of "\<lambda>k. fst k = o'"])
  have "insert_requirements J key i (req # reqs) db = (Inr (), db\<lparr>db_now := db_now db\<lparr>sc_requirements := t\<rparr>\<rparr>)"
    using step t(1) by simp
  then show ?case using t(2-4) own other rs by (intro exI [of _ t]) simp
qed

definition opps_rel :: "'j json_api \<Rightarrow> (opportunity_id \<times> opportunity) list \<Rightarrow> sqlite_db \<Rightarrow> bool" where
  "opps_rel J m db \<longleftrightarrow> has_tables [''opportunities'', ''requirements''] db \<and> db_saved db = None \<and>
     omap_inv (sc_requirements (db_now db)) \<and> omap_inv (sc_opportunities (db_now db)) \<and>
     table_rel opportunity_id_value opportunity.opportunity_id (opp_encode J) (opp_storable J) m (joined (db_now db))"

lemma joined_lookup:
  "map_of (joined c) key = map_option (\<lambda>row. (row, requirements_of key c)) (map_of (sc_opportunities c) key)"
proof -
  have "map_of (map (\<lambda>(key, row). (key, row, f key)) xs) key = map_option (\<lambda>row. (row, f key)) (map_of xs key)"
    for f :: "string \<Rightarrow> requirement_row list" and xs :: "opportunity_row sql_table"
    by (induction xs) auto
  then show ?thesis by (simp add: joined_def)
qed

lemma joined_inv: "omap_inv (joined c) \<longleftrightarrow> omap_inv (sc_opportunities c)"
  by (simp add: omap_inv_def joined_def comp_def case_prod_unfold)

context json_text
begin

lemma opps_upsert_rel:
  assumes "opps_rel J m db" "opp_storable J opp"
  shows "\<exists>db'. sqlite_opps_upsert J opp db = (Inr (), db') \<and> opps_rel J (opps_upsert opp m) db'"
proof -
  let ?c = "db_now db" and ?key = "opportunity_id_value (opportunity.opportunity_id opp)"
  have key: "c_str ?key = ?key" using assms(2) by (simp add: opp_storable_def)
  obtain rs where rs: "result_map (requirement_to_row J) (opp_requirements opp) = Inr rs"
    using requirements_encoded [of "opp_requirements opp"] assms(2) by (auto simp: opp_storable_def)
  have rel: "has_tables [''opportunities'', ''requirements''] db" "db_saved db = None"
    "omap_inv (sc_requirements ?c)" "omap_inv (sc_opportunities ?c)"
    "table_rel opportunity_id_value opportunity.opportunity_id (opp_encode J) (opp_storable J) m (joined ?c)"
    using assms(1) by (simp_all add: opps_rel_def)
  let ?others = "filter (\<lambda>(k, row). fst k \<noteq> ?key) (sc_requirements ?c)"
  define d where "d = ?c\<lparr>sc_opportunities := omap_insert ?key (opp_to_row opp) (sc_opportunities ?c),
    sc_requirements := ?others\<rparr>"
  have d: "?key \<in> fst ` set (sc_opportunities d)" "omap_inv (sc_requirements d)"
    "\<forall>k \<in> fst ` set (sc_requirements d). fst k = ?key \<longrightarrow> snd k < int 0"
    by (auto simp: d_def fst_omap_insert omap_inv_filter rel(3))
  obtain t where t: "insert_requirements J ?key 0 (opp_requirements opp) \<lparr>db_now = d, db_saved = Some ?c\<rparr> =
      (Inr (), \<lparr>db_now = d\<lparr>sc_requirements := t\<rparr>, db_saved = Some ?c\<rparr>)"
    "omap_inv t" "map snd (filter (\<lambda>(k, row). fst k = ?key) t) = requirements_of ?key d @ rs"
    "\<forall>o'. o' \<noteq> ?key \<longrightarrow> filter (\<lambda>(k, row). fst k = o') t = filter (\<lambda>(k, row). fst k = o') (sc_requirements d)"
    using insert_requirements_eq [OF rs, of ?key "\<lparr>db_now = d, db_saved = Some ?c\<rparr>" 0] d by auto
  let ?e = "d\<lparr>sc_requirements := t\<rparr>"
  have fold_fst: "(\<lambda>((o', i), row). o' \<noteq> ?key) = (\<lambda>(k, row :: requirement_row). fst k \<noteq> ?key)"
    by (auto simp: fun_eq_iff)
  have db: "db = \<lparr>db_now = ?c, db_saved = None\<rparr>" using rel(2) by (cases db) simp
  have tables: "''opportunities'' \<in> set (sc_tables ?c)" "''requirements'' \<in> set (sc_tables ?c)"
    using rel(1) by (simp_all add: has_tables_def)
  have d_rows: "sc_requirements_update (filter (\<lambda>(k, row). fst k \<noteq> ?key)) (sc_opportunities_update
      (omap_insert ?key \<lparr>or_company = c_str (opp_company opp), or_role_title = c_str (opp_role_title opp),
         or_source = c_str (opp_source opp)\<rparr>) ?c) = d"
    by (simp add: d_def opp_to_row_def)
  have run: "sqlite_opps_upsert J opp db = (Inr (), \<lparr>db_now = ?e, db_saved = None\<rparr>)"
    using tables t(1)
    by (subst db) (simp add: sqlite_opps_upsert_def Let_def key act_bind_eq sql_exec_simps has_tables_def
        sql_update_def fold_fst act_return_def d_rows)
  have none: "requirements_of ?key d = []"
    by (simp add: requirements_of_def d_def filter_empty_conv case_prod_unfold)
  have own: "requirements_of ?key ?e = rs" using t(3) none by (simp add: requirements_of_def)
  have other: "requirements_of k ?e = requirements_of k ?c" if "k \<noteq> ?key" for k
    using t(4) [rule_format, OF that] that
    by (auto simp: requirements_of_def d_def intro!: arg_cong [where f = "map snd"] filter_cong)
  have opps_e: "map_of (sc_opportunities d) = (map_of (sc_opportunities ?c))(?key \<mapsto> opp_to_row opp)"
    by (simp add: d_def rel(4))
  have "joined ?e = omap_insert ?key (opp_to_row opp, rs) (joined ?c)"
  proof (rule omap_eqI)
    show "omap_inv (joined ?e)" by (simp add: joined_inv d_def rel(4))
    show "omap_inv (omap_insert ?key (opp_to_row opp, rs) (joined ?c))" by (simp add: joined_inv rel(4))
    show "map_of (joined ?e) = map_of (omap_insert ?key (opp_to_row opp, rs) (joined ?c))"
      by (rule ext) (simp add: joined_lookup joined_inv rel(4) own other opps_e)
  qed
  moreover have "opp_encode J opp = Inr (opp_to_row opp, rs)" by (simp add: opp_encode_def rs)
  ultimately have "opps_rel J (opps_upsert opp m) \<lparr>db_now = ?e, db_saved = None\<rparr>"
    using opp_rows.rel_insert [OF rel(5) assms(2)] rel t(2)
    by (simp add: opps_rel_def opps_upsert_def has_tables_def d_def)
  with run show ?thesis by blast
qed

lemma opps_queries:
  assumes "opps_rel J m db"
  shows "no_nul (opportunity_id_value i) \<Longrightarrow> sqlite_opps_get J i db = (Inr (opps_get m i), db)"
    and "sqlite_opps_list_all J db = (Inr (opps_list_all m), db)"
proof -
  let ?c = "db_now db"
  have rel: "has_tables [''opportunities''] db" "''requirements'' \<in> set (sc_tables ?c)"
    and r: "table_rel opportunity_id_value opportunity.opportunity_id (opp_encode J) (opp_storable J) m (joined ?c)"
    using assms by (simp_all add: opps_rel_def has_tables_def)
  have fold_fst: "(\<lambda>((o', i), row). o' = key) = (\<lambda>(k, row :: requirement_row). fst k = key)" for key :: string
    by (auto simp: fun_eq_iff)
  have "result_map (\<lambda>(k, row). f row) xs = result_map f (map snd xs)"
    for f :: "requirement_row \<Rightarrow> (string, requirement) result" and xs :: "((string \<times> int) \<times> requirement_row) list"
    by (induction xs) auto
  then have load: "load_requirements J key ?c = result_map (row_to_requirement J) (requirements_of key ?c)" for key
    using rel(2) by (simp add: load_requirements_def requirements_of_def fold_fst)
  have dec: "row_to_opportunity J ?c key row = opp_decode J key (row, requirements_of key ?c)" for key row
    by (simp add: row_to_opportunity_def load opp_decode_def)
  have "result_map (\<lambda>(key, row). g key (row, f key)) xs = result_map (\<lambda>(key, jr). g key jr) (map (\<lambda>(key, row). (key, row, f key)) xs)"
    for g :: "string \<Rightarrow> joined_row \<Rightarrow> (string, opportunity) result" and f :: "string \<Rightarrow> requirement_row list" and xs
    by (induction xs) auto
  from this [of "opp_decode J" "\<lambda>key. requirements_of key ?c" "sc_opportunities ?c"]
  show "sqlite_opps_list_all J db = (Inr (opps_list_all m), db)"
    using opp_rows.rel_list_all [OF r] rel(1)
    by (simp add: sqlite_opps_list_all_def sql_query_def opps_list_all_def joined_def flip: dec)
  assume "no_nul (opportunity_id_value i)"
  then show "sqlite_opps_get J i db = (Inr (opps_get m i), db)"
    using opp_rows.rel_get [OF r, of i] rel(1)
    by (cases "map_of (sc_opportunities ?c) (opportunity_id_value i)")
      (simp_all add: sqlite_opps_get_def sql_query_def opps_get_def dec joined_lookup)
qed

end

section \<open>Properties\<close>

text \<open>C33. The SQLite opportunity repository, which splits an opportunity over two tables, keeps what the
  in-memory one keeps: after any sequence of upserts of storable opportunities into empty tables, also of
  the same one with fewer or more requirements, every lookup and the listing answer the same.\<close>

theorem sqlite_opportunities_refine:
  assumes "json_text J" "has_tables [''opportunities'', ''requirements''] db" "db_saved db = None"
    and "sc_opportunities (db_now db) = []" "sc_requirements (db_now db) = []"
    and "\<forall>opp \<in> set items. opp_storable J opp"
  shows "\<exists>us db'. act_map (sqlite_opps_upsert J) items db = (Inr us, db') \<and>
    (\<forall>i. no_nul (opportunity_id_value i) \<longrightarrow>
       sqlite_opps_get J i db' = (Inr (opps_get (fold opps_upsert items []) i), db')) \<and>
    sqlite_opps_list_all J db' = (Inr (opps_list_all (fold opps_upsert items [])), db')"
proof -
  have "opps_rel J [] db" using assms(2-5) by (simp add: opps_rel_def table_rel_def joined_def)
  from act_map_rel [where R = "opps_rel J" and g = opps_upsert and f = "sqlite_opps_upsert J",
      OF json_text.opps_upsert_rel [OF assms(1)] this assms(6)]
  obtain us db' where u: "act_map (sqlite_opps_upsert J) items db = (Inr us, db')"
    "opps_rel J (fold opps_upsert items []) db'" by blast
  then show ?thesis
    by (intro exI [of _ us] exI [of _ db']) (simp add: u json_text.opps_queries [OF assms(1)])
qed

definition sample_opportunity :: "string list list \<Rightarrow> opportunity" where
  "sample_opportunity tagss =
     \<lparr>opportunity_id = OpportunityId ''o'', opp_company = ''c'', opp_role_title = ''r'',
      opp_requirements = map (\<lambda>ts. \<lparr>req_text = ''t'', req_tags = ts, req_required = True\<rparr>) tagss, opp_source = ''s''\<rparr>"

theorem sqlite_opportunities_refine_witness:
  "\<exists>us db'. act_map (sqlite_opps_upsert text_json)
       [sample_opportunity [[''a''], [], [''b'']], sample_opportunity [[''c'']]] migrated_database = (Inr us, db') \<and>
     sqlite_opps_list_all text_json db' = (Inr [sample_opportunity [[''c'']]], db')"
proof -
  have ok: "\<forall>opp \<in> set [sample_opportunity [[''a''], [], [''b'']], sample_opportunity [[''c'']]].
      opp_storable text_json opp"
    by (simp add: opp_storable_def sample_opportunity_def no_nul_def tags_ok_def tags_text_def text_json_dump_ok
        text_json_values)
  show ?thesis
    using sqlite_opportunities_refine [OF printed.json_text_axioms migrated_database_tables(4) _ _ _ ok]
    by (auto simp: migrated_database_rows opps_list_all_def opps_upsert_def sample_opportunity_def)
qed

text \<open>An opportunity whose first requirement has tags that cannot be printed: the exception leaves
  \<open>upsert\<close> with its transaction open. The new row is visible, the old requirements are gone, and no
  transaction can be begun on the connection.\<close>

theorem sqlite_opportunity_throw:
  assumes "has_tables [''opportunities'', ''requirements''] db" "db_saved db = None"
    and "opp_requirements opp = req # reqs" "tags_text J (req_tags req) = Inl e"
  shows "\<exists>c. sqlite_opps_upsert J opp db = (Inl e, \<lparr>db_now = c, db_saved = Some (db_now db)\<rparr>) \<and>
    map_of (sc_opportunities c) = map_of (omap_insert (c_str (opportunity_id_value (opportunity.opportunity_id opp)))
      (opp_to_row opp) (sc_opportunities (db_now db))) \<and>
    requirements_of (c_str (opportunity_id_value (opportunity.opportunity_id opp))) c = [] \<and>
    fst (sql_begin \<lparr>db_now = c, db_saved = Some (db_now db)\<rparr>) =
      Inl ''cannot start a transaction within a transaction''"
proof -
  let ?key = "c_str (opportunity_id_value (opportunity.opportunity_id opp))"
  let ?c = "sc_requirements_update (filter (\<lambda>((o', i), row). o' \<noteq> ?key)) (sc_opportunities_update
      (omap_insert ?key \<lparr>or_company = c_str (opp_company opp), or_role_title = c_str (opp_role_title opp),
         or_source = c_str (opp_source opp)\<rparr>) (db_now db))"
  have db: "db = \<lparr>db_now = db_now db, db_saved = None\<rparr>" using assms(2) by (cases db) simp
  have tables: "''opportunities'' \<in> set (sc_tables (db_now db))" "''requirements'' \<in> set (sc_tables (db_now db))"
    using assms(1) by (simp_all add: has_tables_def)
  have "sqlite_opps_upsert J opp db = (Inl e, \<lparr>db_now = ?c, db_saved = Some (db_now db)\<rparr>)"
    using tables assms(3,4)
    by (subst db) (simp add: sqlite_opps_upsert_def Let_def act_bind_eq sql_exec_simps has_tables_def
        sql_update_def requirement_to_row_def act_lift_def)
  then show ?thesis
    by (intro exI [of _ ?c])
      (simp add: sql_begin_def requirements_of_def opp_to_row_def filter_empty_conv case_prod_unfold)
qed

definition no_print :: "jtree json_api" where
  "no_print = text_json\<lparr>j_dump := (\<lambda>j. Inl ''invalid UTF-8 byte'')\<rparr>"

theorem sqlite_opportunity_throw_witness:
  "fst (sqlite_opps_upsert no_print (sample_opportunity [[''a'']]) migrated_database) = Inl ''invalid UTF-8 byte''"
proof -
  have "tags_text no_print (req_tags \<lparr>req_text = ''t'', req_tags = [''a''], req_required = True\<rparr>) =
      Inl ''invalid UTF-8 byte''" by (simp add: tags_text_def no_print_def)
  from sqlite_opportunity_throw [OF migrated_database_tables(4) migrated_database_rows(8), of "sample_opportunity [[''a'']]",
      OF _ this]
  show ?thesis by (auto simp: sample_opportunity_def)
qed

text \<open>What storing a resume does. When another resume has the same content hash the unique column
  refuses the row, the transaction is rolled back and the caller is told nothing: the database is
  unchanged, and the hash still finds the other resume. Otherwise the resume is found under its identifier
  and under its hash, with \<open>CURRENT_TIMESTAMP\<close> as its creation time if it had none.\<close>

theorem sqlite_resume_upsert:
  assumes "has_tables [''resumes'', ''resume_meta''] db" "db_saved db = None"
    and "omap_inv (sc_resumes (db_now db))" "omap_inv (sc_resume_meta (db_now db))" "resume_storable resume"
  shows "\<exists>db'. sqlite_resumes_upsert resume db = (Inr (), db') \<and>
    (if hash_taken (db_now db) resume then db' = db
     else db_saved db' = None \<and>
       sqlite_resumes_get (ir_resume_id resume) db' = (Inr (Some (as_stored resume)), db') \<and>
       sqlite_resumes_get_by_hash (ir_resume_hash resume) db' = (Inr (Some (as_stored resume)), db'))"
proof (cases "hash_taken (db_now db) resume")
  case True
  then show ?thesis by (simp add: sqlite_resumes_upsert_eq [OF assms(1,2)])
next
  case False
  let ?c = "db_now db" and ?k = "resume_key resume"
  define c where "c = ?c\<lparr>sc_resumes := omap_insert ?k (resume_to_row resume) (sc_resumes ?c),
    sc_resume_meta := omap_insert ?k (meta_to_row (ir_meta resume)) (sc_resume_meta ?c)\<rparr>"
  have u: "sqlite_resumes_upsert resume db = (Inr (), db\<lparr>db_now := c\<rparr>)"
    using False by (simp add: sqlite_resumes_upsert_eq [OF assms(1,2)] c_def)
  have t: "has_tables [''resumes''] (db\<lparr>db_now := c\<rparr>)" "''resume_meta'' \<in> set (sc_tables c)"
    using assms(1) by (simp_all add: has_tables_def c_def)
  have b: "row_to_resume c ?k (resume_to_row resume) = as_stored resume"
    by (rule row_to_resume_back [OF assms(5) t(2)]) (simp add: c_def assms(4))
  have inv: "omap_inv (sc_resumes c)" by (simp add: c_def assms(3))
  have m: "map_of (sc_resumes c) = (map_of (sc_resumes ?c))(?k \<mapsto> resume_to_row resume)"
    by (simp add: c_def assms(3))
  have get: "sqlite_resumes_get (ir_resume_id resume) (db\<lparr>db_now := c\<rparr>) = (Inr (Some (as_stored resume)), db\<lparr>db_now := c\<rparr>)"
    using t b by (simp add: sqlite_resumes_get_def sql_query_def m flip: resume_key_def)
  let ?P = "\<lambda>(key, row). sr_resume_hash row = c_str (ir_resume_hash resume)"
  have "find ?P (sc_resumes c) = Some (?k, resume_to_row resume)"
  proof -
    have in_c: "(?k, resume_to_row resume) \<in> set (sc_resumes c)" by (rule map_of_SomeD) (simp add: m)
    have only: "x = (?k, resume_to_row resume)" if "x \<in> set (sc_resumes c)" "?P x" for x
    proof (cases "fst x = ?k")
      case True
      then show ?thesis using that(1) m omap_map_of_iff [OF inv, of "fst x" "snd x"] by (cases x) simp
    next
      case F: False
      then have "x \<in> set (sc_resumes ?c)"
        using that(1) m omap_map_of_iff [OF inv, of "fst x" "snd x"] omap_map_of_iff [OF assms(3), of "fst x" "snd x"]
        by (cases x) simp
      then have "hash_taken (db_now db) resume"
        using F that(2) by (cases x) (auto simp: hash_taken_def intro!: bexI [of _ x])
      then show ?thesis using False by simp
    qed
    show ?thesis
    proof (cases "find ?P (sc_resumes c)")
      case None
      then show ?thesis using in_c by (force simp: find_None_iff resume_to_row_def)
    next
      case (Some x)
      then have "x \<in> set (sc_resumes c)" "?P x" by (auto dest: find_SomeD)
      then show ?thesis using Some only [of x] by simp
    qed
  qed
  then have "sqlite_resumes_get_by_hash (ir_resume_hash resume) (db\<lparr>db_now := c\<rparr>) =
      (Inr (Some (as_stored resume)), db\<lparr>db_now := c\<rparr>)"
    using t b by (simp add: sqlite_resumes_get_by_hash_def sql_query_def)
  then show ?thesis using u get False assms(2) by (intro exI [of _ "db\<lparr>db_now := c\<rparr>"]) simp
qed

definition sample_resume :: "string \<Rightarrow> ingested_resume" where
  "sample_resume i = \<lparr>ir_resume_id = ResumeId i, ir_resume_md = ''# A'', ir_resume_hash = ''h'',
     ir_meta = default_resume_meta, ir_created_at = None\<rparr>"

theorem sqlite_resume_upsert_witness:
  "\<exists>db. sqlite_resumes_upsert (sample_resume ''r1'') migrated_database = (Inr (), db) \<and>
     sqlite_resumes_get (ResumeId ''r1'') db =
       (Inr (Some ((sample_resume ''r1'')\<lparr>ir_created_at := Some ''CURRENT_TIMESTAMP''\<rparr>)), db)"
proof -
  have "resume_storable (sample_resume ''r1'')"
    by (simp add: resume_storable_def sample_resume_def default_resume_meta_def no_nul_def)
  from sqlite_resume_upsert [OF migrated_database_tables(5) migrated_database_rows(8) _ _ this]
  show ?thesis
    by (auto simp: migrated_database_rows hash_taken_def as_stored_def sample_resume_def)
qed

end
