(* ===== verification/Sqlite_Audit_Log.thy ===== *)
theory Sqlite_Audit_Log
  imports Sqlite_Refinement
begin

text \<open>
  The audit log over SQLite (\<open>src/storage/sqlite/sqlite_audit_log.cpp\<close>): the next index of a trace
  is cached after the first use, the previous hash is read from the last row of the trace, and the row is
  inserted. The log is another interpretation of \<open>audit_store\<close>: over one connection, and for events
  whose texts have no NUL character, its traces verify as those of the in-memory log do.
\<close>

section \<open>The log\<close>

record sqlite_log =
  sl_db :: sqlite_db
  sl_trace_indices :: "string \<rightharpoonup> int"

type_synonym 'a log_action = "(sqlite_log, 'a) action"

definition trace_rows :: "sqlite_content \<Rightarrow> string \<Rightarrow> audit_row list" where
  "trace_rows c trace_id = filter (\<lambda>r. er_trace_id r = c_str trace_id) (sc_audit_events c)"

text \<open>\<open>ORDER BY idx\<close>, through the index on the trace and \<open>idx\<close>: rows with one index in the order of
  insertion.\<close>

definition by_idx :: "audit_row list \<Rightarrow> audit_row list" where
  "by_idx rs = sort_key er_idx rs"

definition max_idx :: "audit_row list \<Rightarrow> int" where
  "max_idx rs = (if rs = [] then - 1 else er_idx (last (by_idx rs)))"

text \<open>\<open>get_append_state\<close>: the index and the previous hash.\<close>

definition get_append_state :: "string \<Rightarrow> (int \<times> string) log_action" where
  "get_append_state trace_id l =
     (let c = db_now (sl_db l);
          idx = (case sl_trace_indices l trace_id of
                   Some i \<Rightarrow> i
                 | None \<Rightarrow> (if prepare_error [''audit_events''] [] c = None
                            then max_idx (trace_rows c trace_id) else - 1) + 1);
          previous_hash =
            (if 0 < idx \<and> prepare_error [''audit_events''] [''event_hash''] c = None \<and> trace_rows c trace_id \<noteq> []
             then er_event_hash (last (by_idx (trace_rows c trace_id)))
             else kGenesisHash)
      in (Inr (idx, previous_hash), l\<lparr>sl_trace_indices := (sl_trace_indices l)(trace_id \<mapsto> idx + 1)\<rparr>))"

definition event_to_row :: "audit_event \<Rightarrow> string \<Rightarrow> int \<Rightarrow> string \<Rightarrow> string \<Rightarrow> audit_row" where
  "event_to_row event refs_json idx previous_hash event_hash =
     \<lparr>er_event_id = c_str (ae_event_id event), er_trace_id = c_str (ae_trace_id event),
      er_event_type = c_str (ae_event_type event), er_payload = c_str (ae_payload event),
      er_created_at = c_str (ae_created_at event), er_entity_ids_json = c_str refs_json, er_idx = idx,
      er_previous_hash = c_str previous_hash, er_event_hash = c_str event_hash\<rparr>"

definition insert_event :: "audit_row \<Rightarrow> sqlite_content \<Rightarrow> sqlite_content option" where
  "insert_event row c =
     (if er_event_id row \<in> er_event_id ` set (sc_audit_events c) then None
      else Some (c\<lparr>sc_audit_events := sc_audit_events c @ [row]\<rparr>))"

definition on_db :: "'a sql_action \<Rightarrow> 'a log_action" where
  "on_db = act_on sl_db (\<lambda>db l. l\<lparr>sl_db := db\<rparr>)"

text \<open>The second half of \<open>append\<close>, which no lock covers: the hash, the statement, the row.\<close>

definition insert_appended :: "'j json_api \<Rightarrow> audit_event \<Rightarrow> int \<Rightarrow> string \<Rightarrow> unit log_action" where
  "insert_appended J event idx previous_hash =
     act_bind (act_lift (compute_event_hash J event previous_hash)) (\<lambda>event_hash.
     act_bind (act_get (\<lambda>l. prepare_error [''audit_events''] [''previous_hash'', ''event_hash''] (db_now (sl_db l)))) (\<lambda>err.
       case err of
         Some e \<Rightarrow> act_throw (''SqliteAuditLog::append failed to prepare: '' @ e)
       | None \<Rightarrow>
           act_bind (act_lift (tags_text J (ae_refs event))) (\<lambda>refs_json.
           act_bind (on_db (sql_step (insert_event (event_to_row event refs_json idx previous_hash event_hash)))) (\<lambda>stored.
             if stored then act_return ()
             else act_throw (''SqliteAuditLog::append failed: '' @
               ''UNIQUE constraint failed: audit_events.event_id'')))))"

definition sqlite_log_append :: "'j json_api \<Rightarrow> audit_event \<Rightarrow> unit log_action" where
  "sqlite_log_append J event =
     act_bind (get_append_state (ae_trace_id event)) (\<lambda>(idx, previous_hash). insert_appended J event idx previous_hash)"

definition row_to_event :: "'j json_api \<Rightarrow> audit_row \<Rightarrow> (string, audit_event) result" where
  "row_to_event J row =
     result_bind (tags_of_text J (er_entity_ids_json row)) (\<lambda>refs.
       Inr \<lparr>ae_event_id = er_event_id row, ae_trace_id = er_trace_id row, ae_event_type = er_event_type row,
            ae_payload = er_payload row, ae_created_at = er_created_at row, ae_refs = refs,
            ae_previous_hash = er_previous_hash row, ae_event_hash = er_event_hash row\<rparr>)"

definition sqlite_log_query :: "'j json_api \<Rightarrow> string \<Rightarrow> audit_event list log_action" where
  "sqlite_log_query J trace_id l =
     (let c = db_now (sl_db l)
      in if prepare_error [''audit_events''] [''previous_hash'', ''event_hash''] c \<noteq> None then (Inr [], l)
         else (result_map (row_to_event J) (by_idx (trace_rows c trace_id)), l))"

text \<open>\<open>SELECT DISTINCT\<close> without \<open>ORDER BY\<close>: the index on the trace delivers the identifiers in
  ascending order.\<close>

definition sqlite_log_list_trace_ids :: "string list log_action" where
  "sqlite_log_list_trace_ids l =
     (if \<not> has_tables [''audit_events''] (sl_db l) then (Inr [], l)
      else (Inr (sort (remdups (map er_trace_id (sc_audit_events (db_now (sl_db l)))))), l))"

section \<open>The invariant\<close>

text \<open>One connection writes: the rows of a trace are in the order of their indices, the cached index is
  beyond them, and they decode to a chain.\<close>

definition trace_events :: "'j json_api \<Rightarrow> sqlite_log \<Rightarrow> string \<Rightarrow> audit_event list" where
  "trace_events J l trace_id =
     (case fst (sqlite_log_query J trace_id l) of Inr es \<Rightarrow> es | Inl _ \<Rightarrow> [])"

definition trace_ids_of :: "sqlite_log \<Rightarrow> string list" where
  "trace_ids_of l = (case fst (sqlite_log_list_trace_ids l) of Inr ts \<Rightarrow> ts | Inl _ \<Rightarrow> [])"

definition event_storable :: "'j json_api \<Rightarrow> audit_event \<Rightarrow> bool" where
  "event_storable J ev \<longleftrightarrow> no_nul (ae_event_id ev) \<and> no_nul (ae_trace_id ev) \<and> no_nul (ae_event_type ev) \<and>
     no_nul (ae_payload ev) \<and> no_nul (ae_created_at ev)"

text \<open>The rows of one trace.\<close>

definition rows_ok :: "'j json_api \<Rightarrow> int option \<Rightarrow> audit_row list \<Rightarrow> bool" where
  "rows_ok J cached rs \<longleftrightarrow>
     sorted (map er_idx rs) \<and> (\<forall>r \<in> set rs. 0 \<le> er_idx r) \<and>
     (\<forall>i. cached = Some i \<longrightarrow> 0 \<le> i \<and> (\<forall>r \<in> set rs. er_idx r < i)) \<and>
     (\<exists>es. result_map (row_to_event J) rs = Inr es \<and> chain_ok J kGenesisHash es \<and>
        map ae_event_hash es = map er_event_hash rs \<and> (\<forall>e \<in> set es. no_nul (ae_event_hash e)))"

definition sqlite_log_inv :: "'j json_api \<Rightarrow> sqlite_log \<Rightarrow> bool" where
  "sqlite_log_inv J l \<longleftrightarrow>
     (let c = db_now (sl_db l)
      in ''audit_events'' \<in> set (sc_tables c) \<and> {''previous_hash'', ''event_hash''} \<subseteq> set (sc_audit_columns c) \<and>
         (\<forall>t. no_nul t \<longrightarrow> rows_ok J (sl_trace_indices l t) (trace_rows c t)))"

section \<open>Appending\<close>

lemma no_nul_sha256_hex [simp]: "no_nul (sha256_hex s)"
  using sha256_hex_lower [of s] by (auto simp: no_nul_def is_hex_lower_def is_digit_iff less_eq_char_def)

lemma no_nul_genesis [simp]: "no_nul kGenesisHash"
  by (simp add: no_nul_def kGenesisHash_def)

lemma no_nul_event_hash: "compute_event_hash J ev p = Inr h \<Longrightarrow> no_nul h"
  by (auto simp: compute_event_hash_def result_bind_Inr_iff)

definition log_with_row :: "audit_row \<Rightarrow> sqlite_log \<Rightarrow> sqlite_log" where
  "log_with_row r l = l\<lparr>sl_db := (sl_db l)\<lparr>db_now := (db_now (sl_db l))
     \<lparr>sc_audit_events := sc_audit_events (db_now (sl_db l)) @ [r]\<rparr>\<rparr>\<rparr>"

lemma insert_appended_eq:
  "insert_appended J ev idx p l =
     (case compute_event_hash J ev p of
        Inl e \<Rightarrow> (Inl e, l)
      | Inr h \<Rightarrow> (case prepare_error [''audit_events''] [''previous_hash'', ''event_hash''] (db_now (sl_db l)) of
          Some e \<Rightarrow> (Inl (''SqliteAuditLog::append failed to prepare: '' @ e), l)
        | None \<Rightarrow> (case tags_text J (ae_refs ev) of
            Inl e \<Rightarrow> (Inl e, l)
          | Inr refs \<Rightarrow>
              if c_str (ae_event_id ev) \<in> er_event_id ` set (sc_audit_events (db_now (sl_db l)))
              then (Inl (''SqliteAuditLog::append failed: '' @ ''UNIQUE constraint failed: audit_events.event_id''), l)
              else (Inr (), log_with_row (event_to_row ev refs idx p h) l))))"
  by (auto simp: insert_appended_def act_bind_def act_lift_def act_get_def act_throw_def act_return_def on_db_def
      act_on_def sql_step_def insert_event_def event_to_row_def log_with_row_def split: sum.split option.split)

lemma insert_appended_cases:
  assumes "insert_appended J ev idx p l = (r, l')"
  obtains (refused) e where "r = Inl e" "l' = l"
  | (stored) refs h where "r = Inr ()" "compute_event_hash J ev p = Inr h" "tags_text J (ae_refs ev) = Inr refs"
    "prepare_error [''audit_events''] [''previous_hash'', ''event_hash''] (db_now (sl_db l)) = None"
    "c_str (ae_event_id ev) \<notin> er_event_id ` set (sc_audit_events (db_now (sl_db l)))"
    "l' = log_with_row (event_to_row ev refs idx p h) l"
  using assms by (auto simp: insert_appended_eq split: sum.splits option.splits if_splits)

lemma get_append_state_shape:
  obtains idx p where "get_append_state t l = (Inr (idx, p), l\<lparr>sl_trace_indices := (sl_trace_indices l)(t \<mapsto> idx + 1)\<rparr>)"
  by (simp add: get_append_state_def Let_def)

lemma sqlite_log_append_state:
  "get_append_state (ae_trace_id ev) l = (Inr (idx, p), l') \<Longrightarrow> sqlite_log_append J ev l = insert_appended J ev idx p l'"
  by (simp add: sqlite_log_append_def act_bind_eq)

lemma result_map_append:
  "result_map f (xs @ ys) = result_bind (result_map f xs) (\<lambda>as. result_bind (result_map f ys) (\<lambda>bs. Inr (as @ bs)))"
proof (induction xs)
  case Nil
  then show ?case by (cases "result_map f ys") simp_all
next
  case (Cons x xs)
  then show ?case by (cases "f x"; cases "result_map f xs"; cases "result_map f ys") simp_all
qed

lemma by_idx_id: "rows_ok J cached rs \<Longrightarrow> by_idx rs = rs"
  by (simp add: rows_ok_def by_idx_def sort_key_id_if_sorted)

lemma rows_ok_next:
  assumes "rows_ok J cached rs"
  defines "idx \<equiv> (case cached of Some i \<Rightarrow> i | None \<Rightarrow> max_idx rs + 1)"
  shows "0 \<le> idx" "\<forall>r \<in> set rs. er_idx r < idx"
    "rows_ok J (Some (idx + 1)) rs"
    "result_map (row_to_event J) rs = Inr es \<Longrightarrow>
      (if 0 < idx \<and> rs \<noteq> [] then er_event_hash (last (by_idx rs)) else kGenesisHash) = chain_end kGenesisHash es \<and>
      no_nul (chain_end kGenesisHash es)"
proof -
  have b: "by_idx rs = rs" by (rule by_idx_id [OF assms(1)])
  have top: "\<forall>r \<in> set rs. er_idx r \<le> er_idx (last rs)"
    using assms(1) by (cases rs rule: rev_cases) (auto simp: rows_ok_def sorted_append)
  show i: "0 \<le> idx" "\<forall>r \<in> set rs. er_idx r < idx"
    using assms(1) top
    by (auto simp: idx_def rows_ok_def max_idx_def b split: option.splits)
  then show "rows_ok J (Some (idx + 1)) rs" using assms(1) by (fastforce simp: rows_ok_def)
  assume es: "result_map (row_to_event J) rs = Inr es"
  then have h: "map ae_event_hash es = map er_event_hash rs" and n: "\<forall>e \<in> set es. no_nul (ae_event_hash e)"
    using assms(1) by (auto simp: rows_ok_def)
  show "(if 0 < idx \<and> rs \<noteq> [] then er_event_hash (last (by_idx rs)) else kGenesisHash) = chain_end kGenesisHash es \<and>
      no_nul (chain_end kGenesisHash es)"
  proof (cases rs rule: rev_cases)
    case Nil
    then show ?thesis using h by (simp add: chain_end_def)
  next
    case (snoc rs' r)
    then obtain es' e where e: "es = es' @ [e]" using h by (cases es rule: rev_cases) auto
    have "0 < idx" using i snoc assms(1) by (force simp: rows_ok_def)
    moreover have "last (by_idx rs) = r" using b snoc by simp
    ultimately show ?thesis using h n snoc e by (simp add: chain_end_def)
  qed
qed

context json_text
begin

lemma event_row_back:
  assumes "event_storable J ev" "tags_text J (ae_refs ev) = Inr refs" "no_nul p" "no_nul h"
  shows "row_to_event J (event_to_row ev refs idx p h) = Inr (ev\<lparr>ae_previous_hash := p, ae_event_hash := h\<rparr>)"
  using assms by (simp add: row_to_event_def event_to_row_def event_storable_def tags_text_back [OF assms(2)])

lemma rows_ok_append:
  assumes ok: "rows_ok J cached rs" and ev: "event_storable J ev" and refs: "tags_text J (ae_refs ev) = Inr refs"
    and es: "result_map (row_to_event J) rs = Inr es" "chain_end kGenesisHash es = p" "no_nul p"
    and h: "compute_event_hash J ev p = Inr h" and idx: "0 \<le> idx" "\<forall>r \<in> set rs. er_idx r < idx"
  shows "rows_ok J (Some (idx + 1)) (rs @ [event_to_row ev refs idx p h]) \<and>
    result_map (row_to_event J) (rs @ [event_to_row ev refs idx p h]) =
      Inr (es @ [ev\<lparr>ae_previous_hash := p, ae_event_hash := h\<rparr>])"
proof -
  have n: "no_nul h" by (rule no_nul_event_hash [OF h])
  note row = event_row_back [OF ev refs es(3) n]
  have m: "result_map (row_to_event J) (rs @ [event_to_row ev refs idx p h]) =
      Inr (es @ [ev\<lparr>ae_previous_hash := p, ae_event_hash := h\<rparr>])"
    by (simp add: result_map_append es(1) row)
  have "chain_ok J kGenesisHash es" "map ae_event_hash es = map er_event_hash rs"
    "\<forall>e \<in> set es. no_nul (ae_event_hash e)"
    using ok es(1) by (auto simp: rows_ok_def)
  moreover have "er_idx (event_to_row ev refs idx p h) = idx" "er_event_hash (event_to_row ev refs idx p h) = h"
    using n by (simp_all add: event_to_row_def)
  ultimately show ?thesis
    using ok idx m h n es(2)
    by (auto simp: rows_ok_def sorted_append chain_ok_append intro: less_imp_le)
qed

text \<open>One append, step by step.\<close>

lemma trace_rows_append:
  "trace_rows (c\<lparr>sc_audit_events := sc_audit_events c @ [r]\<rparr>) t =
     trace_rows c t @ (if er_trace_id r = c_str t then [r] else [])"
  by (simp add: trace_rows_def)

lemma append_state_effect:
  assumes inv: "sqlite_log_inv J l" and t: "no_nul t"
    and es: "result_map (row_to_event J) (trace_rows (db_now (sl_db l)) t) = Inr es"
  obtains idx where
    "get_append_state t l = (Inr (idx, chain_end kGenesisHash es),
       l\<lparr>sl_trace_indices := (sl_trace_indices l)(t \<mapsto> idx + 1)\<rparr>)"
    "sqlite_log_inv J (l\<lparr>sl_trace_indices := (sl_trace_indices l)(t \<mapsto> idx + 1)\<rparr>)"
    "0 \<le> idx" "\<forall>r \<in> set (trace_rows (db_now (sl_db l)) t). er_idx r < idx" "no_nul (chain_end kGenesisHash es)"
proof -
  let ?rs = "trace_rows (db_now (sl_db l)) t"
  define idx where "idx = (case sl_trace_indices l t of Some i \<Rightarrow> i | None \<Rightarrow> max_idx ?rs + 1)"
  have ok: "rows_ok J (sl_trace_indices l t) ?rs" using inv t by (simp add: sqlite_log_inv_def Let_def)
  have tables: "prepare_error [''audit_events''] [] (db_now (sl_db l)) = None"
    "prepare_error [''audit_events''] [''event_hash''] (db_now (sl_db l)) = None"
    using inv by (simp_all add: sqlite_log_inv_def Let_def prepare_error_None)
  note next_ok = rows_ok_next [OF ok, folded idx_def]
  have "get_append_state t l = (Inr (idx, chain_end kGenesisHash es),
      l\<lparr>sl_trace_indices := (sl_trace_indices l)(t \<mapsto> idx + 1)\<rparr>)"
    using next_ok(4) [OF es] tables by (simp add: get_append_state_def Let_def idx_def [symmetric] cong: option.case_cong)
  moreover have "sqlite_log_inv J (l\<lparr>sl_trace_indices := (sl_trace_indices l)(t \<mapsto> idx + 1)\<rparr>)"
    using inv next_ok(3) by (auto simp: sqlite_log_inv_def Let_def)
  ultimately show thesis using that next_ok(1,2) next_ok(4) [OF es] by blast
qed

lemma insert_effect:
  assumes inv: "sqlite_log_inv J l" and ev: "event_storable J ev"
    and es: "result_map (row_to_event J) (trace_rows (db_now (sl_db l)) (ae_trace_id ev)) = Inr es"
    and p: "chain_end kGenesisHash es = p" "no_nul p"
    and idx: "0 \<le> idx" "\<forall>r \<in> set (trace_rows (db_now (sl_db l)) (ae_trace_id ev)). er_idx r < idx"
      "sl_trace_indices l (ae_trace_id ev) = Some i" "idx < i"
    and run: "insert_appended J ev idx p l = (Inr (), l')"
  shows "sqlite_log_inv J l' \<and> (\<exists>r h. l' = log_with_row r l \<and> er_trace_id r = ae_trace_id ev \<and>
    row_to_event J r = Inr (ev\<lparr>ae_previous_hash := p, ae_event_hash := h\<rparr>))"
proof -
  let ?c = "db_now (sl_db l)" and ?t = "ae_trace_id ev"
  have nt: "no_nul ?t" "c_str ?t = ?t" using ev by (simp_all add: event_storable_def)
  obtain refs h where h: "compute_event_hash J ev p = Inr h" "tags_text J (ae_refs ev) = Inr refs"
    "l' = log_with_row (event_to_row ev refs idx p h) l"
    by (rule insert_appended_cases [OF run]) (simp, blast)
  let ?r = "event_to_row ev refs idx p h"
  have tr: "er_trace_id ?r = ?t" using nt(2) by (simp add: event_to_row_def)
  have ok: "rows_ok J (sl_trace_indices l u) (trace_rows ?c u)" if "no_nul u" for u
    using inv that by (simp add: sqlite_log_inv_def Let_def)
  have "rows_ok J (Some (idx + 1)) (trace_rows ?c ?t @ [?r])"
    using rows_ok_append [OF ok [OF nt(1)] ev h(2) es p h(1) idx(1,2)] by simp
  then have "rows_ok J (Some i) (trace_rows ?c ?t @ [?r])" using idx(4) by (fastforce simp: rows_ok_def)
  then have "sqlite_log_inv J l'"
    using inv ok idx(3) by (auto simp: sqlite_log_inv_def Let_def h(3) log_with_row_def trace_rows_append tr)
  moreover have "row_to_event J ?r = Inr (ev\<lparr>ae_previous_hash := p, ae_event_hash := h\<rparr>)"
    by (rule event_row_back [OF ev h(2) p(2) no_nul_event_hash [OF h(1)]])
  ultimately show ?thesis using tr h(3) by blast
qed

lemma append_effect:
  assumes inv: "sqlite_log_inv J l" and ev: "event_storable J ev"
  shows "sqlite_log_inv J (snd (sqlite_log_append J ev l)) \<and>
    (case fst (sqlite_log_append J ev l) of
       Inl _ \<Rightarrow> sl_db (snd (sqlite_log_append J ev l)) = sl_db l
     | Inr _ \<Rightarrow> \<exists>r p h. sl_db (snd (sqlite_log_append J ev l)) = sl_db (log_with_row r l) \<and>
         er_trace_id r = ae_trace_id ev \<and> row_to_event J r = Inr (ev\<lparr>ae_previous_hash := p, ae_event_hash := h\<rparr>))"
proof -
  have t: "no_nul (ae_trace_id ev)" using ev by (simp add: event_storable_def)
  then obtain es where es: "result_map (row_to_event J) (trace_rows (db_now (sl_db l)) (ae_trace_id ev)) = Inr es"
    using inv by (auto simp: sqlite_log_inv_def Let_def rows_ok_def)
  define p where "p = chain_end kGenesisHash es"
  obtain idx where st: "get_append_state (ae_trace_id ev) l =
      (Inr (idx, p), l\<lparr>sl_trace_indices := (sl_trace_indices l)(ae_trace_id ev \<mapsto> idx + 1)\<rparr>)"
    and inv': "sqlite_log_inv J (l\<lparr>sl_trace_indices := (sl_trace_indices l)(ae_trace_id ev \<mapsto> idx + 1)\<rparr>)"
    and idx: "0 \<le> idx" "\<forall>r \<in> set (trace_rows (db_now (sl_db l)) (ae_trace_id ev)). er_idx r < idx" and p: "no_nul p"
    using append_state_effect [OF inv t es] unfolding p_def by blast
  let ?l = "l\<lparr>sl_trace_indices := (sl_trace_indices l)(ae_trace_id ev \<mapsto> idx + 1)\<rparr>"
  have run: "sqlite_log_append J ev l = insert_appended J ev idx p ?l"
    by (rule sqlite_log_append_state [OF st])
  obtain r l' where i: "insert_appended J ev idx p ?l = (r, l')" by (cases "insert_appended J ev idx p ?l")
  show ?thesis
  proof (cases r)
    case (Inl e)
    then have "l' = ?l" by (auto intro: insert_appended_cases [OF i])
    then show ?thesis using inv' Inl by (simp add: run i)
  next
    case (Inr u)
    then have "insert_appended J ev idx p ?l = (Inr (), l')" using i by simp
    with insert_effect [OF inv' ev _ p_def [symmetric] p idx(1), of "idx + 1"] es idx(2)
    have e: "sqlite_log_inv J l' \<and> (\<exists>r h. l' = log_with_row r ?l \<and> er_trace_id r = ae_trace_id ev \<and>
        row_to_event J r = Inr (ev\<lparr>ae_previous_hash := p, ae_event_hash := h\<rparr>))"
      by simp
    have "sl_db (log_with_row r ?l) = sl_db (log_with_row r l)" for r by (simp add: log_with_row_def)
    with e show ?thesis unfolding run i Inr by auto
  qed
qed

lemma trace_events_eq:
  assumes "sqlite_log_inv J l" "no_nul t"
  shows "result_map (row_to_event J) (trace_rows (db_now (sl_db l)) t) = Inr (trace_events J l t)"
proof -
  let ?c = "db_now (sl_db l)"
  have ok: "rows_ok J (sl_trace_indices l t) (trace_rows ?c t)"
    and tables: "prepare_error [''audit_events''] [''previous_hash'', ''event_hash''] ?c = None"
    using assms by (simp_all add: sqlite_log_inv_def Let_def prepare_error_None)
  then obtain es where "result_map (row_to_event J) (trace_rows ?c t) = Inr es" by (auto simp: rows_ok_def)
  then show ?thesis
    by (simp add: trace_events_def sqlite_log_query_def Let_def tables by_idx_id [OF ok])
qed

end

lemma length_result_map: "result_map f xs = Inr ys \<Longrightarrow> length ys = length xs"
  by (induction xs arbitrary: ys) (auto simp: result_bind_Inr_iff)

sublocale json_text \<subseteq> sqlite_store: audit_store J "sqlite_log_append J" "trace_events J" trace_ids_of
  "sqlite_log_inv J" "event_storable J" no_nul
proof
  fix l ev
  assume inv: "sqlite_log_inv J l" and ev: "event_storable J ev"
  note effect = append_effect [OF inv ev]
  let ?l = "snd (sqlite_log_append J ev l)"
  show inv': "sqlite_log_inv J ?l" using effect by blast
  show "\<exists>prev h. trace_events J ?l t = trace_events J l t @
      (if ae_trace_id ev = t \<and> fst (sqlite_log_append J ev l) = Inr ()
       then [ev\<lparr>ae_previous_hash := prev, ae_event_hash := h\<rparr>] else [])" if t: "no_nul t" for t
  proof (cases "fst (sqlite_log_append J ev l)")
    case (Inl e)
    then show ?thesis
      using effect trace_events_eq [OF inv t] trace_events_eq [OF inv' t] by simp
  next
    case (Inr u)
    then obtain r p h where r: "db_now (sl_db ?l) = (db_now (sl_db l))\<lparr>sc_audit_events := sc_audit_events (db_now (sl_db l)) @ [r]\<rparr>"
      "er_trace_id r = ae_trace_id ev" "row_to_event J r = Inr (ev\<lparr>ae_previous_hash := p, ae_event_hash := h\<rparr>)"
      using effect by (auto simp: log_with_row_def)
    have "trace_rows (db_now (sl_db ?l)) t = trace_rows (db_now (sl_db l)) t @ (if ae_trace_id ev = t then [r] else [])"
      using t by (simp add: r(1,2) trace_rows_append)
    then have "trace_events J ?l t = trace_events J l t @ (if ae_trace_id ev = t
        then [ev\<lparr>ae_previous_hash := p, ae_event_hash := h\<rparr>] else [])"
      using trace_events_eq [OF inv t] trace_events_eq [OF inv' t] r(3)
      by (auto simp: result_map_append split: if_splits)
    then show ?thesis using Inr by (intro exI [of _ p] exI [of _ h]) simp
  qed
next
  fix l t
  assume inv: "sqlite_log_inv J l" and t: "no_nul t"
  have ok: "rows_ok J (sl_trace_indices l t) (trace_rows (db_now (sl_db l)) t)"
    using inv t by (simp add: sqlite_log_inv_def Let_def)
  show "chain_ok J kGenesisHash (trace_events J l t)"
    using ok trace_events_eq [OF inv t] by (auto simp: rows_ok_def)
  have tables: "has_tables [''audit_events''] (sl_db l)"
    using inv by (simp add: sqlite_log_inv_def Let_def has_tables_def)
  have "t \<in> set (trace_ids_of l) \<longleftrightarrow> t \<in> er_trace_id ` set (sc_audit_events (db_now (sl_db l)))"
    by (simp add: trace_ids_of_def sqlite_log_list_trace_ids_def tables)
  also have "\<dots> \<longleftrightarrow> trace_rows (db_now (sl_db l)) t \<noteq> []"
    using t by (auto simp: trace_rows_def filter_empty_conv)
  also have "\<dots> \<longleftrightarrow> trace_events J l t \<noteq> []"
    using length_result_map [OF trace_events_eq [OF inv t]] by (metis length_0_conv)
  finally show "t \<in> set (trace_ids_of l) \<longleftrightarrow> trace_events J l t \<noteq> []" .
qed

section \<open>Restarts\<close>

text \<open>Each process opens a log of its own over the database the last one left.\<close>

definition open_log :: "sqlite_db \<Rightarrow> sqlite_log" where
  "open_log db = \<lparr>sl_db = db, sl_trace_indices = Map.empty\<rparr>"

fun log_sessions :: "'j json_api \<Rightarrow> audit_event list list \<Rightarrow> sqlite_log \<Rightarrow> sqlite_log" where
  "log_sessions J [] l = l"
| "log_sessions J (events # sessions) l =
     log_sessions J sessions (open_log (sl_db (store_appends (sqlite_log_append J) events l)))"

lemma inv_open_log: "sqlite_log_inv J l \<Longrightarrow> sqlite_log_inv J (open_log (sl_db l))"
  by (auto simp: sqlite_log_inv_def Let_def open_log_def rows_ok_def)

lemma inv_empty_log:
  "prepare_error [''audit_events''] [''previous_hash'', ''event_hash''] (db_now db) = None \<Longrightarrow>
     sc_audit_events (db_now db) = [] \<Longrightarrow> sqlite_log_inv J (open_log db)"
  by (simp add: sqlite_log_inv_def Let_def open_log_def rows_ok_def trace_rows_def prepare_error_None)

context json_text
begin

lemma sessions_inv:
  "sqlite_log_inv J l \<Longrightarrow> \<forall>events \<in> set sessions. \<forall>ev \<in> set events. event_storable J ev \<Longrightarrow>
     sqlite_log_inv J (log_sessions J sessions l)"
  by (induction sessions arbitrary: l) (simp_all add: inv_open_log sqlite_store.appends_inv)

lemmas sessions_verify = sqlite_store.query_verifies [OF sessions_inv]

end

section \<open>Properties\<close>

text \<open>C26. The SQLite audit log, like the in-memory one: whatever storable events are appended to an empty
  table, over any number of processes one after the other and with appends that throw in between, every
  trace verifies.\<close>

theorem sqlite_log_verifies:
  assumes "json_text J" "prepare_error [''audit_events''] [''previous_hash'', ''event_hash''] (db_now db) = None"
    and "sc_audit_events (db_now db) = []" "\<forall>events \<in> set sessions. \<forall>ev \<in> set events. event_storable J ev"
    and "no_nul trace_id"
  shows "verify_audit_chain J (trace_events J (log_sessions J sessions (open_log db)) trace_id) =
    Inr \<lparr>cv_valid = True,
         cv_first_invalid_index = length (trace_events J (log_sessions J sessions (open_log db)) trace_id),
         cv_error = []\<rparr>"
  by (rule json_text.sessions_verify [OF assms(1) inv_empty_log [OF assms(2,3)] assms(4,5)])

theorem sqlite_log_verifies_witness:
  "\<exists>n. verify_audit_chain text_json (trace_events text_json
       (log_sessions text_json [[sample_event ''a''], [sample_event ''b'']] (open_log migrated_database)) ''t1'') =
     Inr \<lparr>cv_valid = True, cv_first_invalid_index = n, cv_error = []\<rparr>"
  by (rule exI, rule sqlite_log_verifies [OF printed.json_text_axioms])
    (simp_all add: prepare_error_None migrated_database_def empty_content_def schema_of_def kSchemaV1_def
      event_storable_def sample_event_def no_nul_def)

text \<open>Rows without hashes: the chain of their trace is rejected at its first event.\<close>

lemma hashless_rejected:
  assumes "trace_rows c trace_id \<noteq> []" "\<forall>r \<in> set (trace_rows c trace_id). er_previous_hash r = []"
    and "result_map (row_to_event J) (by_idx (trace_rows c trace_id)) = Inr events"
  shows "\<exists>r. verify_audit_chain J events = Inr r \<and> \<not> cv_valid r \<and> cv_first_invalid_index r = 0"
proof -
  have "set (by_idx (trace_rows c trace_id)) = set (trace_rows c trace_id)" by (simp add: by_idx_def)
  then obtain r rs where r: "by_idx (trace_rows c trace_id) = r # rs" "er_previous_hash r = []"
    using assms(1,2) by (cases "by_idx (trace_rows c trace_id)") auto
  then obtain e es' where e: "events = e # es'" "ae_previous_hash e = []"
    using assms(3) by (auto simp: result_bind_Inr_iff row_to_event_def)
  then show ?thesis by (simp add: verify_audit_chain_def kGenesisHash_def)
qed

lemma migrated_rows:
  assumes "migrated v (db_now db)" "v < 8" "ensure_schema_v8 db = (r, db')"
  shows "\<exists>c. r = Inr True \<and> db' = db\<lparr>db_now := c\<rparr> \<and> migrated 8 c \<and>
    prepare_error [''audit_events''] [''previous_hash'', ''event_hash''] c = None \<and>
    sc_audit_events c = map (\<lambda>r. r\<lparr>er_previous_hash := [], er_event_hash := []\<rparr>) (sc_audit_events (db_now db))"
proof -
  obtain c where c: "r = Inr True" "db' = db\<lparr>db_now := c\<rparr>" "migrated 8 c" and
    rows: "sc_audit_events c = map (\<lambda>r. r\<lparr>er_previous_hash := [], er_event_hash := []\<rparr>) (sc_audit_events (db_now db))"
    using ensure_schema_v8 [OF assms(1)] assms(2,3) by auto
  have "''audit_events'' \<in> set (sc_tables c)"
    by (rule migrated_table [OF c(3), of _ 1]) (simp_all add: schema_of_def kSchemaV1_def)
  then have "prepare_error [''audit_events''] [''previous_hash'', ''event_hash''] c = None"
    using c(3) by (simp add: prepare_error_None migrated_def)
  then show ?thesis using c rows by blast
qed

text \<open>The rows written before version 8 carry no hashes: after the migration the chain of such a trace is
  rejected at its first event (\<open>Startup\<close> shows what this does to the start of the server).\<close>

theorem migrated_traces_rejected:
  assumes "migrated v (db_now db)" "v < 8" "ensure_schema_v8 db = (Inr True, db')"
    and "trace_rows (db_now db) trace_id \<noteq> []"
    and "sqlite_log_query J trace_id (open_log db') = (Inr events, l)"
  shows "\<exists>r. verify_audit_chain J events = Inr r \<and> \<not> cv_valid r \<and> cv_first_invalid_index r = 0"
proof -
  obtain c where c: "db' = db\<lparr>db_now := c\<rparr>"
    "prepare_error [''audit_events''] [''previous_hash'', ''event_hash''] c = None" and
    rows: "sc_audit_events c = map (\<lambda>r. r\<lparr>er_previous_hash := [], er_event_hash := []\<rparr>) (sc_audit_events (db_now db))"
    using migrated_rows [OF assms(1-3)] by blast
  have "trace_rows c trace_id = map (\<lambda>r. r\<lparr>er_previous_hash := [], er_event_hash := []\<rparr>) (trace_rows (db_now db) trace_id)"
    by (simp add: trace_rows_def rows filter_map comp_def)
  then have "trace_rows c trace_id \<noteq> []" "\<forall>r \<in> set (trace_rows c trace_id). er_previous_hash r = []"
    using assms(4) by auto
  moreover have "result_map (row_to_event J) (by_idx (trace_rows c trace_id)) = Inr events"
    using assms(5) by (simp add: sqlite_log_query_def open_log_def c)
  ultimately show ?thesis by (rule hashless_rejected)
qed

definition old_database :: sqlite_db where
  "old_database =
     \<lparr>db_now = empty_content\<lparr>sc_tables := concat (map schema_of [1, 2, 3, 4, 5, 6, 7]),
        sc_schema_version := [1, 2, 3, 4, 5, 6, 7],
        sc_audit_events := [\<lparr>er_event_id = ''e'', er_trace_id = ''t'', er_event_type = ''RunStarted'',
          er_payload = [], er_created_at = [], er_entity_ids_json = enc_tree (TArray []), er_idx = 0,
          er_previous_hash = [], er_event_hash = []\<rparr>]\<rparr>, db_saved = None\<rparr>"

lemma old_database_migrated: "migrated 7 (db_now old_database)"
  by (auto simp: migrated_def old_database_def empty_content_def schema_of_def atLeastAtMostSuc_conv numeral_eq_Suc)

theorem migrated_traces_rejected_witness:
  "\<exists>db' events r. ensure_schema_v8 old_database = (Inr True, db') \<and>
     fst (sqlite_log_query tree_json ''t'' (open_log db')) = Inr events \<and>
     verify_audit_chain tree_json events = Inr r \<and> \<not> cv_valid r"
proof -
  note old = old_database_migrated
  obtain c where c: "ensure_schema_v8 old_database = (Inr True, old_database\<lparr>db_now := c\<rparr>)" "migrated 8 c"
    "sc_audit_events c = map (\<lambda>r. r\<lparr>er_previous_hash := [], er_event_hash := []\<rparr>) (sc_audit_events (db_now old_database))"
    using ensure_schema_v8 [OF old] by auto
  have parse: "tags_of_text tree_json (enc_tree (TArray [])) = Inr []"
    using tree.parse_dump [of "TArray []" "enc_tree (TArray [])"] by (simp add: tags_of_text_def tree_json_def)
  have "\<exists>es. result_map (row_to_event tree_json) (by_idx (trace_rows c ''t'')) = Inr es"
    by (simp add: trace_rows_def c(3) old_database_def c_str_def by_idx_def row_to_event_def parse del: enc_tree.simps)
  then obtain events where q: "sqlite_log_query tree_json ''t'' (open_log (old_database\<lparr>db_now := c\<rparr>)) =
      (Inr events, open_log (old_database\<lparr>db_now := c\<rparr>))"
    by (cases "prepare_error [''audit_events''] [''previous_hash'', ''event_hash''] c = None")
      (auto simp: sqlite_log_query_def open_log_def)
  have "trace_rows (db_now old_database) ''t'' \<noteq> []"
    by (simp add: trace_rows_def old_database_def c_str_def)
  from migrated_traces_rejected [OF old _ c(1) this q] c(1) q show ?thesis by auto
qed

end
