(* ===== verification/Clock.thy ===== *)
theory Clock
  imports Ccmcp_Prelude
begin

text \<open>
  The clocks (\<open>src/core/clock.cpp\<close>, \<open>include/ccmcp/core/time.h\<close>). What the system's clock
  reads is a parameter, in nanoseconds since 1970 (never before it); its cut to seconds, the calendar that
  \<open>std::gmtime\<close> computes and the text that \<open>std::put_time\<close> prints are written out. The text is
  ordered as the seconds are, which the queries that order rows by a time stamp rely on.
\<close>

section \<open>The calendar of std::gmtime\<close>

record tm =
  tm_year :: nat
  tm_mon :: nat
  tm_mday :: nat
  tm_hour :: nat
  tm_min :: nat
  tm_sec :: nat

definition leap_year :: "nat \<Rightarrow> bool" where
  "leap_year y \<longleftrightarrow> 4 dvd y \<and> (\<not> 100 dvd y \<or> 400 dvd y)"

definition year_len :: "nat \<Rightarrow> nat" where
  "year_len y = (if leap_year y then 366 else 365)"

definition month_lens :: "nat \<Rightarrow> nat list" where
  "month_lens y = [31, if leap_year y then 29 else 28, 31, 30, 31, 30, 31, 31, 30, 31, 30, 31]"

lemma year_len_pos: "0 < year_len y"
  by (simp add: year_len_def)

text \<open>The year of a day counted from the first of January of the year \<open>y\<close>, and the day in that year.\<close>

function year_of :: "nat \<Rightarrow> nat \<Rightarrow> nat \<times> nat" where
  "year_of y d = (if d < year_len y then (y, d) else year_of (y + 1) (d - year_len y))"
  by auto
termination
proof (relation "measure snd")
  fix y d assume "\<not> d < year_len y"
  then show "((y + 1, d - year_len y), (y, d)) \<in> measure snd" using year_len_pos [of y] by simp
qed simp

declare year_of.simps [simp del]

fun month_of :: "nat list \<Rightarrow> nat \<Rightarrow> nat \<Rightarrow> nat \<times> nat" where
  "month_of [] m d = (m, d)"
| "month_of (n # ns) m d = (if d < n then (m, d) else month_of ns (m + 1) (d - n))"

definition gmtime :: "nat \<Rightarrow> tm" where
  "gmtime secs =
     (let (y, yday) = year_of 1970 (secs div 86400); (m, d) = month_of (month_lens y) 1 yday; s = secs mod 86400
      in \<lparr>tm_year = y, tm_mon = m, tm_mday = d + 1, tm_hour = s div 3600, tm_min = s mod 3600 div 60, tm_sec = s mod 60\<rparr>)"

section \<open>The clocks\<close>

text \<open>\<open>%Y-%m-%dT%H:%M:%SZ\<close>\<close>

definition put_time :: "tm \<Rightarrow> string" where
  "put_time t = to_string_nat (tm_year t) @ ''-'' @ setw0 2 (to_string_nat (tm_mon t)) @ ''-'' @
     setw0 2 (to_string_nat (tm_mday t)) @ ''T'' @ setw0 2 (to_string_nat (tm_hour t)) @ '':'' @
     setw0 2 (to_string_nat (tm_min t)) @ '':'' @ setw0 2 (to_string_nat (tm_sec t)) @ ''Z''"

text \<open>The readings of the system's clock are the argument: its \<open>n\<close>-th use reads \<open>readings n\<close>.\<close>

definition to_time_t :: "nat \<Rightarrow> nat" where
  "to_time_t nanoseconds = nanoseconds div 1000000000"

definition to_unix_millis :: "nat \<Rightarrow> nat" where
  "to_unix_millis nanoseconds = nanoseconds div 1000000"

definition system_clock :: "(nat \<Rightarrow> nat) \<Rightarrow> nat \<Rightarrow> string" where
  "system_clock readings n = put_time (gmtime (to_time_t (readings n)))"

definition fixed_clock :: "string \<Rightarrow> nat \<Rightarrow> string" where
  "fixed_clock fixed_time n = fixed_time"

section \<open>The calendar is monotone\<close>

text \<open>The days before the year \<open>y\<close>.\<close>

definition days_before :: "nat \<Rightarrow> int" where
  "days_before y = 365 * int y + int ((y + 3) div 4) + int ((y + 399) div 400) - int ((y + 99) div 100)"

lemma div_step: "(y + 1 + k) div (k + 1) = (y + k) div (k + 1) + (if k + 1 dvd y then 1 else 0)" for k y :: nat
proof -
  have "(y + 1 + k) mod (k + 1) = y mod (k + 1)" using mod_add_self2 [of y "k + 1"] by (simp add: ac_simps)
  moreover have "y + 1 + k = Suc (y + k)" by simp
  ultimately show ?thesis using div_Suc [of "y + k" "k + 1"] by (simp add: dvd_eq_mod_eq_0)
qed

lemma leap_dvd: "400 dvd y \<Longrightarrow> 100 dvd y" "100 dvd y \<Longrightarrow> 4 dvd y" for y :: nat
  using dvd_trans [of 100 400 y] dvd_trans [of 4 100 y] by simp_all

lemma days_before_step: "days_before (y + 1) = days_before y + int (year_len y)"
proof -
  define a b c where "a = (y + 3) div 4" and "b = (y + 99) div 100" and "c = (y + 399) div 400"
  have "(y + 1 + 3) div 4 = a + (if 4 dvd y then 1 else 0)" using div_step [of y 3] by (simp add: a_def)
  moreover have "(y + 1 + 99) div 100 = b + (if 100 dvd y then 1 else 0)" using div_step [of y 99] by (simp add: b_def)
  moreover have "(y + 1 + 399) div 400 = c + (if 400 dvd y then 1 else 0)" using div_step [of y 399] by (simp add: c_def)
  ultimately have "days_before (y + 1) = 365 * int (y + 1) + int (a + (if 4 dvd y then 1 else 0)) +
      int (c + (if 400 dvd y then 1 else 0)) - int (b + (if 100 dvd y then 1 else 0))"
    by (simp only: days_before_def)
  moreover have "days_before y = 365 * int y + int a + int c - int b" by (simp add: days_before_def a_def b_def c_def)
  ultimately show ?thesis
    using leap_dvd [of y] by (cases "4 dvd y"; cases "100 dvd y"; cases "400 dvd y") (simp_all add: year_len_def leap_year_def)
qed

lemma year_of_days:
  "year_of y d = (y', r) \<Longrightarrow> days_before y + int d = days_before y' + int r \<and> r < year_len y' \<and> y \<le> y'"
proof (induction y d rule: year_of.induct)
  case (1 y d)
  show ?case
  proof (cases "d < year_len y")
    case True
    then show ?thesis using "1.prems" by (simp add: year_of.simps [of y])
  next
    case False
    then have "year_of (y + 1) (d - year_len y) = (y', r)" using "1.prems" by (simp add: year_of.simps [of y])
    from "1.IH" [OF False this] False show ?thesis using days_before_step [of y] by simp
  qed
qed

lemma days_before_mono: "y \<le> y' \<Longrightarrow> days_before y \<le> days_before y'"
proof (induction rule: dec_induct)
  case (step n)
  then show ?case using days_before_step [of n] by simp
qed simp

lemma year_of_mono:
  assumes "year_of y d = (a, r)" "year_of y d' = (a', r')" "d < d'"
  shows "a < a' \<or> a = a' \<and> r < r'"
proof -
  note a = year_of_days [OF assms(1)] year_of_days [OF assms(2)]
  have "a \<le> a'"
  proof (rule ccontr)
    assume "\<not> a \<le> a'"
    then have "days_before (a' + 1) \<le> days_before a" by (intro days_before_mono) simp
    then show False using a assms(3) days_before_step [of a'] by simp
  qed
  then show ?thesis using a assms(3) by (cases "a = a'") auto
qed

lemma month_of_ge: "month_of ns m d = (a, r) \<Longrightarrow> m \<le> a"
  by (induction ns m d rule: month_of.induct) (auto split: if_splits)

lemma month_of_mono:
  "month_of ns m d = (a, r) \<Longrightarrow> month_of ns m d' = (a', r') \<Longrightarrow> d < d' \<Longrightarrow> a < a' \<or> a = a' \<and> r < r'"
proof (induction ns m d arbitrary: d' rule: month_of.induct)
  case (2 n ns m d)
  show ?case
  proof (cases "d < n")
    case True
    then show ?thesis using 2 month_of_ge [of ns "m + 1" "d' - n" a' r'] by (auto split: if_splits)
  next
    case False
    then show ?thesis using 2(1) [of "d' - n"] 2(2-4) by simp
  qed
qed simp

lemma month_of_bounds:
  "month_of ns m d = (a, r) \<Longrightarrow> d < sum_list ns \<Longrightarrow> a < m + length ns \<and> (\<exists>n \<in> set ns. r < n)"
  by (induction ns m d rule: month_of.induct) (fastforce split: if_splits)+

lemma sum_month_lens: "sum_list (month_lens y) = year_len y"
  by (simp add: month_lens_def year_len_def)

lemma month_lens_bounds: "length (month_lens y) = 12" "\<forall>n \<in> set (month_lens y). n \<le> 31"
  by (simp_all add: month_lens_def)

lemma gmtime_bounds:
  "1 \<le> tm_mon (gmtime s)" "tm_mon (gmtime s) \<le> 12" "tm_mday (gmtime s) \<le> 31" "tm_hour (gmtime s) < 24" "tm_min (gmtime s) < 60"
  "tm_sec (gmtime s) < 60" "1970 \<le> tm_year (gmtime s)"
  "s < 253402300800 \<Longrightarrow> tm_year (gmtime s) \<le> 9999"
proof -
  obtain y r where y: "year_of 1970 (s div 86400) = (y, r)" by fastforce
  obtain m d where m: "month_of (month_lens y) 1 r = (m, d)" by fastforce
  have t: "gmtime s = \<lparr>tm_year = y, tm_mon = m, tm_mday = d + 1, tm_hour = s mod 86400 div 3600,
      tm_min = s mod 86400 mod 3600 div 60, tm_sec = s mod 86400 mod 60\<rparr>"
    by (simp add: gmtime_def y m [unfolded One_nat_def] Let_def)
  note days = year_of_days [OF y]
  have b: "m < 13" "d < 31"
    using month_of_bounds [OF m] days month_lens_bounds [of y] by (auto simp: sum_month_lens)
  have "s mod 86400 div 3600 < 24" by (simp add: div_less_iff_less_mult)
  then show "1 \<le> tm_mon (gmtime s)" "tm_mon (gmtime s) \<le> 12" "tm_mday (gmtime s) \<le> 31" "tm_hour (gmtime s) < 24"
    "tm_min (gmtime s) < 60" "tm_sec (gmtime s) < 60" "1970 \<le> tm_year (gmtime s)"
    using b month_of_ge [OF m] days by (simp_all add: t div_less_iff_less_mult)
  assume "s < 253402300800"
  then have "s div 86400 < 2932897" by simp
  moreover have "days_before 1970 + 2932897 = days_before 10000" by (simp add: days_before_def)
  ultimately have "\<not> 10000 \<le> y" using days days_before_mono [of 10000 y] by auto
  then show "tm_year (gmtime s) \<le> 9999" by (simp add: t)
qed

text \<open>Calendar times in the order of their fields.\<close>

definition tm_less :: "tm \<Rightarrow> tm \<Rightarrow> bool" where
  "tm_less t u \<longleftrightarrow> tm_year t < tm_year u \<or> tm_year t = tm_year u \<and>
     (tm_mon t < tm_mon u \<or> tm_mon t = tm_mon u \<and>
     (tm_mday t < tm_mday u \<or> tm_mday t = tm_mday u \<and>
     (tm_hour t < tm_hour u \<or> tm_hour t = tm_hour u \<and>
     (tm_min t < tm_min u \<or> tm_min t = tm_min u \<and> tm_sec t < tm_sec u))))"

lemma div_mod_less: "a < b \<Longrightarrow> a div k < b div k \<or> a div k = b div k \<and> a mod k < b mod k" for a b k :: nat
proof -
  assume "a < b"
  then have "a div k \<le> b div k" by (intro div_le_mono less_imp_le)
  moreover have "a div k = b div k \<Longrightarrow> a mod k < b mod k"
    using \<open>a < b\<close> div_mult_mod_eq [of a k] div_mult_mod_eq [of b k] by (metis nat_add_left_cancel_less)
  ultimately show ?thesis by linarith
qed

lemma gmtime_mono:
  assumes "s < t"
  shows "tm_less (gmtime s) (gmtime t)"
proof -
  obtain y r where y: "year_of 1970 (s div 86400) = (y, r)" by fastforce
  obtain y' r' where y': "year_of 1970 (t div 86400) = (y', r')" by fastforce
  obtain m d where m: "month_of (month_lens y) (Suc 0) r = (m, d)" by fastforce
  obtain m' d' where m': "month_of (month_lens y') (Suc 0) r' = (m', d')" by fastforce
  let ?a = "s mod 86400" and ?b = "t mod 86400"
  have g: "gmtime s = \<lparr>tm_year = y, tm_mon = m, tm_mday = d + 1, tm_hour = ?a div 3600, tm_min = ?a mod 3600 div 60,
      tm_sec = ?a mod 60\<rparr>"
    "gmtime t = \<lparr>tm_year = y', tm_mon = m', tm_mday = d' + 1, tm_hour = ?b div 3600, tm_min = ?b mod 3600 div 60,
      tm_sec = ?b mod 60\<rparr>"
    by (simp_all add: gmtime_def y y' m m' Let_def)
  consider "s div 86400 < t div 86400" | "s div 86400 = t div 86400" "?a < ?b"
    using div_mod_less [OF assms, of 86400] by blast
  then show ?thesis
  proof cases
    case 1
    from year_of_mono [OF y y' 1] show ?thesis
    proof
      assume "y < y'"
      then show ?thesis unfolding tm_less_def g tm.select_convs by blast
    next
      assume e: "y = y' \<and> r < r'"
      then have "month_of (month_lens y) (Suc 0) r' = (m', d')" using m' by simp
      with month_of_mono [OF m this] e have "y = y' \<and> (m < m' \<or> m = m' \<and> d + 1 < d' + 1)" by simp
      then show ?thesis unfolding tm_less_def g tm.select_convs by blast
    qed
  next
    case 2
    then have e: "y = y' \<and> m = m' \<and> d + 1 = d' + 1" using y y' m m' by simp
    have "?a mod 3600 mod 60 = ?a mod 60" "?b mod 3600 mod 60 = ?b mod 60" by (simp_all add: mod_mod_cancel)
    then have "?a div 3600 < ?b div 3600 \<or> ?a div 3600 = ?b div 3600 \<and> (?a mod 3600 div 60 < ?b mod 3600 div 60 \<or>
        ?a mod 3600 div 60 = ?b mod 3600 div 60 \<and> ?a mod 60 < ?b mod 60)"
      using div_mod_less [OF 2(2), of 3600] div_mod_less [of "?a mod 3600" "?b mod 3600" 60] by metis
    with e show ?thesis unfolding tm_less_def g tm.select_convs by blast
  qed
qed

section \<open>The texts\<close>

text \<open>The last \<open>k\<close> decimal digits.\<close>

fun decimal :: "nat \<Rightarrow> nat \<Rightarrow> string" where
  "decimal 0 n = []"
| "decimal (Suc k) n = decimal k (n div 10) @ [digit_char (n mod 10)]"

lemma length_decimal [simp]: "length (decimal k n) = k"
  by (induction k arbitrary: n) auto

lemma digit_char_zero [simp]: "digit_char 0 = CHR ''0''"
  by code_simp

lemma decimal_zero: "decimal k 0 = replicate k CHR ''0''"
  by (induction k) (auto simp: replicate_append_same)

lemma decimal_full: "10 ^ k \<le> n \<Longrightarrow> n < 10 ^ Suc k \<Longrightarrow> to_string_nat n = decimal (Suc k) n"
proof (induction k arbitrary: n)
  case 0
  then show ?case by (simp add: to_string_nat.simps [of n])
next
  case (Suc k)
  have "10 \<le> n" using Suc.prems(1) by (rule order_trans [rotated]) simp
  moreover have "10 ^ k \<le> n div 10" "n div 10 < 10 ^ Suc k" using Suc.prems by (auto simp: less_eq_div_iff_mult_less_eq div_less_iff_less_mult)
  ultimately show ?case using Suc.IH [of "n div 10"] by (simp add: to_string_nat.simps [of n])
qed

lemma setw0_decimal: "n < 10 ^ Suc k \<Longrightarrow> setw0 (Suc k) (to_string_nat n) = decimal (Suc k) n"
proof (induction k arbitrary: n)
  case 0
  then show ?case by (simp add: to_string_nat.simps [of n] setw0_def)
next
  case (Suc k)
  show ?case
  proof (cases "n < 10")
    case True
    then show ?thesis by (simp add: to_string_nat.simps [of n] setw0_def decimal_zero)
  next
    case False
    have "n div 10 < 10 ^ Suc k" using Suc.prems by (simp add: div_less_iff_less_mult)
    from Suc.IH [OF this] False show ?thesis by (simp add: to_string_nat.simps [of n] setw0_def)
  qed
qed

lemma append_less: "length xs = length ys \<Longrightarrow> xs @ us < ys @ vs \<longleftrightarrow> xs < ys \<or> xs = ys \<and> us < vs"
  for xs :: "'a::linorder list"
  by (induction xs ys rule: list_induct2) auto

lemma digit_char_less: "a < 10 \<Longrightarrow> b < 10 \<Longrightarrow> digit_char a < digit_char b \<longleftrightarrow> a < b"
  by (simp add: less_char_def of_char_digit_char)

lemma digit_char_eq: "a < 10 \<Longrightarrow> b < 10 \<Longrightarrow> digit_char a = digit_char b \<longleftrightarrow> a = b"
  by (metis digit_value_digit_char)

lemma decimal_eq: "m < 10 ^ k \<Longrightarrow> n < 10 ^ k \<Longrightarrow> decimal k m = decimal k n \<longleftrightarrow> m = n"
proof (induction k arbitrary: m n)
  case (Suc k)
  have "m div 10 < 10 ^ k" "n div 10 < 10 ^ k" using Suc.prems by (simp_all add: div_less_iff_less_mult)
  from Suc.IH [OF this] show ?case by (auto simp: digit_char_eq) (metis div_mult_mod_eq)
qed simp

lemma decimal_less: "m < 10 ^ k \<Longrightarrow> n < 10 ^ k \<Longrightarrow> decimal k m < decimal k n \<longleftrightarrow> m < n"
proof (induction k arbitrary: m n)
  case (Suc k)
  have b: "m div 10 < 10 ^ k" "n div 10 < 10 ^ k" using Suc.prems by (simp_all add: div_less_iff_less_mult)
  have "m < n \<longleftrightarrow> m div 10 < n div 10 \<or> m div 10 = n div 10 \<and> m mod 10 < n mod 10"
    using div_mod_less [of m n 10] div_mod_less [of n m 10] by (metis less_asym linorder_neqE_nat)
  then show ?case using Suc.IH [OF b] decimal_eq [OF b] by (simp add: append_less digit_char_less)
qed simp

definition tm_in_range :: "tm \<Rightarrow> bool" where
  "tm_in_range t \<longleftrightarrow> 1000 \<le> tm_year t \<and> tm_year t \<le> 9999 \<and> tm_mon t < 100 \<and> tm_mday t < 100 \<and> tm_hour t < 100 \<and>
     tm_min t < 100 \<and> tm_sec t < 100"

lemma put_time_decimal:
  "tm_in_range t \<Longrightarrow> put_time t = decimal 4 (tm_year t) @ CHR ''-'' # decimal 2 (tm_mon t) @ CHR ''-'' #
     decimal 2 (tm_mday t) @ CHR ''T'' # decimal 2 (tm_hour t) @ CHR '':'' # decimal 2 (tm_min t) @ CHR '':'' #
     decimal 2 (tm_sec t) @ ''Z''"
proof -
  assume t: "tm_in_range t"
  have "to_string_nat (tm_year t) = decimal 4 (tm_year t)"
    using decimal_full [of 3 "tm_year t"] t by (simp add: tm_in_range_def del: decimal.simps)
  moreover have "setw0 2 (to_string_nat n) = decimal 2 n" if "n < 100" for n
    using setw0_decimal [of n 1] that by (simp add: numeral_2_eq_2 del: decimal.simps)
  ultimately show ?thesis using t unfolding put_time_def tm_in_range_def by (simp del: decimal.simps)
qed

lemma put_time_less: "tm_in_range t \<Longrightarrow> tm_in_range u \<Longrightarrow> put_time t < put_time u \<longleftrightarrow> tm_less t u"
  unfolding put_time_decimal tm_less_def
  by (simp add: append_less decimal_less decimal_eq tm_in_range_def del: decimal.simps)

lemma gmtime_in_range: "s < 253402300800 \<Longrightarrow> tm_in_range (gmtime s)"
  using gmtime_bounds [of s] by (simp add: tm_in_range_def)

lemma timestamp_length: "s < 253402300800 \<Longrightarrow> length (put_time (gmtime s)) = 20"
  by (simp add: put_time_decimal gmtime_in_range)

lemma timestamp_less:
  assumes "s < 253402300800" "t < 253402300800"
  shows "put_time (gmtime s) < put_time (gmtime t) \<longleftrightarrow> s < t"
proof -
  have mono: "put_time (gmtime a) < put_time (gmtime b)" if "a < b" "b < 253402300800" for a b
    using that gmtime_mono put_time_less gmtime_in_range by simp
  then show ?thesis using assms by (metis less_asym linorder_neqE_nat less_irrefl)
qed

end
