(* ===== verification/Index_Runs.thy ===== *)
theory Index_Runs
  imports Sqlite_Joins Clock
begin

text \<open>
  Index runs and entries (\<open>include/ccmcp/indexing/index_run.h\<close>, \<open>src/indexing/index_run.cpp\<close>) and
  their store (\<open>src/storage/sqlite/sqlite_index_run_store.cpp\<close>): the run records, the entries with
  their foreign key, the persistent counter of the run identifiers, and the query for the last source hash
  of an artifact. The lemmas give what that query answers after a run completes, and when identifiers are
  unique.
\<close>

section \<open>Runs and entries\<close>

datatype index_run_status = kPending | kRunning | kCompleted | kFailed

record index_run =
  xr_run_id :: string
  xr_started_at :: "string option"
  xr_completed_at :: "string option"
  xr_provider_id :: string
  xr_model_id :: string
  xr_prompt_version :: string
  xr_status :: index_run_status
  xr_summary_json :: string

record index_entry =
  xe_run_id :: string
  xe_artifact_type :: string
  xe_artifact_id :: string
  xe_source_hash :: string
  xe_vector_hash :: string
  xe_indexed_at :: "string option"

fun index_run_status_to_string :: "index_run_status \<Rightarrow> string" where
  "index_run_status_to_string kPending = ''pending''"
| "index_run_status_to_string kRunning = ''running''"
| "index_run_status_to_string kCompleted = ''completed''"
| "index_run_status_to_string kFailed = ''failed''"

definition index_run_status_from_string :: "string \<Rightarrow> (string, index_run_status) result" where
  "index_run_status_from_string s =
     (if s = ''pending'' then Inr kPending
      else if s = ''running'' then Inr kRunning
      else if s = ''completed'' then Inr kCompleted
      else if s = ''failed'' then Inr kFailed
      else Inl (''Unknown IndexRunStatus: '' @ s))"

lemma index_run_status_roundtrip [simp]:
  "index_run_status_from_string (index_run_status_to_string st) = Inr st"
  by (cases st) (simp_all add: index_run_status_from_string_def)

section \<open>The store\<close>

definition run_to_row :: "index_run \<Rightarrow> run_row" where
  "run_to_row run =
     \<lparr>rr_started_at = map_option c_str (xr_started_at run), rr_completed_at = map_option c_str (xr_completed_at run),
      rr_provider_id = c_str (xr_provider_id run), rr_model_id = c_str (xr_model_id run),
      rr_prompt_version = c_str (xr_prompt_version run),
      rr_status = index_run_status_to_string (xr_status run), rr_summary_json = c_str (xr_summary_json run)\<rparr>"

definition sqlite_upsert_run :: "index_run \<Rightarrow> unit sql_action" where
  "sqlite_upsert_run run db =
     (if \<not> has_tables [''index_runs''] db then (Inr (), db)
      else sql_update (sc_index_runs_update (omap_insert (c_str (xr_run_id run)) (run_to_row run))) db)"

definition entry_to_row :: "index_entry \<Rightarrow> entry_row" where
  "entry_to_row entry =
     \<lparr>ny_source_hash = c_str (xe_source_hash entry), ny_vector_hash = c_str (xe_vector_hash entry),
      ny_indexed_at = map_option c_str (xe_indexed_at entry)\<rparr>"

text \<open>The foreign key: an entry of a run that is not stored is refused.\<close>

definition insert_entry :: "index_entry \<Rightarrow> sqlite_content \<Rightarrow> sqlite_content option" where
  "insert_entry entry c =
     (if c_str (xe_run_id entry) \<notin> fst ` set (sc_index_runs c) then None
      else Some (c\<lparr>sc_index_entries := omap_insert
        (c_str (xe_run_id entry), c_str (xe_artifact_type entry), c_str (xe_artifact_id entry))
        (entry_to_row entry) (sc_index_entries c)\<rparr>))"

definition sqlite_upsert_entry :: "index_entry \<Rightarrow> unit sql_action" where
  "sqlite_upsert_entry entry db =
     (if \<not> has_tables [''index_entries''] db then (Inr (), db)
      else act_bind (sql_step (insert_entry entry)) (\<lambda>_. act_return ()) db)"

definition row_to_run :: "string \<Rightarrow> run_row \<Rightarrow> (string, index_run) result" where
  "row_to_run key row =
     result_bind (index_run_status_from_string (rr_status row)) (\<lambda>st.
       Inr \<lparr>xr_run_id = key, xr_started_at = rr_started_at row, xr_completed_at = rr_completed_at row,
            xr_provider_id = rr_provider_id row, xr_model_id = rr_model_id row,
            xr_prompt_version = rr_prompt_version row, xr_status = st, xr_summary_json = rr_summary_json row\<rparr>)"

definition row_to_entry :: "string \<times> string \<times> string \<Rightarrow> entry_row \<Rightarrow> index_entry" where
  "row_to_entry key row =
     (case key of (run_id, artifact_type, artifact_id) \<Rightarrow>
        \<lparr>xe_run_id = run_id, xe_artifact_type = artifact_type, xe_artifact_id = artifact_id,
         xe_source_hash = ny_source_hash row, xe_vector_hash = ny_vector_hash row,
         xe_indexed_at = ny_indexed_at row\<rparr>)"

definition sqlite_get_run :: "string \<Rightarrow> index_run option sql_action" where
  "sqlite_get_run run_id =
     sql_query [''index_runs''] None (\<lambda>c.
       case map_of (sc_index_runs c) (c_str run_id) of
         None \<Rightarrow> Inr None
       | Some row \<Rightarrow> result_bind (row_to_run (c_str run_id) row) (\<lambda>run. Inr (Some run)))"

definition sqlite_list_runs :: "index_run list sql_action" where
  "sqlite_list_runs =
     sql_query [''index_runs''] [] (\<lambda>c. result_map (\<lambda>(key, row). row_to_run key row) (sc_index_runs c))"

definition sqlite_get_entries_for_run :: "string \<Rightarrow> index_entry list sql_action" where
  "sqlite_get_entries_for_run run_id =
     sql_query [''index_entries''] [] (\<lambda>c.
       Inr (map (\<lambda>(key, row). row_to_entry key row)
         (filter (\<lambda>(key, row). fst key = c_str run_id) (sc_index_entries c))))"

text \<open>The rows of the join: the completion time of the run and the source hash of the entry.\<close>

definition completed_rows ::
  "string \<Rightarrow> string \<Rightarrow> string \<Rightarrow> string \<Rightarrow> string \<Rightarrow> sqlite_content \<Rightarrow> (string option \<times> string) list" where
  "completed_rows artifact_id artifact_type provider_id model_id prompt_version c =
     concat (map (\<lambda>((run_id, atype, aid), entry).
       case map_of (sc_index_runs c) run_id of
         None \<Rightarrow> []
       | Some run \<Rightarrow>
           (if aid = c_str artifact_id \<and> atype = c_str artifact_type \<and> rr_provider_id run = c_str provider_id \<and>
               rr_model_id run = c_str model_id \<and> rr_prompt_version run = c_str prompt_version \<and>
               rr_status run = ''completed''
            then [(rr_completed_at run, ny_source_hash entry)] else [])) (sc_index_entries c))"

text \<open>\<open>ORDER BY completed_at DESC LIMIT 1\<close>: which of the rows with the latest time comes first is the
  engine's choice, the parameter \<open>first\<close>.\<close>

definition latest :: "(string option \<times> string) list \<Rightarrow> string list" where
  "latest rs = map snd (filter (\<lambda>r. \<forall>r' \<in> set rs. fst r' \<le> fst r) rs)"

definition sqlite_last_source_hash ::
  "(string list \<Rightarrow> string) \<Rightarrow> string \<Rightarrow> string \<Rightarrow> string \<Rightarrow> string \<Rightarrow> string \<Rightarrow> string option sql_action" where
  "sqlite_last_source_hash first artifact_id artifact_type provider_id model_id prompt_version =
     sql_query [''index_entries'', ''index_runs''] None (\<lambda>c.
       case completed_rows artifact_id artifact_type provider_id model_id prompt_version c of
         [] \<Rightarrow> Inr None
       | r # rs \<Rightarrow> Inr (Some (first (latest (r # rs)))))"

definition sqlite_next_index_run_id :: "string sql_action" where
  "sqlite_next_index_run_id db =
     (case sql_begin db of
        (Inl e, db1) \<Rightarrow> (Inl (''next_index_run_id: failed to begin transaction: '' @ e), db1)
      | (Inr _, db1) \<Rightarrow>
          if \<not> has_tables [''id_counters''] db1
          then (Inl ''next_index_run_id: failed to increment counter: no such table: id_counters'',
                snd (sql_exec sql_rollback db1))
          else
            (let v = (case map_of (sc_id_counters (db_now db1)) ''index_run'' of Some n \<Rightarrow> n + 1 | None \<Rightarrow> 1);
                 db2 = db1\<lparr>db_now := sc_id_counters_update (omap_insert ''index_run'' v) (db_now db1)\<rparr>
             in case sql_commit db2 of
                  (Inl e, db3) \<Rightarrow> (Inl (''next_index_run_id: failed to commit: '' @ e), db3)
                | (Inr _, db3) \<Rightarrow> (Inr (''run-'' @ to_string_int v), db3)))"

section \<open>Lemmas\<close>

lemma next_index_run_id_eq:
  assumes "db_saved db = None" "has_tables [''id_counters''] db"
  defines "v \<equiv> (case map_of (sc_id_counters (db_now db)) ''index_run'' of Some n \<Rightarrow> n + 1 | None \<Rightarrow> 1)"
  shows "sqlite_next_index_run_id db = (Inr (''run-'' @ to_string_int v),
    db\<lparr>db_now := sc_id_counters_update (omap_insert ''index_run'' v) (db_now db)\<rparr>)"
  using assms(1,2)
  by (cases db) (simp add: sqlite_next_index_run_id_def sql_begin_def has_tables_def v_def sql_commit_def Let_def)

lemma next_index_run_id_open_transaction:
  "db_saved db \<noteq> None \<Longrightarrow> sqlite_next_index_run_id db =
     (Inl ''next_index_run_id: failed to begin transaction: cannot start a transaction within a transaction'', db)"
  by (simp add: sqlite_next_index_run_id_def sql_begin_def)

text \<open>The query when one completed run is later than all others.\<close>

lemma completed_rows_iff:
  "(t, h) \<in> set (completed_rows aid atype prov model prompt c) \<longleftrightarrow> (\<exists>run_id run entry. ((run_id, c_str atype, c_str aid), entry) \<in> set (sc_index_entries c) \<and>
        map_of (sc_index_runs c) run_id = Some run \<and> rr_provider_id run = c_str prov \<and>
        rr_model_id run = c_str model \<and> rr_prompt_version run = c_str prompt \<and> rr_status run = ''completed'' \<and>
        t = rr_completed_at run \<and> h = ny_source_hash entry)" (is "_ \<longleftrightarrow> ?rhs")
proof
  assume "(t, h) \<in> set (completed_rows aid atype prov model prompt c)"
  then show "?rhs"
    unfolding completed_rows_def by (auto split: option.splits if_splits) metis
next
  assume ?rhs
  then obtain run_id run entry where e: "((run_id, c_str atype, c_str aid), entry) \<in> set (sc_index_entries c)"
    and r: "map_of (sc_index_runs c) run_id = Some run" "rr_provider_id run = c_str prov"
      "rr_model_id run = c_str model" "rr_prompt_version run = c_str prompt" "rr_status run = ''completed''"
      "t = rr_completed_at run" "h = ny_source_hash entry" by (elim exE conjE) (rule that)
  show "(t, h) \<in> set (completed_rows aid atype prov model prompt c)"
    unfolding completed_rows_def set_concat set_map
    by (rule UN_I, rule imageI, rule e) (simp add: r)
qed

lemma latest_unique:
  assumes "(t, h) \<in> set rs" "\<forall>(t', h') \<in> set rs. t' < t \<or> (t', h') = (t, h)"
  shows "latest rs \<noteq> [] \<and> set (latest rs) = {h}"
proof -
  have top: "(t, h) \<in> {r \<in> set rs. \<forall>r' \<in> set rs. fst r' \<le> fst r}"
    using assms by (auto intro: less_imp_le)
  have only: "snd r = h" if "r \<in> set rs" "\<forall>r' \<in> set rs. fst r' \<le> fst r" for r
  proof -
    have "t \<le> fst r" using that(2) assms(1) by auto
    moreover have "fst r < t \<or> r = (t, h)" using assms(2) that(1) by (cases r) auto
    ultimately show ?thesis by auto
  qed
  have "set (latest rs) = {h}"
  proof
    show "set (latest rs) \<subseteq> {h}" using only by (auto simp: latest_def)
    have "h \<in> set (latest rs)"
      unfolding latest_def set_map set_filter by (rule image_eqI [OF _ top]) simp
    then show "{h} \<subseteq> set (latest rs)" by blast
  qed
  then show ?thesis by (metis empty_set insert_not_empty)
qed

section \<open>The query and the clock\<close>

text \<open>An entry of an artifact, of a completed run over the given provider, model and prompt.\<close>

definition completed_entry ::
  "string \<Rightarrow> string \<Rightarrow> string \<Rightarrow> string \<Rightarrow> string \<Rightarrow> sqlite_content \<Rightarrow> string \<Rightarrow> entry_row \<Rightarrow> bool" where
  "completed_entry artifact_id artifact_type provider_id model_id prompt_version c run_id entry \<longleftrightarrow>
     ((run_id, c_str artifact_type, c_str artifact_id), entry) \<in> set (sc_index_entries c) \<and>
     (case map_of (sc_index_runs c) run_id of
        None \<Rightarrow> False
      | Some run \<Rightarrow> rr_provider_id run = c_str provider_id \<and> rr_model_id run = c_str model_id \<and>
          rr_prompt_version run = c_str prompt_version \<and> rr_status run = ''completed'')"

text \<open>Every completed run carries the system clock's text of the moment at which it completed.\<close>

definition stamped :: "(string \<Rightarrow> nat) \<Rightarrow> sqlite_content \<Rightarrow> bool" where
  "stamped done c \<longleftrightarrow> (\<forall>run_id run. map_of (sc_index_runs c) run_id = Some run \<longrightarrow> rr_status run = ''completed'' \<longrightarrow>
     to_time_t (done run_id) < 253402300800 \<and> rr_completed_at run = Some (system_clock (\<lambda>_. done run_id) 0))"

lemma completed_rows_entries:
  assumes "stamped done c"
  shows "set (completed_rows aid atype prov model prompt c) =
    {(Some (put_time (gmtime (to_time_t (done run_id)))), ny_source_hash entry) | run_id entry.
       completed_entry aid atype prov model prompt c run_id entry}"
proof -
  have "(t, h) \<in> set (completed_rows aid atype prov model prompt c) \<longleftrightarrow> (\<exists>run_id entry.
      completed_entry aid atype prov model prompt c run_id entry \<and>
      t = Some (put_time (gmtime (to_time_t (done run_id)))) \<and> h = ny_source_hash entry)" (is "?row \<longleftrightarrow> ?entry") for t h
  proof
    assume ?row
    then obtain run_id run entry where e: "((run_id, c_str atype, c_str aid), entry) \<in> set (sc_index_entries c)"
      "map_of (sc_index_runs c) run_id = Some run" "rr_provider_id run = c_str prov" "rr_model_id run = c_str model"
      "rr_prompt_version run = c_str prompt" "rr_status run = ''completed''" "t = rr_completed_at run" "h = ny_source_hash entry"
      unfolding completed_rows_iff by blast
    then have "rr_completed_at run = Some (put_time (gmtime (to_time_t (done run_id))))"
      using assms by (simp add: stamped_def system_clock_def)
    moreover have "completed_entry aid atype prov model prompt c run_id entry" using e by (simp add: completed_entry_def)
    ultimately show ?entry using e(7,8) by auto
  next
    assume ?entry
    then obtain run_id entry where e: "completed_entry aid atype prov model prompt c run_id entry"
      "t = Some (put_time (gmtime (to_time_t (done run_id))))" "h = ny_source_hash entry" by blast
    then obtain run where "map_of (sc_index_runs c) run_id = Some run" "rr_status run = ''completed''"
      by (auto simp: completed_entry_def split: option.splits)
    then have "t = rr_completed_at run" using assms e(2) by (simp add: stamped_def system_clock_def)
    then show ?row using e(1,3) \<open>map_of (sc_index_runs c) run_id = Some run\<close>
      unfolding completed_rows_iff completed_entry_def by auto
  qed
  then show ?thesis by (auto simp: set_eq_iff)
qed

text \<open>Two runs that completed within one second: the answer is either hash.\<close>

lemma last_hash_tie:
  assumes "stamped done c" "db_now db = c" "has_tables [''index_entries'', ''index_runs''] db"
    and "completed_entry aid atype prov model prompt c r1 e1" "completed_entry aid atype prov model prompt c r2 e2"
    and "to_time_t (done r1) = to_time_t (done r2)"
    and "\<And>r e. completed_entry aid atype prov model prompt c r e \<Longrightarrow> to_time_t (done r) \<le> to_time_t (done r1)"
    and "e \<in> {e1, e2}"
  shows "\<exists>first. (\<forall>xs. xs \<noteq> [] \<longrightarrow> first xs \<in> set xs) \<and>
    sqlite_last_source_hash first aid atype prov model prompt db = (Inr (Some (ny_source_hash e)), db)"
proof -
  let ?rs = "completed_rows aid atype prov model prompt c" and ?t = "Some (put_time (gmtime (to_time_t (done r1))))"
  have mem: "(?t, ny_source_hash e) \<in> set ?rs"
    using assms(4-6,8) unfolding completed_rows_entries [OF assms(1)] by (metis (mono_tags, lifting) CollectI empty_iff insert_iff)
  have secs: "to_time_t (done r) < 253402300800" if "completed_entry aid atype prov model prompt c r x" for r x
    using that assms(1) by (auto simp: completed_entry_def stamped_def split: option.splits)
  have "\<forall>r \<in> set ?rs. fst r \<le> ?t"
    using assms(7) secs assms(4) unfolding completed_rows_entries [OF assms(1)]
    by (auto simp: not_less [symmetric] timestamp_less)
  then have "ny_source_hash e \<in> set (latest ?rs)" using mem by (force simp: latest_def)
  let ?first = "\<lambda>xs. if ny_source_hash e \<in> set xs then ny_source_hash e else hd xs"
  have "sqlite_last_source_hash ?first aid atype prov model prompt db = (Inr (Some (ny_source_hash e)), db)"
    using assms(2,3) mem \<open>ny_source_hash e \<in> set (latest ?rs)\<close>
    by (cases ?rs) (auto simp: sqlite_last_source_hash_def sql_query_def)
  then show ?thesis by (intro exI [of _ ?first]) auto
qed

section \<open>Properties\<close>

text \<open>C15. The query behind the drift detection: when the completed runs carry the texts of the system clock (until
  the year 9999), the last source hash of an artifact is that of the run that completed last, provided that run
  is the only one of its second. The text order of \<open>completed_at\<close> is the order of time.\<close>
theorem last_hash_is_latest:
  assumes "stamped done (db_now db)" "has_tables [''index_entries'', ''index_runs''] db"
    and "\<And>xs. xs \<noteq> [] \<Longrightarrow> first xs \<in> set xs"
    and "completed_entry aid atype prov model prompt (db_now db) run_id entry"
    and "\<And>r e. completed_entry aid atype prov model prompt (db_now db) r e \<Longrightarrow>
      to_time_t (done r) < to_time_t (done run_id) \<or> r = run_id \<and> e = entry"
  shows "sqlite_last_source_hash first aid atype prov model prompt db = (Inr (Some (ny_source_hash entry)), db)"
proof -
  let ?rs = "completed_rows aid atype prov model prompt (db_now db)"
  let ?t = "Some (put_time (gmtime (to_time_t (done run_id))))"
  have mem: "(?t, ny_source_hash entry) \<in> set ?rs"
    using assms(4) unfolding completed_rows_entries [OF assms(1)] by blast
  have secs: "to_time_t (done r) < 253402300800" if "completed_entry aid atype prov model prompt (db_now db) r x" for r x
    using that assms(1) by (auto simp: completed_entry_def stamped_def split: option.splits)
  have "\<forall>(t, h) \<in> set ?rs. t < ?t \<or> (t, h) = (?t, ny_source_hash entry)"
  proof -
    have "put_time (gmtime (to_time_t (done r))) < put_time (gmtime (to_time_t (done run_id))) \<or> r = run_id \<and> e = entry"
      if "completed_entry aid atype prov model prompt (db_now db) r e" for r e
      using assms(5) [OF that] secs [OF that] secs [OF assms(4)] by (simp add: timestamp_less)
    then show ?thesis unfolding completed_rows_entries [OF assms(1)] by fastforce
  qed
  from latest_unique [OF mem this] have "latest ?rs \<noteq> []" "set (latest ?rs) = {ny_source_hash entry}" by simp_all
  then have "first (latest ?rs) = ny_source_hash entry" using assms(3) by blast
  then show ?thesis using assms(2) mem by (cases ?rs) (auto simp: sqlite_last_source_hash_def sql_query_def)
qed

text \<open>Two runs over one atom, a second apart.\<close>

definition two_runs :: sqlite_db where
  "two_runs = migrated_database\<lparr>db_now := (db_now migrated_database)
     \<lparr>sc_index_runs := map (\<lambda>(r, t). (r, \<lparr>rr_started_at = None, rr_completed_at = Some (system_clock (\<lambda>_. t) 0),
        rr_provider_id = ''p'', rr_model_id = ''m'', rr_prompt_version = ''v'', rr_status = ''completed'',
        rr_summary_json = []\<rparr>)) [(''run-1'', 1769999999000000000), (''run-2'', 1770000000000000000)],
      sc_index_entries := map (\<lambda>(r, h). ((r, ''atom'', ''a''), \<lparr>ny_source_hash = h, ny_vector_hash = [],
        ny_indexed_at = None\<rparr>)) [(''run-1'', ''old''), (''run-2'', ''new'')]\<rparr>\<rparr>"

lemma clock_texts:
  "system_clock (\<lambda>_. 1769999999000000000) 0 = ''2026-02-02T02:39:59Z''"
  "system_clock (\<lambda>_. 1770000000000000000) 0 = ''2026-02-02T02:40:00Z''"
  by (simp_all add: system_clock_def to_time_t_def gmtime_def year_of.simps year_len_def leap_year_def month_lens_def
      put_time_def to_string_nat.simps setw0_def digit_char_def) code_simp+

theorem last_hash_is_latest_witness:
  "sqlite_last_source_hash hd ''a'' ''atom'' ''p'' ''m'' ''v'' two_runs = (Inr (Some ''new''), two_runs)"
proof -
  let ?done = "\<lambda>r. if r = ''run-1'' then 1769999999000000000 else 1770000000000000000 :: nat"
  let ?new = "\<lparr>ny_source_hash = ''new'', ny_vector_hash = [], ny_indexed_at = None\<rparr>"
  have s: "stamped ?done (db_now two_runs)" by (simp add: stamped_def two_runs_def to_time_t_def split: if_splits)
  have t: "has_tables [''index_entries'', ''index_runs''] two_runs"
    by (simp add: two_runs_def has_tables_def migrated_database_def schema_of_def kSchemaV1_def
        kSchemaV2_def kSchemaV3_def kSchemaV4_def kSchemaV5_def kSchemaV6_def kSchemaV7_def)
  have e: "completed_entry ''a'' ''atom'' ''p'' ''m'' ''v'' (db_now two_runs) ''run-2'' ?new"
    by (simp add: completed_entry_def two_runs_def c_str_def)
  have o: "to_time_t (?done r) < to_time_t (?done ''run-2'') \<or> r = ''run-2'' \<and> x = ?new"
    if "completed_entry ''a'' ''atom'' ''p'' ''m'' ''v'' (db_now two_runs) r x" for r x
    using that by (auto simp: completed_entry_def two_runs_def to_time_t_def)
  show ?thesis using last_hash_is_latest [OF s t _ e o, of hd] by simp
qed

end
