(* ===== verification/Services.thy ===== *)
theory Services
  imports Index_Runs Matcher Validation_Engine Coordinator
begin

text \<open>
  The composition root \<open>core::Services\<close> (\<open>include/ccmcp/core/services.h\<close>) with the
  other objects the pipelines are given. The services are a record of actions; what the pipelines rely on is the locale \<open>service_world\<close>, over
  the trail of the audit events appended so far. The in-memory classes of the program interpret it.
\<close>

section \<open>The composition root\<close>

record 'w services =
  sv_next_id :: "string \<Rightarrow> ('w, string) action"
  sv_now :: "('w, string) action"
  sv_audit_append :: "audit_event \<Rightarrow> ('w, unit) action"
  sv_audit_query :: "string \<Rightarrow> ('w, audit_event list) action"
  sv_atom_get :: "atom_id \<Rightarrow> ('w, experience_atom option) action"
  sv_atoms_verified :: "('w, experience_atom list) action"
  sv_atoms_all :: "('w, experience_atom list) action"
  sv_opp_get :: "opportunity_id \<Rightarrow> ('w, opportunity option) action"
  sv_opps_all :: "('w, opportunity list) action"
  sv_embedding :: embedding_provider
  sv_vector_query :: "('w, index_query) action"
  sv_vector_upsert :: "string \<Rightarrow> vec \<Rightarrow> string \<Rightarrow> ('w, unit) action"
  sv_apply_transition :: "interaction_id \<Rightarrow> interaction_event \<Rightarrow> string \<Rightarrow> ('w, transition_result) action"
  sv_decision_upsert :: "decision_record \<Rightarrow> ('w, unit) action"
  sv_decision_get :: "string \<Rightarrow> ('w, decision_record option) action"
  sv_decisions_by_trace :: "string \<Rightarrow> ('w, decision_record list) action"
  sv_ingest_file :: "string \<Rightarrow> ingest_options \<Rightarrow> ('w, (string, ingested_resume) result) action"
  sv_resume_upsert :: "ingested_resume \<Rightarrow> ('w, unit) action"
  sv_resumes_all :: "('w, ingested_resume list) action"
  sv_next_index_run_id :: "('w, string) action"
  sv_upsert_run :: "index_run \<Rightarrow> ('w, unit) action"
  sv_upsert_entry :: "index_entry \<Rightarrow> ('w, unit) action"
  sv_last_source_hash ::
    "string \<Rightarrow> string \<Rightarrow> string \<Rightarrow> string \<Rightarrow> string \<Rightarrow> ('w, string option) action"

text \<open>An event as the pipelines construct it: the hash fields are empty until the log fills them in.\<close>

definition new_event :: "string \<Rightarrow> string \<Rightarrow> string \<Rightarrow> string \<Rightarrow> string \<Rightarrow> string list \<Rightarrow> audit_event" where
  "new_event event_id trace_id event_type payload created_at refs =
     \<lparr>ae_event_id = event_id, ae_trace_id = trace_id, ae_event_type = event_type, ae_payload = payload,
      ae_created_at = created_at, ae_refs = refs, ae_previous_hash = [], ae_event_hash = []\<rparr>"

text \<open>
  \<open>audit_log.append({id_gen.next("evt"), trace_id, type, payload, clock.now_iso8601(), refs})\<close>: a
  braced list is evaluated from left to right.
\<close>

definition emit :: "'w services \<Rightarrow> string \<Rightarrow> string \<Rightarrow> string \<Rightarrow> string list \<Rightarrow> ('w, unit) action" where
  "emit S trace_id event_type payload refs =
     act_bind (sv_next_id S ''evt'') (\<lambda>event_id.
     act_bind (sv_now S) (\<lambda>created_at.
       sv_audit_append S (new_event event_id trace_id event_type payload created_at refs)))"

text \<open>The same with a time stamp taken before.\<close>

definition emit_at ::
  "'w services \<Rightarrow> string \<Rightarrow> string \<Rightarrow> string \<Rightarrow> string \<Rightarrow> string list \<Rightarrow> ('w, unit) action" where
  "emit_at S trace_id event_type payload created_at refs =
     act_bind (sv_next_id S ''evt'') (\<lambda>event_id.
       sv_audit_append S (new_event event_id trace_id event_type payload created_at refs))"

section \<open>What an action adds to the trail\<close>

definition emits ::
  "('w \<Rightarrow> bool) \<Rightarrow> ('w \<Rightarrow> audit_event list) \<Rightarrow> ('w, 'a) action \<Rightarrow>
   ((string, 'a) result \<Rightarrow> audit_event list \<Rightarrow> bool) \<Rightarrow> bool" where
  "emits ok trail m P \<longleftrightarrow>
     (\<forall>w. ok w \<longrightarrow> ok (snd (m w)) \<and> (\<exists>evs. trail (snd (m w)) = trail w @ evs \<and> P (fst (m w)) evs))"

definition silent :: "('w \<Rightarrow> bool) \<Rightarrow> ('w \<Rightarrow> audit_event list) \<Rightarrow> ('w, 'a) action \<Rightarrow> bool" where
  "silent ok trail m \<longleftrightarrow> (\<forall>w. ok w \<longrightarrow> ok (snd (m w)) \<and> trail (snd (m w)) = trail w)"

lemma emitsD:
  "emits ok trail m P \<Longrightarrow> m w = (r, w') \<Longrightarrow> ok w \<Longrightarrow> ok w' \<and> (\<exists>evs. trail w' = trail w @ evs \<and> P r evs)"
  unfolding emits_def by (metis fst_conv snd_conv)

lemma emits_mono: "emits ok trail m P \<Longrightarrow> (\<And>r evs. P r evs \<Longrightarrow> Q r evs) \<Longrightarrow> emits ok trail m Q"
  unfolding emits_def by blast

lemma emits_silent: "silent ok trail m \<Longrightarrow> (\<And>r. P r []) \<Longrightarrow> emits ok trail m P"
  unfolding emits_def silent_def by (metis append_Nil2)

lemma emits_return: "P (Inr a) [] \<Longrightarrow> emits ok trail (act_return a) P"
  by (simp add: emits_def act_return_def)

lemma emits_throw: "P (Inl e) [] \<Longrightarrow> emits ok trail (act_throw e) P"
  by (simp add: emits_def act_throw_def)

lemma emits_bind:
  assumes m: "emits ok trail m Q"
    and f: "\<And>a. emits ok trail (f a) (R a)"
    and ret: "\<And>a evs r evs'. Q (Inr a) evs \<Longrightarrow> R a r evs' \<Longrightarrow> P r (evs @ evs')"
    and exc: "\<And>e evs. Q (Inl e) evs \<Longrightarrow> P (Inl e) evs"
  shows "emits ok trail (act_bind m f) P"
  unfolding emits_def
proof (intro allI impI)
  fix w assume w: "ok w"
  obtain r w' where mw: "m w = (r, w')" by fastforce
  obtain evs where 1: "ok w'" "trail w' = trail w @ evs" "Q r evs" using emitsD [OF m mw w] by blast
  show "ok (snd (act_bind m f w)) \<and>
      (\<exists>evs. trail (snd (act_bind m f w)) = trail w @ evs \<and> P (fst (act_bind m f w)) evs)"
  proof (cases r)
    case (Inl e)
    then show ?thesis using 1 exc by (auto simp: act_bind_def mw)
  next
    case (Inr a)
    obtain r2 w2 where fw: "f a w' = (r2, w2)" by fastforce
    obtain evs' where "ok w2" "trail w2 = trail w' @ evs'" "R a r2 evs'"
      using emitsD [OF f fw 1(1)] by blast
    then show ?thesis using 1 Inr ret by (auto simp: act_bind_def mw fw)
  qed
qed

lemma emits_bind_silent:
  assumes "silent ok trail m" "\<And>a. emits ok trail (f a) P" "\<And>e. P (Inl e) []"
  shows "emits ok trail (act_bind m f) P"
  by (rule emits_bind [where Q = "\<lambda>r evs. evs = []" and R = "\<lambda>_. P", OF emits_silent [OF assms(1)] assms(2)])
    (use assms(3) in auto)

lemma silent_return [simp]: "silent ok trail (act_return a)" "silent ok trail (act_throw e)"
  "silent ok trail (act_lift r)"
  by (simp_all add: silent_def act_return_def act_throw_def act_lift_def)

lemma silent_bind: "silent ok trail m \<Longrightarrow> (\<And>a. silent ok trail (f a)) \<Longrightarrow> silent ok trail (act_bind m f)"
  by (simp add: silent_def act_bind_def split: prod.splits sum.splits) (metis snd_conv)

lemma silent_map: "(\<And>x. silent ok trail (f x)) \<Longrightarrow> silent ok trail (act_map f xs)"
  by (induction xs) (auto intro!: silent_bind)

text \<open>
  The audit trail of a pipeline: all events carry one trace identifier, their types are one of the
  complete sequences \<open>full\<close> allows for the returned value, and a proper part of one of them when an
  exception ends the pipeline.
\<close>

definition audits :: "string \<Rightarrow> ('a \<Rightarrow> string list \<Rightarrow> bool) \<Rightarrow> (string, 'a) result \<Rightarrow> audit_event list \<Rightarrow> bool" where
  "audits trace_id full r evs \<longleftrightarrow>
     (\<forall>e \<in> set evs. ae_trace_id e = trace_id) \<and>
     (case r of Inr a \<Rightarrow> full a (map ae_event_type evs)
      | Inl _ \<Rightarrow> \<exists>a l. full a (map ae_event_type evs @ l))"

definition does ::
  "('w \<Rightarrow> bool) \<Rightarrow> ('w \<Rightarrow> audit_event list) \<Rightarrow> string \<Rightarrow> ('a \<Rightarrow> string list \<Rightarrow> bool) \<Rightarrow> ('w, 'a) action \<Rightarrow> bool" where
  "does ok trail trace_id full m \<longleftrightarrow> emits ok trail m (audits trace_id full)"

lemma does_return: "full a [] \<Longrightarrow> does ok trail t full (act_return a)"
  by (simp add: does_def audits_def emits_return)

lemma does_throw: "\<exists>a l. full a l \<Longrightarrow> does ok trail t full (act_throw e)"
  unfolding does_def by (rule emits_throw) (auto simp: audits_def)

lemma does_silent: "silent ok trail m \<Longrightarrow> (\<And>a. full a []) \<Longrightarrow> does ok trail t full m"
  unfolding does_def by (rule emits_silent) (auto simp: audits_def split: sum.splits)

lemma does_bind:
  assumes "does ok trail t p m" "\<And>a. does ok trail t (q a) (f a)"
    and "\<And>a l b l'. p a l \<Longrightarrow> q a b l' \<Longrightarrow> full b (l @ l')" "\<And>a. \<exists>b l'. q a b l'"
  shows "does ok trail t full (act_bind m f)"
  unfolding does_def
proof (rule emits_bind [OF assms(1,2) [unfolded does_def]])
  fix a evs r evs'
  assume "audits t p (Inr a) evs" "audits t (q a) r evs'"
  then show "audits t full r (evs @ evs')"
    using assms(3) by (cases r) (auto simp: audits_def, blast)
next
  fix e evs
  assume "audits t p (Inl e) evs"
  then obtain a l where "\<forall>e \<in> set evs. ae_trace_id e = t" "p a (map ae_event_type evs @ l)"
    by (auto simp: audits_def)
  then show "audits t full (Inl e) evs"
    using assms(3) [of a _ _ _] assms(4) [of a] by (auto simp: audits_def) (metis append.assoc)
qed

lemma does_mono: "does ok trail t p m \<Longrightarrow> (\<And>a l. p a l \<Longrightarrow> q a l) \<Longrightarrow> does ok trail t q m"
  unfolding does_def by (erule emits_mono) (auto simp: audits_def split: sum.splits)

text \<open>A pipeline that draws its trace identifier first.\<close>

lemma does_fresh:
  assumes "silent ok trail m" "\<And>t. does ok trail t (full t) (f t)" "\<And>t. \<exists>b l. full t b l"
  shows "emits ok trail (act_bind m f) (\<lambda>r evs. \<exists>t. audits t (full t) r evs)"
proof (rule emits_bind_silent [OF assms(1)])
  show "emits ok trail (f t) (\<lambda>r evs. \<exists>t. audits t (full t) r evs)" for t
    by (rule emits_mono [OF assms(2) [of t, unfolded does_def]]) blast
  show "\<exists>t. audits t (full t) (Inl e) []" for e
    using assms(3) by (auto simp: audits_def)
qed

text \<open>A step whose events are always the same, and a step without events.\<close>

lemma does_step:
  assumes "does ok trail t (\<lambda>_ l. l = p) m" "\<And>a. does ok trail t (\<lambda>b l. full b (p @ l)) (f a)"
    and "\<exists>b l. full b (p @ l)"
  shows "does ok trail t full (act_bind m f)"
  by (rule does_bind [OF assms(1,2)]) (use assms(3) in auto)

lemma does_quiet:
  assumes "silent ok trail m" "\<And>a. does ok trail t full (f a)" "\<exists>b l. full b l"
  shows "does ok trail t full (act_bind m f)"
  by (rule does_step [OF does_silent [OF assms(1)], of "[]"]) (use assms(2,3) in simp_all)

section \<open>The contract of the services\<close>

locale service_world =
  fixes S :: "'w services"
    and ok :: "'w \<Rightarrow> bool"
    and trail :: "'w \<Rightarrow> audit_event list"
  assumes next_id: "silent ok trail (sv_next_id S prefix)"
    and now: "silent ok trail (sv_now S)"
    and atom_get: "silent ok trail (sv_atom_get S a)"
    and atoms_verified: "silent ok trail (sv_atoms_verified S)"
    and atoms_all: "silent ok trail (sv_atoms_all S)"
    and opp_get: "silent ok trail (sv_opp_get S opp)"
    and opps_all: "silent ok trail (sv_opps_all S)"
    and vector_query: "silent ok trail (sv_vector_query S)"
    and vector_upsert: "silent ok trail (sv_vector_upsert S k v md)"
    and apply_transition: "silent ok trail (sv_apply_transition S i ev key)"
    and decision_upsert: "silent ok trail (sv_decision_upsert S rec)"
    and ingest_file: "silent ok trail (sv_ingest_file S path opts)"
    and resume_upsert: "silent ok trail (sv_resume_upsert S resume)"
    and resumes_all: "silent ok trail (sv_resumes_all S)"
    and next_index_run_id: "silent ok trail (sv_next_index_run_id S)"
    and upsert_run: "silent ok trail (sv_upsert_run S run)"
    and upsert_entry: "silent ok trail (sv_upsert_entry S entry)"
    and audit_query: "silent ok trail (sv_audit_query S tid)"
    and decision_get: "silent ok trail (sv_decision_get S decision_id)"
    and decisions_by_trace: "silent ok trail (sv_decisions_by_trace S tid)"
    and last_source_hash: "silent ok trail (sv_last_source_hash S aid ty prov mo pv)"
    and audit_append: "emits ok trail (sv_audit_append S event)
      (\<lambda>r evs. case r of Inl _ \<Rightarrow> evs = []
         | Inr _ \<Rightarrow> \<exists>p h. evs = [event\<lparr>ae_previous_hash := p, ae_event_hash := h\<rparr>])"
begin

lemmas silent_services = next_id now atom_get atoms_verified atoms_all opp_get opps_all vector_query
  vector_upsert apply_transition decision_upsert ingest_file resume_upsert resumes_all
  next_index_run_id upsert_run upsert_entry last_source_hash audit_query decision_get decisions_by_trace

lemma emit_does: "does ok trail trace_id (\<lambda>_ l. l = [event_type]) (emit S trace_id event_type payload refs)"
  unfolding emit_def does_def
  by (intro emits_bind_silent next_id now emits_mono [OF audit_append])
    (auto simp: new_event_def audits_def split: sum.splits)

lemma emit_at_does:
  "does ok trail trace_id (\<lambda>_ l. l = [event_type]) (emit_at S trace_id event_type payload created_at refs)"
  unfolding emit_at_def does_def
  by (intro emits_bind_silent next_id emits_mono [OF audit_append])
    (auto simp: new_event_def audits_def split: sum.splits)

end

end
