(* ===== verification/App_Service.thy ===== *)
theory App_Service
  imports Services
begin

text \<open>
  The application service, \<open>src/app/app_service.cpp\<close>: the match, validation, transition, decision
  and ingestion pipelines over the services. Each is the sequence of the calls the code makes, with the
  audit events where the code appends them; a thrown exception ends it. The lemmas give the audit trail of
  every pipeline, on success and on each failure.
\<close>

section \<open>Requests and responses\<close>

record match_request =
  mq_opportunity :: "opportunity option"
  mq_opportunity_id :: "opportunity_id option"
  mq_atoms :: "experience_atom list option"
  mq_atom_ids :: "atom_id list option"
  mq_strategy :: matching_strategy
  mq_k_lex :: nat
  mq_k_emb :: nat
  mq_trace_id :: "string option"
  mq_resume_id :: "resume_id option"
  mq_override_request :: "override_request option"

record match_response =
  mp_trace_id :: string
  mp_match_report :: match_report
  mp_validation_report :: validation_report

record transition_request =
  tq_interaction_id :: interaction_id
  tq_event :: interaction_event
  tq_idempotency_key :: string
  tq_trace_id :: "string option"

record transition_response =
  tp_trace_id :: string
  tp_result :: transition_result

record ingest_request =
  iq_input_path :: string
  iq_persist :: bool
  iq_trace_id :: "string option"

record ingest_response =
  ip_resume_id :: string
  ip_resume_hash :: string
  ip_source_hash :: string
  ip_trace_id :: string

section \<open>Texts\<close>

text \<open>\<open>std::to_string(double)\<close>, the format \<open>%f\<close>: six decimals of the nearest multiple of
  \<open>10 ^ -6\<close>, ties to even.\<close>

definition std_to_string_double :: "double \<Rightarrow> string" where
  "std_to_string_double x =
     (let n = nat (round_half_even (\<bar>x\<bar> * 10 ^ 6)); d = to_string_nat (n mod 10 ^ 6)
      in (if x < 0 then ''-'' else []) @ to_string_nat (n div 10 ^ 6) @ ''.'' @
         replicate (6 - length d) CHR ''0'' @ d)"

fun status_text :: "validation_status \<Rightarrow> string" where
  "status_text kAccepted = ''accepted''"
| "status_text kRejected = ''rejected''"
| "status_text kBlocked = ''blocked''"
| "status_text kOverridden = ''overridden''"
| "status_text kNeedsReview = ''unknown''"

fun event_text :: "interaction_event \<Rightarrow> string" where
  "event_text kPrepare = ''Prepare''"
| "event_text kSend = ''Send''"
| "event_text kReceiveReply = ''ReceiveReply''"
| "event_text kClose = ''Close''"

fun outcome_text :: "transition_outcome \<Rightarrow> string" where
  "outcome_text kApplied = ''applied''"
| "outcome_text kAlreadyApplied = ''already_applied''"
| "outcome_text kConflict = ''conflict''"
| "outcome_text kNotFound = ''not_found''"
| "outcome_text kInvalidTransition = ''invalid_transition''"
| "outcome_text kBackendError = ''backend_error''"

fun bool_text :: "bool \<Rightarrow> string" where
  "bool_text True = ''true''"
| "bool_text False = ''false''"

text \<open>\<open>value_or\<close> evaluates its argument: an identifier is drawn even when the request has one.\<close>

definition trace_or_next :: "'w services \<Rightarrow> string option \<Rightarrow> ('w, string) action" where
  "trace_or_next S given =
     act_bind (sv_next_id S ''trace'') (\<lambda>fresh.
       act_return (case given of Some t \<Rightarrow> t | None \<Rightarrow> fresh))"

section \<open>Validation pipeline\<close>

definition report_envelope :: "match_report \<Rightarrow> artifact_envelope" where
  "report_envelope report =
     \<lparr>env_artifact_id = ''match-report-'' @ opportunity_id_value (mr_opportunity_id report),
      env_content = [], env_source_refs = [], env_artifact = Some (MatchReportView report)\<rparr>"

definition bind_override :: "string \<Rightarrow> override_request \<Rightarrow> override_request" where
  "bind_override artifact_id req =
     req\<lparr>or_binding_hash_alg := ''sha256'', or_payload_hash := sha256_hex artifact_id\<rparr>"

definition validation_of ::
  "match_report \<Rightarrow> string \<Rightarrow> override_request option \<Rightarrow> validation_report" where
  "validation_of report trace_id override =
     engine_validate make_default_constitution (report_envelope report)
       \<lparr>ctx_constitution_id = ''default'', ctx_constitution_version = ''0.1.0'',
        ctx_ground_truth_refs = [], ctx_trace_id = trace_id\<rparr>
       (map_option (bind_override (env_artifact_id (report_envelope report))) override)"

definition run_validation_pipeline ::
  "'w services \<Rightarrow> match_report \<Rightarrow> string \<Rightarrow> override_request option \<Rightarrow> ('w, validation_report) action" where
  "run_validation_pipeline S report trace_id override =
     (let vreport = validation_of report trace_id override
      in act_bind (emit S trace_id ''ValidationCompleted''
             (''{\"status\":\"'' @ status_text (vr_status vreport) @ ''\",\"finding_count\":'' @
              to_string_nat (length (vr_findings vreport)) @ ''}'')
             [opportunity_id_value (mr_opportunity_id report)]) (\<lambda>_.
         act_bind
           (case override of
              Some req \<Rightarrow>
                (if vr_status vreport = kOverridden
                 then emit S trace_id ''ConstitutionOverrideApplied''
                   (''{\"rule_id\":\"'' @ or_rule_id req @ ''\",\"operator_id\":\"'' @ or_operator_id req @
                    ''\",\"reason\":\"'' @ or_reason req @ ''\"}'') []
                 else act_return ())
            | None \<Rightarrow> act_return ()) (\<lambda>_.
           act_return vreport)))"

section \<open>Match pipeline\<close>

definition resolve_opportunity :: "'w services \<Rightarrow> match_request \<Rightarrow> ('w, opportunity) action" where
  "resolve_opportunity S req =
     (case mq_opportunity req of
        Some opp \<Rightarrow> act_return opp
      | None \<Rightarrow>
        (case mq_opportunity_id req of
           Some oid \<Rightarrow>
             act_bind (sv_opp_get S oid) (\<lambda>found.
               case found of Some opp \<Rightarrow> act_return opp
               | None \<Rightarrow> act_throw (''Opportunity not found: '' @ opportunity_id_value oid))
         | None \<Rightarrow> act_throw ''Must provide either opportunity or opportunity_id''))"

definition resolve_atom :: "'w services \<Rightarrow> atom_id \<Rightarrow> ('w, experience_atom) action" where
  "resolve_atom S aid =
     act_bind (sv_atom_get S aid) (\<lambda>found.
       case found of Some atom \<Rightarrow> act_return atom
       | None \<Rightarrow> act_throw (''Atom not found: '' @ atom_id_value aid))"

definition resolve_atoms :: "'w services \<Rightarrow> match_request \<Rightarrow> ('w, experience_atom list) action" where
  "resolve_atoms S req =
     (case mq_atoms req of
        Some atoms \<Rightarrow> act_return atoms
      | None \<Rightarrow>
        (case mq_atom_ids req of
           Some ids \<Rightarrow> act_map (resolve_atom S) ids
         | None \<Rightarrow> sv_atoms_verified S))"

definition pipeline_matcher :: "matching_strategy \<Rightarrow> matcher" where
  "pipeline_matcher strategy =
     \<lparr>m_weights = default_weights, m_strategy = strategy, m_hybrid_config = default_hybrid_config\<rparr>"

definition run_match_pipeline :: "'w services \<Rightarrow> match_request \<Rightarrow> ('w, match_response) action" where
  "run_match_pipeline S req =
     act_bind (trace_or_next S (mq_trace_id req)) (\<lambda>trace_id.
     act_bind (emit S trace_id ''RunStarted''
         (''{\"source\":\"app_service\",\"operation\":\"match_pipeline\"'' @
          (case mq_resume_id req of
             Some r \<Rightarrow> '',\"resume_id\":\"'' @ resume_id_value r @ ''\"'' | None \<Rightarrow> []) @ ''}'') []) (\<lambda>_.
     act_bind (resolve_opportunity S req) (\<lambda>opp.
     act_bind (resolve_atoms S req) (\<lambda>atoms.
     act_bind (sv_vector_query S) (\<lambda>query.
       let report = evaluate (pipeline_matcher (mq_strategy req)) opp atoms (Some (sv_embedding S)) (Some query)
       in act_bind (emit S trace_id ''MatchCompleted''
              (''{\"opportunity_id\":\"'' @ opportunity_id_value (mr_opportunity_id report) @
               ''\",\"overall_score\":'' @ std_to_string_double (mr_overall_score report) @ ''}'')
              [opportunity_id_value (mr_opportunity_id report)]) (\<lambda>_.
          act_bind (run_validation_pipeline S report trace_id (mq_override_request req)) (\<lambda>vreport.
          act_bind (emit S trace_id ''RunCompleted'' ''{\"status\":\"success\"}'' []) (\<lambda>_.
            act_return \<lparr>mp_trace_id = trace_id, mp_match_report = report,
                        mp_validation_report = vreport\<rparr>))))))))"

section \<open>Transition pipeline\<close>

definition transition_succeeded :: "transition_result \<Rightarrow> bool" where
  "transition_succeeded res \<longleftrightarrow> tr_outcome res = kApplied \<or> tr_outcome res = kAlreadyApplied"

definition run_interaction_transition ::
  "'w services \<Rightarrow> transition_request \<Rightarrow> ('w, transition_response) action" where
  "run_interaction_transition S req =
     act_bind (trace_or_next S (tq_trace_id req)) (\<lambda>trace_id.
     act_bind (emit S trace_id ''InteractionTransitionAttempted''
         (''{\"interaction_id\":\"'' @ interaction_id_value (tq_interaction_id req) @ ''\",\"event\":\"'' @
          event_text (tq_event req) @ ''\",\"idempotency_key\":\"'' @ tq_idempotency_key req @ ''\"}'')
         [interaction_id_value (tq_interaction_id req)]) (\<lambda>_.
     act_bind (sv_apply_transition S (tq_interaction_id req) (tq_event req) (tq_idempotency_key req)) (\<lambda>res.
     act_bind (emit S trace_id
         (if transition_succeeded res then ''InteractionTransitionCompleted''
          else ''InteractionTransitionRejected'')
         (''{\"outcome\":\"'' @ outcome_text (tr_outcome res) @ ''\",\"transition_index\":'' @
          to_string_int (tr_transition_index res) @ ''}'')
         [interaction_id_value (tq_interaction_id req)]) (\<lambda>_.
       act_return \<lparr>tp_trace_id = trace_id, tp_result = res\<rparr>))))"

definition fetch_audit_trace :: "'w services \<Rightarrow> string \<Rightarrow> ('w, audit_event list) action" where
  "fetch_audit_trace S trace_id = sv_audit_query S trace_id"

section \<open>Decisions\<close>

fun decision_status_text :: "validation_status \<Rightarrow> string" where
  "decision_status_text kNeedsReview = ''needs_review''"
| "decision_status_text s = status_text s"

definition is_fail_or_block :: "finding \<Rightarrow> bool" where
  "is_fail_or_block f \<longleftrightarrow> fd_severity f = kFail \<or> fd_severity f = kBlock"

definition is_warn :: "finding \<Rightarrow> bool" where
  "is_warn f \<longleftrightarrow> fd_severity f = kWarn"

definition summarize_validation :: "validation_report \<Rightarrow> validation_summary" where
  "summarize_validation vreport =
     \<lparr>vs_status = decision_status_text (vr_status vreport),
      vs_finding_count = length (vr_findings vreport),
      vs_fail_count = length (filter is_fail_or_block (vr_findings vreport)),
      vs_warn_count = length (filter is_warn (vr_findings vreport)),
      vs_top_rule_ids = std_set_of (map fd_rule_id
        (filter (\<lambda>f. is_fail_or_block f \<or> is_warn f) (vr_findings vreport)))\<rparr>"

definition requirement_decision_of :: "requirement_match \<Rightarrow> requirement_decision" where
  "requirement_decision_of rm =
     \<lparr>rd_requirement_text = rm_requirement_text rm,
      rd_atom_id = map_option atom_id_value (rm_contributing_atom_id rm),
      rd_evidence_tokens = rm_evidence_tokens rm\<rparr>"

definition build_decision_record :: "match_response \<Rightarrow> string \<Rightarrow> string \<Rightarrow> decision_record" where
  "build_decision_record resp decision_id created_at =
     (let report = mp_match_report resp
      in \<lparr>dr_decision_id = decision_id, dr_trace_id = mp_trace_id resp,
          dr_artifact_id = ''match-report-'' @ opportunity_id_value (mr_opportunity_id report),
          dr_created_at = Some created_at,
          dr_opportunity_id = opportunity_id_value (mr_opportunity_id report),
          dr_requirement_decisions = map requirement_decision_of (mr_requirement_matches report),
          dr_retrieval_stats =
            \<lparr>rs_lexical_candidates = lexical_candidates (mr_retrieval_stats report),
             rs_embedding_candidates = embedding_candidates (mr_retrieval_stats report),
             rs_merged_candidates = merged_candidates (mr_retrieval_stats report)\<rparr>,
          dr_validation_summary = summarize_validation (mp_validation_report resp),
          dr_version = ''0.3''\<rparr>)"

definition record_match_decision :: "'w services \<Rightarrow> match_response \<Rightarrow> ('w, string) action" where
  "record_match_decision S resp =
     act_bind (sv_next_id S ''decision'') (\<lambda>decision_id.
     act_bind (sv_now S) (\<lambda>created_at.
       let rec = build_decision_record resp decision_id created_at
       in act_bind (sv_decision_upsert S rec) (\<lambda>_.
          act_bind (emit_at S (mp_trace_id resp) ''DecisionRecorded''
              (''{\"decision_id\":\"'' @ decision_id @ ''\",\"opportunity_id\":\"'' @
               dr_opportunity_id rec @ ''\"}'') created_at [dr_opportunity_id rec, decision_id]) (\<lambda>_.
            act_return decision_id))))"

definition fetch_decision :: "'w services \<Rightarrow> string \<Rightarrow> ('w, decision_record option) action" where
  "fetch_decision S decision_id = sv_decision_get S decision_id"

definition list_decisions_by_trace :: "'w services \<Rightarrow> string \<Rightarrow> ('w, decision_record list) action" where
  "list_decisions_by_trace S trace_id = sv_decisions_by_trace S trace_id"

section \<open>Ingestion pipeline\<close>

definition default_ingest_options :: ingest_options where
  "default_ingest_options = \<lparr>io_source_path = None, io_extracted_at = None, io_enable_hygiene = True\<rparr>"

definition run_ingest_resume_pipeline :: "'w services \<Rightarrow> ingest_request \<Rightarrow> ('w, ingest_response) action" where
  "run_ingest_resume_pipeline S req =
     act_bind (trace_or_next S (iq_trace_id req)) (\<lambda>trace_id.
     act_bind (emit S trace_id ''IngestStarted''
         (''{\"source\":\"app_service\",\"operation\":\"ingest_resume\",\"persist\":'' @
          bool_text (iq_persist req) @ ''}'') []) (\<lambda>_.
     act_bind (sv_ingest_file S (iq_input_path req) default_ingest_options) (\<lambda>ingested.
     case ingested of
       Inl e \<Rightarrow> act_throw (''Ingestion failed: '' @ e)
     | Inr resume \<Rightarrow>
       (let source_hash = stable_hash64_hex (ir_resume_md resume)
        in act_bind (if iq_persist req then sv_resume_upsert S resume else act_return ()) (\<lambda>_.
           act_bind (emit S trace_id ''IngestCompleted''
               (''{\"resume_id\":\"'' @ resume_id_value (ir_resume_id resume) @ ''\",\"resume_hash\":\"'' @
                ir_resume_hash resume @ ''\",\"source_hash\":\"'' @ source_hash @ ''\",\"persisted\":'' @
                bool_text (iq_persist req) @ ''}'') [resume_id_value (ir_resume_id resume)]) (\<lambda>_.
             act_return \<lparr>ip_resume_id = resume_id_value (ir_resume_id resume),
                         ip_resume_hash = ir_resume_hash resume, ip_source_hash = source_hash,
                         ip_trace_id = trace_id\<rparr>))))))"

section \<open>Audit trails\<close>

text \<open>The complete trails of the pipelines: the types of the events, in order.\<close>

definition match_trail :: "override_request option \<Rightarrow> string \<Rightarrow> match_response \<Rightarrow> string list \<Rightarrow> bool" where
  "match_trail override trace_id resp types \<longleftrightarrow>
     mp_trace_id resp = trace_id \<and>
     types = [''RunStarted'', ''MatchCompleted'', ''ValidationCompleted''] @
       (if override \<noteq> None \<and> vr_status (mp_validation_report resp) = kOverridden
        then [''ConstitutionOverrideApplied''] else []) @ [''RunCompleted'']"

definition transition_trail :: "string \<Rightarrow> transition_response \<Rightarrow> string list \<Rightarrow> bool" where
  "transition_trail trace_id resp types \<longleftrightarrow>
     tp_trace_id resp = trace_id \<and>
     types = [''InteractionTransitionAttempted'',
       if transition_succeeded (tp_result resp) then ''InteractionTransitionCompleted''
       else ''InteractionTransitionRejected'']"

definition ingest_trail :: "string \<Rightarrow> ingest_response \<Rightarrow> string list \<Rightarrow> bool" where
  "ingest_trail trace_id resp types \<longleftrightarrow>
     ip_trace_id resp = trace_id \<and> types = [''IngestStarted'', ''IngestCompleted'']"

text \<open>The trace a pipeline uses: the one of the request when it has one.\<close>

definition traced ::
  "string option \<Rightarrow> (string \<Rightarrow> 'a \<Rightarrow> string list \<Rightarrow> bool) \<Rightarrow> (string, 'a) result \<Rightarrow> audit_event list \<Rightarrow> bool" where
  "traced given full r evs \<longleftrightarrow>
     (\<exists>trace_id. (given = None \<or> given = Some trace_id) \<and> audits trace_id (full trace_id) r evs)"

context service_world
begin

lemma trace_or_next_silent: "silent ok trail (trace_or_next S given)"
  unfolding trace_or_next_def by (intro silent_bind silent_services) simp

lemma trace_or_next_emits:
  "emits ok trail (trace_or_next S given)
     (\<lambda>r evs. evs = [] \<and> (case r of Inl _ \<Rightarrow> True | Inr t \<Rightarrow> given = None \<or> given = Some t))"
  using next_id [of "''trace''"]
  by (auto simp: emits_def silent_def trace_or_next_def act_bind_def act_return_def
      split: prod.splits sum.splits option.splits)

lemma traced_bind:
  assumes f: "\<And>t. does ok trail t (full t) (f t)" and ex: "\<And>t. \<exists>a l. full t a l"
  shows "emits ok trail (act_bind (trace_or_next S given) f) (traced given full)"
proof (rule emits_bind [OF trace_or_next_emits])
  show "emits ok trail (f t) (audits t (full t))" for t using f by (simp add: does_def)
  show "traced given full r (evs @ evs')"
    if "evs = [] \<and> (case Inr t of Inl _ \<Rightarrow> True | Inr t \<Rightarrow> given = None \<or> given = Some t)"
      and "audits t (full t) r evs'" for t evs r evs'
    using that by (auto simp: traced_def)
  show "traced given full (Inl e) evs"
    if "evs = [] \<and> (case Inl e of Inl _ \<Rightarrow> True | Inr t \<Rightarrow> given = None \<or> given = Some t)" for e evs
    using that ex by (cases given) (auto simp: traced_def audits_def)
qed

lemma resolve_silent: "silent ok trail (resolve_opportunity S req)" "silent ok trail (resolve_atoms S req)"
  unfolding resolve_opportunity_def resolve_atoms_def resolve_atom_def
  by (auto intro!: silent_bind silent_map silent_services split: option.split)

lemma validation_does:
  "does ok trail t
     (\<lambda>v l. v = validation_of report t override \<and> l = ''ValidationCompleted'' #
       (if override \<noteq> None \<and> vr_status v = kOverridden then [''ConstitutionOverrideApplied''] else []))
     (run_validation_pipeline S report t override)"
proof -
  let ?v = "validation_of report t override"
  let ?o = "if override \<noteq> None \<and> vr_status ?v = kOverridden then [''ConstitutionOverrideApplied''] else []"
  have over: "does ok trail t (\<lambda>_ l. l = ?o)
      (case override of
         Some req \<Rightarrow> (if vr_status ?v = kOverridden then emit S t ''ConstitutionOverrideApplied'' (p req) []
                      else act_return ())
       | None \<Rightarrow> act_return ())" for p
    by (cases override) (auto intro: does_return emit_does)
  show ?thesis
    unfolding run_validation_pipeline_def Let_def
    by (rule does_step [OF emit_does] does_step [OF over] does_return)+ auto
qed

lemma match_does:
  "emits ok trail (run_match_pipeline S req) (traced (mq_trace_id req) (match_trail (mq_override_request req)))"
  unfolding run_match_pipeline_def Let_def
  apply (rule traced_bind)
   apply (rule does_step [OF emit_does])
    apply (rule does_quiet, rule resolve_silent vector_query)+
       apply (rule does_step [OF emit_does])
        apply (rule does_bind [OF validation_does does_step [OF emit_does does_return]])
  apply (auto simp: match_trail_def match_response.splits(3))
  done

lemma transition_does:
  "emits ok trail (run_interaction_transition S req) (traced (tq_trace_id req) transition_trail)"
  unfolding run_interaction_transition_def
  apply (rule traced_bind)
   apply (rule does_step [OF emit_does])
    apply (rule does_quiet, rule apply_transition)
     apply (rule does_step [OF emit_does does_return])
  apply (auto simp: transition_trail_def transition_response.splits(3))
  done

lemma persist_silent: "silent ok trail (if persist then sv_resume_upsert S resume else act_return ())"
  by (simp add: resume_upsert)

lemma ingest_does:
  "emits ok trail (run_ingest_resume_pipeline S req) (traced (iq_trace_id req) ingest_trail)"
  unfolding run_ingest_resume_pipeline_def Let_def
  apply (rule traced_bind)
   apply (rule does_step [OF emit_does])
    apply (rule does_quiet, rule ingest_file)
     apply (split sum.split, intro conjI allI impI)
      apply (rule does_throw)
      prefer 2
      apply (rule does_quiet, rule persist_silent)
       apply (rule does_step [OF emit_does does_return])
  apply (auto simp: ingest_trail_def ingest_response.splits(3))
  done

lemma decision_does:
  "does ok trail (mp_trace_id resp) (\<lambda>_ l. l = [''DecisionRecorded'']) (record_match_decision S resp)"
  unfolding record_match_decision_def Let_def
  apply (rule does_quiet, rule next_id)
   apply (rule does_quiet, rule now)
    apply (rule does_quiet, rule decision_upsert)
     apply (rule does_step [OF emit_at_does does_return])
  apply auto
  done

end

end
