(* ===== verification/Index_Pipeline.thy ===== *)
theory Index_Pipeline
  imports App_Service
begin

text \<open>
  The embedding index build (\<open>src/indexing/index_build_pipeline.cpp\<close>) and the pipeline of the
  application service around it (\<open>run_index_build_pipeline\<close>). The three loops of the code, over atoms,
  resumes and opportunities, are one action at three types. The JSON library and the bytes of a
  \<open>float\<close> in memory are parameters. The lemmas give the audit trail of a run and what each artifact
  causes.
\<close>

section \<open>Canonical texts and hashes\<close>

fun append_all :: "string \<Rightarrow> string list \<Rightarrow> string" where
  "append_all s [] = s"
| "append_all s (t # ts) = append_all (s @ '' '' @ t) ts"

definition atom_canonical_text :: "experience_atom \<Rightarrow> string" where
  "atom_canonical_text atom = append_all (atom_title atom @ '' '' @ atom_claim atom) (atom_tags atom)"

definition opportunity_canonical_text :: "opportunity \<Rightarrow> string" where
  "opportunity_canonical_text opp =
     append_all (opp_role_title opp @ '' '' @ opp_company opp) (map req_text (opp_requirements opp))"

definition vector_hash :: "(rat \<Rightarrow> string) \<Rightarrow> vec \<Rightarrow> string" where
  "vector_hash float_bytes v =
     (if v = [] then stable_hash64_hex [] else stable_hash64_hex (concat (map float_bytes v)))"

section \<open>The build\<close>

record index_build_config =
  ic_scope :: string
  ic_provider_id :: string
  ic_model_id :: string
  ic_prompt_version :: string

record index_counts =
  n_indexed :: nat
  n_skipped :: nat
  n_stale :: nat

record index_build_result =
  ib_indexed_count :: nat
  ib_skipped_count :: nat
  ib_stale_count :: nat
  ib_run_id :: string

definition artifact_json :: "'j json_api \<Rightarrow> string \<Rightarrow> string \<Rightarrow> string \<Rightarrow> (string \<times> 'j) list" where
  "artifact_json J artifact_id artifact_type src_hash =
     [(''artifact_id'', j_string J artifact_id), (''artifact_type'', j_string J artifact_type),
      (''source_hash'', j_string J src_hash)]"

text \<open>The body of the three loops, given the type, the prefix of the vector key, and the artifact's
  identifier and canonical text.\<close>

definition index_artifact ::
  "'w services \<Rightarrow> 'j json_api \<Rightarrow> (rat \<Rightarrow> string) \<Rightarrow> string \<Rightarrow> index_build_config \<Rightarrow> string \<Rightarrow> string \<Rightarrow>
   string \<times> string \<Rightarrow> index_counts \<Rightarrow> ('w, index_counts) action" where
  "index_artifact S J float_bytes run_id config artifact_type key_prefix artifact n =
     (case artifact of (artifact_id, canonical_text) \<Rightarrow>
      let src_hash = stable_hash64_hex canonical_text
      in act_bind (sv_last_source_hash S artifact_id artifact_type (ic_provider_id config)
             (ic_model_id config) (ic_prompt_version config)) (\<lambda>prior_hash.
         if prior_hash = Some src_hash then act_return (n\<lparr>n_skipped := n_skipped n + 1\<rparr>)
         else
           let is_stale = (prior_hash \<noteq> None);
               embedding = ep_embed_text (sv_embedding S) canonical_text
           in if embedding = [] then act_return n
              else
                act_bind (act_lift (j_dump J (j_object J (artifact_json J artifact_id artifact_type src_hash)))) (\<lambda>metadata.
                act_bind (sv_vector_upsert S (key_prefix @ artifact_id) embedding metadata) (\<lambda>_.
                act_bind (sv_now S) (\<lambda>indexed_at.
                act_bind (sv_upsert_entry S
                    \<lparr>xe_run_id = run_id, xe_artifact_type = artifact_type, xe_artifact_id = artifact_id,
                     xe_source_hash = src_hash, xe_vector_hash = vector_hash float_bytes embedding,
                     xe_indexed_at = Some indexed_at\<rparr>) (\<lambda>_.
                act_bind (act_lift (j_dump J (j_object J (artifact_json J artifact_id artifact_type src_hash @
                    [(''stale'', j_bool J is_stale)])))) (\<lambda>payload.
                act_bind (emit_at S run_id ''IndexedArtifact'' payload indexed_at []) (\<lambda>_.
                  act_return (n\<lparr>n_indexed := n_indexed n + 1,
                                n_stale := (if is_stale then n_stale n + 1 else n_stale n)\<rparr>)))))))))"

definition index_loop ::
  "'w services \<Rightarrow> 'j json_api \<Rightarrow> (rat \<Rightarrow> string) \<Rightarrow> string \<Rightarrow> index_build_config \<Rightarrow> bool \<Rightarrow> string \<Rightarrow> string \<Rightarrow>
   ('w, (string \<times> string) list) action \<Rightarrow> index_counts \<Rightarrow> ('w, index_counts) action" where
  "index_loop S J float_bytes run_id config in_scope artifact_type key_prefix artifacts n =
     (if in_scope
      then act_bind artifacts (\<lambda>items.
             act_fold (index_artifact S J float_bytes run_id config artifact_type key_prefix) items n)
      else act_return n)"

definition atom_artifacts :: "'w services \<Rightarrow> ('w, (string \<times> string) list) action" where
  "atom_artifacts S = act_bind (sv_atoms_all S) (\<lambda>atoms.
     act_return (map (\<lambda>a. (atom_id_value (experience_atom.atom_id a), atom_canonical_text a)) atoms))"

definition resume_artifacts :: "'w services \<Rightarrow> ('w, (string \<times> string) list) action" where
  "resume_artifacts S = act_bind (sv_resumes_all S) (\<lambda>resumes.
     act_return (map (\<lambda>r. (resume_id_value (ir_resume_id r), ir_resume_md r)) resumes))"

definition opportunity_artifacts :: "'w services \<Rightarrow> ('w, (string \<times> string) list) action" where
  "opportunity_artifacts S = act_bind (sv_opps_all S) (\<lambda>opps.
     act_return (map (\<lambda>p. (opportunity_id_value (opportunity.opportunity_id p), opportunity_canonical_text p)) opps))"

definition index_opportunities ::
  "'w services \<Rightarrow> 'j json_api \<Rightarrow> (rat \<Rightarrow> string) \<Rightarrow> string \<Rightarrow> index_build_config \<Rightarrow> index_counts \<Rightarrow>
   ('w, index_counts) action" where
  "index_opportunities S J float_bytes run_id config =
     index_loop S J float_bytes run_id config
       (ic_scope config = ''opportunities'' \<or> ic_scope config = ''all'') ''opportunity'' ''opp:''
       (opportunity_artifacts S)"

text \<open>The summary, the completed run and its event.\<close>

definition complete_index_run ::
  "'w services \<Rightarrow> 'j json_api \<Rightarrow> string \<Rightarrow> index_build_config \<Rightarrow> index_run \<Rightarrow> index_counts \<Rightarrow>
   ('w, index_build_result) action" where
  "complete_index_run S J run_id config run n =
     act_bind (sv_now S) (\<lambda>completed_at.
     act_bind (act_lift (j_dump J (j_object J
         [(''indexed'', j_int J (int (n_indexed n))), (''scope'', j_string J (ic_scope config)),
          (''skipped'', j_int J (int (n_skipped n))), (''stale'', j_int J (int (n_stale n)))]))) (\<lambda>summary.
     act_bind (sv_upsert_run S (run\<lparr>xr_status := kCompleted, xr_completed_at := Some completed_at,
         xr_summary_json := summary\<rparr>)) (\<lambda>_.
     act_bind (act_lift (j_dump J (j_object J
         [(''indexed'', j_int J (int (n_indexed n))), (''run_id'', j_string J run_id),
          (''skipped'', j_int J (int (n_skipped n))), (''stale'', j_int J (int (n_stale n)))]))) (\<lambda>payload.
     act_bind (emit_at S run_id ''IndexRunCompleted'' payload completed_at []) (\<lambda>_.
       act_return \<lparr>ib_indexed_count = n_indexed n, ib_skipped_count = n_skipped n,
                   ib_stale_count = n_stale n, ib_run_id = run_id\<rparr>)))))"

definition run_index_build ::
  "'w services \<Rightarrow> 'j json_api \<Rightarrow> (rat \<Rightarrow> string) \<Rightarrow> index_build_config \<Rightarrow> ('w, index_build_result) action" where
  "run_index_build S J float_bytes config =
     act_bind (sv_next_index_run_id S) (\<lambda>run_id.
     act_bind (sv_now S) (\<lambda>started_at.
     let run = \<lparr>xr_run_id = run_id, xr_started_at = Some started_at, xr_completed_at = None,
                xr_provider_id = ic_provider_id config, xr_model_id = ic_model_id config,
                xr_prompt_version = ic_prompt_version config, xr_status = kRunning,
                xr_summary_json = ''{}''\<rparr>
     in act_bind (sv_upsert_run S run) (\<lambda>_.
        act_bind (act_lift (j_dump J (j_object J
            [(''provider_id'', j_string J (ic_provider_id config)), (''run_id'', j_string J run_id),
             (''scope'', j_string J (ic_scope config))]))) (\<lambda>started_payload.
        act_bind (emit_at S run_id ''IndexRunStarted'' started_payload started_at []) (\<lambda>_.
        act_bind (index_loop S J float_bytes run_id config
            (ic_scope config = ''atoms'' \<or> ic_scope config = ''all'') ''atom'' [] (atom_artifacts S)
            \<lparr>n_indexed = 0, n_skipped = 0, n_stale = 0\<rparr>) (\<lambda>n1.
        act_bind (index_loop S J float_bytes run_id config
            (ic_scope config = ''resumes'' \<or> ic_scope config = ''all'') ''resume'' ''resume:''
            (resume_artifacts S) n1) (\<lambda>n2.
        act_bind (index_opportunities S J float_bytes run_id config n2)
          (complete_index_run S J run_id config run))))))))"

lemmas index_build_defs = run_index_build_def index_opportunities_def complete_index_run_def

record index_build_request =
  bq_scope :: string
  bq_trace_id :: "string option"

record index_build_response =
  bp_run_id :: string
  bp_indexed_count :: nat
  bp_skipped_count :: nat
  bp_stale_count :: nat
  bp_trace_id :: string

definition run_index_build_pipeline ::
  "'w services \<Rightarrow> 'j json_api \<Rightarrow> (rat \<Rightarrow> string) \<Rightarrow> string \<Rightarrow> index_build_request \<Rightarrow> ('w, index_build_response) action" where
  "run_index_build_pipeline S J float_bytes provider_id req =
     act_bind (trace_or_next S (bq_trace_id req)) (\<lambda>trace_id.
     act_bind (emit S trace_id ''IndexBuildStarted''
         (''{\"source\":\"app_service\",\"operation\":\"index_build\",\"scope\":\"'' @ bq_scope req @ ''\"}'') []) (\<lambda>_.
     act_bind (run_index_build S J float_bytes
         \<lparr>ic_scope = bq_scope req, ic_provider_id = provider_id, ic_model_id = [], ic_prompt_version = []\<rparr>) (\<lambda>result.
     act_bind (emit S trace_id ''IndexBuildCompleted''
         (''{\"run_id\":\"'' @ ib_run_id result @ ''\",\"indexed\":'' @ to_string_nat (ib_indexed_count result) @
          '',\"skipped\":'' @ to_string_nat (ib_skipped_count result) @ '',\"stale\":'' @
          to_string_nat (ib_stale_count result) @ ''}'') []) (\<lambda>_.
       act_return \<lparr>bp_run_id = ib_run_id result, bp_indexed_count = ib_indexed_count result,
                   bp_skipped_count = ib_skipped_count result, bp_stale_count = ib_stale_count result,
                   bp_trace_id = trace_id\<rparr>))))"

section \<open>Audit trails\<close>

text \<open>One event per indexed artifact.\<close>

definition loop_trail :: "index_counts \<Rightarrow> index_counts \<Rightarrow> string list \<Rightarrow> bool" where
  "loop_trail n n' types \<longleftrightarrow> n_indexed n \<le> n_indexed n' \<and>
     types = replicate (n_indexed n' - n_indexed n) ''IndexedArtifact''"

definition index_trail :: "string \<Rightarrow> index_build_result \<Rightarrow> string list \<Rightarrow> bool" where
  "index_trail run_id result types \<longleftrightarrow> ib_run_id result = run_id \<and>
     types = ''IndexRunStarted'' # replicate (ib_indexed_count result) ''IndexedArtifact'' @ [''IndexRunCompleted'']"

lemma loop_trail_refl: "loop_trail n n []"
  by (simp add: loop_trail_def)

lemma loop_trail_trans: "loop_trail n n1 l \<Longrightarrow> loop_trail n1 n2 l' \<Longrightarrow> loop_trail n n2 (l @ l')"
  by (auto simp: loop_trail_def simp flip: replicate_add)

lemma loop_trail_ex: "\<exists>n' l. loop_trail n n' l" "\<exists>n' l. loop_trail n n' (''IndexedArtifact'' # l)"
proof -
  show "\<exists>n' l. loop_trail n n' l" using loop_trail_refl by blast
  have "loop_trail n (n\<lparr>n_indexed := n_indexed n + 1\<rparr>) [''IndexedArtifact'']" by (simp add: loop_trail_def)
  then show "\<exists>n' l. loop_trail n n' (''IndexedArtifact'' # l)" by blast
qed

text \<open>The rest of a run, from the counts \<open>n\<close> on.\<close>

definition rest_trail :: "string \<Rightarrow> index_counts \<Rightarrow> index_build_result \<Rightarrow> string list \<Rightarrow> bool" where
  "rest_trail run_id n result types \<longleftrightarrow> ib_run_id result = run_id \<and> n_indexed n \<le> ib_indexed_count result \<and>
     types = replicate (ib_indexed_count result - n_indexed n) ''IndexedArtifact'' @ [''IndexRunCompleted'']"

lemma rest_trail_ex: "\<exists>b l. rest_trail run_id n b l" "\<exists>b l. rest_trail run_id n b (''IndexRunCompleted'' # l)"
  "\<exists>b l. index_trail run_id b l"
  "\<exists>b l. index_trail run_id b (''IndexRunStarted'' # l)"
proof -
  let ?b = "\<lparr>ib_indexed_count = n_indexed n, ib_skipped_count = 0, ib_stale_count = 0, ib_run_id = run_id\<rparr>"
  have "rest_trail run_id n ?b [''IndexRunCompleted'']" by (simp add: rest_trail_def)
  then show "\<exists>b l. rest_trail run_id n b (''IndexRunCompleted'' # l)" by blast
  then show "\<exists>b l. rest_trail run_id n b l" by blast
  have "index_trail run_id ?b (''IndexRunStarted'' # replicate (n_indexed n) ''IndexedArtifact'' @ [''IndexRunCompleted''])"
    by (simp add: index_trail_def)
  then show "\<exists>b l. index_trail run_id b (''IndexRunStarted'' # l)" by blast
  then show "\<exists>b l. index_trail run_id b l" by blast
qed

lemma rest_of_start: "n_indexed n = 0 \<Longrightarrow> rest_trail run_id n b l \<Longrightarrow> index_trail run_id b (''IndexRunStarted'' # l)"
  by (simp add: rest_trail_def index_trail_def)

context service_world
begin

lemma lift_silent: "silent ok trail (act_lift r)"
  by simp

lemma index_artifact_does:
  "does ok trail run_id (loop_trail n) (index_artifact S J fb run_id config ty pre artifact n)"
proof -
  obtain aid ctext where a: "artifact = (aid, ctext)" by (cases artifact)
  show ?thesis
    unfolding index_artifact_def a prod.case Let_def
    apply (rule does_quiet, rule last_source_hash)
     apply (split if_split, intro conjI impI)
      apply (rule does_return, simp add: loop_trail_def)
     apply (split if_split, intro conjI impI)
      apply (rule does_return, rule loop_trail_refl)
     apply (rule does_quiet, rule lift_silent vector_upsert now upsert_entry)+
         apply (rule does_step [OF emit_at_does does_return])
    apply (simp_all add: loop_trail_ex, simp_all add: loop_trail_def)
    done
qed

lemma fold_does:
  assumes "\<And>x n. does ok trail run_id (loop_trail n) (f x n)"
  shows "does ok trail run_id (loop_trail n) (act_fold f xs n)"
proof (induction xs arbitrary: n)
  case Nil
  then show ?case by (auto intro: does_return loop_trail_refl)
next
  case (Cons x xs)
  show ?case
    unfolding act_fold.simps
    by (rule does_bind [OF assms Cons.IH]) (auto intro: loop_trail_trans loop_trail_ex)
qed

lemma index_loop_does:
  assumes "silent ok trail artifacts"
  shows "does ok trail run_id (loop_trail n) (index_loop S J fb run_id config scoped ty pre artifacts n)"
  unfolding index_loop_def
  by (auto intro!: does_quiet assms fold_does index_artifact_does does_return loop_trail_refl loop_trail_ex)

lemma artifacts_silent: "silent ok trail (atom_artifacts S)" "silent ok trail (resume_artifacts S)"
  "silent ok trail (opportunity_artifacts S)"
  unfolding atom_artifacts_def resume_artifacts_def opportunity_artifacts_def
  by (auto intro!: silent_bind silent_services)

lemma loops_bind:
  assumes "does ok trail t (loop_trail n) m" "\<And>n'. does ok trail t (rest_trail t n') (f n')"
  shows "does ok trail t (rest_trail t n) (act_bind m f)"
  by (rule does_bind [OF assms _ rest_trail_ex(1)])
    (auto simp: loop_trail_def rest_trail_def simp flip: replicate_add append_assoc)

lemma run_index_build_emits:
  "emits ok trail (run_index_build S J fb config) (\<lambda>r evs. \<exists>run_id. audits run_id (index_trail run_id) r evs)"
  unfolding index_build_defs Let_def
  apply (rule does_fresh [OF next_index_run_id])
   apply (rule does_quiet, rule lift_silent now upsert_run)+
      apply (rule does_step [OF emit_at_does])
       apply (rule does_mono)
        apply (rule loops_bind [OF index_loop_does], rule artifacts_silent)+
        apply (rule does_quiet, rule lift_silent now upsert_run)+
            apply (rule does_step [OF emit_at_does does_return])
  apply (simp_all add: rest_trail_ex rest_of_start, simp_all add: rest_trail_def index_trail_def)
  done

end

end
