(* ===== verification/Verdicts.thy ===== *)
theory Verdicts
  imports App_Service
begin

text \<open>
  What the match pipeline decides: the matcher's reports under the default constitution, and the decision
  record made of them. The matcher keeps what the rules ask for, so a report is never rejected, and it is
  blocked for one reason only.
\<close>

section \<open>The findings on a matcher's report\<close>

lemma select_candidates_subset: "set (fst (select_candidates m opp atoms provider index)) \<subseteq> set atoms"
proof -
  have "atom_map as x = Some a \<Longrightarrow> a \<in> set as" for as x a
    by (induction as rule: rev_induct) (auto simp: atom_map_def split: if_splits)
  then show ?thesis
    by (auto simp: select_candidates_def Let_def all_verified_def verified_atoms_def List.map_filter_def)
qed

text \<open>Atoms with identifiers: the attribution check does not count an empty one.\<close>

definition identified :: "experience_atom list \<Rightarrow> bool" where
  "identified atoms \<longleftrightarrow> (\<forall>a \<in> set atoms. atom_id_value (atom_id a) \<noteq> [])"

lemma match_requirement_sound:
  assumes "small_input opp" "req \<in> set (opp_requirements opp)" "identified cands"
    and rm_def: "rm = match_requirement (candidate_token_sets cands) cands req"
  shows "rm_requirement_text rm = req_text req \<and> (rm_matched rm \<longleftrightarrow> has_contributing_atom rm) \<and>
     (rm_matched rm \<longrightarrow> rm_evidence_tokens rm \<noteq> [])"
proof -
  have len: "length (tokenize_field (req_text req)) < 2 ^ 53" using assms by (auto simp: small_input_def)
  note pos = score_of_pos_iff [OF sorted_tokenize_field len, of cands]
  show ?thesis
  proof (cases rule: match_requirement_cases [of "candidate_token_sets cands" cands req])
    case (unmatched s)
    show ?thesis unfolding rm_def unmatched(1) by (simp add: unmatched_def has_contributing_atom_def)
  next
    case (matched a)
    show ?thesis using matched(1,2) assms(3) unfolding rm_def matched(4)
      by (simp add: has_contributing_atom_def pos identified_def is_best_def)
  qed
qed

lemma matcher_findings:
  assumes "small_input opp" "identified atoms"
    and report_def: "report = evaluate m opp atoms provider index"
  shows "evid_001 (report_envelope report) ctx = []"
    and "schema_001 (report_envelope report) ctx = [] \<longleftrightarrow> (\<forall>req \<in> set (opp_requirements opp). req_text req \<noteq> [])"
    and "score_001 (report_envelope report) ctx = [] \<longleftrightarrow> mr_overall_score report \<noteq> 0 \<or> opp_requirements opp = []"
proof -
  obtain cands stats where s: "select_candidates m opp atoms provider index = (cands, stats)"
    by (cases "select_candidates m opp atoms provider index")
  let ?rms = "map (match_requirement (candidate_token_sets cands) cands) (opp_requirements opp)"
  have e: "env_artifact (report_envelope report) = Some (MatchReportView report)"
    by (simp add: report_envelope_def)
  have rms: "mr_requirement_matches report = ?rms" by (simp add: report_def evaluate_simps(1) [OF s])
  have "identified cands"
    using assms(2) select_candidates_subset [of m opp atoms provider index] by (auto simp: identified_def s)
  note sound = match_requirement_sound [OF assms(1) _ this refl]
  have b: "0 \<le> mr_overall_score report" "\<forall>rm \<in> set ?rms. 0 \<le> rm_best_score rm"
    using evaluate_score_range [OF assms(1), of m atoms provider index] by (auto simp flip: rms report_def)
  show "evid_001 (report_envelope report) ctx = []"
    using sound by (auto simp: evid_001_Nil_iff [OF e] rms)
  show "schema_001 (report_envelope report) ctx = [] \<longleftrightarrow> (\<forall>req \<in> set (opp_requirements opp). req_text req \<noteq> [])"
    using b sound by (simp add: schema_001_Nil_iff e rms)
  show "score_001 (report_envelope report) ctx = [] \<longleftrightarrow> mr_overall_score report \<noteq> 0 \<or> opp_requirements opp = []"
    by (simp add: score_001_Nil_iff [OF e] rms)
qed

section \<open>Properties\<close>

lemma matcher_status:
  assumes "small_input opp" "identified atoms" and report_def: "report = evaluate m opp atoms provider index"
  shows "compute_status_from_findings (collect_findings (con_rules make_default_constitution) (report_envelope report) ctx) =
    (if \<exists>req \<in> set (opp_requirements opp). req_text req = [] then kBlocked
     else if opp_requirements opp \<noteq> [] \<and> mr_overall_score report = 0 then kNeedsReview else kAccepted)"
proof -
  note f = matcher_findings [OF assms(1,2) report_def, of ctx]
  let ?s = "schema_001 (report_envelope report) ctx" and ?w = "score_001 (report_envelope report) ctx"
  have c: "collect_findings (con_rules make_default_constitution) (report_envelope report) ctx = ?s @ ?w"
    by (simp add: collect_default f(1))
  show ?thesis
  proof (cases "?s = []")
    case True
    moreover have "?w = [] \<or> compute_status_from_findings ?w = kNeedsReview"
      by (auto simp: score_001_def on_match_report_def report_envelope_def envelope_artifact_type_def
          compute_status_eq make_finding_def)
    moreover have "compute_status_from_findings [] = kAccepted" by (simp add: compute_status_eq)
    ultimately show ?thesis using f(2,3) by (auto simp: c)
  next
    case False
    then have "compute_status_from_findings (?s @ ?w) = kBlocked"
      using schema_001_severity [of "hd ?s" "report_envelope report" ctx]
      by (auto simp: compute_status_blocked_iff intro!: bexI [of _ "hd ?s"])
    then show ?thesis using False f(2) by (auto simp: c)
  qed
qed

text \<open>C36. The verdict of the match pipeline: a report of the matcher is never rejected. It is blocked
  exactly when a requirement has an empty text, which an override of SCHEMA-001, and of no other rule,
  turns into overridden; otherwise it needs review when every score is zero, and is accepted when not.
  The hypotheses bound the lengths (below \<open>2 ^ 53\<close>) and give every atom an identifier.\<close>
theorem match_verdict:
  assumes "small_input opp" "identified atoms"
  shows "let report = evaluate m opp atoms provider index
    in vr_status (validation_of report trace_id override) =
      (if \<exists>req \<in> set (opp_requirements opp). req_text req = []
       then (case override of
               Some req \<Rightarrow> (if or_rule_id req = ''SCHEMA-001'' then kOverridden else kBlocked)
             | None \<Rightarrow> kBlocked)
       else if opp_requirements opp \<noteq> [] \<and> mr_overall_score report = 0 then kNeedsReview
       else kAccepted)"
proof -
  define report where "report = evaluate m opp atoms provider index"
  let ?ctx = "\<lparr>ctx_constitution_id = ''default'', ctx_constitution_version = ''0.1.0'',
      ctx_ground_truth_refs = [], ctx_trace_id = trace_id\<rparr>"
  let ?fs = "collect_findings (con_rules make_default_constitution) (report_envelope report) ?ctx"
  note st = matcher_status [OF assms report_def, of ?ctx]
  note f = matcher_findings [OF assms report_def, of ?ctx]
  have blocks: "(\<exists>x \<in> set ?fs. fd_severity x = kBlock \<and> fd_rule_id x = rule) \<longleftrightarrow>
      (\<exists>req \<in> set (opp_requirements opp). req_text req = []) \<and> rule = ''SCHEMA-001''" for rule
  proof -
    have "set ?fs = set (schema_001 (report_envelope report) ?ctx) \<union> set (score_001 (report_envelope report) ?ctx)"
      by (simp add: collect_default f(1))
    moreover have "(\<exists>req \<in> set (opp_requirements opp). req_text req = []) \<longleftrightarrow>
        (\<exists>x. x \<in> set (schema_001 (report_envelope report) ?ctx))"
      using f(2) by (metis list.set_intros(1) neq_Nil_conv empty_iff empty_set)
    ultimately show ?thesis using schema_001_severity [of _ _ ?ctx] score_001_severity [of _ _ ?ctx] by fastforce
  qed
  have "vr_status (validation_of report trace_id override) =
      (case override of
         Some req \<Rightarrow> if \<exists>x \<in> set ?fs. fd_severity x = kBlock \<and> fd_rule_id x = or_rule_id req then kOverridden
                     else compute_status_from_findings ?fs
       | None \<Rightarrow> compute_status_from_findings ?fs)"
    by (cases override) (simp_all add: validation_of_def engine_status bind_override_def expected_binding_def)
  then show ?thesis
    unfolding Let_def report_def [symmetric] by (cases override) (auto simp: st blocks)
qed

theorem match_verdict_witness:
  "vr_status (validation_of (evaluate (pipeline_matcher kDeterministicLexicalV01) demo_opp
      [demo_atom ''a1'' ''rust go'' True] None None) ''t1'' None) \<noteq> kRejected"
proof -
  have "identified [demo_atom ''a1'' ''rust go'' True]" by (simp add: identified_def demo_atom_def)
  from match_verdict [OF demo_small this, of "pipeline_matcher kDeterministicLexicalV01" None None "''t1''" None]
  show ?thesis by (simp add: Let_def)
qed

end
