(* ===== verification/Float_Bytes.thy ===== *)
theory Float_Bytes
  imports Vector_Index
begin

text \<open>
  The bytes of a \<open>float\<close> in memory: IEEE 754 binary32, little endian, as on the platforms the program is
  built for. Infinities, NaN and the negative zero, which the rationals of the model do not have, are left
  out. The vector files and the vector hashes consist of these bytes.
\<close>

text \<open>The rationals that are \<open>float\<close> values.\<close>

definition is_float :: "rat \<Rightarrow> bool" where
  "is_float x \<longleftrightarrow> \<bar>x\<bar> < 2 ^ 128 \<and> (\<exists>k. x = of_int k * 2 powi ulp_exp32 x)"

definition float_bits :: "rat \<Rightarrow> nat" where
  "float_bits x =
     (if x = 0 then 0
      else
        let e = ilog2 \<bar>x\<bar>; significand = nat \<lfloor>\<bar>x\<bar> / 2 powi ulp_exp32 x\<rfloor>
        in (if x < 0 then 2 ^ 31 else 0) +
           (if e < - 126 then significand else nat (e + 127) * 2 ^ 23 + (significand - 2 ^ 23)))"

definition float_of_bits :: "nat \<Rightarrow> rat" where
  "float_of_bits n =
     (let e = n div 2 ^ 23 mod 2 ^ 8; m = n mod 2 ^ 23;
          v = (if e = 0 then of_nat m * 2 powi - 149 else of_nat (2 ^ 23 + m) * 2 powi (int e - 150))
      in if n div 2 ^ 31 = 1 then - v else v)"

definition float_bytes :: "rat \<Rightarrow> string" where
  "float_bytes x = map (\<lambda>i. char_of (float_bits x div 256 ^ i mod 256)) [0..<4]"

definition float_of_bytes :: "string \<Rightarrow> rat" where
  "float_of_bytes s = float_of_bits (sum_list (map (\<lambda>i. of_char (s ! i) * 256 ^ i) [0..<4]))"

section \<open>Round trip\<close>

lemma float_significand:
  assumes "is_float x" "x \<noteq> 0"
  obtains k :: nat where "\<bar>x\<bar> = of_nat k * 2 powi ulp_exp32 x" "nat \<lfloor>\<bar>x\<bar> / 2 powi ulp_exp32 x\<rfloor> = k" "0 < k"
proof -
  obtain i where i: "x = of_int i * 2 powi ulp_exp32 x" using assms(1) by (auto simp: is_float_def)
  let ?p = "2 powi ulp_exp32 x :: rat"
  have p: "0 < ?p" by simp
  have a: "\<bar>x\<bar> = of_int \<bar>i\<bar> * ?p" by (subst i) (simp add: abs_mult)
  have "i \<noteq> 0" using i assms(2) by auto
  have k: "\<bar>x\<bar> = of_nat (nat \<bar>i\<bar>) * ?p" using a by simp
  have q: "nat \<lfloor>\<bar>x\<bar> / ?p\<rfloor> = nat \<bar>i\<bar>" by (subst a) (simp del: of_int_abs)
  show thesis by (rule that [OF k q]) (use \<open>i \<noteq> 0\<close> in simp)
qed

lemma split_bits:
  "m < 2 ^ 23 \<Longrightarrow> e < 2 ^ 8 \<Longrightarrow>
   (s * 2 ^ 31 + e * 2 ^ 23 + m) div 2 ^ 23 = s * 2 ^ 8 + e \<and> (s * 2 ^ 31 + e * 2 ^ 23 + m) mod 2 ^ 23 = m \<and>
   (s * 2 ^ 31 + e * 2 ^ 23 + m) div 2 ^ 31 = s \<and> (s * 2 ^ 8 + e) mod 2 ^ 8 = (e :: nat)"
proof -
  assume m: "m < 2 ^ 23" and e: "e < 2 ^ 8"
  have n: "s * 2 ^ 31 + e * 2 ^ 23 + m = (s * 2 ^ 8 + e) * 2 ^ 23 + m" by (simp add: distrib_right)
  have d: "((s * 2 ^ 8 + e) * 2 ^ 23 + m) div 2 ^ 23 = s * 2 ^ 8 + e" using m by (subst div_mult_self3) simp_all
  have r: "((s * 2 ^ 8 + e) * 2 ^ 23 + m) mod 2 ^ 23 = m" using m by (subst mod_mult_self3) simp_all
  have p: "(2 :: nat) ^ 31 = 2 ^ 23 * 2 ^ 8" by simp
  have "((s * 2 ^ 8 + e) * 2 ^ 23 + m) div 2 ^ 31 = (s * 2 ^ 8 + e) div 2 ^ 8"
    unfolding p div_mult2_eq d ..
  also have "\<dots> = s" using e by (subst div_mult_self3) simp_all
  finally show ?thesis unfolding n using d r e by (simp add: mod_mult_self3)
qed

lemma float_of_bits_normal:
  assumes "m < 2 ^ 23" "1 \<le> e" "e < 2 ^ 8" "s \<le> 1"
  shows "float_of_bits (s * 2 ^ 31 + e * 2 ^ 23 + m) =
    (if s = 1 then - 1 else 1) * (of_nat (2 ^ 23 + m) * 2 powi (int e - 150))"
proof -
  let ?n = "s * 2 ^ 31 + e * 2 ^ 23 + m"
  have b: "?n div 2 ^ 31 = s" "?n div 2 ^ 23 mod 2 ^ 8 = e" "?n mod 2 ^ 23 = m"
    using split_bits [OF assms(1,3), of s] by simp_all
  show ?thesis unfolding float_of_bits_def Let_def b using assms(2) by simp
qed

lemma float_of_bits_subnormal:
  assumes "m < 2 ^ 23" "s \<le> 1"
  shows "float_of_bits (s * 2 ^ 31 + m) = (if s = 1 then - 1 else 1) * (of_nat m * 2 powi - 149)"
proof -
  let ?n = "s * 2 ^ 31 + m"
  have b: "?n div 2 ^ 31 = s" "?n div 2 ^ 23 mod 2 ^ 8 = 0" "?n mod 2 ^ 23 = m"
    using split_bits [OF assms(1), of 0 s] by simp_all
  show ?thesis unfolding float_of_bits_def Let_def b by simp
qed

lemma float_bits_roundtrip:
  assumes "is_float x"
  shows "float_of_bits (float_bits x) = x" "float_bits x < 2 ^ 32"
proof -
  have "float_of_bits (float_bits x) = x \<and> float_bits x < 2 ^ 32"
  proof (cases "x = 0")
    case True
    then show ?thesis by (simp add: float_bits_def float_of_bits_def)
  next
    case False
    define e where "e = ilog2 \<bar>x\<bar>"
    obtain k where k: "\<bar>x\<bar> = of_nat k * 2 powi ulp_exp32 x" "nat \<lfloor>\<bar>x\<bar> / 2 powi ulp_exp32 x\<rfloor> = k" "0 < k"
      using float_significand [OF assms False] by blast
    have b: "2 powi e \<le> \<bar>x\<bar>" "\<bar>x\<bar> < 2 powi (e + 1)" using ilog2_bounds [of "\<bar>x\<bar>"] False by (simp_all add: e_def)
    define s where "s = (if x < 0 then 1 else (0::nat))"
    have s: "s \<le> 1" "(if s = 1 then - 1 else 1) * \<bar>x\<bar> = x" by (auto simp: s_def)
    have sb: "(if x < 0 then 2 ^ 31 else 0) = s * 2 ^ 31" by (simp add: s_def)
    show ?thesis
    proof (cases "e < - 126")
      case True
      then have u: "ulp_exp32 x = - 149" by (simp add: ulp_exp32_def e_def)
      have "of_nat k * 2 powi - 149 < (2 :: rat) powi (e + 1)" using b(2) k(1) u by simp
      also have "\<dots> \<le> 2 powi - 126" using True by (intro power_int_increasing) auto
      also have "\<dots> = 2 ^ 23 * 2 powi - 149" by (simp add: power_int_def power_divide)
      finally have "(of_nat k :: rat) < of_nat (2 ^ 23)" by simp
      then have m: "k < 2 ^ 23" by (simp only: of_nat_less_iff)
      have f: "float_bits x = s * 2 ^ 31 + k"
        using False True by (simp add: float_bits_def k(2) sb Let_def flip: e_def)
      show ?thesis
        using float_of_bits_subnormal [OF m s(1)] s m k(1) u by (simp add: f)
    next
      case False
      then have u: "ulp_exp32 x = e - 23" by (simp add: ulp_exp32_def e_def)
      have "2 powi e = 2 ^ 23 * (2 :: rat) powi (e - 23)" "2 powi (e + 1) = 2 ^ 24 * (2 :: rat) powi (e - 23)"
        by (simp_all add: power_int_diff power_int_add)
      then have "of_nat (2 ^ 23) * 2 powi (e - 23) \<le> of_nat k * (2 :: rat) powi (e - 23)"
        "of_nat k * (2 :: rat) powi (e - 23) < of_nat (2 ^ 24) * 2 powi (e - 23)"
        using b k(1) u by simp_all
      then have "(of_nat (2 ^ 23) :: rat) \<le> of_nat k" "(of_nat k :: rat) < of_nat (2 ^ 24)"
        by (simp_all del: of_nat_power of_nat_numeral)
      then have m: "2 ^ 23 \<le> k" "k < 2 ^ 24" by (simp_all only: of_nat_less_iff of_nat_le_iff)
      have "2 powi e < (2 :: rat) powi 128" using b(1) assms by (simp add: is_float_def power_int_def)
      then have e: "e \<le> 127" by (simp only: powi_rat_less_iff)
      have f: "float_bits x = s * 2 ^ 31 + nat (e + 127) * 2 ^ 23 + (k - 2 ^ 23)"
        using \<open>x \<noteq> 0\<close> False by (simp add: float_bits_def k(2) sb Let_def flip: e_def)
      have "float_of_bits (float_bits x) =
          (if s = 1 then - 1 else 1) * (of_nat (2 ^ 23 + (k - 2 ^ 23)) * 2 powi (int (nat (e + 127)) - 150))"
        unfolding f using m e False s(1) by (intro float_of_bits_normal) auto
      also have "\<dots> = (if s = 1 then - 1 else 1) * (of_nat k * 2 powi (e - 23))" using m False by simp
      also have "\<dots> = x" using s(2) k(1) u by simp
      finally show ?thesis using f m e False s(1) by auto
    qed
  qed
  then show "float_of_bits (float_bits x) = x" "float_bits x < 2 ^ 32" by auto
qed

lemma length_float_bytes [simp]: "length (float_bytes x) = 4"
  by (simp add: float_bytes_def)

lemma four_digits:
  assumes "n < 2 ^ 32"
  shows "n mod 256 + (n div 256 mod 256 * 256 + (n div 65536 mod 256 * 65536 + n div 16777216 mod 256 * 16777216)) = (n :: nat)"
proof -
  have e: "(65536 :: nat) = 256 * 256" "(16777216 :: nat) = 65536 * 256" by simp_all
  have "n = n mod (16777216 * 256)" using assms by simp
  also have "\<dots> = 16777216 * (n div 16777216 mod 256) + n mod 16777216" by (rule mod_mult2_eq)
  finally have 1: "n = 16777216 * (n div 16777216 mod 256) + n mod 16777216" .
  have 2: "n mod 16777216 = 65536 * (n div 65536 mod 256) + n mod 65536" unfolding e(2) by (rule mod_mult2_eq)
  have 3: "n mod 65536 = 256 * (n div 256 mod 256) + n mod 256" unfolding e(1) by (rule mod_mult2_eq)
  show ?thesis using 1 unfolding 2 3 by (simp only: mult.commute add.commute add.left_commute)
qed

lemma float_bytes_roundtrip:
  assumes "is_float x"
  shows "float_of_bytes (float_bytes x) = x"
proof -
  have four: "[0..<4] = [0, 1, 2, 3 :: nat]" by (simp add: upt_rec)
  have small: "float_bits x div 16777216 < 256"
    using float_bits_roundtrip(2) [OF assms] by (simp add: less_mult_imp_div_less)
  have "sum_list (map (\<lambda>i. of_char (float_bytes x ! i) * 256 ^ i) [0..<4]) = float_bits x"
    using four_digits [OF float_bits_roundtrip(2) [OF assms]] small by (simp add: float_bytes_def four)
  then show ?thesis using float_bits_roundtrip(1) [OF assms] by (simp add: float_of_bytes_def)
qed

end
