(* ===== verification/Sqlite_Vectors.thy ===== *)
theory Sqlite_Vectors
  imports Float_Bytes Sqlite_Db
begin

text \<open>
  The vector index over SQLite (\<open>src/vector/sqlite_embedding_index.cpp\<close>): a table of blobs, each the
  bytes of the components of a vector, and a query that reads all rows. The lemmas show that it stores what
  the in-memory index stores, except empty vectors, that the two answer queries alike when all products of
  components are exact, and that their rankings can differ otherwise. Errors of the engine are left out; the
  column \<open>created_at\<close> is never read.
\<close>

section \<open>The table\<close>

record vector_row =
  vw_vector_blob :: string
  vw_dimension :: int
  vw_metadata_json :: string

type_synonym vector_table = "(string \<times> vector_row) list"

text \<open>\<open>CREATE TABLE IF NOT EXISTS\<close>, run by the constructor: the file has the table or not.\<close>

definition vectors_ensure_schema :: "vector_table option \<Rightarrow> vector_table" where
  "vectors_ensure_schema file = (case file of None \<Rightarrow> [] | Some t \<Rightarrow> t)"

text \<open>What the engine finds at a path: the file cannot be opened, it can but the statement of the schema fails (a
  file that is no database), or it is a database with or without the table. The texts are the engine's, where
  it has one.\<close>

datatype vector_file =
  No_Vector_File "string option"
| No_Vector_Schema "string option"
| Vector_File "vector_table option"

fun make_sqlite_index :: "string \<Rightarrow> vector_file \<Rightarrow> (string, vector_table) result" where
  "make_sqlite_index db_path (No_Vector_File err) =
     Inl (''SqliteEmbeddingIndex: cannot open '' @ squote @ db_path @ squote @ '': '' @
       (case err of Some e \<Rightarrow> e | None \<Rightarrow> ''unknown error''))"
| "make_sqlite_index db_path (No_Vector_Schema err) =
     Inl (''SqliteEmbeddingIndex: schema setup failed: '' @ (case err of Some e \<Rightarrow> e | None \<Rightarrow> ''unknown error''))"
| "make_sqlite_index db_path (Vector_File file) = Inr (vectors_ensure_schema file)"

definition to_blob :: "vec \<Rightarrow> string" where
  "to_blob v = concat (map float_bytes v)"

text \<open>The vector has \<open>size_bytes / 4\<close> components and receives \<open>size_bytes\<close> bytes: unless the size is
  a multiple of 4 the copy runs past its end.\<close>

definition from_blob :: "string \<Rightarrow> (string, vec) result" where
  "from_blob blob =
     (if length blob mod 4 \<noteq> 0 then Inl ''memcpy past the end of the vector''
      else Inr (map (\<lambda>i. float_of_bytes (take 4 (drop (4 * i) blob))) [0..<length blob div 4]))"

text \<open>The data of an empty blob is a null pointer, which binds \<open>NULL\<close>; the column is \<open>NOT NULL\<close> and the
  result of the step is not looked at.\<close>

definition sqlite_vectors_upsert :: "string \<Rightarrow> vec \<Rightarrow> string \<Rightarrow> vector_table \<Rightarrow> vector_table" where
  "sqlite_vectors_upsert key embedding metadata t =
     (if embedding = [] then t
      else omap_insert (c_str key)
        \<lparr>vw_vector_blob = to_blob embedding, vw_dimension = int (length embedding),
         vw_metadata_json = c_str metadata\<rparr> t)"

definition sqlite_vectors_get :: "vector_table \<Rightarrow> string \<Rightarrow> (string, vec option) result" where
  "sqlite_vectors_get t key =
     (case map_of t (c_str key) of
        None \<Rightarrow> Inr None
      | Some row \<Rightarrow> result_bind (from_blob (vw_vector_blob row)) (\<lambda>v. Inr (Some v)))"

text \<open>The products are of \<open>double\<close> values here, where the in-memory index multiplies \<open>float\<close> values.\<close>

definition sqlite_cosine_step :: "double \<times> double \<times> double \<Rightarrow> rat \<times> rat \<Rightarrow> double \<times> double \<times> double" where
  "sqlite_cosine_step acc ab =
     (case acc of (dot, na, nb) \<Rightarrow> case ab of (x, y) \<Rightarrow>
        (double_add dot (double_mul x y), double_add na (double_mul x x), double_add nb (double_mul y y)))"

definition sqlite_cosine_similarity :: "vec \<Rightarrow> vec \<Rightarrow> double" where
  "sqlite_cosine_similarity a b =
     (if length a \<noteq> length b \<or> a = [] then 0
      else case foldl sqlite_cosine_step (0, 0, 0) (zip a b) of (dot, sa, sb) \<Rightarrow>
        (let na = double_sqrt sa; nb = double_sqrt sb
         in if na = 0 \<or> nb = 0 then 0 else double_div dot (double_mul na nb)))"

definition row_to_result :: "vec \<Rightarrow> string \<times> vector_row \<Rightarrow> (string, vector_search_result) result" where
  "row_to_result query_vector entry =
     result_bind (from_blob (vw_vector_blob (snd entry))) (\<lambda>stored.
       Inr \<lparr>vsr_key = fst entry, vsr_score = sqlite_cosine_similarity query_vector stored,
            vsr_metadata = vw_metadata_json (snd entry)\<rparr>)"

definition sqlite_vectors_query :: "vector_table \<Rightarrow> vec \<Rightarrow> nat \<Rightarrow> (string, vector_search_result list) result" where
  "sqlite_vectors_query t query_vector top_k =
     result_bind (result_map (row_to_result query_vector) t) (\<lambda>results.
       Inr (take top_k (std_sort result_less results)))"

text \<open>The index the program is configured with, the null index among them. Only an upsert writes blobs, so the query never meets one it
  cannot copy (\<open>store_query_total\<close>).\<close>

datatype vector_store = No_Vectors | Memory_Vectors vector_map | Table_Vectors vector_table

definition store_query :: "vector_store \<Rightarrow> index_query" where
  "store_query vs query_vector top_k =
     (case vs of
        No_Vectors \<Rightarrow> null_query query_vector top_k
      | Memory_Vectors m \<Rightarrow> vectors_query m query_vector top_k
      | Table_Vectors t \<Rightarrow> (case sqlite_vectors_query t query_vector top_k of Inl _ \<Rightarrow> [] | Inr rs \<Rightarrow> rs))"

definition store_upsert :: "string \<Rightarrow> vec \<Rightarrow> string \<Rightarrow> vector_store \<Rightarrow> vector_store" where
  "store_upsert key embedding metadata vs =
     (case vs of
        No_Vectors \<Rightarrow> No_Vectors
      | Memory_Vectors m \<Rightarrow> Memory_Vectors (vectors_upsert key embedding metadata m)
      | Table_Vectors t \<Rightarrow> Table_Vectors (sqlite_vectors_upsert key embedding metadata t))"

section \<open>Blobs\<close>

lemma length_to_blob [simp]: "length (to_blob v) = 4 * length v"
  by (induction v) (simp_all add: to_blob_def)

lemma to_blob_component:
  "i < length v \<Longrightarrow> take 4 (drop (4 * i) (to_blob v)) = float_bytes (v ! i)"
proof (induction v arbitrary: i)
  case (Cons x v)
  then show ?case by (cases i) (simp_all add: to_blob_def)
qed simp

lemma from_blob_to_blob:
  assumes "\<forall>x \<in> set v. is_float x"
  shows "from_blob (to_blob v) = Inr v"
proof -
  have "map (\<lambda>i. float_of_bytes (take 4 (drop (4 * i) (to_blob v)))) [0..<length v] = v"
    by (rule nth_equalityI) (use assms in \<open>simp_all add: to_blob_component float_bytes_roundtrip\<close>)
  then show ?thesis by (simp add: from_blob_def)
qed

lemma store_query_total:
  assumes "\<forall>e \<in> set t. \<exists>v. vw_vector_blob (snd e) = to_blob v"
  shows "\<exists>rs. sqlite_vectors_query t q k = Inr rs"
proof -
  have "\<exists>rs. result_map (row_to_result q) t = Inr rs"
    using assms by (induction t) (auto simp: row_to_result_def from_blob_def)
  then show ?thesis by (auto simp: sqlite_vectors_query_def)
qed

section \<open>The two indexes\<close>

text \<open>An index in memory and the table that stores it.\<close>

definition as_vector_row :: "vec \<times> string \<Rightarrow> vector_row" where
  "as_vector_row e =
     \<lparr>vw_vector_blob = to_blob (fst e), vw_dimension = int (length (fst e)), vw_metadata_json = snd e\<rparr>"

definition vectors_rel :: "vector_map \<Rightarrow> vector_table \<Rightarrow> bool" where
  "vectors_rel m t \<longleftrightarrow> t = map (\<lambda>(k, e). (k, as_vector_row e)) m \<and> (\<forall>(k, e) \<in> set m. \<forall>x \<in> set (fst e). is_float x)"

lemma omap_insert_values:
  "omap_insert k (f v) (map (\<lambda>(k, v). (k, f v)) m) = map (\<lambda>(k, v). (k, f v)) (omap_insert k v m)"
  by (induction k v m rule: omap_insert.induct) auto

lemma map_of_values: "map_of (map (\<lambda>(k, v). (k, f v)) m) k = map_option f (map_of m k)"
  by (induction m) auto

definition vector_storable :: "string \<times> vec \<times> string \<Rightarrow> bool" where
  "vector_storable u = (case u of (key, embedding, metadata) \<Rightarrow>
     c_str key = key \<and> c_str metadata = metadata \<and> embedding \<noteq> [] \<and> list_all is_float embedding)"

lemma upsert_rel:
  assumes "vectors_rel m t" "vector_storable (key, embedding, metadata)"
  shows "vectors_rel (vectors_upsert key embedding metadata m) (sqlite_vectors_upsert key embedding metadata t)"
proof -
  have "sqlite_vectors_upsert key embedding metadata t =
      omap_insert key (as_vector_row (embedding, metadata)) (map (\<lambda>(k, e). (k, as_vector_row e)) m)"
    using assms by (simp add: sqlite_vectors_upsert_def vectors_rel_def vector_storable_def as_vector_row_def)
  moreover have "\<forall>(k, e) \<in> set (omap_insert key (embedding, metadata) m). \<forall>x \<in> set (fst e). is_float x"
    using set_omap_insert [of key "(embedding, metadata)" m] assms
    by (fastforce simp: vectors_rel_def vector_storable_def list_all_iff)
  ultimately show ?thesis unfolding vectors_rel_def vectors_upsert_def omap_insert_values by simp
qed

lemma get_rel:
  assumes "vectors_rel m t" "c_str key = key"
  shows "sqlite_vectors_get t key = Inr (vectors_get m key)"
proof (cases "map_of m key")
  case (Some e)
  then have "(key, e) \<in> set m" by (rule map_of_SomeD)
  then have "from_blob (to_blob (fst e)) = Inr (fst e)"
    using assms(1) by (intro from_blob_to_blob) (auto simp: vectors_rel_def)
  then show ?thesis
    using assms Some by (simp add: sqlite_vectors_get_def vectors_get_def vectors_rel_def map_of_values as_vector_row_def)
qed (use assms in \<open>simp add: sqlite_vectors_get_def vectors_get_def vectors_rel_def map_of_values\<close>)

text \<open>Products that neither precision rounds.\<close>

definition exact_products :: "vec \<Rightarrow> vec \<Rightarrow> bool" where
  "exact_products a b \<longleftrightarrow> list_all (\<lambda>(x, y). rnd32 (x * y) = rnd (x * y) \<and> rnd32 (x * x) = rnd (x * x) \<and>
     rnd32 (y * y) = rnd (y * y)) (zip a b)"

lemma cosine_exact: "exact_products a b \<Longrightarrow> sqlite_cosine_similarity a b = cosine_similarity a b"
proof -
  assume e: "exact_products a b"
  have "foldl sqlite_cosine_step acc xs = foldl cosine_step acc xs"
    if "list_all (\<lambda>(x, y). rnd32 (x * y) = rnd (x * y) \<and> rnd32 (x * x) = rnd (x * x) \<and>
     rnd32 (y * y) = rnd (y * y)) xs" for acc xs
    using that
    by (induction xs arbitrary: acc)
      (auto simp: sqlite_cosine_step_def cosine_step_def double_mul_def split: prod.splits)
  then show ?thesis using e
    by (simp add: sqlite_cosine_similarity_def cosine_similarity_def exact_products_def)
qed

lemma query_rel:
  assumes "vectors_rel m t"
  shows "sqlite_vectors_query t q k = Inr (take k (std_sort result_less (map (\<lambda>(key, e).
    \<lparr>vsr_key = key, vsr_score = sqlite_cosine_similarity q (fst e), vsr_metadata = snd e\<rparr>) m)))"
proof -
  have "result_map (row_to_result q) (map (\<lambda>(k, e). (k, as_vector_row e)) n) = Inr (map (\<lambda>(key, e).
      \<lparr>vsr_key = key, vsr_score = sqlite_cosine_similarity q (fst e), vsr_metadata = snd e\<rparr>) n)"
    if "set n \<subseteq> set m" for n
    using that
  proof (induction n)
    case (Cons x n)
    then have "from_blob (to_blob (fst (snd x))) = Inr (fst (snd x))"
      using assms by (intro from_blob_to_blob) (auto simp: vectors_rel_def)
    with Cons show ?case by (cases x) (simp add: row_to_result_def as_vector_row_def)
  qed simp
  then show ?thesis using assms by (simp add: sqlite_vectors_query_def vectors_rel_def)
qed

lemma query_exact:
  assumes "vectors_rel m t" "\<forall>(key, e) \<in> set m. exact_products q (fst e)"
  shows "sqlite_vectors_query t q k = Inr (vectors_query m q k)"
proof -
  have "map (\<lambda>(key, e). \<lparr>vsr_key = key, vsr_score = sqlite_cosine_similarity q (fst e), vsr_metadata = snd e\<rparr>) m =
      vectors_results m q"
    using assms(2) by (auto simp: vectors_results_def cosine_exact intro!: map_cong)
  then show ?thesis by (simp add: query_rel [OF assms(1)] vectors_query_def)
qed

fun upsert_all :: "('k \<Rightarrow> 'v \<Rightarrow> 'm \<Rightarrow> 's \<Rightarrow> 's) \<Rightarrow> ('k \<times> 'v \<times> 'm) list \<Rightarrow> 's \<Rightarrow> 's" where
  "upsert_all up [] s = s"
| "upsert_all up ((k, v, m) # us) s = upsert_all up us (up k v m s)"

lemma upserts_rel:
  "vectors_rel m t \<Longrightarrow> \<forall>u \<in> set us. vector_storable u \<Longrightarrow>
     vectors_rel (upsert_all vectors_upsert us m) (upsert_all sqlite_vectors_upsert us t)"
  by (induction us arbitrary: m t) (auto simp: upsert_rel)

section \<open>An example the two indexes rank differently\<close>

lemma rnd32_float: "is_float x \<Longrightarrow> rnd32 x = x"
  by (auto simp: is_float_def rnd32_def) (metis nonzero_mult_div_cancel_right powi_rat_pos less_irrefl round_half_even_of_int)

lemma rnd_fraction:
  "x = of_int n / 16777216 \<Longrightarrow> 0 < n \<Longrightarrow> n < 2 ^ 53 \<Longrightarrow> rnd x = x \<and> rnd (- x) = - x"
proof -
  assume x: "x = of_int n / 16777216" "0 < n" "n < 2 ^ 53"
  have "of_int n * 2 powi - 24 = x" using x(1) by (simp add: power_int_def power_divide)
  then have "representable x" using representable_scaled [of n "- 24"] x(2,3) by simp
  then show "rnd x = x \<and> rnd (- x) = - x" using rnd_representable representable_minus by blast
qed

lemma ulp_exp32_1: "1 \<le> \<bar>x\<bar> \<Longrightarrow> \<bar>x\<bar> < 2 \<Longrightarrow> ulp_exp32 x = - 23"
  by (simp add: ulp_exp32_def ilog2_unique [of "\<bar>x\<bar>" 0])

lemma powi_23: "2 powi - 23 = (1 / 8388608 :: rat)"
  by (simp add: power_int_def power_divide)

lemma is_float_1: "1 \<le> \<bar>x\<bar> \<Longrightarrow> \<bar>x\<bar> < 2 \<Longrightarrow> x * 8388608 = of_int k \<Longrightarrow> is_float x"
  by (auto simp: is_float_def ulp_exp32_1 powi_23 intro!: exI [of _ k])

lemma is_float_0: "is_float 0"
  by (simp add: is_float_def)

lemma sqrt_between_1_4:
  assumes "1 \<le> x" "x < 4" shows "1 / 2 ^ 52 \<le> double_sqrt x" "double_sqrt x \<le> 2"
proof -
  have "ilog2 x = 0 \<or> ilog2 x = 1"
    using ilog2_unique [of x 0] ilog2_unique [of x 1] assms by (cases "x < 2") simp_all
  then have e: "max (ilog2 x div 2 - 52) (- 1074) = - 52" by auto
  define N where "N = nat \<lfloor>x / 4 powi - 52\<rfloor>"
  have y: "x / 4 powi - 52 = x * 4 ^ 52" by (simp add: power_int_def power_divide)
  define z where "z = \<lfloor>x * 4 ^ 52\<rfloor>"
  have "4 \<le> z" "z < 2 ^ 53 * 2 ^ 53" unfolding z_def le_floor_iff floor_less_iff using assms by simp_all
  moreover have "N = nat z" by (simp only: N_def y z_def)
  ultimately have N: "4 \<le> N" "N < 2 ^ 53 * 2 ^ 53" by simp_all
  let ?f = "isqrt N"
  have f: "?f * ?f \<le> N" "N < (?f + 1) * (?f + 1)" using isqrt_bounds [of N] by auto
  have "?f * ?f < 2 ^ 53 * 2 ^ 53" using f(1) N(2) by linarith
  then have "?f < 2 ^ 53" by (metis mult_le_mono not_le)
  moreover have "1 \<le> ?f" using f(2) N(1) by (cases ?f) auto
  ultimately have b: "1 \<le> int ?f" "int ?f + 1 \<le> 2 ^ 53" by simp_all
  define g where "g = double_sqrt x * 2 ^ 52"
  have "double_sqrt x = sqrt_at (- 52) x" using assms by (simp add: double_sqrt_def e)
  moreover have "sqrt_at (- 52) x = of_int (int ?f) * 2 powi - 52 \<or>
      sqrt_at (- 52) x = of_int (int ?f + 1) * 2 powi - 52"
    by (simp only: sqrt_at_def Let_def N_def [symmetric]) simp
  ultimately have "g = of_int (int ?f) \<or> g = of_int (int ?f + 1)"
    by (auto simp: g_def power_int_def power_divide)
  then have "1 \<le> g" "g \<le> 2 ^ 53" using b by auto
  then show "1 / 2 ^ 52 \<le> double_sqrt x" "double_sqrt x \<le> 2" by (simp_all add: g_def)
qed

lemma cosine_at_least:
  assumes "sqlite_cosine_similarity a b = (let na = double_sqrt sa; nb = double_sqrt sb
      in if na = 0 \<or> nb = 0 then 0 else double_div dot (double_mul na nb))"
    and "1 \<le> sa" "sa < 4" "1 \<le> sb" "sb < 4" "dot = 1 / 16777216"
  shows "1 / 67108864 \<le> sqlite_cosine_similarity a b"
proof -
  note s = sqrt_between_1_4 [OF assms(2,3)] sqrt_between_1_4 [OF assms(4,5)]
  let ?p = "double_sqrt sa * double_sqrt sb"
  have p: "1 / 2 ^ 52 * (1 / 2 ^ 52) \<le> ?p" "?p \<le> 2 * 2"
    by (intro mult_mono; use s in simp)+
  have "(2 :: rat) powi - 1074 \<le> 2 powi - 104" by (rule powi_rat_mono) simp
  then have q: "2 powi - 1074 \<le> ?p" using p(1) by (simp add: power_int_def power_divide)
  have r: "representable (1 / 67108864)"
    using representable_scaled [of 1 "- 26"] by (simp add: power_int_def power_divide)
  have "0 < rnd ?p" "rnd ?p \<le> 4" using p q rnd_le_of_nat [of ?p 4] rnd_pos [of ?p] by simp_all
  then have "1 / 67108864 \<le> dot / rnd ?p" by (simp add: assms(6) field_simps)
  then have "1 / 67108864 \<le> rnd (dot / rnd ?p)" using rnd_mono [of "1 / 67108864" "dot / rnd ?p"] rnd_representable [OF r] by simp
  then show ?thesis using s by (simp add: assms(1) double_div_def double_mul_def)
qed

section \<open>Properties\<close>

text \<open>C35. The SQLite index stores what the in-memory index stores: after the same upserts, of vectors that are
  not empty and texts without NUL, the two return the same vector for every key, through the bytes of the
  file, and answer alike every query whose products with the stored vectors need no rounding.\<close>
theorem sqlite_vectors_refine:
  assumes "list_all vector_storable us"
    and "m = upsert_all vectors_upsert us []" "t = upsert_all sqlite_vectors_upsert us (vectors_ensure_schema None)"
  shows "(c_str key = key \<longrightarrow> sqlite_vectors_get t key = Inr (vectors_get m key)) \<and>
    ((\<forall>(k, e) \<in> set m. exact_products q (fst e)) \<longrightarrow> sqlite_vectors_query t q top_k = Inr (vectors_query m q top_k))"
proof -
  have "vectors_rel m t"
    unfolding assms(2,3) by (rule upserts_rel) (use assms(1) in \<open>simp_all add: list_all_iff vectors_rel_def vectors_ensure_schema_def\<close>)
  then show ?thesis using get_rel query_exact by blast
qed

theorem sqlite_vectors_refine_witness:
  "sqlite_vectors_query (upsert_all sqlite_vectors_upsert [(''k'', [1], ''m'')] (vectors_ensure_schema None)) [1] 1 =
     Inr (vectors_query (upsert_all vectors_upsert [(''k'', [1], ''m'')] []) [1] 1)"
proof -
  have one: "is_float 1" by (rule is_float_1 [of _ 8388608]) simp_all
  have "list_all vector_storable [(''k'', [1], ''m'')]" by (simp add: vector_storable_def c_str_def one)
  from sqlite_vectors_refine [OF this refl refl, of "''k''" "[1]" 1] show ?thesis
    by (simp add: vectors_upsert_def exact_products_def rnd32_float [OF one])
qed

text \<open>The two indexes are not interchangeable: a query where the product of two components takes more than
  24 bits is ranked differently, the first result in memory is not the first in SQLite, although both
  hold the same vectors.\<close>
theorem vector_indexes_differ:
  "\<exists>us q. list_all vector_storable us \<and>
     map vsr_key (vectors_query (upsert_all vectors_upsert us []) q 1) = [''a''] \<and>
     (\<exists>rs. sqlite_vectors_query (upsert_all sqlite_vectors_upsert us []) q 1 = Inr rs \<and> map vsr_key rs = [''b''])"
proof -
  let ?x = "4097 / 4096 :: rat" and ?y = "2049 / 2048 :: rat"
  let ?us = "[(''a'', [0, 0], []), (''b'', [?x, - ?y], [])]"
  have f: "is_float ?x" "is_float 1" "is_float (- ?y)" "is_float ?y"
    by (rule is_float_1 [of _ 8390656], simp_all) (rule is_float_1 [of _ 8388608], simp_all,
      rule is_float_1 [of _ "- 8392704"], simp_all, rule is_float_1 [of _ 8392704], simp_all)
  have st: "list_all vector_storable ?us" by (simp add: vector_storable_def c_str_def is_float_0 f)
  have "\<lfloor>16785409 / 2 :: rat\<rfloor> = 8392704" by (rule floor_unique) simp_all
  then have xx: "rnd32 (16785409 / 16777216) = ?y"
    by (simp add: rnd32_def ulp_exp32_1 powi_23 round_half_even_def Let_def)
  have r: "rnd (16785409 / 16777216) = 16785409 / 16777216" "rnd (- ?y) = - ?y" "rnd ?y = ?y"
    "rnd (4198401 / 4194304) = 4198401 / 4194304" "rnd (33562625 / 16777216) = 33562625 / 16777216"
    "rnd (33579013 / 16777216) = 33579013 / 16777216" "rnd (1 / 16777216) = 1 / 16777216"
    using rnd_fraction [of "16785409 / 16777216" 16785409] rnd_fraction [of ?y 16785408]
      rnd_fraction [of "4198401 / 4194304" 16793604] rnd_fraction [of "33562625 / 16777216" 33562625]
      rnd_fraction [of "33579013 / 16777216" 33579013] rnd_fraction [of "1 / 16777216" 1] by simp_all
  have mem: "cosine_similarity [?x, 1] [?x, - ?y] = 0"
    by (simp add: xx cosine_similarity_def cosine_step_def double_add_def double_div_def r rnd32_float f Let_def)
  have "1 / 67108864 \<le> sqlite_cosine_similarity [?x, 1] [?x, - ?y]"
    by (rule cosine_at_least [of _ _ "33562625 / 16777216" "33579013 / 16777216" "1 / 16777216"])
      (simp_all add: sqlite_cosine_similarity_def sqlite_cosine_step_def double_add_def double_mul_def r)
  then obtain s where s: "sqlite_cosine_similarity [?x, 1] [?x, - ?y] = s" "1 / 67108864 \<le> s" by blast
  have "rnd (1 / 67108864) \<le> rnd s" using s(2) by (intro rnd_mono) simp_all
  moreover have "rnd (1 / 67108864) = 1 / 67108864"
    using rnd_representable [OF representable_scaled [of 1 "- 26"]] by (simp add: power_int_def power_divide)
  ultimately have k: "kEpsilon < \<bar>rnd s\<bar>" using kEpsilon_bounds(2) by simp
  have z: "cosine_similarity [?x, 1] [0, 0] = 0" "sqlite_cosine_similarity [?x, 1] [0, 0] = 0"
    by (simp_all add: cosine_similarity_def cosine_step_def sqlite_cosine_similarity_def sqlite_cosine_step_def
        double_add_def double_mul_def double_sqrt_def rnd32_def split: prod.split)
  have "vectors_rel (upsert_all vectors_upsert ?us []) (upsert_all sqlite_vectors_upsert ?us [])"
    by (rule upserts_rel) (use st in \<open>simp_all add: vectors_rel_def list_all_iff\<close>)
  from query_rel [OF this, of "[?x, 1]" 1] s(2) k kEpsilon_nonneg
  have "sqlite_vectors_query (upsert_all sqlite_vectors_upsert ?us []) [?x, 1] 1 =
      Inr [\<lparr>vsr_key = ''b'', vsr_score = s, vsr_metadata = []\<rparr>]"
    by (simp add: vectors_upsert_def z s(1) result_less_def)
  moreover have "map vsr_key (vectors_query (upsert_all vectors_upsert ?us []) [?x, 1] 1) = [''a'']"
    using kEpsilon_nonneg by (simp add: vectors_query_def vectors_results_def vectors_upsert_def mem z result_less_def)
  ultimately show ?thesis using st by (intro exI [of _ ?us] exI [of _ "[?x, 1]"]) simp
qed

end
