(* ===== verification/In_Memory_World.thy ===== *)
theory In_Memory_World
  imports Index_Pipeline Sqlite_Vectors Resume_Ingestor Sqlite_Joins
begin

text \<open>
  The server without a database file (\<open>apps/mcp_server/main.cpp\<close>, the ephemeral path): the in-memory
  repositories and audit log, either vector index, and a SQLite database in memory for resumes, index runs and
  decisions. The world is the state of these objects; the services interpret \<open>service_world\<close>, so every
  pipeline leaves its audit trail there. Parameters: the JSON library, the identifier generator (as a
  function of its counter), the readings of the clock, the files, the coordinator and the engine's choice
  among rows it may return in any order.
\<close>

section \<open>The world\<close>

record ('l, 'c) world =
  wd_counter :: id_counter
  wd_ticks :: nat
  wd_atoms :: "(atom_id \<times> experience_atom) list"
  wd_opps :: "(opportunity_id \<times> opportunity) list"
  wd_log :: 'l
  wd_vectors :: vector_store
  wd_coord :: 'c
  wd_db :: sqlite_db

record ('j, 'c) environment =
  en_json :: "'j json_api"
  en_next_id :: "string \<Rightarrow> id_counter \<Rightarrow> string \<times> id_counter"
  en_clock :: "nat \<Rightarrow> string"
  en_files :: "string \<Rightarrow> file_read"
  en_apply :: "interaction_id \<Rightarrow> interaction_event \<Rightarrow> string \<Rightarrow> ('c, transition_result) action"
  en_first :: "string list \<Rightarrow> string"

definition world_next_id :: "('j, 'c) environment \<Rightarrow> string \<Rightarrow> (('l, 'c) world, string) action" where
  "world_next_id E prefix w =
     (case en_next_id E prefix (wd_counter w) of (x, n) \<Rightarrow> (Inr x, w\<lparr>wd_counter := n\<rparr>))"

definition world_now :: "('j, 'c) environment \<Rightarrow> (('l, 'c) world, string) action" where
  "world_now E w = (Inr (en_clock E (wd_ticks w)), w\<lparr>wd_ticks := wd_ticks w + 1\<rparr>)"

definition on_world_db :: "'a sql_action \<Rightarrow> (('l, 'c) world, 'a) action" where
  "on_world_db = act_on wd_db (\<lambda>db w. w\<lparr>wd_db := db\<rparr>)"

text \<open>The ingestor draws from the same generator; it reads the clock once, for a resume it returns.\<close>

definition world_ingest_file ::
  "('src, 'zip, 'file, 'doc, 'node) docx_api \<Rightarrow> ('j, 'c) environment \<Rightarrow> string \<Rightarrow> ingest_options \<Rightarrow>
   (('l, 'c) world, (string, ingested_resume) result) action" where
  "world_ingest_file D E path opts w =
     (case ingest_file D (en_next_id E) (en_clock E (wd_ticks w)) (en_files E) path opts (wd_counter w) of
        (r, n) \<Rightarrow>
          (Inr r, w\<lparr>wd_counter := n,
                    wd_ticks := (if is_ok r \<and> io_extracted_at opts = None then wd_ticks w + 1 else wd_ticks w)\<rparr>))"

definition ephemeral_services ::
  "('src, 'zip, 'file, 'doc, 'node) docx_api \<Rightarrow> ('j, 'c) environment \<Rightarrow> (audit_log, 'c) world services" where
  "ephemeral_services D E =
     \<lparr>sv_next_id = world_next_id E,
      sv_now = world_now E,
      sv_audit_append = (\<lambda>event. act_on wd_log (\<lambda>lg w. w\<lparr>wd_log := lg\<rparr>) (mem_append (en_json E) event)),
      sv_audit_query = (\<lambda>trace_id. act_get (\<lambda>w. log_query (wd_log w) trace_id)),
      sv_atom_get = (\<lambda>a. act_get (\<lambda>w. atoms_get (wd_atoms w) a)),
      sv_atoms_verified = act_get (\<lambda>w. atoms_list_verified (wd_atoms w)),
      sv_atoms_all = act_get (\<lambda>w. atoms_list_all (wd_atoms w)),
      sv_opp_get = (\<lambda>p. act_get (\<lambda>w. opps_get (wd_opps w) p)),
      sv_opps_all = act_get (\<lambda>w. opps_list_all (wd_opps w)),
      sv_embedding = stub_provider 128,
      sv_vector_query = act_get (\<lambda>w. store_query (wd_vectors w)),
      sv_vector_upsert = (\<lambda>k v m. act_modify (\<lambda>w. w\<lparr>wd_vectors := store_upsert k v m (wd_vectors w)\<rparr>)),
      sv_apply_transition = (\<lambda>i ev key. act_on wd_coord (\<lambda>c w. w\<lparr>wd_coord := c\<rparr>) (en_apply E i ev key)),
      sv_decision_upsert = (\<lambda>r. on_world_db (sqlite_decisions_upsert (en_json E) r)),
      sv_decision_get = (\<lambda>i. on_world_db (sqlite_decisions_get (en_json E) i)),
      sv_decisions_by_trace = (\<lambda>t. on_world_db (sqlite_decisions_list_by_trace (en_json E) t)),
      sv_ingest_file = world_ingest_file D E,
      sv_resume_upsert = (\<lambda>r. on_world_db (sqlite_resumes_upsert r)),
      sv_resumes_all = on_world_db sqlite_resumes_list_all,
      sv_next_index_run_id = on_world_db sqlite_next_index_run_id,
      sv_upsert_run = (\<lambda>run. on_world_db (sqlite_upsert_run run)),
      sv_upsert_entry = (\<lambda>entry. on_world_db (sqlite_upsert_entry entry)),
      sv_last_source_hash = (\<lambda>aid ty prov mo pv. on_world_db (sqlite_last_source_hash (en_first E) aid ty prov mo pv))\<rparr>"

text \<open>The state the server starts in.\<close>

definition ephemeral_world :: "vector_store \<Rightarrow> 'c \<Rightarrow> id_counter \<Rightarrow> (audit_log, 'c) world" where
  "ephemeral_world vectors coord counter =
     \<lparr>wd_counter = counter, wd_ticks = 0, wd_atoms = [], wd_opps = [], wd_log = empty_log, wd_vectors = vectors,
      wd_coord = coord, wd_db = snd (ensure_schema_v8 sqlite_open)\<rparr>"

section \<open>The services keep their contract\<close>

lemma silent_on:
  assumes "\<And>p w. ok (put p w) = ok w" "\<And>p w. trail (put p w) = trail w"
  shows "silent ok trail (act_on part put m)"
  by (simp add: silent_def act_on_def assms split: prod.split)

lemma silent_get: "silent ok trail (act_get f)"
  by (simp add: silent_def act_get_def)

lemma silent_modify: "(\<And>w. ok (f w) = ok w) \<Longrightarrow> (\<And>w. trail (f w) = trail w) \<Longrightarrow> silent ok trail (act_modify f)"
  by (simp add: silent_def act_modify_def)

lemma silent_world:
  assumes "\<And>w n. ok (w\<lparr>wd_counter := n\<rparr>) = ok w" "\<And>w n. trail (w\<lparr>wd_counter := n\<rparr>) = trail w"
    and "\<And>w n. ok (w\<lparr>wd_ticks := n\<rparr>) = ok w" "\<And>w n. trail (w\<lparr>wd_ticks := n\<rparr>) = trail w"
  shows "silent ok trail (world_next_id E prefix)" "silent ok trail (world_now E)"
    "silent ok trail (world_ingest_file D E path opts)"
proof -
  show "silent ok trail (world_next_id E prefix)" "silent ok trail (world_now E)"
    by (simp_all add: silent_def world_next_id_def world_now_def assms split: prod.split)
  have "ok (w\<lparr>wd_counter := n, wd_ticks := k\<rparr>) = ok w" "trail (w\<lparr>wd_counter := n, wd_ticks := k\<rparr>) = trail w" for w n k
    using assms by metis+
  then show "silent ok trail (world_ingest_file D E path opts)"
    by (simp add: silent_def world_ingest_file_def split: prod.split)
qed

lemma log_append_events:
  "log_append J event lg = Inr lg' \<Longrightarrow> \<exists>p h. al_events lg' = al_events lg @ [event\<lparr>ae_previous_hash := p, ae_event_hash := h\<rparr>]"
  by (erule log_append_Inr) auto

interpretation ephemeral: service_world "ephemeral_services D E" "\<lambda>w. log_inv (en_json E) (wd_log w)"
    "\<lambda>w. al_events (wd_log w)"
proof (unfold_locales, unfold ephemeral_services_def services.simps on_world_db_def)
  fix event
  show "emits (\<lambda>w. log_inv (en_json E) (wd_log w)) (\<lambda>w. al_events (wd_log w))
     (act_on wd_log (\<lambda>lg w. w\<lparr>wd_log := lg\<rparr>) (mem_append (en_json E) event))
     (\<lambda>r evs. case r of Inl _ \<Rightarrow> evs = []
        | Inr _ \<Rightarrow> \<exists>p h. evs = [event\<lparr>ae_previous_hash := p, ae_event_hash := h\<rparr>])"
    by (auto simp: emits_def act_on_def mem_append_def intro: log_inv_append split: sum.splits)
      (metis log_append_events)
qed (auto intro!: silent_on silent_get silent_modify silent_world)

section \<open>Properties\<close>

text \<open>Every trace of a log verifies, the one with the empty identifier too. A query returns the events of the
  trace; for the empty identifier \<open>query\<close> returns the whole log instead.\<close>

definition trace_of :: "audit_log \<Rightarrow> string \<Rightarrow> audit_event list" where
  "trace_of lg t = filter (\<lambda>e. ae_trace_id e = t) (al_events lg)"

definition all_verify :: "'j json_api \<Rightarrow> audit_log \<Rightarrow> bool" where
  "all_verify J lg \<longleftrightarrow> (\<forall>t. verify_audit_chain J (trace_of lg t) =
       Inr \<lparr>cv_valid = True, cv_first_invalid_index = length (trace_of lg t), cv_error = []\<rparr> \<and>
     (t = [] \<or> log_query lg t = trace_of lg t))"

lemma traces_verify: "log_inv J lg \<Longrightarrow> all_verify J lg"
proof -
  assume "log_inv J lg"
  then have "chain_ok J kGenesisHash (trace_of lg t)" for t by (simp add: log_inv_def trace_of_def Let_def)
  then have "verify_audit_chain J (trace_of lg t) =
      Inr \<lparr>cv_valid = True, cv_first_invalid_index = length (trace_of lg t), cv_error = []\<rparr>" for t
    using verify_valid_iff [of J "trace_of lg t"
        "\<lparr>cv_valid = True, cv_first_invalid_index = length (trace_of lg t), cv_error = []\<rparr>"] by simp
  then show ?thesis by (simp add: all_verify_def log_query_def trace_of_def)
qed

text \<open>C37. The audit trail of a match: whatever the request, and whether it succeeds, the log grows by
  events of one trace, the requested one if any. On success they are \<open>RunStarted\<close>,
  \<open>MatchCompleted\<close>, \<open>ValidationCompleted\<close>, \<open>ConstitutionOverrideApplied\<close> exactly when the
  verdict is overridden, and \<open>RunCompleted\<close>; after an exception they are the beginning of that list.
  Every trace of the log verifies afterwards.\<close>
theorem match_pipeline_audited:
  assumes "log_inv (en_json E) (wd_log w)" "run_match_pipeline (ephemeral_services D E) req w = (r, w')"
  shows "\<exists>evs. al_events (wd_log w') = al_events (wd_log w) @ evs \<and>
      traced (mq_trace_id req) (match_trail (mq_override_request req)) r evs \<and>
      log_inv (en_json E) (wd_log w') \<and> all_verify (en_json E) (wd_log w')"
  using emitsD [OF ephemeral.match_does assms(2,1)] traces_verify by blast

text \<open>A server without a coordinator or files, for the witnesses.\<close>

definition demo_environment :: "(jtree, unit) environment" where
  "demo_environment =
     \<lparr>en_json = text_json, en_next_id = deterministic_next, en_clock = (\<lambda>n. ''t'' @ to_string_nat n),
      en_files = (\<lambda>_. CannotOpen),
      en_apply = (\<lambda>i ev key. act_throw ''no coordinator''), en_first = hd\<rparr>"

definition demo_match_request :: match_request where
  "demo_match_request =
     \<lparr>mq_opportunity = None, mq_opportunity_id = Some (OpportunityId ''o1''), mq_atoms = None, mq_atom_ids = None,
      mq_strategy = kDeterministicLexicalV01, mq_k_lex = 25, mq_k_emb = 25, mq_trace_id = Some ''t1'',
      mq_resume_id = None, mq_override_request = None\<rparr>"

theorem match_pipeline_audited_witness:
  "\<exists>r w' evs. run_match_pipeline (ephemeral_services no_docx demo_environment) demo_match_request
      (ephemeral_world (Memory_Vectors []) () 0) = (r, w') \<and>
     al_events (wd_log w') = evs \<and> traced (Some ''t1'') (match_trail None) r evs"
proof -
  obtain r w' where r: "run_match_pipeline (ephemeral_services no_docx demo_environment) demo_match_request
      (ephemeral_world (Memory_Vectors []) () 0) = (r, w')" by fastforce
  have "log_inv (en_json demo_environment) (wd_log (ephemeral_world (Memory_Vectors []) () 0))"
    by (simp add: ephemeral_world_def)
  from match_pipeline_audited [OF this r] r show ?thesis
    by (simp add: demo_match_request_def ephemeral_world_def empty_log_def)
qed

end
