(* ===== verification/Mcp_Protocol.thy ===== *)
theory Mcp_Protocol
  imports Json_Codecs
begin

text \<open>
  The messages of the server (\<open>apps/mcp_server/mcp_protocol.cpp\<close>): requests read from a line, results
  and errors printed to one. The lemmas say which lines are requests and what a client can read back.
\<close>

record 'j jsonrpc_request =
  rq_jsonrpc :: string
  rq_id :: "string option"
  rq_method :: string
  rq_params :: 'j

definition kParseError :: int where
  "kParseError = - 32700"

definition kMethodNotFound :: int where
  "kMethodNotFound = - 32601"

definition parse_request_id :: "'j json_api \<Rightarrow> 'j \<Rightarrow> (string, string option) result" where
  "parse_request_id J j =
     (if \<not> j_contains J j ''id'' then Inr None
      else result_bind (j_at J j ''id'') (\<lambda>v.
        if j_is_string J v then result_bind (j_get_string J v) (\<lambda>s. Inr (Some s))
        else if j_is_number J v then result_bind (get_int32 J v) (\<lambda>i. Inr (Some (to_string_int i)))
        else Inr None))"

text \<open>Every exception makes the line no request.\<close>

definition parse_request :: "'j json_api \<Rightarrow> string \<Rightarrow> 'j jsonrpc_request option" where
  "parse_request J line =
     (case
        result_bind (j_parse J line) (\<lambda>j.
        result_bind (j_value J (j_get_string J) j ''jsonrpc'' ''2.0'') (\<lambda>version.
        result_bind (parse_request_id J j) (\<lambda>rid.
        result_bind (j_value J (j_get_string J) j ''method'' []) (\<lambda>method.
        result_bind (j_value J Inr j ''params'' (j_object J [])) (\<lambda>params.
          Inr \<lparr>rq_jsonrpc = version, rq_id = rid, rq_method = method, rq_params = params\<rparr>)))))
      of Inl _ \<Rightarrow> None | Inr request \<Rightarrow> Some request)"

definition id_json :: "'j json_api \<Rightarrow> string option \<Rightarrow> 'j" where
  "id_json J rid = (case rid of Some s \<Rightarrow> j_string J s | None \<Rightarrow> j_null J)"

definition response_object :: "'j json_api \<Rightarrow> string option \<Rightarrow> 'j \<Rightarrow> 'j" where
  "response_object J rid res =
     j_object J [(''id'', id_json J rid), (''jsonrpc'', j_string J ''2.0''), (''result'', res)]"

definition make_response :: "'j json_api \<Rightarrow> string option \<Rightarrow> 'j \<Rightarrow> (string, string) result" where
  "make_response J rid res = j_dump J (response_object J rid res)"

definition error_object :: "'j json_api \<Rightarrow> string option \<Rightarrow> int \<Rightarrow> string \<Rightarrow> 'j \<Rightarrow> 'j" where
  "error_object J rid code message data =
     j_object J
       [(''error'', j_object J [(''code'', j_int J code), (''data'', data), (''message'', j_string J message)]),
        (''id'', id_json J rid), (''jsonrpc'', j_string J ''2.0'')]"

definition make_error_response ::
  "'j json_api \<Rightarrow> string option \<Rightarrow> int \<Rightarrow> string \<Rightarrow> 'j \<Rightarrow> (string, string) result" where
  "make_error_response J rid code message data = j_dump J (error_object J rid code message data)"

section \<open>Lemmas\<close>

context json_library
begin

text \<open>What a client can write: a request with a string or a 32-bit number as its identifier.\<close>

lemma parse_request_string_id:
  assumes "j_parse J line = Inr (j_object J [(''id'', j_string J i), (''jsonrpc'', j_string J ''2.0''),
      (''method'', j_string J m), (''params'', params)])"
  shows "parse_request J line =
    Some \<lparr>rq_jsonrpc = ''2.0'', rq_id = Some i, rq_method = m, rq_params = params\<rparr>"
  using assms by (simp add: parse_request_def parse_request_id_def j_value_def json_laws)

lemma parse_request_int_id:
  assumes "j_parse J line = Inr (j_object J [(''id'', j_int J n), (''jsonrpc'', j_string J ''2.0''),
      (''method'', j_string J m), (''params'', params)])" "is_int32 n"
  shows "parse_request J line =
    Some \<lparr>rq_jsonrpc = ''2.0'', rq_id = Some (to_string_int n), rq_method = m, rq_params = params\<rparr>"
  using assms by (simp add: parse_request_def parse_request_id_def j_value_def json_laws get_int32_int)

lemma response_members:
  assumes "make_response J rid res = Inr out"
  shows "\<exists>j. j_parse J out = Inr j \<and> j_at J j ''result'' = Inr res \<and> j_at J j ''id'' = Inr (id_json J rid)"
  using parse_dump [OF assms [unfolded make_response_def]] by (auto simp: response_object_def json_laws)

end

section \<open>What a client reads\<close>

text \<open>
  What JSON-RPC asks of the answer to a line, stated over the JSON the line holds. The answer to a request
  carries the identifier of the request, a number as its decimal text; a line that is no request is
  answered with code -32700 and no identifier.
\<close>

definition request_object :: "'j json_api \<Rightarrow> string \<Rightarrow> (string \<times> 'j) list \<Rightarrow> string \<Rightarrow> bool" where
  "request_object J line kvs name \<longleftrightarrow>
     j_parse J line = Inr (j_object J kvs) \<and> distinct (map fst kvs) \<and>
     (map_of kvs ''method'' = Some (j_string J name) \<or> map_of kvs ''method'' = None \<and> name = []) \<and>
     (map_of kvs ''jsonrpc'' = None \<or> (\<exists>version. map_of kvs ''jsonrpc'' = Some (j_string J version)))"

definition answer_id :: "'j json_api \<Rightarrow> 'j option \<Rightarrow> 'j \<Rightarrow> bool" where
  "answer_id J given v \<longleftrightarrow>
     (given = None \<or> given = Some (j_null J)) \<and> v = j_null J \<or>
     (\<exists>s. given = Some (j_string J s) \<and> v = j_string J s) \<or>
     (\<exists>n. given = Some (j_int J n) \<and> is_int32 n \<and> v = j_string J (to_string_int n))"

definition no_request :: "'j json_api \<Rightarrow> string \<Rightarrow> bool" where
  "no_request J line \<longleftrightarrow>
     (case j_parse J line of
        Inl _ \<Rightarrow> True
      | Inr j \<Rightarrow> \<not> j_is_object J j \<or>
          (\<exists>kvs k v e. j = j_object J kvs \<and> distinct (map fst kvs) \<and> k \<in> {''jsonrpc'', ''method''} \<and>
             map_of kvs k = Some v \<and> j_get_string J v = Inl e))"

definition error_code :: "'j json_api \<Rightarrow> 'j \<Rightarrow> int \<Rightarrow> bool" where
  "error_code J j c \<longleftrightarrow> (\<exists>e. j_at J j ''error'' = Inr e \<and> j_at J e ''code'' = Inr (j_int J c))"

text \<open>The methods served have a result, every other method the error -32601.\<close>

definition answers :: "'j json_api \<Rightarrow> string \<Rightarrow> 'j \<Rightarrow> bool" where
  "answers J line j \<longleftrightarrow>
     j_at J j ''jsonrpc'' = Inr (j_string J ''2.0'') \<and>
     (j_contains J j ''result'' \<longleftrightarrow> \<not> j_contains J j ''error'') \<and>
     (no_request J line \<longrightarrow> error_code J j (- 32700) \<and> j_at J j ''id'' = Inr (j_null J)) \<and>
     (\<forall>kvs name v. request_object J line kvs name \<and> answer_id J (map_of kvs ''id'') v \<longrightarrow>
        j_at J j ''id'' = Inr v \<and>
        (if name \<in> {''initialize'', ''tools/list'', ''tools/call''} then j_contains J j ''result''
         else error_code J j (- 32601)))"

definition responds :: "'j json_api \<Rightarrow> string \<Rightarrow> string \<Rightarrow> bool" where
  "responds J line out \<longleftrightarrow> (\<exists>j. j_parse J out = Inr j \<and> answers J line j)"

context json_library
begin

lemma no_request_rejected:
  assumes "no_request J line"
  shows "parse_request J line = None"
proof (cases "j_parse J line")
  case (Inr j)
  have "(\<exists>e. j_value J (j_get_string J) j ''jsonrpc'' ''2.0'' = Inl e) \<or> (\<exists>e. j_value J (j_get_string J) j ''method'' [] = Inl e)"
    using assms Inr by (auto simp: no_request_def j_value_def json_laws rev_image_eqI [OF map_of_SomeD])
  then show ?thesis by (auto simp: parse_request_def Inr result_bind_Inr_iff split: sum.split)
qed (simp add: parse_request_def)

lemma request_object_parsed:
  assumes "request_object J line kvs name" "answer_id J (map_of kvs ''id'') v"
  shows "\<exists>request. parse_request J line = Some request \<and> id_json J (rq_id request) = v \<and> rq_method request = name"
proof -
  let ?j = "j_object J kvs"
  note r = assms(1) [unfolded request_object_def]
  have member: "j_value J (j_get_string J) ?j k d = (case map_of kvs k of None \<Rightarrow> Inr d | Some x \<Rightarrow> j_get_string J x)" for k d
    using r by (auto simp: j_value_def json_laws map_of_eq_None_iff split: option.split
        intro: rev_image_eqI [OF map_of_SomeD])
  have member': "j_value J Inr ?j k d = (case map_of kvs k of None \<Rightarrow> Inr d | Some x \<Rightarrow> Inr x)" for k d
    using r by (auto simp: j_value_def json_laws map_of_eq_None_iff split: option.split
        intro: rev_image_eqI [OF map_of_SomeD])
  obtain rid where rid: "parse_request_id J ?j = Inr rid" "id_json J rid = v"
    using assms(2) r
    by (auto simp: answer_id_def parse_request_id_def json_laws map_of_eq_None_iff get_int32_int id_json_def
        rev_image_eqI [OF map_of_SomeD])
  show ?thesis using r rid by (auto simp: parse_request_def member member' json_laws split: option.split)
qed

text \<open>What the server builds for a line is an answer to it.\<close>

lemma parse_error_answers: "parse_request J line = None \<Longrightarrow> answers J line (error_object J None kParseError message data)"
  using request_object_parsed [of line]
  by (fastforce simp: answers_def error_object_def error_code_def kParseError_def id_json_def json_laws)

lemma request_answers:
  assumes "parse_request J line = Some request"
  shows "rq_method request \<in> {''initialize'', ''tools/list'', ''tools/call''} \<Longrightarrow>
      answers J line (response_object J (rq_id request) res)"
    "rq_method request \<notin> {''initialize'', ''tools/list'', ''tools/call''} \<Longrightarrow>
      answers J line (error_object J (rq_id request) kMethodNotFound message data)"
proof -
  have p: "\<not> no_request J line" "request_object J line kvs name \<and> answer_id J (map_of kvs ''id'') v \<Longrightarrow>
      id_json J (rq_id request) = v \<and> rq_method request = name" for kvs name v
    using no_request_rejected [of line] request_object_parsed [of line kvs name v] assms by auto
  have m: "j_at J (response_object J rid res) ''jsonrpc'' = Inr (j_string J ''2.0'')"
      "j_contains J (response_object J rid res) ''result''" "\<not> j_contains J (response_object J rid res) ''error''"
      "j_at J (response_object J rid res) ''id'' = Inr (id_json J rid)"
      "j_at J (error_object J rid c message data) ''jsonrpc'' = Inr (j_string J ''2.0'')"
      "\<not> j_contains J (error_object J rid c message data) ''result''"
      "j_contains J (error_object J rid c message data) ''error''"
      "j_at J (error_object J rid c message data) ''id'' = Inr (id_json J rid)"
      "error_code J (error_object J rid c message data) c" for rid c
    by (simp_all add: response_object_def error_object_def error_code_def json_laws)
  show "answers J line (response_object J (rq_id request) res)"
    if "rq_method request \<in> {''initialize'', ''tools/list'', ''tools/call''}"
    unfolding answers_def using p m(1-4) that by metis
  show "answers J line (error_object J (rq_id request) kMethodNotFound message data)"
    if "rq_method request \<notin> {''initialize'', ''tools/list'', ''tools/call''}"
    unfolding answers_def using p m(5-9) that kMethodNotFound_def by metis
qed

end

lemma request_members:
  assumes "parse_request J line = Some request"
  obtains j where "j_parse J line = Inr j" "parse_request_id J j = Inr (rq_id request)"
    "j_value J (j_get_string J) j ''method'' [] = Inr (rq_method request)"
    "j_value J Inr j ''params'' (j_object J []) = Inr (rq_params request)"
  using assms that by (auto simp: parse_request_def result_bind_Inr_iff split: sum.splits)

text \<open>What the server can print of these.\<close>

lemma ascii_to_string_int: "ascii (to_string_int n)"
proof -
  have "\<not> digit7 c" if "is_digit c" for c
    using that by (cases c) (auto simp: is_digit_def less_eq_char_def)
  then have "ascii (to_string_nat m)" for m
    using to_string_nat_digits [of m] by (auto simp: ascii_def list_all_iff)
  then show ?thesis by (simp add: to_string_int_def)
qed

context json_printing
begin

lemma string_printable: "printable J j \<Longrightarrow> j_get_string J j = Inr s \<Longrightarrow> printable J (j_string J s)"
  using string_value by metis

lemma request_printable:
  assumes "parse_request J line = Some request"
  shows "printable J (id_json J (rq_id request))" "printable J (j_string J (rq_method request))"
proof -
  obtain j where j: "j_parse J line = Inr j" "parse_request_id J j = Inr (rq_id request)"
    "j_value J (j_get_string J) j ''method'' [] = Inr (rq_method request)"
    using request_members [OF assms] by blast
  note parsed = string_printable [OF print_member [OF print_parsed [OF j(1)]]]
  have "parse_request_id J j = Inr rid \<Longrightarrow> printable J (id_json J rid)" for rid
    using parsed print_null print_text [OF ascii_to_string_int]
    by (auto simp: parse_request_id_def id_json_def result_bind_Inr_iff split: if_splits)
  then show "printable J (id_json J (rq_id request))" using j(2) by simp
  show "printable J (j_string J (rq_method request))"
    using j(3) parsed print_text [of "[]"] by (auto simp: j_value_def result_bind_Inr_iff split: if_splits)
qed

lemma responses_printed:
  assumes "printable J (id_json J rid)"
  shows "printable J res \<Longrightarrow> \<exists>out. make_response J rid res = Inr out"
    "printable J (j_string J message) \<Longrightarrow> \<exists>out. make_error_response J rid code message (j_object J []) = Inr out"
proof -
  show "\<exists>out. make_response J rid res = Inr out" if "printable J res"
    using print_object [of "[(''id'', id_json J rid), (''jsonrpc'', j_string J ''2.0''), (''result'', res)]"] assms that print_text
    by (simp add: make_response_def response_object_def printable_def [of J "j_object J _"])
  show "\<exists>out. make_error_response J rid code message (j_object J []) = Inr out" if "printable J (j_string J message)"
    using assms that
    by (simp add: make_error_response_def error_object_def flip: printable_def) (simp add: print_laws)
qed

end

end
