(* ===== verification/Redis_Config.thy ===== *)
theory Redis_Config
  imports Std_Parse
begin

text \<open>
  The parser of Redis addresses (\<open>src/interaction/redis_config.cpp\<close>). The property is its grammar:
  which texts are accepted, and what they mean.
\<close>

record redis_config =
  rc_uri :: string
  rc_host :: string
  rc_port :: int
  rc_redis_db :: int

text \<open>The digits of a number: the loop over the characters, then \<open>std::stoi\<close> with its exceptions
  caught.\<close>

definition digits_number :: "string \<Rightarrow> int option" where
  "digits_number s =
     (if \<not> list_all is_digit s then None
      else case std_stoi s of Inl _ \<Rightarrow> None | Inr n \<Rightarrow> Some n)"

definition strip_redis_db :: "string \<Rightarrow> (string \<times> int) option" where
  "strip_redis_db host_port =
     (if CHR ''/'' \<notin> set host_port then Some (host_port, 0)
      else case digits_number (tl (dropWhile (\<lambda>c. c \<noteq> CHR ''/'') host_port)) of
             None \<Rightarrow> None
           | Some n \<Rightarrow>
               if n < 0 then None else Some (takeWhile (\<lambda>c. c \<noteq> CHR ''/'') host_port, n))"

definition split_host_port :: "string \<Rightarrow> (string \<times> int) option" where
  "split_host_port host_port =
     (if CHR '':'' \<notin> set host_port then Some (host_port, 6379)
      else
        let port_view = rev (takeWhile (\<lambda>c. c \<noteq> CHR '':'') (rev host_port));
            host = take (length host_port - length port_view - 1) host_port
        in if port_view = [] then None
           else case digits_number port_view of
                  None \<Rightarrow> None
                | Some n \<Rightarrow> if n < 1 \<or> 65535 < n then None else Some (host, n))"

definition parse_redis_uri :: "string \<Rightarrow> redis_config option" where
  "parse_redis_uri uri =
     (let is_redis_scheme = (take 8 uri = ''redis://'')
      in if take 6 uri \<noteq> ''tcp://'' \<and> \<not> is_redis_scheme then None
         else
           let host_port = (if take 6 uri = ''tcp://'' then drop 6 uri else drop 8 uri)
           in if host_port = [] then None
              else case (if take 6 uri = ''tcp://'' then Some (host_port, 0) else strip_redis_db host_port) of
                     None \<Rightarrow> None
                   | Some (host_port', redis_db) \<Rightarrow>
                       if host_port' = [] then None
                       else case split_host_port host_port' of
                              None \<Rightarrow> None
                            | Some (host, port) \<Rightarrow>
                                if host = [] then None
                                else Some \<lparr>rc_uri = uri, rc_host = host, rc_port = port, rc_redis_db = redis_db\<rparr>)"

definition redis_config_to_log_string :: "redis_config \<Rightarrow> string" where
  "redis_config_to_log_string config = rc_host config @ '':'' @ to_string_int (rc_port config)"

section \<open>The grammar\<close>

text \<open>A number: at least one digit, leading zeros allowed.\<close>

definition numeral_of :: "string \<Rightarrow> int \<Rightarrow> bool" where
  "numeral_of s n \<longleftrightarrow> s \<noteq> [] \<and> list_all is_digit s \<and> n = int (digits_value 0 s)"

definition port_suffix :: "string \<Rightarrow> string \<Rightarrow> int \<Rightarrow> bool" where
  "port_suffix host p n \<longleftrightarrow>
     p = [] \<and> CHR '':'' \<notin> set host \<and> n = 6379 \<or>
     (\<exists>ds. p = CHR '':'' # ds \<and> numeral_of ds n \<and> 1 \<le> n \<and> n \<le> 65535)"

definition db_suffix :: "string \<Rightarrow> int \<Rightarrow> bool" where
  "db_suffix d n \<longleftrightarrow> d = [] \<and> n = 0 \<or> (\<exists>ds. d = CHR ''/'' # ds \<and> numeral_of ds n \<and> n < 2 ^ 31)"

definition redis_address :: "string \<Rightarrow> string \<Rightarrow> int \<Rightarrow> int \<Rightarrow> bool" where
  "redis_address uri host port db \<longleftrightarrow> host \<noteq> [] \<and>
     ((\<exists>p. uri = ''tcp://'' @ host @ p \<and> port_suffix host p port \<and> db = 0) \<or>
      (\<exists>p d. uri = ''redis://'' @ host @ p @ d \<and> CHR ''/'' \<notin> set host \<and>
         port_suffix host p port \<and> db_suffix d db))"

lemma digits_number_iff: "digits_number s = Some n \<longleftrightarrow> numeral_of s n \<and> n < 2 ^ 31"
proof (cases "list_all is_digit s \<and> s \<noteq> []")
  case True
  then obtain c cs where s: "s = c # cs" and c: "is_digit c" by (cases s) auto
  have "takeWhile is_digit s = s" using True by (simp add: takeWhile_eq_all_conv list_all_iff)
  then have "parse_decimal s = Some (int (digits_value 0 s))"
    using is_digit_not_space [OF c] by (simp add: parse_decimal_def Let_def s)
  then show ?thesis
    using True by (auto simp: digits_number_def numeral_of_def std_stoi_def std_sto_def)
next
  case False
  then show ?thesis
    by (auto simp: digits_number_def numeral_of_def std_stoi_def std_sto_def parse_decimal_def)
qed

lemma digits_number_eq:
  "digits_number s = (if s \<noteq> [] \<and> list_all is_digit s \<and> digits_value 0 s < 2 ^ 31
                      then Some (int (digits_value 0 s)) else None)"
proof (cases "s \<noteq> [] \<and> list_all is_digit s \<and> digits_value 0 s < 2 ^ 31")
  case True
  then have "numeral_of s (int (digits_value 0 s)) \<and> int (digits_value 0 s) < 2 ^ 31" by (simp add: numeral_of_def)
  then show ?thesis using True by (simp only: digits_number_iff [symmetric] if_True simp_thms)
next
  case False
  then have "digits_number s \<noteq> Some n" for n by (auto simp: digits_number_iff numeral_of_def)
  then show ?thesis using False by (cases "digits_number s") auto
qed

lemma split_Nil [simp]: "split_host_port [] = Some ([], 6379)" "strip_redis_db [] = Some ([], 0)"
  by (simp_all add: split_host_port_def strip_redis_db_def)

lemma parse_redis_uri_localhost:
  "parse_redis_uri ''tcp://localhost'' =
     Some \<lparr>rc_uri = ''tcp://localhost'', rc_host = ''localhost'', rc_port = 6379, rc_redis_db = 0\<rparr>"
  by (simp add: parse_redis_uri_def split_host_port_def Let_def)

lemma numeral_of_no_char: "numeral_of s n \<Longrightarrow> \<not> is_digit c \<Longrightarrow> c \<notin> set s"
  by (auto simp: numeral_of_def list_all_iff)

lemma separators_not_digits: "\<not> is_digit CHR ''/''" "\<not> is_digit CHR '':''"
  by (simp_all add: is_digit_iff)

lemma until_char:
  "c \<notin> set h \<Longrightarrow> takeWhile (\<lambda>x. x \<noteq> c) (h @ c # t) = h"
  "c \<notin> set h \<Longrightarrow> dropWhile (\<lambda>x. x \<noteq> c) (h @ c # t) = c # t"
  by (induction h) auto

lemma first_char_unique: "h @ c # t = h' @ c # t' \<Longrightarrow> c \<notin> set h \<Longrightarrow> c \<notin> set h' \<Longrightarrow> h = h' \<and> t = t'"
  using until_char [of c h t] until_char [of c h' t'] by simp

lemma last_char_unique: "h @ c # t = h' @ c # t' \<Longrightarrow> c \<notin> set t \<Longrightarrow> c \<notin> set t' \<Longrightarrow> h = h' \<and> t = t'"
  using first_char_unique [of "rev t" c "rev h" "rev t'" "rev h'"]
  by (metis append.assoc append_Cons append_Nil rev.simps(2) rev_append rev_is_rev_conv set_rev)

lemma port_suffix_no_slash: "port_suffix host p n \<Longrightarrow> CHR ''/'' \<notin> set p"
  using numeral_of_no_char separators_not_digits(1) by (auto simp: port_suffix_def)

lemma split_host_port_iff:
  "split_host_port s = Some (host, n) \<longleftrightarrow> (\<exists>p. s = host @ p \<and> port_suffix host p n)"
proof (cases "CHR '':'' \<in> set s")
  case False
  then show ?thesis by (auto simp: split_host_port_def port_suffix_def)
next
  case True
  obtain h ds where s: "s = h @ CHR '':'' # ds" "CHR '':'' \<notin> set ds"
    using split_list_last [OF True] by blast
  have t: "rev (takeWhile (\<lambda>c. c \<noteq> CHR '':'') (rev s)) = ds"
    using s(2) by (simp add: s(1) until_char)
  have l: "split_host_port s = Some (host, n) \<longleftrightarrow> host = h \<and> numeral_of ds n \<and> 1 \<le> n \<and> n \<le> 65535"
    unfolding split_host_port_def t
    by (auto simp: s(1) Let_def digits_number_eq numeral_of_def split: option.splits)
  have "host = h \<and> p = CHR '':'' # ds" if asm: "s = host @ p" "port_suffix host p n" for p
  proof -
    obtain ds' where p: "p = CHR '':'' # ds'" "numeral_of ds' n"
      using asm True by (auto simp: port_suffix_def)
    have "CHR '':'' \<notin> set ds'" using numeral_of_no_char [OF p(2)] separators_not_digits(2) by blast
    then show ?thesis using asm(1) s last_char_unique [of h "CHR '':''" ds host ds'] by (simp add: p(1))
  qed
  then show ?thesis unfolding l by (auto simp: s(1) port_suffix_def)
qed

lemma strip_redis_db_iff:
  "strip_redis_db s = Some (hp, n) \<longleftrightarrow> (\<exists>d. s = hp @ d \<and> CHR ''/'' \<notin> set hp \<and> db_suffix d n)"
proof (cases "CHR ''/'' \<in> set s")
  case False
  then show ?thesis by (auto simp: strip_redis_db_def db_suffix_def)
next
  case True
  obtain h ds where s: "s = h @ CHR ''/'' # ds" "CHR ''/'' \<notin> set h"
    using split_list_first [OF True] by blast
  have t: "takeWhile (\<lambda>c. c \<noteq> CHR ''/'') s = h" "tl (dropWhile (\<lambda>c. c \<noteq> CHR ''/'') s) = ds"
    using s(2) by (simp_all add: s(1) until_char)
  have l: "strip_redis_db s = Some (hp, n) \<longleftrightarrow> hp = h \<and> numeral_of ds n \<and> n < 2 ^ 31"
    unfolding strip_redis_db_def t using True
    by (auto simp: digits_number_eq numeral_of_def split: option.splits)
  have "hp = h \<and> d = CHR ''/'' # ds" if asm: "s = hp @ d" "CHR ''/'' \<notin> set hp" "db_suffix d n" for d
  proof -
    obtain ds' where d: "d = CHR ''/'' # ds'" using asm True by (auto simp: db_suffix_def)
    then show ?thesis using asm(1,2) s first_char_unique [of h "CHR ''/''" ds hp ds'] by simp
  qed
  then show ?thesis unfolding l using s by (auto simp: db_suffix_def)
qed

lemma redis_parts_iff:
  "(\<exists>p d. hp = (host @ p) @ d \<and> CHR ''/'' \<notin> set host \<and> port_suffix host p port \<and> db_suffix d db) \<longleftrightarrow>
   (\<exists>hp'. strip_redis_db hp = Some (hp', db) \<and> split_host_port hp' = Some (host, port))"
proof
  assume "\<exists>p d. hp = (host @ p) @ d \<and> CHR ''/'' \<notin> set host \<and> port_suffix host p port \<and> db_suffix d db"
  then obtain p d where pd: "hp = (host @ p) @ d" "CHR ''/'' \<notin> set host" "port_suffix host p port" "db_suffix d db"
    by blast
  have "CHR ''/'' \<notin> set (host @ p)" using pd(2) port_suffix_no_slash [OF pd(3)] by simp
  then have "strip_redis_db hp = Some (host @ p, db)" using pd(1,4) by (simp only: strip_redis_db_iff) blast
  moreover have "split_host_port (host @ p) = Some (host, port)" using pd(3) by (simp only: split_host_port_iff) blast
  ultimately show "\<exists>hp'. strip_redis_db hp = Some (hp', db) \<and> split_host_port hp' = Some (host, port)" by blast
next
  assume "\<exists>hp'. strip_redis_db hp = Some (hp', db) \<and> split_host_port hp' = Some (host, port)"
  then obtain hp' where "strip_redis_db hp = Some (hp', db)" "split_host_port hp' = Some (host, port)" by blast
  then show "\<exists>p d. hp = (host @ p) @ d \<and> CHR ''/'' \<notin> set host \<and> port_suffix host p port \<and> db_suffix d db"
    unfolding strip_redis_db_iff split_host_port_iff by (elim exE conjE) (intro exI conjI, simp_all)
qed

section \<open>Properties\<close>

text \<open>C39. The grammar of Redis addresses: a text is accepted exactly when it is \<open>tcp://\<close> or
  \<open>redis://\<close>, a host, a port of 1 to 65535 or none (6379), and for \<open>redis://\<close> a database number
  of 31 bits or none (0); the configuration holds those parts. With \<open>tcp://\<close> a slash belongs to the
  host.\<close>
theorem parse_redis_uri_iff:
  "parse_redis_uri uri = Some config \<longleftrightarrow>
     rc_uri config = uri \<and> redis_address uri (rc_host config) (rc_port config) (rc_redis_db config)"
proof (cases "take 6 uri = ''tcp://''")
  case True
  then obtain hp where u: "uri = ''tcp://'' @ hp" by (metis append_take_drop_id)
  have "redis_address uri host port db \<longleftrightarrow>
      host \<noteq> [] \<and> db = 0 \<and> (\<exists>p. hp = host @ p \<and> port_suffix host p port)" for host port db
    by (auto simp: redis_address_def u)
  moreover have "parse_redis_uri uri = Some config \<longleftrightarrow> rc_uri config = uri \<and> rc_host config \<noteq> [] \<and>
      rc_redis_db config = 0 \<and> split_host_port hp = Some (rc_host config, rc_port config)"
    by (cases config) (auto simp: parse_redis_uri_def u split: option.splits)
  ultimately show ?thesis by (auto simp: split_host_port_iff)
next
  case False
  show ?thesis
  proof (cases "take 8 uri = ''redis://''")
    case True
    then obtain hp where u: "uri = ''redis://'' @ hp" by (metis append_take_drop_id)
    have "redis_address uri host port db \<longleftrightarrow> host \<noteq> [] \<and>
        (\<exists>p d. hp = (host @ p) @ d \<and> CHR ''/'' \<notin> set host \<and> port_suffix host p port \<and> db_suffix d db)"
      for host port db
      by (auto simp: redis_address_def u)
    moreover note redis_parts_iff [of hp]
    moreover have "parse_redis_uri uri =
        (case strip_redis_db hp of None \<Rightarrow> None
         | Some (hp', db) \<Rightarrow>
             (case split_host_port hp' of None \<Rightarrow> None
              | Some (host, port) \<Rightarrow>
                  if host = [] then None
                  else Some \<lparr>rc_uri = uri, rc_host = host, rc_port = port, rc_redis_db = db\<rparr>))"
      by (auto simp: parse_redis_uri_def u split: option.split)
    then have "parse_redis_uri uri = Some config \<longleftrightarrow> rc_uri config = uri \<and> rc_host config \<noteq> [] \<and>
        (\<exists>hp'. strip_redis_db hp = Some (hp', rc_redis_db config) \<and>
          split_host_port hp' = Some (rc_host config, rc_port config))"
      by (cases config) (auto split: option.splits)
    ultimately show ?thesis by simp
  next
    case no: False
    have "\<not> redis_address uri host port db" for host port db
      using False no by (auto simp: redis_address_def)
    then show ?thesis using False no by (simp add: parse_redis_uri_def)
  qed
qed

end
