(* ===== verification/Server_Config.thy ===== *)
theory Server_Config
  imports Redis_Config Matcher
begin

text \<open>
  The command line of the server: the option parser (\<open>apps/shared/arg_parser.h\<close>), the options and
  their handlers (\<open>apps/mcp_server/config.cpp\<close>, \<open>include/ccmcp/vector/vector_backend.h\<close>) and
  the start-up guard (\<open>startup_guard.cpp\<close>). A run of the parser has the lines written to the error
  stream and either the configuration or the exit code of the process.
\<close>

section \<open>The option parser\<close>

type_synonym 'c handled = "string list \<times> (int, 'c) result"

record 'c cli_option =
  op_name :: string
  op_requires_value :: bool
  op_handler :: "'c \<Rightarrow> string \<Rightarrow> 'c handled"

text \<open>The map of the options: a later option of one name replaces an earlier one.\<close>

definition option_map :: "'c cli_option list \<Rightarrow> string \<rightharpoonup> 'c cli_option" where
  "option_map options = map_of (rev (map (\<lambda>opt. (op_name opt, opt)) options))"

text \<open>Go on with the rest of the arguments unless the handler ended the process.\<close>

fun handled_then :: "'c handled \<Rightarrow> ('c \<Rightarrow> 'c handled) \<Rightarrow> 'c handled" where
  "handled_then (msgs, Inl code) rest = (msgs, Inl code)"
| "handled_then (msgs, Inr config) rest = (case rest config of (msgs', r) \<Rightarrow> (msgs @ msgs', r))"

fun parse_options :: "(string \<rightharpoonup> 'c cli_option) \<Rightarrow> string list \<Rightarrow> 'c \<Rightarrow> 'c handled" where
  "parse_options opts [] config = ([], Inr config)"
| "parse_options opts (arg # args) config =
     (case opts arg of
        Some opt \<Rightarrow>
          (if op_requires_value opt
           then (case args of
                   [] \<Rightarrow> ([''Option '' @ arg @ '' requires a value''], Inr config)
                 | value_arg # args' \<Rightarrow>
                     handled_then (op_handler opt config value_arg) (parse_options opts args'))
           else handled_then (op_handler opt config []) (parse_options opts args))
      | None \<Rightarrow>
          handled_then
            (if arg \<noteq> [] \<and> hd arg = CHR ''-'' then ([''Unknown option: '' @ arg], Inr config) else ([], Inr config))
            (parse_options opts args))"

section \<open>The options of the server\<close>

datatype vector_backend = kInMemory | kSqlite | kLanceDb

definition parse_vector_backend :: "string \<Rightarrow> vector_backend option" where
  "parse_vector_backend s =
     (if s = ''inmemory'' then Some kInMemory
      else if s = ''sqlite'' then Some kSqlite
      else if s = ''lancedb'' then Some kLanceDb
      else None)"

fun vector_backend_to_string :: "vector_backend \<Rightarrow> string" where
  "vector_backend_to_string kInMemory = ''inmemory''"
| "vector_backend_to_string kSqlite = ''sqlite''"
| "vector_backend_to_string kLanceDb = ''lancedb''"

datatype audit_chain_verify_mode = kOff | kWarnOnly | kFailStart

record mcp_server_config =
  cf_db_path :: "string option"
  cf_redis_uri :: "string option"
  cf_vector_backend :: vector_backend
  cf_vector_db_path :: "string option"
  cf_default_strategy :: matching_strategy
  cf_audit_chain_verify :: audit_chain_verify_mode

definition default_server_config :: mcp_server_config where
  "default_server_config =
     \<lparr>cf_db_path = None, cf_redis_uri = None, cf_vector_backend = kInMemory, cf_vector_db_path = None,
      cf_default_strategy = kDeterministicLexicalV01, cf_audit_chain_verify = kOff\<rparr>"

definition handle_db :: "mcp_server_config \<Rightarrow> string \<Rightarrow> mcp_server_config handled" where
  "handle_db config v = ([], Inr (config\<lparr>cf_db_path := Some v\<rparr>))"

definition handle_redis :: "mcp_server_config \<Rightarrow> string \<Rightarrow> mcp_server_config handled" where
  "handle_redis config v = ([], Inr (config\<lparr>cf_redis_uri := Some v\<rparr>))"

definition handle_vector_backend :: "mcp_server_config \<Rightarrow> string \<Rightarrow> mcp_server_config handled" where
  "handle_vector_backend config v =
     (case parse_vector_backend v of
        None \<Rightarrow>
          ([''Invalid --vector-backend: '' @ v @
            '' (valid: inmemory, sqlite; lancedb is reserved and not yet implemented)''], Inr config)
      | Some backend \<Rightarrow> ([], Inr (config\<lparr>cf_vector_backend := backend\<rparr>)))"

definition handle_vector_db_path :: "mcp_server_config \<Rightarrow> string \<Rightarrow> mcp_server_config handled" where
  "handle_vector_db_path config v = ([], Inr (config\<lparr>cf_vector_db_path := Some v\<rparr>))"

definition handle_matching_strategy :: "mcp_server_config \<Rightarrow> string \<Rightarrow> mcp_server_config handled" where
  "handle_matching_strategy config v =
     (if v = ''hybrid'' then ([], Inr (config\<lparr>cf_default_strategy := kHybridLexicalEmbeddingV02\<rparr>))
      else if v = ''lexical'' then ([], Inr (config\<lparr>cf_default_strategy := kDeterministicLexicalV01\<rparr>))
      else ([''Invalid --matching-strategy: '' @ v @ '' (valid: lexical, hybrid)''], Inr config))"

definition handle_audit_chain_verify :: "mcp_server_config \<Rightarrow> string \<Rightarrow> mcp_server_config handled" where
  "handle_audit_chain_verify config v =
     (if v = ''off'' then ([], Inr (config\<lparr>cf_audit_chain_verify := kOff\<rparr>))
      else if v = ''warn'' then ([], Inr (config\<lparr>cf_audit_chain_verify := kWarnOnly\<rparr>))
      else if v = ''fail'' then ([], Inr (config\<lparr>cf_audit_chain_verify := kFailStart\<rparr>))
      else ([''Invalid --audit-chain-verify: '' @ v @ '' (valid: off, warn, fail)''], Inl 1))"

definition server_options :: "mcp_server_config cli_option list" where
  "server_options =
     [\<lparr>op_name = ''--db'', op_requires_value = True, op_handler = handle_db\<rparr>,
      \<lparr>op_name = ''--redis'', op_requires_value = True, op_handler = handle_redis\<rparr>,
      \<lparr>op_name = ''--vector-backend'', op_requires_value = True, op_handler = handle_vector_backend\<rparr>,
      \<lparr>op_name = ''--vector-db-path'', op_requires_value = True, op_handler = handle_vector_db_path\<rparr>,
      \<lparr>op_name = ''--matching-strategy'', op_requires_value = True, op_handler = handle_matching_strategy\<rparr>,
      \<lparr>op_name = ''--audit-chain-verify'', op_requires_value = True, op_handler = handle_audit_chain_verify\<rparr>]"

definition parse_args :: "string list \<Rightarrow> mcp_server_config handled" where
  "parse_args args = parse_options (option_map server_options) args default_server_config"

section \<open>The start-up guard\<close>

definition validate_mcp_server_config :: "mcp_server_config \<Rightarrow> string" where
  "validate_mcp_server_config config =
     (case cf_redis_uri config of
        None \<Rightarrow> ''Error: --redis <uri> is required.'' @ [CHR 0x0A] @
                ''       The MCP server requires Redis for durable interaction coordination.'' @ [CHR 0x0A] @
                ''       Pass --redis tcp://host:port to enable it.'' @ [CHR 0x0A] @
                ''       See docs/DEVELOPMENT.md for local Redis setup.''
      | Some uri \<Rightarrow>
          if parse_redis_uri uri = None
          then ''Error: --redis URI '' @ [CHR 0x27] @ uri @ [CHR 0x27] @ '' is not a valid Redis URI.'' @ [CHR 0x0A] @
               ''       Accepted formats: tcp://host:port, redis://host:port, tcp://host''
          else (case cf_vector_backend config of
                  kSqlite \<Rightarrow>
                    (if cf_vector_db_path config = None
                     then ''Error: --vector-db-path <dir> is required when --vector-backend sqlite'' else [])
                | kLanceDb \<Rightarrow>
                    ''Error: --vector-backend lancedb is reserved and not yet implemented.'' @ [CHR 0x0A] @
                    ''       Use --vector-backend sqlite for persistent vector storage.''
                | kInMemory \<Rightarrow> []))"

section \<open>Lemmas\<close>

lemma vector_backend_roundtrip: "parse_vector_backend (vector_backend_to_string b) = Some b"
  by (cases b) (simp_all add: parse_vector_backend_def)

lemma validate_config_iff:
  "validate_mcp_server_config config = [] \<longleftrightarrow>
     (\<exists>uri cfg. cf_redis_uri config = Some uri \<and> parse_redis_uri uri = Some cfg) \<and>
     (cf_vector_backend config = kInMemory \<or>
      cf_vector_backend config = kSqlite \<and> cf_vector_db_path config \<noteq> None)"
  by (auto simp: validate_mcp_server_config_def split: option.splits vector_backend.splits)

lemma server_option_lookup:
  "option_map server_options ''--redis'' = Some \<lparr>op_name = ''--redis'', op_requires_value = True, op_handler = handle_redis\<rparr>"
  "option_map server_options ''--vector-backend'' =
     Some \<lparr>op_name = ''--vector-backend'', op_requires_value = True, op_handler = handle_vector_backend\<rparr>"
  "option_map server_options ''--audit-chain-verify'' =
     Some \<lparr>op_name = ''--audit-chain-verify'', op_requires_value = True, op_handler = handle_audit_chain_verify\<rparr>"
  by (simp_all add: option_map_def server_options_def)

section \<open>Properties\<close>

text \<open>A mistyped vector backend is only reported: the server goes on with the rest of the command
  line and the index in memory, while a mistyped verification mode ends the process. The two commands are
  the smallest ones.\<close>
theorem invalid_option_values:
  assumes "parse_vector_backend v = None" "w \<noteq> ''off''" "w \<noteq> ''warn''" "w \<noteq> ''fail''"
  shows "\<exists>msg. parse_args [''--redis'', ''tcp://localhost'', ''--vector-backend'', v] =
      ([msg], Inr (default_server_config\<lparr>cf_redis_uri := Some ''tcp://localhost''\<rparr>)) \<and>
    validate_mcp_server_config (default_server_config\<lparr>cf_redis_uri := Some ''tcp://localhost''\<rparr>) = [] \<and>
    (\<exists>msg'. parse_args [''--redis'', ''tcp://localhost'', ''--audit-chain-verify'', w] = ([msg'], Inl 1))"
proof -
  show ?thesis
    using assms
    by (simp add: parse_redis_uri_localhost parse_args_def server_option_lookup handle_redis_def handle_vector_backend_def
        handle_audit_chain_verify_def validate_mcp_server_config_def default_server_config_def)
qed

theorem invalid_option_values_witness:
  "\<exists>msg. parse_args [''--redis'', ''tcp://localhost'', ''--vector-backend'', ''SQLite''] =
     ([msg], Inr (default_server_config\<lparr>cf_redis_uri := Some ''tcp://localhost''\<rparr>))"
proof -
  have "parse_vector_backend ''SQLite'' = None" by (simp add: parse_vector_backend_def)
  from invalid_option_values [OF this, of "''yes''"] show ?thesis by simp
qed

end
