(* ===== verification/Tool_Handlers.thy ===== *)
theory Tool_Handlers
  imports Mcp_Protocol Index_Pipeline Server_Config
begin

text \<open>
  The tools of the server (\<open>apps/mcp_server/handlers/\<close>) and the method handlers around them
  (\<open>method_handlers.cpp\<close>). A tool parses its arguments, runs a pipeline and builds the answer; an
  exception anywhere in it becomes an answer with the member \<open>error\<close>. What the dispatch itself throws
  is not caught here.
\<close>

section \<open>The context\<close>

record ('w, 'j) server_context =
  sx_services :: "'w services"
  sx_json :: "'j json_api"
  sx_float_bytes :: "rat \<Rightarrow> string"
  sx_config :: mcp_server_config

type_synonym ('w, 'j) tool_handler = "('w, 'j) server_context \<Rightarrow> 'j \<Rightarrow> ('w, 'j) action"

definition error_json :: "'j json_api \<Rightarrow> string \<Rightarrow> 'j" where
  "error_json J message = j_object J [(''error'', j_string J message)]"

text \<open>\<open>try { ... } catch (const std::exception& e)\<close> of every handler.\<close>

definition guarded :: "('w, 'j) server_context \<Rightarrow> ('w, 'j) action \<Rightarrow> ('w, 'j) action" where
  "guarded X m = act_catch m (\<lambda>e. act_return (error_json (sx_json X) e))"

text \<open>\<open>params.contains(k) && params[k].is_string()\<close>.\<close>

definition string_param :: "'j json_api \<Rightarrow> 'j \<Rightarrow> string \<Rightarrow> (string, string option) result" where
  "string_param J params k =
     (if \<not> j_contains J params k then Inr None
      else result_bind (j_at J params k) (\<lambda>v.
        if j_is_string J v then result_bind (j_get_string J v) (\<lambda>s. Inr (Some s)) else Inr None))"

text \<open>\<open>if (params.contains(k)) x = params[k]\<close>.\<close>

definition optional_param :: "'j json_api \<Rightarrow> ('j \<Rightarrow> (string, 'a) result) \<Rightarrow> 'j \<Rightarrow> string \<Rightarrow> 'a \<Rightarrow> (string, 'a) result" where
  "optional_param J getter params k d =
     (if j_contains J params k then result_bind (j_at J params k) getter else Inr d)"

section \<open>match_opportunity\<close>

definition get_strategy :: "'j json_api \<Rightarrow> matching_strategy \<Rightarrow> 'j \<Rightarrow> (string, matching_strategy) result" where
  "get_strategy J d v =
     result_bind (j_get_string J v) (\<lambda>s.
       Inr (if s = ''hybrid_lexical_embedding_v0.2'' then kHybridLexicalEmbeddingV02 else d))"

definition match_request_of :: "'j json_api \<Rightarrow> mcp_server_config \<Rightarrow> 'j \<Rightarrow> (string, match_request) result" where
  "match_request_of J config params =
     result_bind (optional_param J (get_strategy J (cf_default_strategy config)) params ''strategy''
         (cf_default_strategy config)) (\<lambda>strategy.
     result_bind (optional_param J (get_size J) params ''k_lex'' 25) (\<lambda>k_lex.
     result_bind (optional_param J (get_size J) params ''k_emb'' 25) (\<lambda>k_emb.
     result_bind (optional_param J (\<lambda>v. result_bind (j_get_string J v) (\<lambda>s. Inr (Some s))) params ''trace_id'' None) (\<lambda>trace_id.
     result_bind (string_param J params ''resume_id'') (\<lambda>resume_id.
     if j_contains J params ''opportunity''
     then Inl ''Inline opportunity not yet implemented; use opportunity_id''
     else
       result_bind (optional_param J (\<lambda>v. result_bind (j_get_string J v) (\<lambda>s. Inr (Some (OpportunityId s))))
           params ''opportunity_id'' None) (\<lambda>opportunity_id.
       result_bind (optional_param J (\<lambda>v. result_bind (result_map (j_get_string J) (j_elems J v))
           (\<lambda>ids. Inr (Some (map AtomId ids)))) params ''atom_ids'' None) (\<lambda>atom_ids.
         Inr \<lparr>mq_opportunity = None, mq_opportunity_id = opportunity_id, mq_atoms = None, mq_atom_ids = atom_ids,
              mq_strategy = strategy, mq_k_lex = k_lex, mq_k_emb = k_emb, mq_trace_id = trace_id,
              mq_resume_id = map_option ResumeId resume_id, mq_override_request = None\<rparr>)))))))"

definition match_response_json :: "'j json_api \<Rightarrow> match_response \<Rightarrow> string \<Rightarrow> 'j" where
  "match_response_json J resp decision_id =
     (let report = mp_match_report resp; vreport = mp_validation_report resp
      in j_object J
        [(''decision_id'', j_string J decision_id),
         (''match_report'', j_object J
            [(''matched_atoms'', j_array J (map (\<lambda>a. j_string J (atom_id_value a)) (mr_matched_atoms report))),
             (''opportunity_id'', j_string J (opportunity_id_value (mr_opportunity_id report))),
             (''overall_score'', j_double J (mr_overall_score report)),
             (''strategy'', j_string J (mr_strategy report))]),
         (''trace_id'', j_string J (mp_trace_id resp)),
         (''validation_report'', j_object J
            [(''finding_count'', j_int J (int (length (vr_findings vreport)))),
             (''status'', j_string J (status_text (vr_status vreport)))])])"

definition handle_match_opportunity :: "('w, 'j) tool_handler" where
  "handle_match_opportunity X params = guarded X
     (act_bind (act_lift (match_request_of (sx_json X) (sx_config X) params)) (\<lambda>req.
      act_bind (run_match_pipeline (sx_services X) req) (\<lambda>resp.
      act_bind (record_match_decision (sx_services X) resp) (\<lambda>decision_id.
        act_return (match_response_json (sx_json X) resp decision_id)))))"

section \<open>The other tools\<close>

definition handle_validate_match_report :: "('w, 'j) tool_handler" where
  "handle_validate_match_report X params =
     act_return (error_json (sx_json X) ''validate_match_report not yet implemented'')"

definition trace_event_json :: "'j json_api \<Rightarrow> audit_event \<Rightarrow> (string, 'j) result" where
  "trace_event_json J event =
     result_bind (j_parse J (ae_payload event)) (\<lambda>payload.
       Inr (j_object J
         [(''created_at'', j_string J (ae_created_at event)), (''event_id'', j_string J (ae_event_id event)),
          (''event_type'', j_string J (ae_event_type event)), (''payload'', payload),
          (''trace_id'', j_string J (ae_trace_id event))]))"

definition handle_get_audit_trace :: "('w, 'j) tool_handler" where
  "handle_get_audit_trace X params = guarded X
     (act_bind (act_lift (j_get_at (sx_json X) (j_get_string (sx_json X)) params ''trace_id'')) (\<lambda>trace_id.
      act_bind (fetch_audit_trace (sx_services X) trace_id) (\<lambda>events.
      act_bind (act_lift (result_map (trace_event_json (sx_json X)) events)) (\<lambda>js.
        act_return (j_object (sx_json X)
          [(''events'', j_array (sx_json X) js), (''trace_id'', j_string (sx_json X) trace_id)])))))"

definition event_of_text :: "string \<Rightarrow> (string, interaction_event) result" where
  "event_of_text s =
     (if s = ''Prepare'' then Inr kPrepare
      else if s = ''Send'' then Inr kSend
      else if s = ''ReceiveReply'' then Inr kReceiveReply
      else if s = ''Close'' then Inr kClose
      else Inl (''Unknown event: '' @ s))"

definition transition_request_of :: "'j json_api \<Rightarrow> 'j \<Rightarrow> (string, transition_request) result" where
  "transition_request_of J params =
     result_bind (j_get_at J (j_get_string J) params ''interaction_id'') (\<lambda>iid.
     result_bind (result_bind (j_get_at J (j_get_string J) params ''event'') event_of_text) (\<lambda>event.
     result_bind (j_get_at J (j_get_string J) params ''idempotency_key'') (\<lambda>key.
     result_bind (optional_param J (\<lambda>v. result_bind (j_get_string J v) (\<lambda>s. Inr (Some s))) params ''trace_id'' None) (\<lambda>trace_id.
       Inr \<lparr>tq_interaction_id = InteractionId iid, tq_event = event, tq_idempotency_key = key,
            tq_trace_id = trace_id\<rparr>))))"

definition transition_response_json :: "'j json_api \<Rightarrow> transition_response \<Rightarrow> 'j" where
  "transition_response_json J resp =
     (let res = tp_result resp
      in j_object J
        [(''result'', j_object J
            [(''after_state'', j_int J (state_to_int (tr_after_state res))),
             (''before_state'', j_int J (state_to_int (tr_before_state res))),
             (''outcome'', j_string J (outcome_text (tr_outcome res))),
             (''transition_index'', j_int J (tr_transition_index res))]),
         (''trace_id'', j_string J (tp_trace_id resp))])"

definition handle_interaction_apply_event :: "('w, 'j) tool_handler" where
  "handle_interaction_apply_event X params = guarded X
     (act_bind (act_lift (transition_request_of (sx_json X) params)) (\<lambda>req.
      act_bind (run_interaction_transition (sx_services X) req) (\<lambda>resp.
        act_return (transition_response_json (sx_json X) resp))))"

definition ingest_request_of :: "'j json_api \<Rightarrow> 'j \<Rightarrow> (string, ingest_request) result" where
  "ingest_request_of J params =
     result_bind (string_param J params ''input_path'') (\<lambda>path.
     case path of
       None \<Rightarrow> Inl ''input_path (string) is required''
     | Some input_path \<Rightarrow>
         result_bind (j_value J (j_get_bool J) params ''persist'' True) (\<lambda>persist.
         result_bind (string_param J params ''trace_id'') (\<lambda>trace_id.
           Inr \<lparr>iq_input_path = input_path, iq_persist = persist, iq_trace_id = trace_id\<rparr>)))"

definition handle_ingest_resume :: "('w, 'j) tool_handler" where
  "handle_ingest_resume X params = guarded X
     (act_bind (act_lift (ingest_request_of (sx_json X) params)) (\<lambda>req.
      act_bind (run_ingest_resume_pipeline (sx_services X) req) (\<lambda>resp.
        act_return (j_object (sx_json X)
          [(''resume_hash'', j_string (sx_json X) (ip_resume_hash resp)),
           (''resume_id'', j_string (sx_json X) (ip_resume_id resp)),
           (''source_hash'', j_string (sx_json X) (ip_source_hash resp)),
           (''trace_id'', j_string (sx_json X) (ip_trace_id resp))]))))"

definition index_build_request_of :: "'j json_api \<Rightarrow> 'j \<Rightarrow> (string, index_build_request) result" where
  "index_build_request_of J params =
     result_bind (j_value J (j_get_string J) params ''scope'' ''all'') (\<lambda>scope.
     if scope \<noteq> ''atoms'' \<and> scope \<noteq> ''resumes'' \<and> scope \<noteq> ''opps'' \<and> scope \<noteq> ''all''
     then Inl (''Invalid scope: '' @ [CHR 0x22] @ scope @ [CHR 0x22] @ '' (valid: atoms|resumes|opps|all)'')
     else result_bind (string_param J params ''trace_id'') (\<lambda>trace_id.
       Inr \<lparr>bq_scope = scope, bq_trace_id = trace_id\<rparr>))"

definition handle_index_build :: "('w, 'j) tool_handler" where
  "handle_index_build X params = guarded X
     (act_bind (act_lift (index_build_request_of (sx_json X) params)) (\<lambda>req.
      act_bind (run_index_build_pipeline (sx_services X) (sx_json X) (sx_float_bytes X) ''deterministic-stub'' req) (\<lambda>resp.
        act_return (j_object (sx_json X)
          [(''counts'', j_object (sx_json X)
              [(''indexed'', j_int (sx_json X) (int (bp_indexed_count resp))),
               (''skipped'', j_int (sx_json X) (int (bp_skipped_count resp))),
               (''stale'', j_int (sx_json X) (int (bp_stale_count resp)))]),
           (''run_id'', j_string (sx_json X) (bp_run_id resp)),
           (''trace_id'', j_string (sx_json X) (bp_trace_id resp))]))))"

definition handle_get_decision :: "('w, 'j) tool_handler" where
  "handle_get_decision X params = guarded X
     (act_bind (act_lift (j_get_at (sx_json X) (j_get_string (sx_json X)) params ''decision_id'')) (\<lambda>decision_id.
      act_bind (fetch_decision (sx_services X) decision_id) (\<lambda>found.
        act_return (case found of
            None \<Rightarrow> error_json (sx_json X) (''Decision not found: '' @ decision_id)
          | Some rec \<Rightarrow> decision_record_to_json (sx_json X) rec))))"

definition handle_list_decisions :: "('w, 'j) tool_handler" where
  "handle_list_decisions X params = guarded X
     (act_bind (act_lift (j_get_at (sx_json X) (j_get_string (sx_json X)) params ''trace_id'')) (\<lambda>trace_id.
      act_bind (list_decisions_by_trace (sx_services X) trace_id) (\<lambda>recs.
        act_return (j_object (sx_json X)
          [(''decisions'', j_array (sx_json X) (map (decision_record_to_json (sx_json X)) recs)),
           (''trace_id'', j_string (sx_json X) trace_id)]))))"

definition tool_registry :: "string \<rightharpoonup> ('w, 'j) tool_handler" where
  "tool_registry =
     [''match_opportunity'' \<mapsto> handle_match_opportunity,
      ''validate_match_report'' \<mapsto> handle_validate_match_report,
      ''get_audit_trace'' \<mapsto> handle_get_audit_trace,
      ''interaction_apply_event'' \<mapsto> handle_interaction_apply_event,
      ''ingest_resume'' \<mapsto> handle_ingest_resume,
      ''index_build'' \<mapsto> handle_index_build,
      ''get_decision'' \<mapsto> handle_get_decision,
      ''list_decisions'' \<mapsto> handle_list_decisions]"

end
