(* ===== verification/Server_Loop.thy ===== *)
theory Server_Loop
  imports Tool_Handlers In_Memory_World
begin

text \<open>
  The methods of the server (\<open>method_handlers.cpp\<close>) and its main loop (\<open>server_loop.cpp\<close>): each
  line that is not empty is one request and is answered by one line, until the input ends or an exception
  leaves the loop, which ends the process (\<open>main.cpp\<close>). The locale \<open>service_keeps\<close> carries a
  predicate of the world from the single calls through every pipeline and tool to the loop. The properties: when every line is answered,
  which request stops the server, and that the audit log verifies whatever the input was.
\<close>

section \<open>Methods\<close>

type_synonym ('w, 'j) method_handler = "('w, 'j) server_context \<Rightarrow> 'j jsonrpc_request \<Rightarrow> ('w, 'j) action"

definition handle_initialize :: "('w, 'j) method_handler" where
  "handle_initialize X req =
     (let J = sx_json X
      in act_return (j_object J
        [(''capabilities'', j_object J [(''tools'', j_object J [])]),
         (''protocolVersion'', j_string J ''2024-11-05''),
         (''serverInfo'', j_object J [(''name'', j_string J ''career-coordination-mcp''),
                                      (''version'', j_string J ''0.3.0'')])]))"

definition typed_schema :: "'j json_api \<Rightarrow> string \<Rightarrow> 'j" where
  "typed_schema J ty = j_object J [(''type'', j_string J ty)]"

definition described_schema :: "'j json_api \<Rightarrow> string \<Rightarrow> string \<Rightarrow> 'j" where
  "described_schema J ty description =
     j_object J [(''description'', j_string J description), (''type'', j_string J ty)]"

definition tool_entry :: "'j json_api \<Rightarrow> string \<Rightarrow> string \<Rightarrow> (string \<times> 'j) list \<Rightarrow> string list \<Rightarrow> 'j" where
  "tool_entry J name description properties required =
     j_object J
       [(''description'', j_string J description),
        (''inputSchema'', j_object J
           ([(''properties'', j_object J properties)] @
            (if required = [] then [] else [(''required'', j_array J (map (j_string J) required))]) @
            [(''type'', j_string J ''object'')])),
        (''name'', j_string J name)]"

definition handle_tools_list :: "('w, 'j) method_handler" where
  "handle_tools_list X req =
     (let J = sx_json X; str = typed_schema J ''string''
      in act_return (j_object J [(''tools'', j_array J
        [tool_entry J ''match_opportunity'' ''Run matching + validation pipeline for an opportunity''
           [(''k_emb'', typed_schema J ''number''), (''k_lex'', typed_schema J ''number''),
            (''opportunity_id'', str), (''strategy'', str), (''trace_id'', str)] [''opportunity_id''],
         tool_entry J ''validate_match_report'' ''Validate a match report (standalone)''
           [(''match_report'', typed_schema J ''object'')] [''match_report''],
         tool_entry J ''get_audit_trace'' ''Fetch audit events by trace_id'' [(''trace_id'', str)] [''trace_id''],
         tool_entry J ''interaction_apply_event'' ''Apply interaction state transition''
           [(''event'', str), (''idempotency_key'', str), (''interaction_id'', str), (''trace_id'', str)]
           [''interaction_id'', ''event'', ''idempotency_key''],
         tool_entry J ''ingest_resume'' ''Ingest a resume file and optionally persist it to the resume store''
           [(''input_path'', described_schema J ''string'' ''Absolute path to resume file''),
            (''persist'', described_schema J ''boolean'' ''Store the resume (default: true)''),
            (''trace_id'', str)] [''input_path''],
         tool_entry J ''index_build'' ''Build or rebuild the embedding vector index for the specified scope''
           [(''scope'', j_object J
               [(''description'', j_string J ''Which artifact types to index (default: all)''),
                (''enum'', j_array J (map (j_string J) [''atoms'', ''resumes'', ''opps'', ''all''])),
                (''type'', j_string J ''string'')]),
            (''trace_id'', str)] [],
         tool_entry J ''get_decision'' ''Fetch a match decision record by decision_id''
           [(''decision_id'', str)] [''decision_id''],
         tool_entry J ''list_decisions'' ''List all decision records for a given trace_id''
           [(''trace_id'', str)] [''trace_id'']])]))"

text \<open>The two \<open>value\<close> calls are outside any handler: their exceptions leave the loop.\<close>

definition handle_tools_call :: "('w, 'j) method_handler" where
  "handle_tools_call X req =
     act_bind (act_lift (j_value (sx_json X) (j_get_string (sx_json X)) (rq_params req) ''name'' [])) (\<lambda>tool_name.
     act_bind (act_lift (j_value (sx_json X) Inr (rq_params req) ''arguments'' (j_object (sx_json X) []))) (\<lambda>tool_params.
       case tool_registry tool_name of
         None \<Rightarrow> act_return (error_json (sx_json X) (''Unknown tool: '' @ tool_name))
       | Some handler \<Rightarrow> handler X tool_params))"

definition method_registry :: "string \<rightharpoonup> ('w, 'j) method_handler" where
  "method_registry =
     [''initialize'' \<mapsto> handle_initialize, ''tools/list'' \<mapsto> handle_tools_list, ''tools/call'' \<mapsto> handle_tools_call]"

section \<open>The loop\<close>

definition serve_line :: "('w, 'j) server_context \<Rightarrow> string \<Rightarrow> ('w, string) action" where
  "serve_line X line =
     (case parse_request (sx_json X) line of
        None \<Rightarrow> act_lift (make_error_response (sx_json X) None kParseError ''Invalid JSON'' (j_object (sx_json X) []))
      | Some request \<Rightarrow>
          (case method_registry (rq_method request) of
             Some handler \<Rightarrow>
               act_bind (handler X request) (\<lambda>res. act_lift (make_response (sx_json X) (rq_id request) res))
           | None \<Rightarrow>
               act_lift (make_error_response (sx_json X) (rq_id request) kMethodNotFound
                 (''Unknown method: '' @ rq_method request) (j_object (sx_json X) []))))"

text \<open>The lines written, and the exception that ended the loop, if any.\<close>

fun run_server_loop ::
  "('w, 'j) server_context \<Rightarrow> string list \<Rightarrow> 'w \<Rightarrow> string list \<times> (string, unit) result \<times> 'w" where
  "run_server_loop X [] w = ([], Inr (), w)"
| "run_server_loop X (line # lines) w =
     (if line = [] then run_server_loop X lines w
      else case serve_line X line w of
             (Inl e, w') \<Rightarrow> ([], Inl e, w')
           | (Inr out, w') \<Rightarrow> (case run_server_loop X lines w' of (outs, r, w'') \<Rightarrow> (out # outs, r, w'')))"

section \<open>What the handlers keep\<close>

definition keeps :: "('w \<Rightarrow> bool) \<Rightarrow> ('w, 'a) action \<Rightarrow> bool" where
  "keeps ok m \<longleftrightarrow> (\<forall>w. ok w \<longrightarrow> ok (snd (m w)))"

lemma keeps_emits: "emits ok trail m P \<Longrightarrow> keeps ok m"
  by (auto simp: keeps_def emits_def)

lemma keeps_silent: "silent ok trail m \<Longrightarrow> keeps ok m"
  by (auto simp: keeps_def silent_def)

lemma keeps_bind: "keeps ok m \<Longrightarrow> (\<And>a. keeps ok (f a)) \<Longrightarrow> keeps ok (act_bind m f)"
  by (simp add: keeps_def act_bind_def split: prod.splits sum.splits) (metis snd_conv)

lemma keeps_pure [simp]: "keeps ok (act_return a)" "keeps ok (act_throw e)" "keeps ok (act_lift r)"
  by (simp_all add: keeps_def act_return_def act_throw_def act_lift_def)

lemma keeps_guarded: "keeps ok m \<Longrightarrow> keeps ok (guarded X m)"
  by (simp add: keeps_def guarded_def act_catch_def act_return_def split: prod.splits sum.splits) (metis snd_conv)

lemma keeps_map: "(\<And>x. keeps ok (f x)) \<Longrightarrow> keeps ok (act_map f xs)"
  by (induction xs) (auto intro!: keeps_bind)

lemma keeps_fold: "(\<And>x b. keeps ok (f x b)) \<Longrightarrow> keeps ok (act_fold f xs b)"
  by (induction xs arbitrary: b) (auto intro!: keeps_bind)

text \<open>The weaker contract of the services: every call keeps a predicate of the world.\<close>

locale service_keeps =
  fixes S :: "'w services"
    and ok :: "'w \<Rightarrow> bool"
  assumes k_next_id: "keeps ok (sv_next_id S prefix)"
    and k_now: "keeps ok (sv_now S)"
    and k_audit_append: "keeps ok (sv_audit_append S event)"
    and k_audit_query: "keeps ok (sv_audit_query S tid)"
    and k_atom_get: "keeps ok (sv_atom_get S a)"
    and k_atoms_verified: "keeps ok (sv_atoms_verified S)"
    and k_atoms_all: "keeps ok (sv_atoms_all S)"
    and k_opp_get: "keeps ok (sv_opp_get S opp)"
    and k_opps_all: "keeps ok (sv_opps_all S)"
    and k_vector_query: "keeps ok (sv_vector_query S)"
    and k_vector_upsert: "keeps ok (sv_vector_upsert S k v md)"
    and k_apply_transition: "keeps ok (sv_apply_transition S i ev key)"
    and k_decision_upsert: "keeps ok (sv_decision_upsert S rec)"
    and k_decision_get: "keeps ok (sv_decision_get S decision_id)"
    and k_decisions_by_trace: "keeps ok (sv_decisions_by_trace S tid)"
    and k_ingest_file: "keeps ok (sv_ingest_file S path opts)"
    and k_resume_upsert: "keeps ok (sv_resume_upsert S resume)"
    and k_resumes_all: "keeps ok (sv_resumes_all S)"
    and k_next_index_run_id: "keeps ok (sv_next_index_run_id S)"
    and k_upsert_run: "keeps ok (sv_upsert_run S run)"
    and k_upsert_entry: "keeps ok (sv_upsert_entry S entry)"
    and k_last_source_hash: "keeps ok (sv_last_source_hash S aid ty prov mo pv)"
begin

lemmas kept = keeps_bind keeps_pure keeps_map keeps_fold k_next_id k_now k_audit_append k_audit_query k_atom_get
  k_atoms_verified k_atoms_all k_opp_get k_opps_all k_vector_query k_vector_upsert k_apply_transition
  k_decision_upsert k_decision_get k_decisions_by_trace k_ingest_file k_resume_upsert k_resumes_all
  k_next_index_run_id k_upsert_run k_upsert_entry k_last_source_hash

lemma emit_keeps: "keeps ok (emit S t ty payload refs)" "keeps ok (emit_at S t ty payload stamp refs)"
  by (auto simp: emit_def emit_at_def intro!: kept)

lemma trace_keeps: "keeps ok (trace_or_next S given)"
  by (auto simp: trace_or_next_def intro!: kept)

lemma resolve_keeps: "keeps ok (resolve_opportunity S mreq)" "keeps ok (resolve_atom S a)" "keeps ok (resolve_atoms S mreq)"
proof -
  show a: "keeps ok (resolve_atom S a)" for a by (auto simp: resolve_atom_def intro!: kept split: option.split)
  show "keeps ok (resolve_opportunity S mreq)"
    by (auto simp: resolve_opportunity_def intro!: kept split: option.split)
  show "keeps ok (resolve_atoms S mreq)" by (auto simp: resolve_atoms_def intro!: kept a split: option.split)
qed

lemma validation_keeps: "keeps ok (run_validation_pipeline S report t ov)"
  by (auto simp: run_validation_pipeline_def Let_def intro!: kept emit_keeps split: option.split)

lemma match_keeps: "keeps ok (run_match_pipeline S mreq)"
  unfolding run_match_pipeline_def Let_def
  by (intro kept trace_keeps emit_keeps resolve_keeps validation_keeps)

lemma pipelines_keep: "keeps ok (record_match_decision S resp)" "keeps ok (run_interaction_transition S treq)"
  "keeps ok (run_ingest_resume_pipeline S ireq)"
  by (auto simp: record_match_decision_def run_interaction_transition_def run_ingest_resume_pipeline_def Let_def
      intro!: kept trace_keeps emit_keeps split: sum.split)

lemma index_build_keeps: "keeps ok (run_index_build S J fb config)"
proof -
  have "keeps ok (index_artifact S J fb run_id config ty prefix x n)" for run_id ty prefix x n
    by (auto simp: index_artifact_def Let_def intro!: kept emit_keeps split: prod.split option.split)
  then have "keeps ok (index_loop S J fb run_id config wanted ty prefix items n)"
    if "keeps ok items" for run_id wanted ty prefix items n
    using that by (auto simp: index_loop_def intro!: kept)
  moreover have "keeps ok (atom_artifacts S)" "keeps ok (resume_artifacts S)" "keeps ok (opportunity_artifacts S)"
    by (auto simp: atom_artifacts_def resume_artifacts_def opportunity_artifacts_def intro!: kept)
  ultimately show ?thesis unfolding index_build_defs Let_def by (intro kept emit_keeps)
qed

lemma index_pipeline_keeps: "keeps ok (run_index_build_pipeline S J fb provider_id req)"
  unfolding run_index_build_pipeline_def by (intro kept trace_keeps index_build_keeps emit_keeps)

lemma tools_keep:
  assumes "sx_services X = S" "tool_registry name = Some handler"
  shows "keeps ok (handler X params)"
proof -
  have "handler \<in> {handle_match_opportunity, handle_validate_match_report, handle_get_audit_trace,
      handle_interaction_apply_event, handle_ingest_resume, handle_index_build, handle_get_decision,
      handle_list_decisions}"
    using assms(2) by (auto simp: tool_registry_def split: if_splits)
  moreover note keep = keeps_guarded kept match_keeps pipelines_keep index_pipeline_keeps
  ultimately show ?thesis
    by (auto simp: handle_match_opportunity_def handle_validate_match_report_def handle_get_audit_trace_def
        handle_interaction_apply_event_def handle_ingest_resume_def handle_index_build_def handle_get_decision_def
        handle_list_decisions_def fetch_audit_trace_def fetch_decision_def list_decisions_by_trace_def assms(1)
        intro!: keep)
qed

lemma methods_keep:
  assumes "sx_services X = S" "method_registry name = Some handler"
  shows "keeps ok (handler X req)"
proof -
  have "handler \<in> {handle_initialize, handle_tools_list, handle_tools_call}"
    using assms(2) by (auto simp: method_registry_def split: if_splits)
  moreover have "keeps ok (handle_tools_call X req)"
    unfolding handle_tools_call_def
    by (intro keeps_bind keeps_pure) (simp add: tools_keep [OF assms(1)] split: option.split)
  ultimately show ?thesis by (auto simp: handle_initialize_def handle_tools_list_def Let_def)
qed

lemma serve_line_keeps:
  assumes "sx_services X = S"
  shows "keeps ok (serve_line X line)"
  unfolding serve_line_def
  by (auto intro: keeps_bind methods_keep [OF assms] split: option.split)

lemma server_loop_keeps:
  assumes "sx_services X = S"
  shows "ok w \<Longrightarrow> ok (snd (snd (run_server_loop X lines w)))"
proof (induction lines arbitrary: w)
  case (Cons line lines)
  obtain r w1 where s: "serve_line X line w = (r, w1)" by fastforce
  have "ok w1" using serve_line_keeps [OF assms, of line] Cons.prems s unfolding keeps_def by (metis snd_conv)
  then show ?case using Cons.IH [of w1] Cons.IH [OF Cons.prems] s by (cases r) (simp_all add: case_prod_beta)
qed simp

end

sublocale service_world \<subseteq> service_keeps S ok
  by (unfold_locales; intro keeps_silent [OF silent_services(1)] silent_services [THEN keeps_silent]
      keeps_emits [OF audit_append])

section \<open>What ends the loop\<close>




context json_library
begin

lemma array_params_throw:
  assumes "sx_json X = J" "j_parse J line = Inr (j_object J
      [(''method'', j_string J ''tools/call''), (''params'', j_array J args)])"
  shows "serve_line X line w = (Inl (j_value_error J (j_array J args)), w)"
proof -
  have "parse_request J line = Some \<lparr>rq_jsonrpc = ''2.0'', rq_id = None, rq_method = ''tools/call'',
      rq_params = j_array J args\<rparr>"
    by (simp add: parse_request_def parse_request_id_def j_value_def assms(2) json_laws)
  then show ?thesis
    by (simp add: serve_line_def assms(1) method_registry_def handle_tools_call_def j_value_def json_laws
        act_bind_def act_lift_def)
qed

end







section \<open>Properties\<close>


text \<open>C38. One request ends the server: a \<open>tools/call\<close> whose parameters are an array, as JSON-RPC allows,
  throws outside the handlers; the line is not answered, and neither is any line after it.\<close>
theorem server_stopped_by_array_params:
  assumes "json_library (sx_json X)"
    and "j_parse (sx_json X) line = Inr (j_object (sx_json X)
      [(''method'', j_string (sx_json X) ''tools/call''), (''params'', j_array (sx_json X) args)])"
    and "line \<noteq> []"
  shows "run_server_loop X (line # lines) w =
    ([], Inl (j_value_error (sx_json X) (j_array (sx_json X) args)), w)"
  using assms(3) by (simp add: json_library.array_params_throw [OF assms(1) refl assms(2)])

text \<open>C7. The audit log under any input: whatever lines the server without a database reads, and whether
  or not an exception ends it, every trace of its log verifies, the one with the empty identifier too, for any coordinator, files, clock and
  identifiers.\<close>
theorem server_log_verifies:
  "all_verify (en_json E) (wd_log (snd (snd (run_server_loop (X\<lparr>sx_services := ephemeral_services D E\<rparr>) lines
     (ephemeral_world vectors coord counter)))))"
  by (rule traces_verify, rule ephemeral.server_loop_keeps) (simp_all add: ephemeral_world_def)

definition demo_context :: "((audit_log, unit) world, jtree) server_context" where
  "demo_context =
     \<lparr>sx_services = ephemeral_services no_docx demo_environment, sx_json = tree_json, sx_float_bytes = (\<lambda>_. []),
      sx_config = default_server_config\<rparr>"





theorem server_stopped_by_array_params_witness:
  "run_server_loop demo_context
     [enc_tree (TObject [(''method'', TString ''tools/call''), (''params'', TArray [])]), ''n''] (ephemeral_world (Memory_Vectors []) () 0) =
     ([], Inl ''[json.exception.type_error.306] cannot use value() with array'', ephemeral_world (Memory_Vectors []) () 0)"
proof -
  have J: "sx_json demo_context = tree_json" by (simp add: demo_context_def)
  let ?j = "TObject [(''method'', TString ''tools/call''), (''params'', TArray [])]"
  have "j_parse tree_json (enc_tree ?j) = Inr ?j" by (rule tree.parse_dump) (simp add: tree_json_def)
  then have "j_parse tree_json (enc_tree ?j) = Inr (j_object tree_json
      [(''method'', j_string tree_json ''tools/call''), (''params'', j_array tree_json [])])"
    by (simp add: tree_json_def)
  from server_stopped_by_array_params [of demo_context, unfolded J, OF tree.json_library_axioms this]
  show ?thesis by (simp add: tree_json_def tree_type_name_def)
qed

end
