(* ===== verification/Startup.thy ===== *)
theory Startup
  imports Server_Loop Sqlite_Audit_Log
begin

text \<open>
  The start of the server (\<open>apps/mcp_server/main.cpp\<close>): the command line, the checks, the objects
  over a database file or in memory, the snapshot of the configuration, the verification of the audit
  chains and the loop. Parameters beside those of \<open>In_Memory_World\<close>: what opening a database, the vector
  index and the connection to Redis give. A session is described by the text it writes to standard error
  before and after the loop, its standard output, its exit code and the state it leaves.
\<close>

section \<open>The persistent objects\<close>

text \<open>The log is the database with the cached indices.\<close>

definition on_world_log :: "'a log_action \<Rightarrow> ((string \<rightharpoonup> int, 'c) world, 'a) action" where
  "on_world_log = act_on (\<lambda>w. \<lparr>sl_db = wd_db w, sl_trace_indices = wd_log w\<rparr>)
     (\<lambda>l w. w\<lparr>wd_db := sl_db l, wd_log := sl_trace_indices l\<rparr>)"

definition persistent_services ::
  "('src, 'zip, 'file, 'doc, 'node) docx_api \<Rightarrow> ('j, 'c) environment \<Rightarrow>
   (string \<rightharpoonup> int, 'c) world services" where
  "persistent_services D E =
     \<lparr>sv_next_id = world_next_id E,
      sv_now = world_now E,
      sv_audit_append = (\<lambda>event. on_world_log (sqlite_log_append (en_json E) event)),
      sv_audit_query = (\<lambda>trace_id. on_world_log (sqlite_log_query (en_json E) trace_id)),
      sv_atom_get = (\<lambda>a. on_world_db (sqlite_atoms_get (en_json E) a)),
      sv_atoms_verified = on_world_db (sqlite_atoms_list_verified (en_json E)),
      sv_atoms_all = on_world_db (sqlite_atoms_list_all (en_json E)),
      sv_opp_get = (\<lambda>p. on_world_db (sqlite_opps_get (en_json E) p)),
      sv_opps_all = on_world_db (sqlite_opps_list_all (en_json E)),
      sv_embedding = stub_provider 128,
      sv_vector_query = act_get (\<lambda>w. store_query (wd_vectors w)),
      sv_vector_upsert = (\<lambda>k v m. act_modify (\<lambda>w. w\<lparr>wd_vectors := store_upsert k v m (wd_vectors w)\<rparr>)),
      sv_apply_transition = (\<lambda>i ev key. act_on wd_coord (\<lambda>c w. w\<lparr>wd_coord := c\<rparr>) (en_apply E i ev key)),
      sv_decision_upsert = (\<lambda>r. on_world_db (sqlite_decisions_upsert (en_json E) r)),
      sv_decision_get = (\<lambda>i. on_world_db (sqlite_decisions_get (en_json E) i)),
      sv_decisions_by_trace = (\<lambda>t. on_world_db (sqlite_decisions_list_by_trace (en_json E) t)),
      sv_ingest_file = world_ingest_file D E,
      sv_resume_upsert = (\<lambda>r. on_world_db (sqlite_resumes_upsert r)),
      sv_resumes_all = on_world_db sqlite_resumes_list_all,
      sv_next_index_run_id = on_world_db sqlite_next_index_run_id,
      sv_upsert_run = (\<lambda>run. on_world_db (sqlite_upsert_run run)),
      sv_upsert_entry = (\<lambda>entry. on_world_db (sqlite_upsert_entry entry)),
      sv_last_source_hash = (\<lambda>aid ty prov mo pv. on_world_db (sqlite_last_source_hash (en_first E) aid ty prov mo pv))\<rparr>"

definition persistent_world ::
  "sqlite_db \<Rightarrow> vector_store \<Rightarrow> 'c \<Rightarrow> id_counter \<Rightarrow> (string \<rightharpoonup> int, 'c) world" where
  "persistent_world db vectors coord counter =
     \<lparr>wd_counter = counter, wd_ticks = 0, wd_atoms = [], wd_opps = [], wd_log = Map.empty, wd_vectors = vectors,
      wd_coord = coord, wd_db = db\<rparr>"

section \<open>The snapshot and the check of the audit chains\<close>

definition kBuildVersion :: string where
  "kBuildVersion = ''0.4''"

definition startup_snapshot :: "mcp_server_config \<Rightarrow> redis_config \<Rightarrow> runtime_config_snapshot" where
  "startup_snapshot config redis_cfg =
     \<lparr>rc_snapshot_format_version = 2, rc_db_schema_version = 8,
      rc_vector_backend = vector_backend_to_string (cf_vector_backend config),
      rc_redis_host = rc_host redis_cfg, rc_redis_port = rc_port redis_cfg, rc_redis_db = rc_redis_db redis_cfg,
      rc_build_version = kBuildVersion, rc_feature_flags = []\<rparr>"

definition save_snapshot :: "('j, 'c) environment \<Rightarrow> runtime_config_snapshot \<Rightarrow> (('l, 'c) world, unit) action" where
  "save_snapshot E snap =
     act_bind (act_lift (snapshot_to_json (en_json E) snap)) (\<lambda>snap_json.
     act_bind (world_next_id E ''snapshot'') (\<lambda>run_id.
     act_bind (world_now E) (\<lambda>created_at.
       on_world_db (sqlite_snapshot_save run_id snap_json (sha256_hex snap_json) created_at))))"

definition trace_warning :: "string \<Rightarrow> chain_verification \<Rightarrow> string" where
  "trace_warning tid result =
     ''WARNING: Audit chain corrupt for trace '' @ tid @ '' at event '' @
     to_string_nat (cv_first_invalid_index result) @ '': '' @ cv_error result"

text \<open>The warnings printed, and the exception that ended the scan if one did.\<close>

fun scan_traces ::
  "'j json_api \<Rightarrow> (string \<Rightarrow> ('w, audit_event list) action) \<Rightarrow> string list \<Rightarrow> 'w \<Rightarrow>
   string list \<times> (string, unit) result \<times> 'w" where
  "scan_traces J query [] w = ([], Inr (), w)"
| "scan_traces J query (tid # ids) w =
     (case act_bind (query tid) (\<lambda>events. act_lift (verify_audit_chain J events)) w of
        (Inl e, w') \<Rightarrow> ([], Inl e, w')
      | (Inr result, w') \<Rightarrow>
          (case scan_traces J query ids w' of
             (warnings, r, w'') \<Rightarrow>
               (if cv_valid result then warnings else trace_warning tid result # warnings, r, w'')))"

text \<open>A process returns a code, or ends by an exception that nothing catches.\<close>

datatype exit_status = Exited int | Terminated string

record 'w session =
  ss_errors :: "string list"
  ss_output :: "string list"
  ss_exit :: exit_status
  ss_world :: 'w

definition connect_error :: "string \<Rightarrow> string" where
  "connect_error e = ''Failed to connect to Redis: '' @ e"

definition kRefusal :: string where
  "kRefusal = ''Error: Audit chain verification failed (--audit-chain-verify fail). Refusing to start.''"

text \<open>The \<open>try\<close> block after the connection, which both paths have.\<close>

definition run_session ::
  "('w, 'j) server_context \<Rightarrow> ('w, unit) action \<Rightarrow> ('w, string list) action \<Rightarrow> string list \<Rightarrow> 'w \<Rightarrow> 'w session" where
  "run_session X save list_trace_ids lines w =
     (let mode = cf_audit_chain_verify (sx_config X)
      in case act_bind save (\<lambda>_. if mode = kOff then act_return [] else list_trace_ids) w of
           (Inl e, w1) \<Rightarrow> \<lparr>ss_errors = [connect_error e], ss_output = [], ss_exit = Exited 1, ss_world = w1\<rparr>
         | (Inr ids, w1) \<Rightarrow>
             (case scan_traces (sx_json X) (sv_audit_query (sx_services X)) ids w1 of
                (warnings, Inl e, w2) \<Rightarrow>
                  \<lparr>ss_errors = warnings @ [connect_error e], ss_output = [], ss_exit = Exited 1, ss_world = w2\<rparr>
              | (warnings, Inr _, w2) \<Rightarrow>
                  if warnings \<noteq> [] \<and> mode = kFailStart
                  then \<lparr>ss_errors = warnings @ [kRefusal], ss_output = [], ss_exit = Exited 1, ss_world = w2\<rparr>
                  else
                    (case run_server_loop X lines w2 of
                       (output, Inr _, w3) \<Rightarrow>
                         \<lparr>ss_errors = warnings, ss_output = output, ss_exit = Exited 0, ss_world = w3\<rparr>
                     | (output, Inl e, w3) \<Rightarrow>
                         \<lparr>ss_errors = warnings @ [connect_error e], ss_output = output, ss_exit = Exited 1, ss_world = w3\<rparr>)))"

section \<open>main\<close>

text \<open>What the world outside gives: the database of a path, the making of a directory, the tables of a vector file, the coordinator of a
  Redis address, each or the message of the error.\<close>

record ('j, 'c) outside =
  ou_environment :: "('j, 'c) environment"
  ou_open_db :: "string \<Rightarrow> (string, sqlite_db) result"
  ou_create_directories :: "string \<Rightarrow> (string, unit) result"
  ou_open_vectors :: "string \<Rightarrow> vector_file"
  ou_connect :: "string \<Rightarrow> (string, 'c) result"
  ou_float_bytes :: "rat \<Rightarrow> string"
  ou_counter :: id_counter

definition startup_banner :: "mcp_server_config \<Rightarrow> redis_config \<Rightarrow> string list" where
  "startup_banner config redis_cfg =
     [''career-coordination-mcp MCP Server v0.4'',
      (case cf_db_path config of
         Some p \<Rightarrow> ''Storage:     SQLite -- '' @ p
       | None \<Rightarrow> ''WARNING: No --db path specified. Running with EPHEMERAL in-memory storage.'' @ [CHR 0x0A] @
           ''         All career data (atoms, opportunities, interactions, audit log)'' @ [CHR 0x0A] @
           ''         will be LOST on process exit. Pass --db <path> to enable persistence.''),
      ''Coordinator: Redis (required) -- '' @ redis_config_to_log_string redis_cfg] @
     (case cf_vector_backend config of
        kSqlite \<Rightarrow> [''Vector:      SQLite -- '' @ the (cf_vector_db_path config) @ ''/vectors.db'']
      | kInMemory \<Rightarrow>
          [''WARNING: No --vector-backend sqlite specified. Running with EPHEMERAL in-memory vector index.'' @ [CHR 0x0A] @
           ''         Embedding index will be LOST on process exit. Hybrid matching will require'' @ [CHR 0x0A] @
           ''         re-embedding on restart. Pass --vector-backend sqlite --vector-db-path <dir>.'']
      | kLanceDb \<Rightarrow> []) @
     [''Listening on stdio for JSON-RPC requests...'']"

text \<open>The directory is made outside the \<open>try\<close> block: its exception ends the process.\<close>

definition open_vector_index ::
  "('j, 'c) outside \<Rightarrow> mcp_server_config \<Rightarrow> (string list \<times> exit_status, vector_store) result" where
  "open_vector_index U config =
     (case cf_vector_backend config of
        kSqlite \<Rightarrow>
          (let dir = the (cf_vector_db_path config)
           in case ou_create_directories U dir of
                Inl e \<Rightarrow> Inl ([], Terminated e)
              | Inr _ \<Rightarrow>
                  (let db_file = dir @ ''/vectors.db''
                   in case make_sqlite_index db_file (ou_open_vectors U db_file) of
                        Inl e \<Rightarrow> Inl ([''Error: failed to open vector index: '' @ e], Exited 1)
                      | Inr table \<Rightarrow> Inr (Table_Vectors table)))
      | _ \<Rightarrow> Inr (Memory_Vectors []))"

text \<open>A message and exit code 1.\<close>

definition give_up :: "'w \<Rightarrow> string \<Rightarrow> 'w session" where
  "give_up w message = \<lparr>ss_errors = [message], ss_output = [], ss_exit = Exited 1, ss_world = w\<rparr>"

definition start_persistent ::
  "('src, 'zip, 'file, 'doc, 'node) docx_api \<Rightarrow> ('j, 'c) outside \<Rightarrow> mcp_server_config \<Rightarrow> redis_config \<Rightarrow>
   string \<Rightarrow> string list \<Rightarrow> vector_store \<Rightarrow> sqlite_db option session" where
  "start_persistent D U config redis_cfg path lines vectors =
     (case ou_open_db U path of
        Inl e \<Rightarrow> give_up None (''Failed to open database: '' @ e)
      | Inr db0 \<Rightarrow>
          (case ensure_schema_v8 db0 of
             (Inl e, db) \<Rightarrow> give_up (Some db) (''Failed to initialize schema: '' @ e)
           | (Inr _, db) \<Rightarrow>
               (case ou_connect U (the (cf_redis_uri config)) of
                  Inl e \<Rightarrow> give_up (Some db) (connect_error e)
                | Inr coord \<Rightarrow>
                    (let E = ou_environment U;
                         s = run_session
                           \<lparr>sx_services = persistent_services D E, sx_json = en_json E,
                            sx_float_bytes = ou_float_bytes U, sx_config = config\<rparr>
                           (save_snapshot E (startup_snapshot config redis_cfg))
                           (on_world_log sqlite_log_list_trace_ids) lines
                           (persistent_world db vectors coord (ou_counter U))
                     in \<lparr>ss_errors = ss_errors s, ss_output = ss_output s, ss_exit = ss_exit s,
                         ss_world = Some (wd_db (ss_world s))\<rparr>))))"

definition start_ephemeral ::
  "('src, 'zip, 'file, 'doc, 'node) docx_api \<Rightarrow> ('j, 'c) outside \<Rightarrow> mcp_server_config \<Rightarrow> redis_config \<Rightarrow>
   string list \<Rightarrow> vector_store \<Rightarrow> sqlite_db option session" where
  "start_ephemeral D U config redis_cfg lines vectors =
     (case ou_connect U (the (cf_redis_uri config)) of
        Inl e \<Rightarrow> give_up None (connect_error e)
      | Inr coord \<Rightarrow>
          (let E = ou_environment U;
               s = run_session
                 \<lparr>sx_services = ephemeral_services D E, sx_json = en_json E,
                  sx_float_bytes = ou_float_bytes U, sx_config = config\<rparr>
                 (save_snapshot E (startup_snapshot config redis_cfg))
                 (act_get (\<lambda>w. log_list_trace_ids (wd_log w))) lines
                 (ephemeral_world vectors coord (ou_counter U))
           in \<lparr>ss_errors = ss_errors s, ss_output = ss_output s, ss_exit = ss_exit s, ss_world = None\<rparr>))"

text \<open>Standard error, standard output, the exit code and the database file, in that order.\<close>

definition server_main ::
  "('src, 'zip, 'file, 'doc, 'node) docx_api \<Rightarrow> ('j, 'c) outside \<Rightarrow> string list \<Rightarrow> string list \<Rightarrow>
   sqlite_db option session" where
  "server_main D U args lines =
     (case parse_args args of
        (messages, Inl code) \<Rightarrow> \<lparr>ss_errors = messages, ss_output = [], ss_exit = Exited code, ss_world = None\<rparr>
      | (messages, Inr config) \<Rightarrow>
          (let err = validate_mcp_server_config config
           in if err \<noteq> [] then \<lparr>ss_errors = messages @ [err], ss_output = [], ss_exit = Exited 1, ss_world = None\<rparr>
              else
                (let redis_cfg = the (parse_redis_uri (the (cf_redis_uri config)));
                     s = (case open_vector_index U config of
                            Inl (errors, status) \<Rightarrow>
                              \<lparr>ss_errors = errors, ss_output = [], ss_exit = status, ss_world = None\<rparr>
                          | Inr vectors \<Rightarrow>
                              (case cf_db_path config of
                                 Some path \<Rightarrow> start_persistent D U config redis_cfg path lines vectors
                               | None \<Rightarrow> start_ephemeral D U config redis_cfg lines vectors))
                 in s\<lparr>ss_errors := messages @ startup_banner config redis_cfg @ ss_errors s\<rparr>)))"

end
