(* ===== verification/Startup_Checks.thy ===== *)
theory Startup_Checks
  imports Startup
begin

text \<open>
  What the start of the server decides: the scan of the audit chains as a predicate on the answers of the
  log, its consequences for a session, and the databases that are served and refused.
\<close>

section \<open>What the check decides\<close>

lemma scan_traces_state:
  assumes "\<And>t. snd (query t w) = w"
  shows "snd (snd (scan_traces J query ids w)) = w"
proof (induction ids)
  case (Cons t ids)
  obtain r where r: "query t w = (r, w)" using assms [of t] by (metis prod.collapse)
  obtain ws x w' where s: "scan_traces J query ids w = (ws, x, w')" by (metis prod_cases3)
  then show ?case using Cons
    by (simp add: r act_bind_def act_lift_def split: sum.split)
qed simp

text \<open>A log with a trace that does not verify.\<close>

definition corrupt :: "'j json_api \<Rightarrow> (string, audit_event list) result \<Rightarrow> bool" where
  "corrupt J q = (case q of
     Inl _ \<Rightarrow> True
   | Inr events \<Rightarrow> (case verify_audit_chain J events of Inl _ \<Rightarrow> True | Inr r \<Rightarrow> \<not> cv_valid r))"

lemma scan_corrupt:
  assumes q: "\<And>t. snd (query t w) = w"
  shows "(fst (scan_traces J query ids w) = [] \<and> fst (snd (scan_traces J query ids w)) = Inr ()) \<longleftrightarrow>
    (\<forall>t \<in> set ids. \<not> corrupt J (fst (query t w)))"
proof (induction ids)
  case (Cons t ids)
  obtain r where r: "query t w = (r, w)" using q [of t] by (metis prod.collapse)
  obtain ws x w' where s: "scan_traces J query ids w = (ws, x, w')" by (metis prod_cases3)
  show ?case using Cons.IH
    by (simp add: r s act_bind_def act_lift_def corrupt_def split: sum.split)
qed simp

lemma session_refused:
  assumes "cf_audit_chain_verify (sx_config X) = kFailStart"
    and "\<And>ids w1. act_bind save (\<lambda>_. list_trace_ids) w = (Inr ids, w1) \<Longrightarrow>
      (\<forall>t. snd (sv_audit_query (sx_services X) t w1) = w1) \<and>
      (\<exists>t \<in> set ids. corrupt (sx_json X) (fst (sv_audit_query (sx_services X) t w1)))"
  shows "ss_output (run_session X save list_trace_ids lines w) = [] \<and>
    ss_exit (run_session X save list_trace_ids lines w) = Exited 1"
proof (cases "act_bind save (\<lambda>_. list_trace_ids) w")
  case (Pair r w1)
  show ?thesis
  proof (cases r)
    case (Inl e)
    then show ?thesis using Pair assms(1) by (simp add: run_session_def Let_def)
  next
    case (Inr ids)
    then have b: "act_bind save (\<lambda>_. list_trace_ids) w = (Inr ids, w1)" using Pair by simp
    obtain ws x w2 where s: "scan_traces (sx_json X) (sv_audit_query (sx_services X)) ids w1 = (ws, x, w2)"
      by (metis prod_cases3)
    have "\<not> (ws = [] \<and> x = Inr ())"
      using scan_corrupt [of "sv_audit_query (sx_services X)" w1 "sx_json X" ids] assms(2) [OF b] s by auto
    then show ?thesis using b assms(1) s by (cases x) (simp_all add: run_session_def Let_def)
  qed
qed

lemma session_passes:
  assumes "act_bind save (\<lambda>_. if cf_audit_chain_verify (sx_config X) = kOff then act_return [] else list_trace_ids) w = (Inr ids, w1)"
    and "\<And>t. snd (sv_audit_query (sx_services X) t w1) = w1"
    and "\<forall>t \<in> set ids. \<not> corrupt (sx_json X) (fst (sv_audit_query (sx_services X) t w1))"
    and "run_server_loop X lines w1 = (output, r, w2)"
  shows "run_session X save list_trace_ids lines w =
    \<lparr>ss_errors = (case r of Inl e \<Rightarrow> [connect_error e] | Inr _ \<Rightarrow> []), ss_output = output,
     ss_exit = Exited (if is_ok r then 0 else 1), ss_world = w2\<rparr>"
proof -
  obtain ws x w' where s: "scan_traces (sx_json X) (sv_audit_query (sx_services X)) ids w1 = (ws, x, w')"
    by (metis prod_cases3)
  have "ws = [] \<and> x = Inr ()" "w' = w1"
    using scan_corrupt [of "sv_audit_query (sx_services X)" w1 "sx_json X" ids]
      scan_traces_state [of "sv_audit_query (sx_services X)" w1 "sx_json X" ids] assms(2,3) s by auto
  then show ?thesis using assms(1,4) s by (cases r) (simp_all add: run_session_def Let_def is_ok_def)
qed

section \<open>The objects behind the check\<close>

lemma save_snapshot_keeps:
  assumes "save_snapshot E snap w = (r, w1)"
  shows "wd_log w1 = wd_log w \<and> sc_audit_events (db_now (wd_db w1)) = sc_audit_events (db_now (wd_db w)) \<and>
    sc_tables (db_now (wd_db w1)) = sc_tables (db_now (wd_db w)) \<and>
    sc_audit_columns (db_now (wd_db w1)) = sc_audit_columns (db_now (wd_db w))"
proof -
  have save: "sc_audit_events (db_now (snd (sqlite_snapshot_save i j h t db))) = sc_audit_events (db_now db) \<and>
      sc_tables (db_now (snd (sqlite_snapshot_save i j h t db))) = sc_tables (db_now db) \<and>
      sc_audit_columns (db_now (snd (sqlite_snapshot_save i j h t db))) = sc_audit_columns (db_now db)" for i j h t db
    by (auto simp: sqlite_snapshot_save_def sql_step_def insert_snapshot_def act_bind_def act_return_def
        act_throw_def split: option.split)
  show ?thesis
  proof (cases "snapshot_to_json (en_json E) snap")
    case (Inl e)
    then show ?thesis using assms by (auto simp: save_snapshot_def act_bind_def act_lift_def)
  next
    case (Inr j)
    obtain i n where i: "en_next_id E ''snapshot'' (wd_counter w) = (i, n)" by fastforce
    let ?r = "sqlite_snapshot_save i j (sha256_hex j) (en_clock E (wd_ticks w)) (wd_db w)"
    have "w1 = w\<lparr>wd_counter := n, wd_ticks := wd_ticks w + 1, wd_db := snd ?r\<rparr>"
      using assms Inr i
      by (auto simp: save_snapshot_def act_bind_def act_lift_def world_next_id_def world_now_def on_world_db_def
          act_on_def split: prod.splits)
    then show ?thesis using save by simp
  qed
qed

lemma persistent_query:
  "sv_audit_query (persistent_services D E) t w =
     (fst (sqlite_log_query (en_json E) t \<lparr>sl_db = wd_db w, sl_trace_indices = wd_log w\<rparr>), w)"
  by (simp add: persistent_services_def on_world_log_def act_on_def sqlite_log_query_def Let_def)

lemma ephemeral_query: "sv_audit_query (ephemeral_services D E) t w = (Inr (log_query (wd_log w) t), w)"
  by (simp add: ephemeral_services_def act_get_def)

lemma persistent_ids:
  assumes "act_bind (save_snapshot E snap) (\<lambda>_. on_world_log sqlite_log_list_trace_ids) w = (Inr ids, w1)"
    and "''audit_events'' \<in> set (sc_tables (db_now (wd_db w)))"
  shows "set ids = er_trace_id ` set (sc_audit_events (db_now (wd_db w)))"
    "wd_log w1 = wd_log w" "sc_audit_events (db_now (wd_db w1)) = sc_audit_events (db_now (wd_db w))"
    "sc_tables (db_now (wd_db w1)) = sc_tables (db_now (wd_db w))"
    "sc_audit_columns (db_now (wd_db w1)) = sc_audit_columns (db_now (wd_db w))"
proof -
  obtain r w2 where s: "save_snapshot E snap w = (r, w2)" by fastforce
  note keeps = save_snapshot_keeps [OF s]
  obtain u where u: "r = Inr u" using assms(1) s by (cases r) (auto simp: act_bind_def)
  have w1: "w1 = w2" "set ids = er_trace_id ` set (sc_audit_events (db_now (wd_db w2)))"
    using assms s u keeps
    by (auto simp: act_bind_def on_world_log_def act_on_def sqlite_log_list_trace_ids_def has_tables_def)
  then show "set ids = er_trace_id ` set (sc_audit_events (db_now (wd_db w)))"
    "wd_log w1 = wd_log w" "sc_audit_events (db_now (wd_db w1)) = sc_audit_events (db_now (wd_db w))"
    "sc_tables (db_now (wd_db w1)) = sc_tables (db_now (wd_db w))"
    "sc_audit_columns (db_now (wd_db w1)) = sc_audit_columns (db_now (wd_db w))"
    using keeps by auto
qed

text \<open>The query as a function of the rows.\<close>

lemma query_rows:
  "fst (sqlite_log_query J t l) =
     (if prepare_error [''audit_events''] [''previous_hash'', ''event_hash''] (db_now (sl_db l)) \<noteq> None then Inr []
      else result_map (row_to_event J) (by_idx (trace_rows (db_now (sl_db l)) t)))"
  by (simp add: sqlite_log_query_def Let_def)

text \<open>The exit of a server that does not come to serve: the directory of the vector file is made first, and an
  exception there ends the process; everything after it gives up with code 1.\<close>

definition refused_exit :: "('j, 'c) outside \<Rightarrow> mcp_server_config \<Rightarrow> exit_status" where
  "refused_exit U config =
     (if validate_mcp_server_config config = [] \<and> cf_vector_backend config = kSqlite
      then (case ou_create_directories U (the (cf_vector_db_path config)) of
              Inl e \<Rightarrow> Terminated e
            | Inr _ \<Rightarrow> Exited 1)
      else Exited 1)"

lemma refused_exit_config: "validate_mcp_server_config config \<noteq> [] \<Longrightarrow> refused_exit U config = Exited 1"
  by (simp add: refused_exit_def)

lemma refused_exit_index:
  assumes "validate_mcp_server_config config = []"
  shows "open_vector_index U config = Inl (errors, status) \<Longrightarrow> refused_exit U config = status"
    "open_vector_index U config = Inr vectors \<Longrightarrow> refused_exit U config = Exited 1"
  using assms
  by (auto simp: open_vector_index_def refused_exit_def Let_def split: vector_backend.splits sum.splits)

text \<open>Where no start over the opened vector index serves, the server gives up.\<close>

lemma main_gives_up:
  assumes "parse_args args = (messages, Inr config)"
    and "\<And>rcfg path vectors. cf_db_path config = Some path \<Longrightarrow>
      ss_output (start_persistent D U config rcfg path lines vectors) = [] \<and>
      ss_exit (start_persistent D U config rcfg path lines vectors) = Exited 1"
    and "\<And>rcfg vectors. cf_db_path config = None \<Longrightarrow>
      ss_output (start_ephemeral D U config rcfg lines vectors) = [] \<and>
      ss_exit (start_ephemeral D U config rcfg lines vectors) = Exited 1"
  shows "ss_output (server_main D U args lines) = [] \<and> ss_exit (server_main D U args lines) = refused_exit U config"
proof (cases "validate_mcp_server_config config = []")
  case True
  show ?thesis
  proof (cases "open_vector_index U config")
    case (Inl f)
    then show ?thesis using True refused_exit_index(1) [OF True, of U "fst f" "snd f"]
      by (cases f) (simp add: server_main_def assms(1))
  next
    case (Inr vectors)
    then show ?thesis using True refused_exit_index(2) [OF True Inr] assms(2,3)
      by (cases "cf_db_path config") (simp_all add: server_main_def assms(1) Let_def)
  qed
qed (simp add: server_main_def assms(1) refused_exit_config)

lemma main_refused:
  assumes "parse_args args = (messages, Inr config)" "cf_db_path config = Some path"
    and "cf_audit_chain_verify config = kFailStart" "ou_open_db U path = Inr db0" "ensure_schema_v8 db0 = (Inr b, db)"
    and "prepare_error [''audit_events''] [''previous_hash'', ''event_hash''] (db_now db) = None"
    and "r \<in> set (sc_audit_events (db_now db))"
    and "corrupt (en_json (ou_environment U)) (result_map (row_to_event (en_json (ou_environment U)))
      (by_idx (trace_rows (db_now db) (er_trace_id r))))"
  shows "ss_output (server_main D U args lines) = [] \<and> ss_exit (server_main D U args lines) = refused_exit U config"
proof -
  let ?E = "ou_environment U"
  have "ss_output (start_persistent D U config rcfg path lines vectors) = [] \<and>
      ss_exit (start_persistent D U config rcfg path lines vectors) = Exited 1" for rcfg vectors
  proof (cases "ou_connect U (the (cf_redis_uri config))")
    case (Inl e)
    then show ?thesis by (simp add: start_persistent_def give_up_def assms(4,5))
  next
    case (Inr coord)
    let ?X = "\<lparr>sx_services = persistent_services D ?E, sx_json = en_json ?E,
       sx_float_bytes = ou_float_bytes U, sx_config = config\<rparr>"
    have "ss_output (run_session ?X (save_snapshot ?E (startup_snapshot config rcfg))
          (on_world_log sqlite_log_list_trace_ids) lines (persistent_world db vectors coord (ou_counter U))) = [] \<and>
        ss_exit (run_session ?X (save_snapshot ?E (startup_snapshot config rcfg))
          (on_world_log sqlite_log_list_trace_ids) lines (persistent_world db vectors coord (ou_counter U))) = Exited 1"
    proof (rule session_refused)
      fix ids w1
      assume b: "act_bind (save_snapshot ?E (startup_snapshot config rcfg)) (\<lambda>_. on_world_log sqlite_log_list_trace_ids)
        (persistent_world db vectors coord (ou_counter U)) = (Inr ids, w1)"
      have "''audit_events'' \<in> set (sc_tables (db_now db))" using assms(6) by (simp add: prepare_error_None)
      then have ids: "set ids = er_trace_id ` set (sc_audit_events (db_now db))"
        "sc_audit_events (db_now (wd_db w1)) = sc_audit_events (db_now db)"
        "sc_tables (db_now (wd_db w1)) = sc_tables (db_now db)"
        "sc_audit_columns (db_now (wd_db w1)) = sc_audit_columns (db_now db)"
        using persistent_ids [OF b] by (simp_all add: persistent_world_def)
      have "prepare_error [''audit_events''] [''previous_hash'', ''event_hash''] (db_now (wd_db w1)) = None"
        using assms(6) ids(3,4) by (simp add: prepare_error_None)
      then have "corrupt (en_json ?E) (fst (sv_audit_query (persistent_services D ?E) (er_trace_id r) w1))"
        using assms(8) by (simp add: persistent_query query_rows trace_rows_def ids(2))
      then show "(\<forall>t. snd (sv_audit_query (sx_services ?X) t w1) = w1) \<and>
          (\<exists>t \<in> set ids. corrupt (sx_json ?X) (fst (sv_audit_query (sx_services ?X) t w1)))"
        using assms(7) ids(1) by (auto simp: persistent_query)
    qed (simp add: assms(3))
    then show ?thesis by (simp add: start_persistent_def Let_def assms(4,5) Inr)
  qed
  then show ?thesis by (intro main_gives_up [OF assms(1)]) (simp_all add: assms(2))
qed

lemma result_map_member: "result_map f xs = Inr ys \<Longrightarrow> x \<in> set xs \<Longrightarrow> \<exists>y \<in> set ys. f x = Inr y"
  by (induction xs arbitrary: ys) (auto simp: result_bind_Inr_iff)

lemma chain_ok_member:
  "chain_ok J p es \<Longrightarrow> e \<in> set es \<Longrightarrow> compute_event_hash J e (ae_previous_hash e) = Inr (ae_event_hash e)"
  by (induction J p es rule: chain_ok.induct) auto

text \<open>The hash an append follows is the genesis hash or that of a row.\<close>

lemma append_state_previous:
  assumes "get_append_state t l = (Inr (idx, p), l')"
  shows "p = kGenesisHash \<or> (\<exists>r \<in> set (sc_audit_events (db_now (sl_db l))). p = er_event_hash r)"
proof (cases "trace_rows (db_now (sl_db l)) t = []")
  case False
  let ?rs = "trace_rows (db_now (sl_db l)) t"
  have "by_idx ?rs \<noteq> []" using False by (metis by_idx_def length_0_conv length_sort)
  then have "last (by_idx ?rs) \<in> set ?rs"
    using last_in_set [of "by_idx ?rs"] by (simp add: by_idx_def)
  then show ?thesis using assms by (auto simp: get_append_state_def Let_def trace_rows_def split: if_splits)
qed (use assms in \<open>auto simp: get_append_state_def Let_def\<close>)

text \<open>What an append that succeeds stores.\<close>

lemma append_row:
  assumes "sqlite_log_append J ev l = (Inr (), l')"
  obtains idx p h refs where "compute_event_hash J ev p = Inr h"
    "prepare_error [''audit_events''] [''previous_hash'', ''event_hash''] (db_now (sl_db l)) = None"
    "db_now (sl_db l') = (db_now (sl_db l))\<lparr>sc_audit_events :=
       sc_audit_events (db_now (sl_db l)) @ [event_to_row ev refs idx p h]\<rparr>"
    "p = kGenesisHash \<or> (\<exists>r \<in> set (sc_audit_events (db_now (sl_db l))). p = er_event_hash r)"
proof -
  let ?t = "ae_trace_id ev"
  obtain idx p where st: "get_append_state ?t l = (Inr (idx, p), l\<lparr>sl_trace_indices := (sl_trace_indices l)(?t \<mapsto> idx + 1)\<rparr>)"
    by (rule get_append_state_shape)
  note p = append_state_previous [OF st]
  from sqlite_log_append_state [OF st] assms
  have "insert_appended J ev idx p (l\<lparr>sl_trace_indices := (sl_trace_indices l)(?t \<mapsto> idx + 1)\<rparr>) = (Inr (), l')" by metis
  then show thesis
  proof (cases rule: insert_appended_cases)
    case (stored refs h)
    then show ?thesis using that [OF stored(2) _ _ p] by (simp add: log_with_row_def)
  qed simp
qed

text \<open>The event read back and the event appended have different texts with one digest.\<close>

definition read_back_clash :: "'j json_api \<Rightarrow> audit_event \<Rightarrow> audit_row \<Rightarrow> bool" where
  "read_back_clash J ev row =
     (case row_to_event J row of
        Inl _ \<Rightarrow> False
      | Inr e \<Rightarrow>
          (let f = ev\<lparr>ae_previous_hash := ae_previous_hash e\<rparr>
           in event_preimage J e \<noteq> event_preimage J f \<and>
              sha256_hex (event_preimage J e) = sha256_hex (event_preimage J f)))"

lemma truncated_corrupt:
  assumes "json_library J" "\<not> event_storable J ev" "row = event_to_row ev refs idx p h" "no_nul p"
    and "compute_event_hash J ev p = Inr h" "row \<in> set rows"
  shows "corrupt J (result_map (row_to_event J) rows) \<or> read_back_clash J ev row"
proof (rule disjCI)
  assume nc: "\<not> read_back_clash J ev row"
  show "corrupt J (result_map (row_to_event J) rows)"
  proof (rule ccontr)
    assume "\<not> corrupt J (result_map (row_to_event J) rows)"
    then obtain es v where es: "result_map (row_to_event J) rows = Inr es" "verify_audit_chain J es = Inr v" "cv_valid v"
      by (auto simp: corrupt_def split: sum.splits)
    then have ok: "chain_ok J kGenesisHash es" using verify_valid_iff [of J es v] by simp
    obtain e where e: "row_to_event J row = Inr e" "e \<in> set es"
      using result_map_member [OF es(1) assms(6)] by blast
    have fields: "ae_event_id e = c_str (ae_event_id ev)" "ae_trace_id e = c_str (ae_trace_id ev)"
      "ae_event_type e = c_str (ae_event_type ev)" "ae_payload e = c_str (ae_payload ev)"
      "ae_created_at e = c_str (ae_created_at ev)" "ae_previous_hash e = p" "ae_event_hash e = h"
      using e(1) assms(4) no_nul_event_hash [OF assms(5)]
      by (auto simp: row_to_event_def assms(3) event_to_row_def result_bind_Inr_iff)
    let ?f = "ev\<lparr>ae_previous_hash := p\<rparr>"
    have he: "compute_event_hash J e p = Inr h" using chain_ok_member [OF ok e(2)] fields by simp
    then have "sha256_hex (event_preimage J e) = sha256_hex (event_preimage J ?f)"
      using compute_event_hash_preimage [of J e h] compute_event_hash_preimage [of J ?f h] assms(5) fields
      by (simp add: compute_event_hash_def event_members_def)
    then have "event_preimage J e = event_preimage J ?f"
      using nc e(1) fields by (simp add: read_back_clash_def Let_def)
    then obtain s where "j_dump J (j_object J (event_members J e)) = Inr s" "j_dump J (j_object J (event_members J ev)) = Inr s"
      using he assms(5) fields
      by (auto simp: event_preimage_def compute_event_hash_def result_bind_Inr_iff event_members_def)
    then have "j_object J (event_members J e) = j_object J (event_members J ev)"
      by (rule json_library.dump_inj [OF assms(1)])
    from json_library.event_object_inj [OF assms(1) this] fields have "event_storable J ev"
      unfolding event_storable_def by (metis no_nul_c_str)
    then show False using assms(2) by simp
  qed
qed

text \<open>A session that is served.\<close>

definition served :: "'w session \<Rightarrow> ('v, 'j) server_context \<Rightarrow> string list \<Rightarrow> 'v \<Rightarrow> bool" where
  "served s X lines w =
     (case run_server_loop X lines w of
        (output, r, _) \<Rightarrow> ss_output s = output \<and> ss_exit s = Exited (if is_ok r then 0 else 1))"

lemma session_served:
  assumes "\<And>r w1. save w = (r, w1) \<Longrightarrow> r = Inr () \<and> (\<exists>ids. list_trace_ids w1 = (Inr ids, w1)) \<and>
      (\<forall>t. snd (sv_audit_query (sx_services X) t w1) = w1 \<and>
        (t \<in> (case fst (list_trace_ids w1) of Inr ids \<Rightarrow> set ids | Inl _ \<Rightarrow> {}) \<longrightarrow>
          \<not> corrupt (sx_json X) (fst (sv_audit_query (sx_services X) t w1))))"
  shows "served (run_session X save list_trace_ids lines w) X lines (snd (save w))"
proof -
  obtain r w1 where s: "save w = (r, w1)" by fastforce
  then obtain ids where w1: "r = Inr ()" "list_trace_ids w1 = (Inr ids, w1)"
    "\<And>t. snd (sv_audit_query (sx_services X) t w1) = w1"
    "\<forall>t \<in> set ids. \<not> corrupt (sx_json X) (fst (sv_audit_query (sx_services X) t w1))"
    using assms [OF s] by auto
  obtain outs r2 w2 where l: "run_server_loop X lines w1 = (outs, r2, w2)" by (metis prod_cases3)
  define ids' where "ids' = (if cf_audit_chain_verify (sx_config X) = kOff then [] else ids)"
  have b: "act_bind save (\<lambda>_. if cf_audit_chain_verify (sx_config X) = kOff then act_return [] else list_trace_ids) w =
      (Inr ids', w1)"
    using s w1(1,2) by (simp add: act_bind_def act_return_def ids'_def)
  have "\<forall>t \<in> set ids'. \<not> corrupt (sx_json X) (fst (sv_audit_query (sx_services X) t w1))"
    using w1(4) by (simp add: ids'_def)
  from session_passes [OF b w1(3) this l] show ?thesis by (simp add: served_def s l)
qed

lemma valid_not_corrupt: "chain_ok J kGenesisHash es \<Longrightarrow> \<not> corrupt J (Inr es)"
  using verify_valid_iff [of J es "\<lparr>cv_valid = True, cv_first_invalid_index = length es, cv_error = []\<rparr>"]
  by (simp add: corrupt_def)

lemma set_member_not_Nil: "x \<in> set xs \<Longrightarrow> xs \<noteq> []"
  by auto

lemma save_snapshot_succeeds:
  assumes "snapshot_to_json (en_json E) snap = Inr s"
    and "''runtime_snapshots'' \<in> set (sc_tables (db_now (wd_db w)))"
    and "c_str (fst (en_next_id E ''snapshot'' (wd_counter w))) \<notin> fst ` set (sc_runtime_snapshots (db_now (wd_db w)))"
  shows "fst (save_snapshot E snap w) = Inr ()"
proof -
  obtain i n where i: "en_next_id E ''snapshot'' (wd_counter w) = (i, n)" by fastforce
  have "prepare_error [''runtime_snapshots''] [] (db_now (wd_db w)) = None"
    using assms(2) by (simp add: prepare_error_None)
  then show ?thesis using assms i
    by (simp add: save_snapshot_def act_bind_def act_lift_def world_next_id_def world_now_def on_world_db_def
        act_on_def sqlite_snapshot_save_def sql_step_def insert_snapshot_def act_return_def)
qed

lemma inv_same_rows:
  assumes "sqlite_log_inv J l" "sl_trace_indices l' = sl_trace_indices l"
    and "sc_audit_events (db_now (sl_db l')) = sc_audit_events (db_now (sl_db l))"
    and "sc_tables (db_now (sl_db l')) = sc_tables (db_now (sl_db l))"
    and "sc_audit_columns (db_now (sl_db l')) = sc_audit_columns (db_now (sl_db l))"
  shows "sqlite_log_inv J l'"
  using assms(1) by (simp add: sqlite_log_inv_def Let_def trace_rows_def assms(2-5))

lemma inv_not_corrupt:
  assumes "json_text J" "sqlite_log_inv J l" "no_nul t"
  shows "\<not> corrupt J (fst (sqlite_log_query J t l))"
proof -
  have ok: "rows_ok J (sl_trace_indices l t) (trace_rows (db_now (sl_db l)) t)"
    and p: "prepare_error [''audit_events''] [''previous_hash'', ''event_hash''] (db_now (sl_db l)) = None"
    using assms(2,3) by (simp_all add: sqlite_log_inv_def Let_def prepare_error_None)
  then obtain es where "result_map (row_to_event J) (trace_rows (db_now (sl_db l)) t) = Inr es" "chain_ok J kGenesisHash es"
    by (auto simp: rows_ok_def)
  then show ?thesis using p by (simp add: query_rows by_idx_id [OF ok] valid_not_corrupt)
qed

section \<open>Properties\<close>

text \<open>A database whose log verifies is served, in every verification mode: the start adds the snapshot, leaves
  the log as it is, and the output and the exit code are those of the loop. The identifier of the snapshot
  must be new and the configuration printable.\<close>
theorem verified_database_served:
  assumes "json_text (en_json E)" "ou_environment U = E" "parse_args args = (messages, Inr config)"
    and "validate_mcp_server_config config = []" "open_vector_index U config = Inr vectors"
    and "ou_connect U (the (cf_redis_uri config)) = Inr coord"
    and "snapshot_to_json (en_json E) (startup_snapshot config (the (parse_redis_uri (the (cf_redis_uri config))))) = Inr s"
    and "cf_db_path config = Some path" "ou_open_db U path = Inr db" "get_schema_version db = 8"
    and "''runtime_snapshots'' \<in> set (sc_tables (db_now db))"
    and "c_str (fst (en_next_id E ''snapshot'' (ou_counter U))) \<notin> fst ` set (sc_runtime_snapshots (db_now db))"
    and "sqlite_log_inv (en_json E) (open_log db)" "\<forall>r \<in> set (sc_audit_events (db_now db)). no_nul (er_trace_id r)"
  shows "\<exists>w. sc_audit_events (db_now (wd_db w)) = sc_audit_events (db_now db) \<and>
    served (server_main D U args lines)
      \<lparr>sx_services = persistent_services D E, sx_json = en_json E, sx_float_bytes = ou_float_bytes U, sx_config = config\<rparr>
      lines w"
proof -
  let ?X = "\<lparr>sx_services = persistent_services D E, sx_json = en_json E, sx_float_bytes = ou_float_bytes U,
    sx_config = config\<rparr>"
  let ?save = "save_snapshot E (startup_snapshot config (the (parse_redis_uri (the (cf_redis_uri config)))))"
  let ?w = "persistent_world db vectors coord (ou_counter U)"
  note keeps = save_snapshot_keeps [of E "startup_snapshot config (the (parse_redis_uri (the (cf_redis_uri config))))" ?w]
  have "served (run_session ?X ?save (on_world_log sqlite_log_list_trace_ids) lines ?w) ?X lines (snd (?save ?w))"
  proof (rule session_served)
    fix r w1 assume s: "?save ?w = (r, w1)"
    have same: "wd_log w1 = Map.empty" "sc_audit_events (db_now (wd_db w1)) = sc_audit_events (db_now db)"
      "sc_tables (db_now (wd_db w1)) = sc_tables (db_now db)" "sc_audit_columns (db_now (wd_db w1)) = sc_audit_columns (db_now db)"
      using keeps [OF s] by (simp_all add: persistent_world_def)
    have inv: "sqlite_log_inv (en_json E) \<lparr>sl_db = wd_db w1, sl_trace_indices = wd_log w1\<rparr>"
      by (rule inv_same_rows [OF assms(13)]) (simp_all add: same open_log_def)
    have t: "has_tables [''audit_events''] (wd_db w1)" using inv by (simp add: sqlite_log_inv_def Let_def has_tables_def)
    have ids: "on_world_log sqlite_log_list_trace_ids w1 =
        (Inr (sort (remdups (map er_trace_id (sc_audit_events (db_now db))))), w1)"
      by (simp add: on_world_log_def act_on_def sqlite_log_list_trace_ids_def t same(2))
    have "r = Inr ()"
      using save_snapshot_succeeds [OF assms(7), of ?w] assms(11,12) s by (simp add: persistent_world_def)
    then show "r = Inr () \<and> (\<exists>ids. on_world_log sqlite_log_list_trace_ids w1 = (Inr ids, w1)) \<and>
      (\<forall>t. snd (sv_audit_query (sx_services ?X) t w1) = w1 \<and>
        (t \<in> (case fst (on_world_log sqlite_log_list_trace_ids w1) of Inr ids \<Rightarrow> set ids | Inl _ \<Rightarrow> {}) \<longrightarrow>
          \<not> corrupt (sx_json ?X) (fst (sv_audit_query (sx_services ?X) t w1))))"
      using inv_not_corrupt [OF assms(1) inv] assms(14) by (auto simp: ids persistent_query)
  qed
  moreover have "ss_output (server_main D U args lines) = ss_output (run_session ?X ?save (on_world_log sqlite_log_list_trace_ids) lines ?w)"
    "ss_exit (server_main D U args lines) = ss_exit (run_session ?X ?save (on_world_log sqlite_log_list_trace_ids) lines ?w)"
    by (simp_all add: server_main_def start_persistent_def Let_def assms(2-6,8,9) ensure_schema_v8_done [OF assms(10)])
  ultimately show ?thesis
    by (intro exI [of _ "snd (?save ?w)"]) (use keeps [OF surjective_pairing] in \<open>simp add: served_def persistent_world_def\<close>)
qed


text \<open>A database of an earlier version with any audit event is refused: with \<open>--audit-chain-verify fail\<close> the
  server migrates it, finds the traces without hashes corrupt, and exits with 1 without reading a request
  (or dies of the exception of the vector directory it makes first); no later start can succeed in this mode.\<close>
theorem old_database_refused:
  assumes "parse_args args = (messages, Inr config)" "cf_db_path config = Some path"
    and "cf_audit_chain_verify config = kFailStart" "ou_open_db U path = Inr db"
    and "migrated v (db_now db)" "v < 8" "r \<in> set (sc_audit_events (db_now db))" "no_nul (er_trace_id r)"
  shows "ss_output (server_main D U args lines) = [] \<and> ss_exit (server_main D U args lines) = refused_exit U config"
proof -
  obtain b db' where e: "ensure_schema_v8 db = (b, db')" by fastforce
  obtain c where c: "b = Inr True" "db' = db\<lparr>db_now := c\<rparr>"
    "prepare_error [''audit_events''] [''previous_hash'', ''event_hash''] c = None"
    and rows: "sc_audit_events c = map (\<lambda>r. r\<lparr>er_previous_hash := [], er_event_hash := []\<rparr>) (sc_audit_events (db_now db))"
    using migrated_rows [OF assms(5,6) e] by blast
  let ?r = "r\<lparr>er_previous_hash := [], er_event_hash := []\<rparr>" and ?J = "en_json (ou_environment U)"
  have r: "?r \<in> set (sc_audit_events c)" using assms(7) by (auto simp: rows)
  then have "?r \<in> set (trace_rows c (er_trace_id ?r))" using assms(8) by (simp add: trace_rows_def)
  then have "trace_rows c (er_trace_id ?r) \<noteq> []" by (rule set_member_not_Nil)
  moreover have "\<forall>q \<in> set (trace_rows c (er_trace_id ?r)). er_previous_hash q = []"
    by (auto simp: trace_rows_def rows)
  ultimately have "corrupt ?J (result_map (row_to_event ?J) (by_idx (trace_rows c (er_trace_id ?r))))"
    using hashless_rejected [of c "er_trace_id ?r" ?J] unfolding corrupt_def by (fastforce split: sum.split)
  from main_refused [OF assms(1-4) e [unfolded c(1)], of ?r] this r c(2,3) show ?thesis by simp
qed

text \<open>C27. One event can lock the server out of its database: after an append whose text has a NUL character
  succeeds, the row holds the text up to the NUL and the hash of the whole text, so the next start with
  \<open>--audit-chain-verify fail\<close> writes no response and exits with 1 (or dies, where the directory of the vector
  file cannot be made), unless the two texts have one SHA-256 digest.\<close>
theorem truncated_event_refused:
  assumes "json_library (en_json (ou_environment U))" "\<not> event_storable (en_json (ou_environment U)) ev"
    and "sqlite_log_append (en_json (ou_environment U)) ev l = (Inr (), l')"
    and "\<forall>r \<in> set (sc_audit_events (db_now (sl_db l))). no_nul (er_event_hash r)"
    and "parse_args args = (messages, Inr config)" "cf_db_path config = Some path"
    and "cf_audit_chain_verify config = kFailStart" "ou_open_db U path = Inr (sl_db l')"
    and "get_schema_version (sl_db l') = 8"
  shows "ss_output (server_main D U args lines) = [] \<and> ss_exit (server_main D U args lines) = refused_exit U config \<or>
    read_back_clash (en_json (ou_environment U)) ev (last (sc_audit_events (db_now (sl_db l'))))"
proof -
  let ?J = "en_json (ou_environment U)" and ?c = "db_now (sl_db l')"
  obtain idx p h refs where a: "compute_event_hash ?J ev p = Inr h"
    "prepare_error [''audit_events''] [''previous_hash'', ''event_hash''] (db_now (sl_db l)) = None"
    "?c = (db_now (sl_db l))\<lparr>sc_audit_events := sc_audit_events (db_now (sl_db l)) @ [event_to_row ev refs idx p h]\<rparr>"
    "p = kGenesisHash \<or> (\<exists>r \<in> set (sc_audit_events (db_now (sl_db l))). p = er_event_hash r)"
    by (rule append_row [OF assms(3)])
  let ?r = "event_to_row ev refs idx p h"
  have p: "no_nul p" using a(4) assms(4) by auto
  have r: "?r \<in> set (sc_audit_events ?c)" "last (sc_audit_events ?c) = ?r" by (simp_all add: a(3))
  have "?r \<in> set (by_idx (trace_rows ?c (er_trace_id ?r)))"
    using r(1) by (simp add: by_idx_def trace_rows_def event_to_row_def)
  from truncated_corrupt [OF assms(1,2) refl p a(1) this] r(2)
  have "corrupt ?J (result_map (row_to_event ?J) (by_idx (trace_rows ?c (er_trace_id ?r)))) \<or> ?thesis"
    by auto
  moreover have "prepare_error [''audit_events''] [''previous_hash'', ''event_hash''] ?c = None"
    using a(2) by (simp add: a(3) prepare_error_None)
  ultimately show ?thesis
    using main_refused [OF assms(5-8) ensure_schema_v8_done [OF assms(9)] _ r(1)] by blast
qed

definition demo_outside :: "'j json_api \<Rightarrow> sqlite_db \<Rightarrow> ('j, unit) outside" where
  "demo_outside J db =
     \<lparr>ou_environment = \<lparr>en_json = J, en_next_id = deterministic_next, en_clock = (\<lambda>n. ''t'' @ to_string_nat n),
        en_files = (\<lambda>_. CannotOpen), en_apply = (\<lambda>i ev key. act_throw ''no coordinator''), en_first = hd\<rparr>,
      ou_open_db = (\<lambda>_. Inr db), ou_create_directories = (\<lambda>_. Inr ()), ou_open_vectors = (\<lambda>_. No_Vector_File None), ou_connect = (\<lambda>_. Inr ()),
      ou_float_bytes = float_bytes, ou_counter = 0\<rparr>"

definition demo_args :: "string list" where
  "demo_args = [''--redis'', ''tcp://localhost'', ''--db'', ''ccmcp.db'', ''--audit-chain-verify'', ''fail'']"

lemma demo_refused_exit: "refused_exit (demo_outside J db) config = Exited 1"
  by (simp add: refused_exit_def demo_outside_def)

lemma demo_args_parsed:
  "parse_args demo_args = ([], Inr (default_server_config\<lparr>cf_redis_uri := Some ''tcp://localhost'',
     cf_db_path := Some ''ccmcp.db'', cf_audit_chain_verify := kFailStart\<rparr>))"
  by (simp add: demo_args_def parse_args_def option_map_def server_options_def handle_redis_def handle_db_def
      handle_audit_chain_verify_def)

theorem old_database_refused_witness:
  "ss_exit (server_main no_docx (demo_outside tree_json old_database) demo_args [''{}'']) = Exited 1"
proof -
  have r: "\<exists>r. r \<in> set (sc_audit_events (db_now old_database)) \<and> no_nul (er_trace_id r)"
    by (simp add: old_database_def no_nul_def)
  have d: "ou_open_db (demo_outside tree_json old_database) ''ccmcp.db'' = Inr old_database"
    by (simp add: demo_outside_def)
  from r obtain r where "r \<in> set (sc_audit_events (db_now old_database))" "no_nul (er_trace_id r)" by blast
  then show ?thesis
    using old_database_refused [OF demo_args_parsed _ _ d old_database_migrated, of r no_docx "[''{}'']"]
    by (simp add: demo_refused_exit)
qed

text \<open>A request identifier with a NUL, as \<open>"\u0000"\<close> gives.\<close>

definition nul_event :: audit_event where
  "nul_event = (sample_event ''n'')\<lparr>ae_trace_id := [CHR 0x00]\<rparr>"

definition after_nul_event :: sqlite_log where
  "after_nul_event = snd (sqlite_log_append tree_json nul_event (open_log migrated_database))"

lemma nul_event_appended:
  "sqlite_log_append tree_json nul_event (open_log migrated_database) = (Inr (), after_nul_event)"
proof -
  have st: "get_append_state [CHR 0x00] (open_log migrated_database) =
      (Inr (0, kGenesisHash), \<lparr>sl_db = migrated_database, sl_trace_indices = [[CHR 0x00] \<mapsto> 1]\<rparr>)"
    by (simp add: get_append_state_def open_log_def Let_def trace_rows_def max_idx_def migrated_database_def empty_content_def)
  have ok: "prepare_error [''audit_events''] [''previous_hash'', ''event_hash''] (db_now migrated_database) = None"
    by (simp add: prepare_error_None migrated_database_def schema_of_def kSchemaV1_def)
  have dump: "j_dump tree_json j = Inr (enc_tree j)" for j by (simp add: tree_json_def)
  have "sc_audit_events (db_now migrated_database) = []" by (simp add: migrated_database_def empty_content_def)
  then have "fst (sqlite_log_append tree_json nul_event (open_log migrated_database)) = Inr ()"
    using st ok
    by (simp add: sqlite_log_append_def act_bind_eq insert_appended_eq nul_event_def sample_event_def
        compute_event_hash_def dump tags_text_def)
  then show ?thesis by (simp add: after_nul_event_def prod_eq_iff)
qed

theorem truncated_event_refused_witness:
  "ss_exit (server_main no_docx (demo_outside tree_json (sl_db after_nul_event)) demo_args [''{}'']) = Exited 1 \<or>
   read_back_clash tree_json nul_event (last (sc_audit_events (db_now (sl_db after_nul_event))))"
proof -
  let ?U = "demo_outside tree_json (sl_db after_nul_event)"
  have J: "en_json (ou_environment ?U) = tree_json" "ou_open_db ?U ''ccmcp.db'' = Inr (sl_db after_nul_event)"
    by (simp_all add: demo_outside_def)
  have n: "\<not> event_storable tree_json nul_event" by (simp add: event_storable_def nul_event_def no_nul_def)
  obtain idx p h refs where "db_now (sl_db after_nul_event) = (db_now (sl_db (open_log migrated_database)))\<lparr>sc_audit_events :=
       sc_audit_events (db_now (sl_db (open_log migrated_database))) @ [event_to_row nul_event refs idx p h]\<rparr>"
    by (rule append_row [OF nul_event_appended])
  then have v: "get_schema_version (sl_db after_nul_event) = 8"
    by (simp add: get_schema_version_def open_log_def migrated_database_def schema_of_def kSchemaV1_def)
  have e: "\<forall>r \<in> set (sc_audit_events (db_now (sl_db (open_log migrated_database)))). no_nul (er_event_hash r)"
    by (simp add: open_log_def migrated_database_def empty_content_def)
  from truncated_event_refused [of ?U nul_event "open_log migrated_database" after_nul_event demo_args "[]" _ "''ccmcp.db''" no_docx "[''{}'']",
      unfolded J(1), OF tree.json_library_axioms n nul_event_appended e demo_args_parsed _ _ J(2) v]
  show ?thesis by (auto simp: demo_refused_exit)
qed

lemma demo_snapshot_printable:
  "\<exists>s. snapshot_to_json (en_json demo_environment) (startup_snapshot
     (default_server_config\<lparr>cf_redis_uri := Some ''tcp://localhost'', cf_db_path := Some ''ccmcp.db'',
        cf_audit_chain_verify := kFailStart\<rparr>) (the (parse_redis_uri ''tcp://localhost''))) = Inr s"
proof -
  have "is_ok (snapshot_to_json text_json (startup_snapshot
     (default_server_config\<lparr>cf_redis_uri := Some ''tcp://localhost'', cf_db_path := Some ''ccmcp.db'',
        cf_audit_chain_verify := kFailStart\<rparr>) (the (parse_redis_uri ''tcp://localhost''))))"
    by (simp add: snapshot_to_json_def text_json_dump_ok text_json_values parse_redis_uri_localhost startup_snapshot_def
        map_json_def kBuildVersion_def default_server_config_def)
  then show ?thesis by (auto simp: is_ok_def demo_environment_def split: sum.splits)
qed

theorem verified_database_served_witness:
  "\<exists>w :: (string \<rightharpoonup> int, unit) world.
     served (server_main no_docx (demo_outside text_json migrated_database) demo_args [''{}''])
       \<lparr>sx_services = persistent_services no_docx demo_environment, sx_json = text_json, sx_float_bytes = float_bytes,
        sx_config = default_server_config\<lparr>cf_redis_uri := Some ''tcp://localhost'',
          cf_db_path := Some ''ccmcp.db'', cf_audit_chain_verify := kFailStart\<rparr>\<rparr> [''{}''] w"
proof -
  let ?U = "demo_outside text_json migrated_database"
  let ?c = "default_server_config\<lparr>cf_redis_uri := Some ''tcp://localhost'', cf_db_path := Some ''ccmcp.db'',
    cf_audit_chain_verify := kFailStart\<rparr>"
  have U: "ou_environment ?U = demo_environment" "ou_connect ?U u = Inr ()" "ou_open_db ?U u = Inr migrated_database"
    "ou_counter ?U = 0" "ou_float_bytes ?U = float_bytes" for u
    by (simp_all add: demo_outside_def demo_environment_def)
  have c: "validate_mcp_server_config ?c = []" "open_vector_index ?U ?c = Inr (Memory_Vectors [])"
    by (simp_all add: validate_mcp_server_config_def parse_redis_uri_localhost default_server_config_def open_vector_index_def)
  have E: "json_text (en_json demo_environment)" by (simp add: demo_environment_def printed.json_text_axioms)
  obtain s where s: "snapshot_to_json (en_json demo_environment)
      (startup_snapshot ?c (the (parse_redis_uri (the (cf_redis_uri ?c))))) = Inr s"
    using demo_snapshot_printable by auto
  have v: "get_schema_version migrated_database = 8" "''runtime_snapshots'' \<in> set (sc_tables (db_now migrated_database))"
    "sc_runtime_snapshots (db_now migrated_database) = []" "sc_audit_events (db_now migrated_database) = []"
    by (simp_all add: get_schema_version_def migrated_database_def schema_of_def kSchemaV1_def kSchemaV7_def empty_content_def)
  have i: "sqlite_log_inv (en_json demo_environment) (open_log migrated_database)"
    by (rule inv_empty_log) (simp_all add: prepare_error_None migrated_database_def empty_content_def schema_of_def kSchemaV1_def)
  from verified_database_served [OF E U(1) demo_args_parsed c U(2) s _ U(3) v(1,2) _ i, of "''ccmcp.db''" no_docx "[''{}'']"]
  show ?thesis by (auto simp: v U demo_environment_def default_server_config_def)
qed

end
