(* ===== verification/Append_Only.thy ===== *)
theory Append_Only
  imports Startup_Checks
begin

text \<open>
  The audit log of a database file is only ever appended to: every service over the file keeps the rows that
  are there, hence every pipeline, every tool and the whole server do. The services over a file interpret
  \<open>service_keeps\<close>; the property is about \<open>main\<close>, for any command line and any input.
\<close>

section \<open>Calls that leave the log alone\<close>

definition at_rest :: "string list \<times> int list \<times> string list \<times> audit_row list \<Rightarrow> sqlite_db \<Rightarrow> bool" where
  "at_rest x db \<longleftrightarrow> db_saved db = None \<and> audit_part (db_now db) = x"

lemma query_keeps: "keeps ok (sql_query tables none f)"
  by (simp add: keeps_def sql_query_def)

lemma update_keeps: "(\<And>c. audit_part (f c) = audit_part c) \<Longrightarrow> keeps (at_rest x) (sql_update f)"
  by (simp add: keeps_def sql_update_def at_rest_def)

lemma step_keeps: "(\<And>c c'. f c = Some c' \<Longrightarrow> audit_part c' = audit_part c) \<Longrightarrow> keeps (at_rest x) (sql_step f)"
  by (simp add: keeps_def sql_step_def at_rest_def split: option.split)

lemma unless_keeps: "keeps ok m \<Longrightarrow> keeps ok (\<lambda>db. if p db then (r db, db) else m db)"
  by (simp add: keeps_def)

lemma keeps_on:
  assumes "keeps ok m" "\<And>w. ok' w = ok (part w)" "\<And>p w. ok' (put p w) = ok p"
  shows "keeps ok' (act_on part put m)"
proof -
  have "ok' (snd (act_on part put m w))" if "ok' w" for w
    using assms that by (cases "m (part w)") (auto simp: keeps_def act_on_def dest: spec [of _ "part w"])
  then show ?thesis by (simp add: keeps_def)
qed

lemma keeps_get: "keeps ok (act_get f)"
  by (simp add: keeps_def act_get_def)

section \<open>The stores\<close>

lemma reads_keep:
  "keeps ok (sqlite_atoms_get J a)" "keeps ok (sqlite_atoms_list_verified J)" "keeps ok (sqlite_atoms_list_all J)"
  "keeps ok (sqlite_opps_get J opp)" "keeps ok (sqlite_opps_list_all J)" "keeps ok (sqlite_decisions_get J i)"
  "keeps ok (sqlite_decisions_list_by_trace J t)" "keeps ok sqlite_resumes_list_all"
  "keeps ok (sqlite_last_source_hash first aid ty prov mo pv)"
  by (simp_all add: sqlite_atoms_get_def sqlite_atoms_list_verified_def sqlite_atoms_list_all_def sqlite_opps_get_def
      sqlite_opps_list_all_def sqlite_decisions_get_def sqlite_decisions_list_by_trace_def sqlite_resumes_list_all_def
      sqlite_last_source_hash_def query_keeps)

lemma decisions_keep: "keeps (at_rest x) (sqlite_decisions_upsert J rec)"
  unfolding sqlite_decisions_upsert_def by (intro unless_keeps keeps_bind keeps_pure update_keeps) (simp add: audit_part_def)

lemma runs_keep: "keeps (at_rest x) (sqlite_upsert_run run)"
  unfolding sqlite_upsert_run_def by (intro unless_keeps update_keeps) (simp add: audit_part_def)

lemma entries_keep: "keeps (at_rest x) (sqlite_upsert_entry entry)"
  unfolding sqlite_upsert_entry_def
  by (intro unless_keeps keeps_bind keeps_pure step_keeps) (auto simp: insert_entry_def audit_part_def split: if_splits)

lemma resumes_keep: "keeps (at_rest x) (sqlite_resumes_upsert resume)"
proof -
  have "at_rest x (snd (sqlite_resumes_upsert resume db))" if "at_rest x db" for db
  proof -
    have "db_saved db = None" using that by (simp add: at_rest_def)
    from resumes_upsert_rows [OF this, of resume] that show ?thesis by (auto simp: at_rest_def)
  qed
  then show ?thesis by (simp add: keeps_def)
qed

lemma run_ids_keep: "keeps (at_rest x) sqlite_next_index_run_id"
  by (auto simp: keeps_def at_rest_def audit_part_def sqlite_next_index_run_id_def sql_begin_def sql_commit_def
      sql_exec_def sql_rollback_def Let_def)

lemma snapshot_keeps: "keeps (at_rest x) (sqlite_snapshot_save run_id js h at_time)"
proof -
  have "keeps (at_rest x) (act_bind (sql_step (insert_snapshot key row)) (\<lambda>stored.
      if stored then act_return () else act_throw e))" for key row e
    by (intro keeps_bind step_keeps) (auto simp: insert_snapshot_def audit_part_def split: if_splits option.splits)
  then show ?thesis by (simp add: keeps_def sqlite_snapshot_save_def split: option.split)
qed

lemma log_reads_keep: "keeps ok (sqlite_log_query J t)" "keeps ok sqlite_log_list_trace_ids"
  by (simp_all add: keeps_def sqlite_log_query_def sqlite_log_list_trace_ids_def Let_def)

section \<open>What every append keeps, the server keeps\<close>

abbreviation log_of :: "(string \<rightharpoonup> int, 'c) world \<Rightarrow> sqlite_log" where
  "log_of w \<equiv> \<lparr>sl_db = wd_db w, sl_trace_indices = wd_log w\<rparr>"

lemma log_collapse [simp]: "\<lparr>sl_db = sl_db l, sl_trace_indices = sl_trace_indices l\<rparr> = l"
  by (cases l) simp

text \<open>A predicate of the log that no other table matters to.\<close>

locale audit_file =
  fixes J :: "'j json_api"
    and ok :: "sqlite_log \<Rightarrow> bool"
  assumes no_transaction: "ok l \<Longrightarrow> db_saved (sl_db l) = None"
    and other_tables: "ok l \<Longrightarrow> at_rest (audit_part (db_now (sl_db l))) db \<Longrightarrow> ok (l\<lparr>sl_db := db\<rparr>)"
    and after_append: "ok l \<Longrightarrow> ok (snd (sqlite_log_append J event l))"
begin

lemma on_world_db_keeps:
  assumes "\<And>x. keeps (at_rest x) m"
  shows "keeps (\<lambda>w :: (string \<rightharpoonup> int, 'c) world. ok (log_of w)) (on_world_db m)"
proof -
  have "ok (log_of (snd (on_world_db m w)))" if o: "ok (log_of w)" for w :: "(string \<rightharpoonup> int, 'c) world"
  proof -
    have "at_rest (audit_part (db_now (wd_db w))) (snd (m (wd_db w)))"
      using assms [of "audit_part (db_now (wd_db w))"] no_transaction [OF o] by (simp add: keeps_def at_rest_def)
    from other_tables [OF o, simplified, OF this] show ?thesis
      by (simp add: on_world_db_def act_on_def case_prod_beta)
  qed
  then show ?thesis by (simp add: keeps_def)
qed

lemma on_world_log_keeps: "keeps ok m \<Longrightarrow> keeps (\<lambda>w. ok (log_of w)) (on_world_log m)"
  unfolding on_world_log_def by (erule keeps_on) simp_all

lemma log_append_keeps: "keeps ok (sqlite_log_append J event)"
  using after_append by (simp add: keeps_def)

lemma beside_db_keeps:
  "keeps (\<lambda>w. ok (log_of w)) (world_next_id E prefix)" "keeps (\<lambda>w. ok (log_of w)) (world_now E)"
  "keeps (\<lambda>w. ok (log_of w)) (world_ingest_file D E path opts)"
  "keeps (\<lambda>w. ok (log_of w)) (act_modify (\<lambda>w. w\<lparr>wd_vectors := v w\<rparr>))"
  "keeps (\<lambda>w. ok (log_of w)) (act_on wd_coord (\<lambda>c w. w\<lparr>wd_coord := c\<rparr>) m)"
  by (simp_all add: keeps_def world_next_id_def world_now_def world_ingest_file_def act_modify_def act_on_def
      split: prod.split)

lemma services_keep:
  assumes "en_json E = J"
  shows "service_keeps (persistent_services D E) (\<lambda>w. ok (log_of w))"
  by (unfold_locales; unfold persistent_services_def services.simps assms;
      intro on_world_db_keeps on_world_log_keeps reads_keep decisions_keep runs_keep entries_keep resumes_keep
        run_ids_keep log_append_keeps log_reads_keep beside_db_keeps keeps_get)

lemma session_snapshot_keeps: "keeps (\<lambda>w. ok (log_of w)) (save_snapshot E snap)"
  unfolding save_snapshot_def by (intro keeps_bind keeps_pure beside_db_keeps on_world_db_keeps snapshot_keeps)

end

lemma scan_traces_keeps:
  assumes "\<And>t. keeps ok (query t)"
  shows "ok w \<Longrightarrow> ok (snd (snd (scan_traces J query ids w)))"
proof (induction ids arbitrary: w)
  case (Cons t ids)
  let ?m = "act_bind (query t) (\<lambda>events. act_lift (verify_audit_chain J events))"
  obtain r w1 where s: "?m w = (r, w1)" by fastforce
  have "keeps ok ?m" by (intro keeps_bind assms keeps_pure)
  then have "ok w1" using Cons.prems s unfolding keeps_def by (metis snd_conv)
  then show ?case using Cons.IH [of w1] s by (cases r) (simp_all add: case_prod_beta)
qed simp

lemma run_session_keeps:
  assumes "service_keeps (sx_services X) ok" "keeps ok save" "keeps ok list_ids" "ok w"
  shows "ok (ss_world (run_session X save list_ids lines w))"
proof -
  let ?m = "act_bind save (\<lambda>_. if cf_audit_chain_verify (sx_config X) = kOff then act_return [] else list_ids)"
  obtain r w1 where s: "?m w = (r, w1)" by fastforce
  have "keeps ok ?m" by (intro keeps_bind assms(2)) (use assms(3) in simp)
  then have "ok w1" using assms(4) s unfolding keeps_def by (metis snd_conv)
  show ?thesis
  proof (cases r)
    case (Inl e)
    then show ?thesis using s \<open>ok w1\<close> by (simp add: run_session_def)
  next
    case (Inr ids)
    obtain warnings q w2 where q: "scan_traces (sx_json X) (sv_audit_query (sx_services X)) ids w1 = (warnings, q, w2)"
      by (metis prod_cases3)
    have "ok w2"
      using scan_traces_keeps [where query = "sv_audit_query (sx_services X)" and J = "sx_json X" and ids = ids,
          OF service_keeps.k_audit_query [OF assms(1)] \<open>ok w1\<close>] q by simp
    then have "ok (snd (snd (run_server_loop X lines w2)))"
      by (rule service_keeps.server_loop_keeps [OF assms(1) refl])
    then show ?thesis using s q Inr \<open>ok w2\<close>
      by (cases q) (simp_all add: run_session_def Let_def case_prod_beta split: sum.split)
  qed
qed

lemma ensure_saved: "db_saved (snd (ensure_schema_v8 db)) = db_saved db"
proof -
  let ?ok = "\<lambda>d. db_saved d = db_saved db"
  have "keeps ?ok (apply_schema v ts)" for v ts by (simp add: keeps_def apply_schema_def Let_def)
  moreover have "keeps ?ok (alter_audit c f)" for c f
    by (auto simp: keeps_def alter_audit_def split: sum.split)
  moreover have "keeps ?ok (sql_update f)" for f by (simp add: keeps_def sql_update_def)
  ultimately have "keeps ?ok ensure_schema_v8"
    unfolding ensure_schema_v8_def ensure_schema_v7_def ensure_schema_v6_def ensure_schema_v5_def ensure_schema_v4_def
      ensure_schema_v3_def ensure_schema_v2_def ensure_schema_v1_def
    by (intro unless_keeps keeps_bind keeps_pure)
  then show ?thesis by (simp add: keeps_def)
qed

lemma main_starts:
  assumes "ss_world (server_main D U args lines) = Some db'"
  obtains config vectors path where "ss_world (start_persistent D U config
      (the (parse_redis_uri (the (cf_redis_uri config)))) path lines vectors) = Some db'"
  using assms
  by (auto simp: server_main_def Let_def start_ephemeral_def give_up_def split: sum.splits option.splits prod.splits if_splits)

context audit_file
begin

lemma start_keeps:
  assumes "ou_open_db U path = Inr db0" "en_json (ou_environment U) = J" "ok (open_log (snd (ensure_schema_v8 db0)))"
    and "ss_world (start_persistent D U config redis_cfg path lines vectors) = Some db"
  shows "\<exists>i. ok \<lparr>sl_db = db, sl_trace_indices = i\<rparr>"
proof -
  obtain r db1 where e: "ensure_schema_v8 db0 = (r, db1)" by fastforce
  let ?s = "\<lambda>coord. run_session
      \<lparr>sx_services = persistent_services D (ou_environment U), sx_json = en_json (ou_environment U),
       sx_float_bytes = ou_float_bytes U, sx_config = config\<rparr>
      (save_snapshot (ou_environment U) (startup_snapshot config redis_cfg)) (on_world_log sqlite_log_list_trace_ids) lines
      (persistent_world db1 vectors coord (ou_counter U))"
  have o: "ok \<lparr>sl_db = db1, sl_trace_indices = Map.empty\<rparr>" using assms(3) e by (simp add: open_log_def)
  have "ok (log_of (ss_world (?s coord)))" for coord
    by (rule run_session_keeps [where ok = "\<lambda>w. ok (log_of w)"])
      (use o in \<open>simp_all add: services_keep assms(2) session_snapshot_keeps on_world_log_keeps log_reads_keep
        persistent_world_def\<close>)
  then show ?thesis using assms(1,4) e o
    by (auto simp: start_persistent_def give_up_def Let_def split: sum.splits)
qed

lemma main_keeps:
  assumes "\<And>path db. ou_open_db U path = Inr db \<Longrightarrow> ok (open_log (snd (ensure_schema_v8 db)))"
    and "en_json (ou_environment U) = J" "ss_world (server_main D U args lines) = Some db'"
  shows "\<exists>path db i. ou_open_db U path = Inr db \<and> ok \<lparr>sl_db = db', sl_trace_indices = i\<rparr>"
proof -
  obtain config vectors path where s: "ss_world (start_persistent D U config
      (the (parse_redis_uri (the (cf_redis_uri config)))) path lines vectors) = Some db'"
    using assms(3) by (rule main_starts)
  then obtain db where db: "ou_open_db U path = Inr db"
    by (auto simp: start_persistent_def give_up_def split: sum.splits)
  from start_keeps [OF db assms(2) assms(1) [OF db] s] db show ?thesis by blast
qed

end

text \<open>The log only grows.\<close>

definition grown :: "audit_row list \<Rightarrow> sqlite_log \<Rightarrow> bool" where
  "grown base l \<longleftrightarrow> db_saved (sl_db l) = None \<and> (\<exists>rows. sc_audit_events (db_now (sl_db l)) = base @ rows)"

lemma append_grows: "keeps (grown base) (sqlite_log_append J event)"
proof -
  have 1: "keeps (grown base) (get_append_state t)" for t
    by (simp add: keeps_def grown_def get_append_state_def Let_def)
  have 2: "keeps (grown base) (insert_appended J event idx p)" for idx p
  proof -
    have "grown base l'" if "grown base l" "insert_appended J event idx p l = (r, l')" for l r l'
      using that(2,1) by (cases rule: insert_appended_cases) (auto simp: grown_def log_with_row_def)
    then show ?thesis unfolding keeps_def by (metis prod.collapse)
  qed
  show ?thesis unfolding sqlite_log_append_def by (auto intro!: keeps_bind 1 2)
qed

interpretation grown: audit_file J "grown base"
proof
  fix l db event
  assume "grown base l"
  then show "db_saved (sl_db l) = None" "grown base (snd (sqlite_log_append J event l))"
    using append_grows [of base J event] by (auto simp: grown_def keeps_def)
  assume "at_rest (audit_part (db_now (sl_db l))) db"
  then show "grown base (l\<lparr>sl_db := db\<rparr>)"
    using \<open>grown base l\<close> by (simp add: grown_def at_rest_def audit_part_def)
qed

section \<open>Properties\<close>

text \<open>C8. The audit log of a database file is append-only: whatever the command line, the input and the outside
  world, when the server ends the file holds the audit rows it held after the migration at the start, in
  their order and unchanged, followed by the new ones, and no transaction is open.\<close>
theorem server_appends_only:
  assumes "\<And>path db. ou_open_db U path = Inr db \<Longrightarrow> db_saved db = None"
    and "ss_world (server_main D U args lines) = Some db'"
  shows "\<exists>path db rows. ou_open_db U path = Inr db \<and> db_saved db' = None \<and>
    sc_audit_events (db_now db') = sc_audit_events (db_now (snd (ensure_schema_v8 db))) @ rows"
proof -
  obtain config vectors path where s: "ss_world (start_persistent D U config
      (the (parse_redis_uri (the (cf_redis_uri config)))) path lines vectors) = Some db'"
    using assms(2) by (rule main_starts)
  then obtain db where db: "ou_open_db U path = Inr db"
    by (auto simp: start_persistent_def give_up_def split: sum.splits)
  let ?base = "sc_audit_events (db_now (snd (ensure_schema_v8 db)))"
  have "grown ?base (open_log (snd (ensure_schema_v8 db)))"
    using assms(1) [OF db] ensure_saved [of db] by (simp add: grown_def open_log_def)
  from grown.start_keeps [OF db refl this s] db show ?thesis by (auto simp: grown_def)
qed

text \<open>A session over a database of version 7 with events.\<close>

theorem server_appends_only_witness:
  "\<exists>db' rows. ss_world (server_main no_docx (demo_outside tree_json old_database) demo_args [''{}'']) = Some db' \<and>
    sc_audit_events (db_now db') = sc_audit_events (db_now (snd (ensure_schema_v8 old_database))) @ rows"
proof -
  let ?U = "demo_outside tree_json old_database"
  let ?c = "default_server_config\<lparr>cf_redis_uri := Some ''tcp://localhost'', cf_db_path := Some ''ccmcp.db'',
    cf_audit_chain_verify := kFailStart\<rparr>"
  have c: "validate_mcp_server_config ?c = []" "open_vector_index ?U ?c = Inr (Memory_Vectors [])"
    by (simp_all add: validate_mcp_server_config_def parse_redis_uri_localhost default_server_config_def open_vector_index_def)
  have U: "ou_open_db ?U p = Inr old_database" "ou_connect ?U u = Inr ()" for p u by (simp_all add: demo_outside_def)
  have "\<exists>db'. ss_world (server_main no_docx ?U demo_args [''{}'']) = Some db'"
    by (cases "ensure_schema_v8 old_database"; cases "fst (ensure_schema_v8 old_database)")
      (simp_all add: server_main_def demo_args_parsed c start_persistent_def U give_up_def Let_def)
  then obtain db' where s: "ss_world (server_main no_docx ?U demo_args [''{}'']) = Some db'" by blast
  have o: "db_saved old_database = None" by (simp add: old_database_def)
  have "ou_open_db ?U path = Inr db \<Longrightarrow> db_saved db = None" for path db
    using o by (auto simp: U)
  from server_appends_only [OF this s] s show ?thesis by (auto simp: U)
qed

end
