(* ===== verification/Restarts.thy ===== *)
theory Restarts
  imports Append_Only
begin

text \<open>
  Sessions of the server on one database file, one after the other. A session leaves the stored forms of the
  events it appended, each with the digest of the whole event, so that the rows determine the events. As long as
  these have no NUL character the log it leaves verifies, and the next session is served whatever its
  verification mode; otherwise a session that checks the chains refuses the file. The invariant of a session names
  the events behind the rows; it is another interpretation of \<open>audit_file\<close>.
\<close>

section \<open>Stored events\<close>

text \<open>A row is the stored form of an event with its two hashes: the texts up to their first NUL, and the digest
  of the whole event.\<close>

definition stored_as :: "'j json_api \<Rightarrow> audit_event \<Rightarrow> audit_row \<Rightarrow> bool" where
  "stored_as J event row \<longleftrightarrow> compute_event_hash J event (ae_previous_hash event) = Inr (ae_event_hash event) \<and>
     no_nul (ae_previous_hash event) \<and>
     (\<exists>refs idx. tags_text J (ae_refs event) = Inr refs \<and>
        row = event_to_row event refs idx (ae_previous_hash event) (ae_event_hash event))"

lemma stored_as_row:
  assumes "compute_event_hash J event p = Inr h" "no_nul p" "tags_text J (ae_refs event) = Inr refs"
  shows "stored_as J (event\<lparr>ae_previous_hash := p, ae_event_hash := h\<rparr>) (event_to_row event refs idx p h)"
  using assms by (auto simp: stored_as_def event_to_row_def)

text \<open>So a row tells which event was appended: two events behind one row have different texts with one digest.\<close>

context json_library
begin

lemma stored_as_unique:
  assumes "stored_as J e row" "stored_as J f row" "e \<noteq> f"
  shows "event_preimage J e \<noteq> event_preimage J f \<and> sha256_hex (event_preimage J e) = sha256_hex (event_preimage J f)"
proof -
  note h = assms(1,2) [unfolded stored_as_def, THEN conjunct1]
  have row: "ae_previous_hash e = er_previous_hash row" "ae_event_hash e = er_event_hash row"
    "ae_previous_hash f = er_previous_hash row" "ae_event_hash f = er_event_hash row"
    using assms(1,2) no_nul_event_hash [OF h(1)] no_nul_event_hash [OF h(2)]
    by (auto simp: stored_as_def event_to_row_def)
  then show ?thesis
    using preimage_binding [OF h] assms(3) compute_event_hash_preimage [OF h(1)] compute_event_hash_preimage [OF h(2)]
    by auto
qed

lemma stored_events_unique:
  "list_all2 (stored_as J) es rows \<Longrightarrow> list_all2 (stored_as J) fs rows \<Longrightarrow> fs = es \<or> digest_clash J es fs"
proof (induction es rows arbitrary: fs rule: list_all2_induct)
  case (Cons e es row rows)
  then obtain f gs where f: "fs = f # gs" "stored_as J f row" "list_all2 (stored_as J) gs rows"
    by (auto simp: list_all2_Cons2)
  then show ?case using Cons.IH [OF f(3)] stored_as_unique [OF \<open>stored_as J e row\<close> f(2)]
    by (auto simp: digest_clash_def)
qed simp

end

text \<open>Reading the state for an append keeps the log's invariant, also when the append then fails.\<close>

lemma append_state_inv:
  assumes "sqlite_log_inv J l" "get_append_state t l = (Inr (idx, p), l')"
  shows "sqlite_log_inv J l' \<and> sl_db l' = sl_db l"
proof -
  let ?c = "db_now (sl_db l)"
  have tables: "prepare_error [''audit_events''] [] ?c = None"
    using assms(1) by (simp add: sqlite_log_inv_def Let_def prepare_error_None)
  define i where "i = (case sl_trace_indices l t of Some i \<Rightarrow> i | None \<Rightarrow> max_idx (trace_rows ?c t) + 1)"
  have l': "l' = l\<lparr>sl_trace_indices := (sl_trace_indices l)(t \<mapsto> i + 1)\<rparr>"
    using assms(2) by (auto simp: get_append_state_def Let_def tables i_def [symmetric] cong: option.case_cong)
  have "rows_ok J (Some (i + 1)) (trace_rows ?c t)" if "no_nul t"
    using rows_ok_next(3) [of J "sl_trace_indices l t" "trace_rows ?c t"] assms(1) that
    by (simp add: sqlite_log_inv_def Let_def i_def)
  then show ?thesis using assms(1) by (auto simp: l' sqlite_log_inv_def Let_def)
qed

section \<open>The invariant of a session\<close>

definition session_ok :: "'j json_api \<Rightarrow> audit_row list \<Rightarrow> sqlite_log \<Rightarrow> bool" where
  "session_ok J base l \<longleftrightarrow> db_saved (sl_db l) = None \<and> get_schema_version (sl_db l) = 8 \<and>
     ''runtime_snapshots'' \<in> set (sc_tables (db_now (sl_db l))) \<and>
     prepare_error [''audit_events''] [''previous_hash'', ''event_hash''] (db_now (sl_db l)) = None \<and>
     (\<forall>r \<in> set (sc_audit_events (db_now (sl_db l))). no_nul (er_event_hash r)) \<and>
     (\<exists>evs rows. sc_audit_events (db_now (sl_db l)) = base @ rows \<and> list_all2 (stored_as J) evs rows \<and>
        ((\<forall>ev \<in> set evs. event_storable J ev) \<longrightarrow> sqlite_log_inv J l))"

lemma schema_version_audit_part: "audit_part (db_now db') = audit_part (db_now db) \<Longrightarrow> get_schema_version db' = get_schema_version db"
  by (simp add: get_schema_version_def audit_part_def)

lemma session_ok_other:
  assumes "session_ok J base l" "at_rest (audit_part (db_now (sl_db l))) db"
  shows "session_ok J base (l\<lparr>sl_db := db\<rparr>)"
proof -
  have a: "audit_part (db_now db) = audit_part (db_now (sl_db l))" "db_saved db = None"
    using assms(2) by (simp_all add: at_rest_def)
  have "sqlite_log_inv J (l\<lparr>sl_db := db\<rparr>)" if "sqlite_log_inv J l"
    using that by (rule inv_same_rows) (use a(1) in \<open>simp_all add: audit_part_def\<close>)
  then show ?thesis
    using assms(1) a schema_version_audit_part [OF a(1)] unfolding session_ok_def
    by (auto simp: audit_part_def prepare_error_None)
qed

context json_text
begin

lemma session_ok_append:
  assumes "session_ok J base l"
  shows "session_ok J base (snd (sqlite_log_append J event l))"
proof -
  obtain evs rows where l: "db_saved (sl_db l) = None" "get_schema_version (sl_db l) = 8"
    "''runtime_snapshots'' \<in> set (sc_tables (db_now (sl_db l)))"
    "prepare_error [''audit_events''] [''previous_hash'', ''event_hash''] (db_now (sl_db l)) = None"
    "\<forall>r \<in> set (sc_audit_events (db_now (sl_db l))). no_nul (er_event_hash r)"
    "sc_audit_events (db_now (sl_db l)) = base @ rows" "list_all2 (stored_as J) evs rows"
    "\<forall>ev \<in> set evs. event_storable J ev \<Longrightarrow> sqlite_log_inv J l"
    using assms unfolding session_ok_def by blast
  obtain idx p l' where st: "get_append_state (ae_trace_id event) l = (Inr (idx, p), l')"
    using get_append_state_shape by blast
  have db: "sl_db l' = sl_db l" using st by (auto simp: get_append_state_def Let_def)
  have p: "no_nul p" using append_state_previous [OF st] l(5) by auto
  obtain r l2 where run: "insert_appended J event idx p l' = (r, l2)" by (cases "insert_appended J event idx p l'")
  then have snd: "snd (sqlite_log_append J event l) = l2" by (simp add: sqlite_log_append_state [OF st])
  from run show ?thesis
  proof (cases rule: insert_appended_cases)
    case (refused e)
    have "(\<forall>ev \<in> set evs. event_storable J ev) \<longrightarrow> sqlite_log_inv J l'" using l(8) append_state_inv [OF _ st] by blast
    then show ?thesis using l(1-7) unfolding session_ok_def snd refused db by blast
  next
    case (stored refs h)
    let ?r = "event_to_row event refs idx p h" and ?ev = "event\<lparr>ae_previous_hash := p, ae_event_hash := h\<rparr>"
    have a: "sl_db (log_with_row ?r l') = (sl_db l)\<lparr>db_now := (db_now (sl_db l))
        \<lparr>sc_audit_events := sc_audit_events (db_now (sl_db l)) @ [?r]\<rparr>\<rparr>"
      by (simp add: log_with_row_def db)
    have "list_all2 (stored_as J) (evs @ [?ev]) (rows @ [?r])"
      using l(7) stored_as_row [OF stored(2) p stored(3)] by (simp add: list_all2_appendI)
    moreover have "sqlite_log_inv J (log_with_row ?r l')" if "\<forall>ev \<in> set (evs @ [?ev]). event_storable J ev"
      using append_effect [of l event] l(8) that unfolding snd stored by (simp add: event_storable_def)
    moreover have "get_schema_version (sl_db (log_with_row ?r l')) = 8"
      using l(2) by (simp add: a get_schema_version_def split: if_splits)
    moreover have "no_nul (er_event_hash ?r)" by (simp add: event_to_row_def)
    ultimately show ?thesis using l(1,3,4,5,6) unfolding session_ok_def snd stored
      by (intro conjI exI [of _ "evs @ [?ev]"] exI [of _ "rows @ [?r]"]) (simp_all add: a prepare_error_None)
  qed
qed

end

sublocale json_text \<subseteq> session: audit_file J "session_ok J base" for base
  by unfold_locales (blast intro: session_ok_other session_ok_append | simp add: session_ok_def)+

section \<open>Files between sessions\<close>

definition sound_file :: "'j json_api \<Rightarrow> sqlite_db \<Rightarrow> bool" where
  "sound_file J db \<longleftrightarrow> db_saved db = None \<and> get_schema_version db = 8 \<and>
     ''runtime_snapshots'' \<in> set (sc_tables (db_now db)) \<and> sqlite_log_inv J (open_log db) \<and>
     (\<forall>r \<in> set (sc_audit_events (db_now db)). no_nul (er_trace_id r))"

lemma sound_file_hashes:
  assumes "sound_file J db" "r \<in> set (sc_audit_events (db_now db))"
  shows "no_nul (er_event_hash r)"
proof -
  let ?rs = "trace_rows (db_now db) (er_trace_id r)"
  have t: "no_nul (er_trace_id r)" using assms by (simp add: sound_file_def)
  then have "rows_ok J (sl_trace_indices (open_log db) (er_trace_id r)) ?rs"
    using assms(1) by (simp add: sound_file_def sqlite_log_inv_def Let_def open_log_def)
  then obtain es :: "audit_event list" where es: "map ae_event_hash es = map er_event_hash ?rs" "\<forall>e \<in> set es. no_nul (ae_event_hash e)"
    unfolding rows_ok_def by blast
  have "r \<in> set ?rs" using assms(2) t by (simp add: trace_rows_def)
  then have "er_event_hash r \<in> ae_event_hash ` set es" using es(1) by (metis image_eqI set_map)
  then show ?thesis using es(2) by auto
qed

lemma sound_file_starts: "sound_file J db \<Longrightarrow> session_ok J (sc_audit_events (db_now db)) (open_log db)"
  using sound_file_hashes [of J db]
  by (auto simp: sound_file_def session_ok_def open_log_def sqlite_log_inv_def Let_def prepare_error_None intro!: exI [of _ "[]"])

lemma stored_trace: "stored_as J event row \<Longrightarrow> no_nul (er_trace_id row)"
  by (auto simp: stored_as_def event_to_row_def)

context json_text
begin

lemma session_leaves:
  assumes "en_json (ou_environment U) = J" "\<And>path db. ou_open_db U path = Inr db \<Longrightarrow> sound_file J db"
    and "ss_world (server_main D U args lines) = Some db'"
  shows "\<exists>path db evs rows. ou_open_db U path = Inr db \<and>
    sc_audit_events (db_now db') = sc_audit_events (db_now db) @ rows \<and> list_all2 (stored_as J) evs rows \<and>
    get_schema_version db' = 8 \<and> prepare_error [''audit_events''] [''previous_hash'', ''event_hash''] (db_now db') = None \<and>
    ((\<forall>ev \<in> set evs. event_storable J ev) \<longrightarrow> sound_file J db')"
proof -
  obtain config vectors path where s: "ss_world (start_persistent D U config
      (the (parse_redis_uri (the (cf_redis_uri config)))) path lines vectors) = Some db'"
    using assms(3) by (rule main_starts)
  then obtain db where db: "ou_open_db U path = Inr db"
    by (auto simp: start_persistent_def give_up_def split: sum.splits)
  note sound = assms(2) [OF db]
  have e: "ensure_schema_v8 db = (Inr True, db)" using sound by (simp add: sound_file_def ensure_schema_v8_done)
  have "session_ok J (sc_audit_events (db_now db)) (open_log (snd (ensure_schema_v8 db)))"
    using sound_file_starts [OF sound] by (simp add: e)
  from session.start_keeps [OF db assms(1) this s] obtain i
    where "session_ok J (sc_audit_events (db_now db)) \<lparr>sl_db = db', sl_trace_indices = i\<rparr>" by blast
  then obtain evs rows where o: "db_saved db' = None" "get_schema_version db' = 8"
    "''runtime_snapshots'' \<in> set (sc_tables (db_now db'))" "prepare_error [''audit_events''] [''previous_hash'', ''event_hash''] (db_now db') = None"
    "sc_audit_events (db_now db') = sc_audit_events (db_now db) @ rows" "list_all2 (stored_as J) evs rows"
    "(\<forall>ev \<in> set evs. event_storable J ev) \<longrightarrow> sqlite_log_inv J \<lparr>sl_db = db', sl_trace_indices = i\<rparr>"
    by (auto simp: session_ok_def)
  have "\<forall>r \<in> set rows. no_nul (er_trace_id r)"
    using o(6) stored_trace by (metis in_set_conv_nth list_all2_conv_all_nth)
  then have "\<forall>r \<in> set (sc_audit_events (db_now db')). no_nul (er_trace_id r)"
    using sound o(5) by (auto simp: sound_file_def)
  then have "(\<forall>ev \<in> set evs. event_storable J ev) \<longrightarrow> sound_file J db'"
    using o(1-3,7) inv_open_log [of J "\<lparr>sl_db = db', sl_trace_indices = i\<rparr>"] by (simp add: sound_file_def)
  with o(2,4,5,6) db show ?thesis by blast
qed

text \<open>A session that stored an event with a NUL leaves a file whose check fails.\<close>

lemma nul_row_corrupt:
  assumes "list_all2 (stored_as J) evs rows" "i < length evs" "\<not> event_storable J (evs ! i)"
    and "sc_audit_events c = base @ rows"
  shows "corrupt J (result_map (row_to_event J) (by_idx (trace_rows c (er_trace_id (rows ! i))))) \<or>
    read_back_clash J (evs ! i) (rows ! i)"
proof -
  have s: "stored_as J (evs ! i) (rows ! i)" "i < length rows"
    using assms(1,2) by (auto simp: list_all2_conv_all_nth)
  then obtain refs idx where r: "rows ! i = event_to_row (evs ! i) refs idx (ae_previous_hash (evs ! i)) (ae_event_hash (evs ! i))"
    by (auto simp: stored_as_def)
  have "rows ! i \<in> set (by_idx (trace_rows c (er_trace_id (rows ! i))))"
    using s(2) stored_trace [OF s(1)] by (simp add: by_idx_def trace_rows_def assms(4))
  from truncated_corrupt [OF json_library_axioms assms(3) r _ _ this] s(1) show ?thesis by (simp add: stored_as_def)
qed

end

section \<open>Properties\<close>

text \<open>C9. Sessions on one database file. The rows a session adds are the stored forms of the events it appended,
  and they determine these events, or two texts have one digest. Unless one of the events has a NUL
  character, the next session on the file is served, whatever its command line and its verification mode
  are: no message the server was sent before can make it refuse its database. If one has, the next session with
  \<open>--audit-chain-verify fail\<close> answers nothing and exits with 1, or the event read back clashes with the one
  appended. The identifier of the next snapshot must be new and its configuration printable.\<close>
theorem server_restarts:
  assumes "json_text (en_json E)" "ou_environment U = E"
    and "\<And>path db. ou_open_db U path = Inr db \<Longrightarrow> sound_file (en_json E) db"
    and "ss_world (server_main D U args lines) = Some db'"
    and "ou_environment U' = E'" "en_json E' = en_json E" "ou_open_db U' path' = Inr db'"
    and "parse_args args' = (messages, Inr config)" "validate_mcp_server_config config = []"
    and "open_vector_index U' config = Inr vectors" "ou_connect U' (the (cf_redis_uri config)) = Inr coord"
    and "snapshot_to_json (en_json E') (startup_snapshot config (the (parse_redis_uri (the (cf_redis_uri config))))) = Inr s"
    and "cf_db_path config = Some path'"
    and "c_str (fst (en_next_id E' ''snapshot'' (ou_counter U'))) \<notin> fst ` set (sc_runtime_snapshots (db_now db'))"
  shows "\<exists>path db evs rows. ou_open_db U path = Inr db \<and>
    sc_audit_events (db_now db') = sc_audit_events (db_now db) @ rows \<and> list_all2 (stored_as (en_json E)) evs rows \<and>
    (\<forall>evs'. list_all2 (stored_as (en_json E)) evs' rows \<longrightarrow> evs' = evs \<or> digest_clash (en_json E) evs evs') \<and>
    ((\<forall>ev \<in> set evs. event_storable (en_json E) ev) \<longrightarrow>
      (\<exists>w. served (server_main D' U' args' lines')
        \<lparr>sx_services = persistent_services D' E', sx_json = en_json E', sx_float_bytes = ou_float_bytes U', sx_config = config\<rparr>
        lines' w)) \<and>
    (\<forall>i < length evs. \<not> event_storable (en_json E) (evs ! i) \<and> cf_audit_chain_verify config = kFailStart \<longrightarrow>
      ss_output (server_main D' U' args' lines') = [] \<and> ss_exit (server_main D' U' args' lines') = Exited 1 \<or>
      read_back_clash (en_json E) (evs ! i) (rows ! i))"
proof -
  have "json_library (en_json E)" using assms(1) by (simp add: json_text_def)
  obtain path db evs rows where l: "ou_open_db U path = Inr db"
    "sc_audit_events (db_now db') = sc_audit_events (db_now db) @ rows" "list_all2 (stored_as (en_json E)) evs rows"
    "get_schema_version db' = 8" "prepare_error [''audit_events''] [''previous_hash'', ''event_hash''] (db_now db') = None"
    "(\<forall>ev \<in> set evs. event_storable (en_json E) ev) \<longrightarrow> sound_file (en_json E) db'"
  proof -
    have "en_json (ou_environment U) = en_json E" by (simp add: assms(2))
    from json_text.session_leaves [OF assms(1) this _ assms(4)] assms(3) show ?thesis using that by blast
  qed
  have "\<exists>w. served (server_main D' U' args' lines')
      \<lparr>sx_services = persistent_services D' E', sx_json = en_json E', sx_float_bytes = ou_float_bytes U', sx_config = config\<rparr>
      lines' w" if "sound_file (en_json E) db'"
    using verified_database_served [OF _ assms(5,8-13,7) _ _ assms(14), of D' lines'] assms(1,6) that
    by (auto simp: sound_file_def)
  moreover have "ss_output (server_main D' U' args' lines') = [] \<and> ss_exit (server_main D' U' args' lines') = Exited 1 \<or>
      read_back_clash (en_json E) (evs ! i) (rows ! i)"
    if i: "i < length evs" "\<not> event_storable (en_json E) (evs ! i)" "cf_audit_chain_verify config = kFailStart" for i
  proof -
    have "rows ! i \<in> set (sc_audit_events (db_now db'))"
      using i(1) l(3) by (auto simp: l(2) dest: list_all2_lengthD)
    from main_refused [OF assms(8,13) i(3) assms(7) ensure_schema_v8_done [OF l(4)] l(5) this, of D' lines']
      json_text.nul_row_corrupt [OF assms(1) l(3) i(1,2) l(2)] refused_exit_index(2) [OF assms(9,10)]
    show ?thesis by (auto simp: assms(5,6))
  qed
  ultimately show ?thesis
    using l json_library.stored_events_unique [OF \<open>json_library (en_json E)\<close> l(3)] by blast
qed

text \<open>Two sessions over an empty database: the first is asked to ingest a file that cannot be opened, so its
  log holds the start of the ingestion.\<close>

definition ingest_call :: string where
  "ingest_call = enc_tree (TObject [(''method'', TString ''tools/call''),
     (''params'', TObject [(''arguments'', TObject [(''input_path'', TString ''cv.md''), (''trace_id'', TString ''t'')]),
        (''name'', TString ''ingest_resume'')])])"

definition ingest_started :: audit_event where
  "ingest_started = new_event ''evt-2'' ''t'' ''IngestStarted''
     (''{\"source\":\"app_service\",\"operation\":\"ingest_resume\",\"persist\":true}'') ''t1'' []"

lemma first_append:
  assumes "sc_audit_events (db_now db) = []"
    and "prepare_error [''audit_events''] [''previous_hash'', ''event_hash''] (db_now db) = None"
  shows "\<exists>row i p h. stored_as text_json (ingest_started\<lparr>ae_previous_hash := p, ae_event_hash := h\<rparr>) row \<and>
    sqlite_log_append text_json ingest_started \<lparr>sl_db = db, sl_trace_indices = Map.empty\<rparr> =
    (Inr (), \<lparr>sl_db = db\<lparr>db_now := (db_now db)\<lparr>sc_audit_events := [row]\<rparr>\<rparr>, sl_trace_indices = i\<rparr>)"
proof -
  let ?l = "\<lparr>sl_db = db, sl_trace_indices = [''t'' \<mapsto> 1]\<rparr>"
  have st: "get_append_state ''t'' \<lparr>sl_db = db, sl_trace_indices = Map.empty\<rparr> = (Inr (0, kGenesisHash), ?l)"
    by (simp add: get_append_state_def Let_def trace_rows_def max_idx_def assms(1))
  obtain s t where "j_dump text_json (j_object text_json (event_members text_json ingest_started)) = Inr s"
    "tags_text text_json (ae_refs ingest_started) = Inr t"
  proof -
    have "is_ok (j_dump text_json (j_object text_json (event_members text_json ingest_started)))"
      "is_ok (tags_text text_json (ae_refs ingest_started))"
      by (simp_all add: text_json_dump_ok text_json_values event_members_def ingest_started_def new_event_def
          enc_string_def enc_nat_def tags_text_def)
    then show ?thesis using that by (auto simp: is_ok_def split: sum.splits)
  qed
  moreover have "ae_trace_id ingest_started = ''t''" by (simp add: ingest_started_def new_event_def)
  moreover have "stored_as text_json (ingest_started\<lparr>ae_previous_hash := kGenesisHash, ae_event_hash := sha256_hex (s @ kGenesisHash)\<rparr>)
      (event_to_row ingest_started t 0 kGenesisHash (sha256_hex (s @ kGenesisHash)))"
    by (rule stored_as_row) (use calculation in \<open>simp_all add: compute_event_hash_def\<close>)
  ultimately show ?thesis using st assms
    by (simp add: sqlite_log_append_def act_bind_eq insert_appended_eq compute_event_hash_def log_with_row_def) blast
qed

abbreviation demo_services :: "(string \<rightharpoonup> int, unit) world services" where
  "demo_services \<equiv> persistent_services no_docx demo_environment"

abbreviation ingest_demo_request :: ingest_request where
  "ingest_demo_request \<equiv> \<lparr>iq_input_path = ''cv.md'', iq_persist = True, iq_trace_id = Some ''t''\<rparr>"

lemma demo_ids:
  "deterministic_next ''trace'' 1 = (''trace-1'', 2)" "deterministic_next ''evt'' 2 = (''evt-2'', 3)"
  "to_string_nat (Suc 0) = ''1''"
  by code_simp+

lemma ingest_fails:
  assumes "sc_audit_events (db_now (wd_db w)) = []" "wd_counter w = 1" "wd_ticks w = 1" "wd_log w = Map.empty"
    and "prepare_error [''audit_events''] [''previous_hash'', ''event_hash''] (db_now (wd_db w)) = None"
  shows "\<exists>e w' row p h. stored_as text_json (ingest_started\<lparr>ae_previous_hash := p, ae_event_hash := h\<rparr>) row \<and>
    run_ingest_resume_pipeline demo_services ingest_demo_request w = (Inl e, w') \<and>
    wd_db w' = (wd_db w)\<lparr>db_now := (db_now (wd_db w))\<lparr>sc_audit_events := [row]\<rparr>\<rparr>"
proof -
  obtain row i p h where st: "stored_as text_json (ingest_started\<lparr>ae_previous_hash := p, ae_event_hash := h\<rparr>) row"
    and a: "sqlite_log_append text_json ingest_started \<lparr>sl_db = wd_db w, sl_trace_indices = Map.empty\<rparr> =
      (Inr (), \<lparr>sl_db = (wd_db w)\<lparr>db_now := (db_now (wd_db w))\<lparr>sc_audit_events := [row]\<rparr>\<rparr>, sl_trace_indices = i\<rparr>)"
    using first_append [OF assms(1,5)] by blast
  have t: "trace_or_next demo_services (Some ''t'') w = (Inr ''t'', w\<lparr>wd_counter := 2\<rparr>)"
    by (simp add: trace_or_next_def persistent_services_def world_next_id_def demo_environment_def act_bind_def
        act_return_def assms(2) demo_ids)
  have e: "emit demo_services ''t'' ''IngestStarted''
      (''{\"source\":\"app_service\",\"operation\":\"ingest_resume\",\"persist\":true}'') [] (w\<lparr>wd_counter := 2\<rparr>) =
      (Inr (), w\<lparr>wd_counter := 3, wd_ticks := 2, wd_db := (wd_db w)\<lparr>db_now := (db_now (wd_db w))\<lparr>sc_audit_events := [row]\<rparr>\<rparr>,
         wd_log := i\<rparr>)"
    using a
    by (simp add: emit_def persistent_services_def world_next_id_def world_now_def demo_environment_def act_bind_def
        on_world_log_def act_on_def demo_ids assms(3,4) ingest_started_def)
  have f: "sv_ingest_file demo_services ''cv.md'' default_ingest_options v = (Inr (Inl ''Failed to open file: cv.md''), v)" for v
    by (simp add: persistent_services_def world_ingest_file_def demo_environment_def ingest_file_def read_file_bytes_def
        is_ok_def)
  note steps = act_bind_eq(1) [where m = "trace_or_next demo_services (Some ''t'')", OF t]
    act_bind_eq(1) [where m = "emit demo_services _ _ _ _", OF e]
    act_bind_eq(1) [where m = "sv_ingest_file demo_services _ _", OF f]
  show ?thesis using st by (simp add: run_ingest_resume_pipeline_def steps act_throw_def) blast
qed

lemma text_json_reads:
  "j_is_object text_json (TObject kvs)" "j_contains text_json (TObject kvs) k \<longleftrightarrow> k \<in> fst ` set kvs"
  "j_at text_json (TObject kvs) k = (case map_of kvs k of Some v \<Rightarrow> Inr v | None \<Rightarrow> Inl ''key not found'')"
  "j_get_string text_json (TString s) = Inr s" "j_is_string text_json (TString s)"
  by (simp_all add: text_json_def tree_json_def tree_at_def)

lemma ingest_call_parsed:
  "parse_request text_json ingest_call = Some \<lparr>rq_jsonrpc = ''2.0'', rq_id = None, rq_method = ''tools/call'',
     rq_params = TObject [(''arguments'', TObject [(''input_path'', TString ''cv.md''), (''trace_id'', TString ''t'')]),
       (''name'', TString ''ingest_resume'')]\<rparr>"
proof -
  let ?j = "TObject [(''method'', TString ''tools/call''),
     (''params'', TObject [(''arguments'', TObject [(''input_path'', TString ''cv.md''), (''trace_id'', TString ''t'')]),
        (''name'', TString ''ingest_resume'')])]"
  have "CHR 0x00 \<notin> set (enc_tree ?j)" by (simp add: enc_string_def enc_nat_def)
  then have "j_dump text_json ?j = Inr ingest_call" unfolding ingest_call_def by (simp only: text_json_def json_api.simps) simp
  from printed.parse_dump [OF this] show ?thesis
    by (simp add: parse_request_def parse_request_id_def j_value_def text_json_reads text_json_values)
qed

lemma ingest_call_served:
  assumes "sx_json X = text_json" "sx_services X = demo_services"
    and "run_ingest_resume_pipeline demo_services ingest_demo_request w = (Inl e, w')"
  shows "\<exists>res. serve_line X ingest_call w = (res, w')"
proof -
  have "ingest_request_of text_json (TObject [(''input_path'', TString ''cv.md''), (''trace_id'', TString ''t'')]) =
      Inr ingest_demo_request"
    by (simp add: ingest_request_of_def string_param_def j_value_def text_json_reads)
  then have h: "handle_ingest_resume X (TObject [(''input_path'', TString ''cv.md''), (''trace_id'', TString ''t'')]) w =
      (Inr (error_json text_json e), w')"
    using assms by (simp add: handle_ingest_resume_def guarded_def act_catch_def act_bind_def act_lift_def act_return_def)
  show ?thesis
    by (simp add: serve_line_def assms(1) ingest_call_parsed method_registry_def handle_tools_call_def j_value_def
        text_json_reads act_bind_def act_lift_def tool_registry_def h)
qed

lemma first_session:
  "\<exists>db' row snapshot p h. ss_world (server_main no_docx (demo_outside text_json migrated_database) demo_args [ingest_call]) = Some db' \<and>
    sc_runtime_snapshots (db_now db') = [(''snapshot-0'', snapshot)] \<and> sc_audit_events (db_now db') = [row] \<and>
    stored_as text_json (ingest_started\<lparr>ae_previous_hash := p, ae_event_hash := h\<rparr>) row"
proof -
  let ?U = "demo_outside text_json migrated_database"
  let ?c = "default_server_config\<lparr>cf_redis_uri := Some ''tcp://localhost'', cf_db_path := Some ''ccmcp.db'',
    cf_audit_chain_verify := kFailStart\<rparr>"
  have c: "validate_mcp_server_config ?c = []" "open_vector_index ?U ?c = Inr (Memory_Vectors [])"
    by (simp_all add: validate_mcp_server_config_def parse_redis_uri_localhost default_server_config_def open_vector_index_def)
  have U: "ou_environment ?U = demo_environment" "ou_connect ?U u = Inr ()" "ou_open_db ?U u = Inr migrated_database"
    "ou_counter ?U = 0" for u
    by (simp_all add: demo_outside_def demo_environment_def)
  have J: "en_json demo_environment = text_json" by (simp add: demo_environment_def)
  have m: "get_schema_version migrated_database = 8" "sc_runtime_snapshots (db_now migrated_database) = []"
    "sc_audit_events (db_now migrated_database) = []" "prepare_error [''runtime_snapshots''] [] (db_now migrated_database) = None"
    "''audit_events'' \<in> set (sc_tables (db_now migrated_database))"
    "prepare_error [''audit_events''] [''previous_hash'', ''event_hash''] (db_now migrated_database) = None"
    by (simp_all add: get_schema_version_def migrated_database_def schema_of_def kSchemaV1_def kSchemaV7_def
        empty_content_def prepare_error_None)
  have n: "deterministic_next ''snapshot'' 0 = (''snapshot-0'', 1)" "c_str ''snapshot-0'' = ''snapshot-0''" by code_simp+
  obtain s where s: "snapshot_to_json (en_json demo_environment)
      (startup_snapshot ?c (the (parse_redis_uri (the (cf_redis_uri ?c))))) = Inr s"
    using demo_snapshot_printable by auto
  define row where "row = \<lparr>pr_snapshot_json = c_str s, pr_snapshot_hash = c_str (sha256_hex s),
    pr_created_at = c_str (en_clock demo_environment 0)\<rparr>"
  let ?db = "migrated_database\<lparr>db_now := (db_now migrated_database)\<lparr>sc_runtime_snapshots := [(''snapshot-0'', row)]\<rparr>\<rparr>"
  have save: "save_snapshot demo_environment (startup_snapshot ?c (the (parse_redis_uri (the (cf_redis_uri ?c)))))
      (persistent_world migrated_database vectors () 0) =
      (Inr (), (persistent_world migrated_database vectors () 0)\<lparr>wd_counter := 1, wd_ticks := 1, wd_db := ?db\<rparr>)" for vectors
    using n m(2,4) s
    by (simp add: save_snapshot_def act_bind_def act_lift_def world_next_id_def world_now_def on_world_db_def act_on_def
        sqlite_snapshot_save_def sql_step_def insert_snapshot_def act_return_def persistent_world_def row_def
        demo_environment_def)
  define w1 where "w1 = (persistent_world migrated_database (Memory_Vectors []) () 0)\<lparr>wd_counter := 1, wd_ticks := 1, wd_db := ?db\<rparr>"
  obtain e w' event p h where run: "stored_as text_json (ingest_started\<lparr>ae_previous_hash := p, ae_event_hash := h\<rparr>) event"
    "run_ingest_resume_pipeline demo_services ingest_demo_request w1 = (Inl e, w')"
    "wd_db w' = ?db\<lparr>db_now := (db_now ?db)\<lparr>sc_audit_events := [event]\<rparr>\<rparr>"
    using ingest_fails [of w1] m by (auto simp: w1_def persistent_world_def prepare_error_None)
  let ?X = "\<lparr>sx_services = demo_services, sx_json = text_json, sx_float_bytes = ou_float_bytes ?U, sx_config = ?c\<rparr>"
  obtain res where "serve_line ?X ingest_call w1 = (res, w')"
    using ingest_call_served [of ?X, OF _ _ run(2)] by auto
  then have loop: "snd (snd (run_server_loop ?X [ingest_call] w1)) = w'"
    by (cases res) (simp_all add: ingest_call_def)
  have ids: "on_world_log sqlite_log_list_trace_ids w1 = (Inr [], w1)"
    using m by (simp add: w1_def on_world_log_def act_on_def sqlite_log_list_trace_ids_def has_tables_def persistent_world_def)
  have "ss_world (server_main no_docx ?U demo_args [ingest_call]) = Some (wd_db w')"
  proof (cases "run_server_loop ?X [ingest_call] w1")
    case (fields outs r w2)
    then show ?thesis using save [of "Memory_Vectors []", folded w1_def] ids loop m
      by (cases r) (simp_all add: server_main_def demo_args_parsed c start_persistent_def U ensure_schema_v8_done Let_def
        run_session_def act_bind_def [of "save_snapshot _ _"] J)
  qed
  then show ?thesis using run(1,3) by auto
qed

theorem server_restarts_witness:
  "\<exists>db' row evs ev (w :: (string \<rightharpoonup> int, unit) world).
     ss_world (server_main no_docx (demo_outside text_json migrated_database) demo_args [ingest_call]) = Some db' \<and>
     sc_audit_events (db_now db') = [row] \<and> ae_event_type ev = ''IngestStarted'' \<and> list_all2 (stored_as text_json) evs [row] \<and>
     (digest_clash text_json evs [ev] \<or> evs = [ev] \<and>
      served (server_main no_docx ((demo_outside text_json migrated_database)\<lparr>ou_open_db := \<lambda>_. Inr db', ou_counter := 1\<rparr>)
         demo_args [''{}''])
       \<lparr>sx_services = persistent_services no_docx demo_environment, sx_json = text_json, sx_float_bytes = float_bytes,
        sx_config = default_server_config\<lparr>cf_redis_uri := Some ''tcp://localhost'',
          cf_db_path := Some ''ccmcp.db'', cf_audit_chain_verify := kFailStart\<rparr>\<rparr> [''{}''] w)"
proof -
  let ?U = "demo_outside text_json migrated_database"
  let ?c = "default_server_config\<lparr>cf_redis_uri := Some ''tcp://localhost'', cf_db_path := Some ''ccmcp.db'',
    cf_audit_chain_verify := kFailStart\<rparr>"
  obtain db' row snapshot p h where s: "ss_world (server_main no_docx ?U demo_args [ingest_call]) = Some db'"
    "sc_runtime_snapshots (db_now db') = [(''snapshot-0'', snapshot)]" "sc_audit_events (db_now db') = [row]"
    "stored_as text_json (ingest_started\<lparr>ae_previous_hash := p, ae_event_hash := h\<rparr>) row"
    using first_session by blast
  let ?ev = "ingest_started\<lparr>ae_previous_hash := p, ae_event_hash := h\<rparr>"
  have ev: "event_storable text_json ?ev" "ae_event_type ?ev = ''IngestStarted''"
    by (simp_all add: event_storable_def ingest_started_def new_event_def no_nul_def)
  let ?V = "?U\<lparr>ou_open_db := \<lambda>_. Inr db', ou_counter := 1\<rparr>"
  have U: "ou_environment ?U = demo_environment" "ou_environment ?V = demo_environment" "en_json demo_environment = text_json"
    "ou_open_db ?U p = Inr migrated_database" "ou_open_db ?V p = Inr db'" "ou_connect ?V u = Inr ()" "ou_counter ?V = 1"
    "ou_float_bytes ?V = float_bytes" for p u
    by (simp_all add: demo_outside_def demo_environment_def)
  have c: "validate_mcp_server_config ?c = []" "open_vector_index ?V ?c = Inr (Memory_Vectors [])"
    by (simp_all add: validate_mcp_server_config_def parse_redis_uri_localhost default_server_config_def open_vector_index_def)
  have "sqlite_log_inv text_json (open_log migrated_database)"
    by (rule inv_empty_log) (simp_all add: prepare_error_None migrated_database_def empty_content_def schema_of_def kSchemaV1_def)
  then have sound: "sound_file (en_json demo_environment) migrated_database"
    by (simp add: sound_file_def U get_schema_version_def migrated_database_def schema_of_def kSchemaV1_def kSchemaV7_def
        empty_content_def)
  have opened: "ou_open_db ?U path = Inr db \<Longrightarrow> sound_file (en_json demo_environment) db" for path db
    using sound by (simp add: U)
  obtain t where t: "snapshot_to_json (en_json demo_environment)
      (startup_snapshot ?c (the (parse_redis_uri (the (cf_redis_uri ?c))))) = Inr t"
    using demo_snapshot_printable by auto
  have n: "c_str (fst (en_next_id demo_environment ''snapshot'' (ou_counter ?V))) = ''snapshot-1''"
    by (simp only: U demo_environment_def environment.simps) code_simp
  have f: "c_str (fst (en_next_id demo_environment ''snapshot'' (ou_counter ?V))) \<notin> fst ` set (sc_runtime_snapshots (db_now db'))"
    unfolding n s(2) by simp
  have E: "json_text (en_json demo_environment)" by (simp add: U printed.json_text_axioms)
  have path: "cf_db_path ?c = Some ''ccmcp.db''" by simp
  have m: "sc_audit_events (db_now migrated_database) = []" by (simp add: migrated_database_def empty_content_def)
  note restarts = server_restarts [where U = ?U and U' = ?V and args = demo_args and args' = demo_args and D = no_docx
      and D' = no_docx and lines = "[ingest_call]" and lines' = "[''{}'']",
      OF E U(1) opened s(1) U(2) refl U(5) demo_args_parsed c U(6) t path f]
  obtain evs where evs: "list_all2 (stored_as text_json) evs [row]"
    "\<forall>evs'. list_all2 (stored_as text_json) evs' [row] \<longrightarrow> evs' = evs \<or> digest_clash text_json evs evs'"
    "(\<forall>ev \<in> set evs. event_storable text_json ev) \<longrightarrow>
      (\<exists>w. served (server_main no_docx ?V demo_args [''{}''])
        \<lparr>sx_services = demo_services, sx_json = text_json, sx_float_bytes = float_bytes, sx_config = ?c\<rparr> [''{}''] w)"
    using restarts s(3) m by (auto simp: U)
  have "list_all2 (stored_as text_json) [?ev] [row]" using s(4) by simp
  with evs(2) have "[?ev] = evs \<or> digest_clash text_json evs [?ev]" by blast
  then show ?thesis
  proof
    assume "[?ev] = evs"
    with evs(3) ev(1) obtain w where "served (server_main no_docx ?V demo_args [''{}''])
        \<lparr>sx_services = demo_services, sx_json = text_json, sx_float_bytes = float_bytes, sx_config = ?c\<rparr> [''{}''] w" by auto
    with s(1,3) evs(1) ev(2) \<open>[?ev] = evs\<close> show ?thesis by blast
  qed (use s(1,3) evs(1) ev(2) in blast)
qed

end
