(* ===== verification/Concurrent_Appends.thy ===== *)
theory Concurrent_Appends
  imports Sqlite_Audit_Log
begin

text \<open>
  Threads that append to one log over SQLite. The mutex of \<open>SqliteAuditLog\<close> covers
  \<open>get_append_state\<close> only, so that an append is two steps and other threads run between them. As long as no
  two appends to one trace overlap, every trace verifies at every moment; two overlapping appends to one
  trace, which the class allows, leave a trace that is rejected.
\<close>

section \<open>Appending threads\<close>

datatype appender =
  AStart audit_event
| ARead audit_event int string
| ADone audit_event "(string, unit) result"

fun appender_step :: "'j json_api \<Rightarrow> appender \<Rightarrow> sqlite_log \<Rightarrow> appender \<times> sqlite_log" where
  "appender_step J (AStart ev) l =
     (case get_append_state (ae_trace_id ev) l of
        (Inr (idx, p), l') \<Rightarrow> (ARead ev idx p, l')
      | (Inl e, l') \<Rightarrow> (ADone ev (Inl e), l'))"
| "appender_step J (ARead ev idx p) l = (let (r, l') = insert_appended J ev idx p l in (ADone ev r, l'))"
| "appender_step J (ADone ev r) l = (ADone ev r, l)"

inductive appends_step :: "'j json_api \<Rightarrow> appender list \<times> sqlite_log \<Rightarrow> appender list \<times> sqlite_log \<Rightarrow> bool"
  for J where
  "n < length ws \<Longrightarrow> appender_step J (ws ! n) l = (w, l') \<Longrightarrow> appends_step J (ws, l) (ws[n := w], l')"

inductive_cases appends_stepE: "appends_step J (ws, l) s"

text \<open>The traces of the appends that are between their two steps.\<close>

fun open_traces :: "appender list \<Rightarrow> string list" where
  "open_traces [] = []"
| "open_traces (ARead ev idx p # ws) = ae_trace_id ev # open_traces ws"
| "open_traces (_ # ws) = open_traces ws"

definition exclusive_step :: "'j json_api \<Rightarrow> appender list \<times> sqlite_log \<Rightarrow> appender list \<times> sqlite_log \<Rightarrow> bool" where
  "exclusive_step J s s' \<longleftrightarrow> appends_step J s s' \<and> distinct (open_traces (fst s'))"

text \<open>A schedule names the thread that runs next.\<close>

fun run_appends :: "'j json_api \<Rightarrow> nat list \<Rightarrow> appender list \<times> sqlite_log \<Rightarrow> appender list \<times> sqlite_log" where
  "run_appends J [] s = s"
| "run_appends J (n # ns) (ws, l) =
     (if n < length ws then let (w, l') = appender_step J (ws ! n) l in run_appends J ns (ws[n := w], l')
      else run_appends J ns (ws, l))"

lemma run_appends_steps: "(appends_step J)\<^sup>*\<^sup>* s (run_appends J ns s)"
proof (induction J ns s rule: run_appends.induct)
  case (2 J n ns ws l)
  show ?case
  proof (cases "n < length ws")
    case True
    obtain w l' where st: "appender_step J (ws ! n) l = (w, l')" by (cases "appender_step J (ws ! n) l")
    have "appends_step J (ws, l) (ws[n := w], l')" using True st by (rule appends_step.intros)
    then show ?thesis using 2(1) [OF True st [symmetric] refl] True st by (simp add: converse_rtranclp_into_rtranclp)
  qed (use 2(2) in simp)
qed simp

lemma append_alone:
  "run_appends J [0, 0] ([AStart ev], l) = (let (r, l') = sqlite_log_append J ev l in ([ADone ev r], l'))"
proof -
  obtain idx p where st: "get_append_state (ae_trace_id ev) l =
      (Inr (idx, p), l\<lparr>sl_trace_indices := (sl_trace_indices l)(ae_trace_id ev \<mapsto> idx + 1)\<rparr>)"
    by (rule get_append_state_shape)
  show ?thesis by (simp add: st sqlite_log_append_state [OF st] Let_def split: prod.split)
qed

section \<open>Appends that do not overlap on a trace\<close>

fun appender_event :: "appender \<Rightarrow> audit_event" where
  "appender_event (AStart ev) = ev"
| "appender_event (ARead ev idx p) = ev"
| "appender_event (ADone ev r) = ev"

text \<open>What the second step of an append relies on.\<close>

definition read_current :: "'j json_api \<Rightarrow> sqlite_log \<Rightarrow> audit_event \<Rightarrow> int \<Rightarrow> string \<Rightarrow> bool" where
  "read_current J l ev idx p \<longleftrightarrow>
     (let rs = trace_rows (db_now (sl_db l)) (ae_trace_id ev)
      in 0 \<le> idx \<and> (\<forall>r \<in> set rs. er_idx r < idx) \<and> sl_trace_indices l (ae_trace_id ev) = Some (idx + 1) \<and> no_nul p \<and>
         (\<exists>es. result_map (row_to_event J) rs = Inr es \<and> chain_end kGenesisHash es = p))"

definition appenders_ok :: "'j json_api \<Rightarrow> appender list \<Rightarrow> sqlite_log \<Rightarrow> bool" where
  "appenders_ok J ws l \<longleftrightarrow> sqlite_log_inv J l \<and> distinct (open_traces ws) \<and>
     (\<forall>w \<in> set ws. event_storable J (appender_event w)) \<and>
     (\<forall>ev idx p. ARead ev idx p \<in> set ws \<longrightarrow> read_current J l ev idx p)"

lemma open_traces_append [simp]: "open_traces (xs @ ys) = open_traces xs @ open_traces ys"
  by (induction xs rule: open_traces.induct) auto

lemma open_traces_in: "ARead ev idx p \<in> set ws \<Longrightarrow> ae_trace_id ev \<in> set (open_traces ws)"
  by (induction ws rule: open_traces.induct) auto

text \<open>Every other open append is on another trace.\<close>

lemma other_open:
  assumes "distinct (open_traces ws)" "n < length ws" "ws ! n = ARead ev idx p" "ARead ev' idx' p' \<in> set (ws[n := w])"
    and "w \<noteq> ARead ev' idx' p'"
  shows "ARead ev' idx' p' \<in> set ws \<and> ae_trace_id ev' \<noteq> ae_trace_id ev"
proof -
  have s: "ws = take n ws @ ARead ev idx p # drop (Suc n) ws" using assms(2,3) by (metis id_take_nth_drop)
  have "ARead ev' idx' p' \<in> set (take n ws) \<union> set (drop (Suc n) ws)"
    using assms(2,4,5) by (auto simp: upd_conv_take_nth_drop)
  moreover from this have "ae_trace_id ev' \<in> set (open_traces (take n ws)) \<union> set (open_traces (drop (Suc n) ws))"
    by (auto dest: open_traces_in)
  moreover have "distinct (open_traces (take n ws) @ ae_trace_id ev # open_traces (drop (Suc n) ws))"
    using assms(1) s by (metis open_traces.simps(2) open_traces_append)
  ultimately show ?thesis by (auto dest: in_set_takeD in_set_dropD)
qed

lemma open_traces_member: "t \<in> set (open_traces ws) \<Longrightarrow> \<exists>ev idx p. ARead ev idx p \<in> set ws \<and> ae_trace_id ev = t"
  by (induction ws rule: open_traces.induct) auto

lemma newly_open:
  assumes "distinct (open_traces (ws[n := ARead ev idx p]))" "n < length ws" "ws ! n = AStart ev"
    and "ARead ev' idx' p' \<in> set ws"
  shows "ae_trace_id ev' \<noteq> ae_trace_id ev"
proof -
  have s: "ws = take n ws @ AStart ev # drop (Suc n) ws" using assms(2,3) by (metis id_take_nth_drop)
  then have "ARead ev' idx' p' \<in> set (take n ws) \<union> set (drop (Suc n) ws)"
    using assms(4) by (metis Un_iff appender.distinct(1) set_ConsD set_append)
  moreover have "distinct (open_traces (take n ws) @ ae_trace_id ev # open_traces (drop (Suc n) ws))"
    using assms(1,2) by (simp add: upd_conv_take_nth_drop)
  ultimately show ?thesis by (auto dest: open_traces_in)
qed

context json_text
begin

lemmas stored_verifies = sqlite_store.query_verifies
lemmas stored_chain = sqlite_store.query_chain

lemma start_keeps_ok:
  assumes ok: "appenders_ok J ws l" and n: "n < length ws" "ws ! n = AStart ev"
    and st: "appender_step J (AStart ev) l = (w, l')" and d: "distinct (open_traces (ws[n := w]))"
  shows "appenders_ok J (ws[n := w]) l'"
proof -
  have inv: "sqlite_log_inv J l" and ev: "event_storable J ev"
    using ok n nth_mem [OF n(1)] by (auto simp: appenders_ok_def)
  have t: "no_nul (ae_trace_id ev)" using ev by (simp add: event_storable_def)
  obtain es where es: "result_map (row_to_event J) (trace_rows (db_now (sl_db l)) (ae_trace_id ev)) = Inr es"
    using inv t by (auto simp: sqlite_log_inv_def Let_def rows_ok_def)
  obtain idx where a: "get_append_state (ae_trace_id ev) l = (Inr (idx, chain_end kGenesisHash es),
       l\<lparr>sl_trace_indices := (sl_trace_indices l)(ae_trace_id ev \<mapsto> idx + 1)\<rparr>)"
    "sqlite_log_inv J (l\<lparr>sl_trace_indices := (sl_trace_indices l)(ae_trace_id ev \<mapsto> idx + 1)\<rparr>)"
    "0 \<le> idx" "\<forall>r \<in> set (trace_rows (db_now (sl_db l)) (ae_trace_id ev)). er_idx r < idx"
    "no_nul (chain_end kGenesisHash es)"
    by (rule append_state_effect [OF inv t es])
  have w: "w = ARead ev idx (chain_end kGenesisHash es)"
    "l' = l\<lparr>sl_trace_indices := (sl_trace_indices l)(ae_trace_id ev \<mapsto> idx + 1)\<rparr>"
    using st a(1) by simp_all
  have new: "read_current J l' ev idx (chain_end kGenesisHash es)"
    using a(3-5) es by (simp add: read_current_def w)
  have old: "read_current J l' ev' idx' p'" if "ARead ev' idx' p' \<in> set ws" for ev' idx' p'
  proof -
    have "ae_trace_id ev' \<noteq> ae_trace_id ev" using newly_open [OF d [unfolded w] n that] .
    moreover have "read_current J l ev' idx' p'" using ok that by (simp add: appenders_ok_def)
    ultimately show ?thesis by (simp add: read_current_def w)
  qed
  have "read_current J l' ev' idx' p'" if "ARead ev' idx' p' \<in> set (ws[n := w])" for ev' idx' p'
    using that new old set_update_subset_insert [of ws n w] by (auto simp: w)
  moreover have "\<forall>v \<in> set (ws[n := w]). event_storable J (appender_event v)"
    using ok ev set_update_subset_insert [of ws n w] by (auto simp: appenders_ok_def w)
  ultimately show ?thesis using a(2) d by (simp add: appenders_ok_def w)
qed

lemma insert_keeps_ok:
  assumes ok: "appenders_ok J ws l" and n: "n < length ws" "ws ! n = ARead ev idx p"
    and run: "insert_appended J ev idx p l = (r, l')" and d: "distinct (open_traces (ws[n := ADone ev r]))"
  shows "appenders_ok J (ws[n := ADone ev r]) l'"
proof -
  have m: "ARead ev idx p \<in> set ws" using n nth_mem [OF n(1)] by simp
  have inv: "sqlite_log_inv J l" and ev: "event_storable J ev" and cur: "read_current J l ev idx p"
    using ok m by (auto simp: appenders_ok_def)
  have effect: "sqlite_log_inv J l' \<and> (\<forall>t. no_nul t \<longrightarrow> t \<noteq> ae_trace_id ev \<longrightarrow>
      trace_rows (db_now (sl_db l')) t = trace_rows (db_now (sl_db l)) t) \<and> sl_trace_indices l' = sl_trace_indices l"
    using run
  proof (cases rule: insert_appended_cases)
    case (refused e)
    then show ?thesis using inv by simp
  next
    case (stored refs h)
    have "insert_appended J ev idx p l = (Inr (), l')" using run stored(1) by simp
    with insert_effect [OF inv ev, of _ p idx "idx + 1"] cur obtain x where
      "sqlite_log_inv J l'" "l' = log_with_row x l" "er_trace_id x = ae_trace_id ev"
      by (auto simp: read_current_def Let_def)
    then show ?thesis by (auto simp: log_with_row_def trace_rows_append)
  qed
  have old: "read_current J l' ev' idx' p'" if o: "ARead ev' idx' p' \<in> set (ws[n := ADone ev r])" for ev' idx' p'
  proof -
    have "distinct (open_traces ws)" using ok by (simp add: appenders_ok_def)
    from other_open [OF this n o] have o: "ARead ev' idx' p' \<in> set ws" "ae_trace_id ev' \<noteq> ae_trace_id ev" by simp_all
    then have "read_current J l ev' idx' p'" "no_nul (ae_trace_id ev')"
      using ok by (auto simp: appenders_ok_def event_storable_def)
    then show ?thesis using effect o(2) by (simp add: read_current_def)
  qed
  moreover have "\<forall>v \<in> set (ws[n := ADone ev r]). event_storable J (appender_event v)"
    using ok ev set_update_subset_insert [of ws n "ADone ev r"] by (auto simp: appenders_ok_def)
  ultimately show ?thesis using effect d by (simp add: appenders_ok_def)
qed

lemma exclusive_step_ok:
  assumes "exclusive_step J (ws, l) s" "appenders_ok J ws l"
  shows "appenders_ok J (fst s) (snd s)"
proof -
  obtain n w l' where n: "n < length ws" and st: "appender_step J (ws ! n) l = (w, l')" and s: "s = (ws[n := w], l')"
    using assms(1) by (auto simp: exclusive_step_def elim: appends_stepE)
  have d: "distinct (open_traces (ws[n := w]))" using assms(1) by (simp add: exclusive_step_def s)
  show ?thesis
  proof (cases "ws ! n")
    case (AStart ev)
    then show ?thesis using start_keeps_ok [OF assms(2) n AStart _ d] st by (simp add: s)
  next
    case (ARead ev idx p)
    then obtain r where "insert_appended J ev idx p l = (r, l')" "w = ADone ev r"
      using st by (auto split: prod.splits)
    then show ?thesis using insert_keeps_ok [OF assms(2) n ARead] d by (simp add: s)
  next
    case (ADone ev r)
    then have "w = ws ! n" "l' = l" using st by auto
    then show ?thesis using assms(2) by (simp add: s)
  qed
qed

lemma exclusive_steps_ok:
  assumes "(exclusive_step J)\<^sup>*\<^sup>* (ws, l) s" "appenders_ok J ws l"
  shows "appenders_ok J (fst s) (snd s)"
  using assms(1)
proof (induction rule: rtranclp_induct)
  case (step s s')
  then show ?case using exclusive_step_ok [of "fst s" "snd s" s'] by simp
qed (use assms(2) in simp)

text \<open>Two appends to one trace that overlap.\<close>

lemma log_with_row_simps:
  "prepare_error ts cs (db_now (sl_db (log_with_row r l))) = prepare_error ts cs (db_now (sl_db l))"
  "sc_audit_events (db_now (sl_db (log_with_row r l))) = sc_audit_events (db_now (sl_db l)) @ [r]"
  by (simp_all add: log_with_row_def prepare_error_def cong: option.case_cong)

lemma overlapping:
  assumes inv: "sqlite_log_inv J l" and ev: "event_storable J e1" "event_storable J e2"
    and t: "ae_trace_id e1 = t" "ae_trace_id e2 = t" and ids: "ae_event_id e1 \<noteq> ae_event_id e2"
    and fresh: "{ae_event_id e1, ae_event_id e2} \<inter> er_event_id ` set (sc_audit_events (db_now (sl_db l))) = {}"
    and ok: "\<And>p. is_ok (compute_event_hash J e1 p)" "\<And>p. is_ok (compute_event_hash J e2 p)"
      "is_ok (tags_text J (ae_refs e1))" "is_ok (tags_text J (ae_refs e2))"
  defines "es \<equiv> trace_events J l t"
  shows "\<exists>l' h1 h2. run_appends J [0, 1, 0, 1] ([AStart e1, AStart e2], l) = ([ADone e1 (Inr ()), ADone e2 (Inr ())], l') \<and>
    compute_event_hash J e1 (chain_end kGenesisHash es) = Inr h1 \<and>
    trace_events J l' t = es @ [e1\<lparr>ae_previous_hash := chain_end kGenesisHash es, ae_event_hash := h1\<rparr>,
      e2\<lparr>ae_previous_hash := chain_end kGenesisHash es, ae_event_hash := h2\<rparr>]"
proof -
  let ?p = "chain_end kGenesisHash es" and ?rs = "trace_rows (db_now (sl_db l)) t"
  have nt: "no_nul t" "c_str t = t" using ev t by (simp_all add: event_storable_def)
  have es: "result_map (row_to_event J) ?rs = Inr es"
    unfolding es_def by (rule trace_events_eq [OF inv nt(1)])
  obtain i where a: "get_append_state t l = (Inr (i, ?p), l\<lparr>sl_trace_indices := (sl_trace_indices l)(t \<mapsto> i + 1)\<rparr>)"
    "sqlite_log_inv J (l\<lparr>sl_trace_indices := (sl_trace_indices l)(t \<mapsto> i + 1)\<rparr>)" "0 \<le> i" "\<forall>r \<in> set ?rs. er_idx r < i" "no_nul ?p"
    by (rule append_state_effect [OF inv nt(1) es])
  let ?l1 = "l\<lparr>sl_trace_indices := (sl_trace_indices l)(t \<mapsto> i + 1)\<rparr>"
  have es1: "result_map (row_to_event J) (trace_rows (db_now (sl_db ?l1)) t) = Inr es" using es by simp
  obtain k where b: "get_append_state t ?l1 = (Inr (k, ?p), ?l1\<lparr>sl_trace_indices := (sl_trace_indices ?l1)(t \<mapsto> k + 1)\<rparr>)"
    by (rule append_state_effect [OF a(2) nt(1) es1])
  have k: "k = i + 1" using b by (auto simp: get_append_state_def Let_def)
  let ?l2 = "?l1\<lparr>sl_trace_indices := (sl_trace_indices ?l1)(t \<mapsto> k + 1)\<rparr>"
  obtain h1 h2 r1 r2 where h: "compute_event_hash J e1 ?p = Inr h1" "compute_event_hash J e2 ?p = Inr h2"
    "tags_text J (ae_refs e1) = Inr r1" "tags_text J (ae_refs e2) = Inr r2"
    using ok unfolding is_ok_def by (metis sum.case_eq_if sum.collapse(2))
  let ?r1 = "event_to_row e1 r1 i ?p h1" and ?r2 = "event_to_row e2 r2 k ?p h2"
  have tables: "prepare_error [''audit_events''] [''previous_hash'', ''event_hash''] (db_now (sl_db l)) = None"
    using inv by (simp add: sqlite_log_inv_def Let_def prepare_error_None)
  have c: "c_str (ae_event_id e1) = ae_event_id e1" "c_str (ae_event_id e2) = ae_event_id e2"
    using ev by (simp_all add: event_storable_def)
  have "insert_appended J e1 i ?p ?l2 = (Inr (), log_with_row ?r1 ?l2)"
    using h tables c fresh by (simp add: insert_appended_eq)
  moreover have "insert_appended J e2 k ?p (log_with_row ?r1 ?l2) = (Inr (), log_with_row ?r2 (log_with_row ?r1 ?l2))"
    using h tables c fresh ids by (auto simp: insert_appended_eq log_with_row_simps event_to_row_def)
  ultimately have run: "run_appends J [0, 1, 0, 1] ([AStart e1, AStart e2], l) =
      ([ADone e1 (Inr ()), ADone e2 (Inr ())], log_with_row ?r2 (log_with_row ?r1 ?l2))"
    using a(1) b by (simp add: t)
  let ?l4 = "log_with_row ?r2 (log_with_row ?r1 ?l2)"
  have rows: "trace_rows (db_now (sl_db ?l4)) t = ?rs @ [?r1, ?r2]"
    using nt t by (simp add: log_with_row_def trace_rows_def event_to_row_def)
  have "sorted (map er_idx ?rs)" using inv nt(1) by (simp add: sqlite_log_inv_def Let_def rows_ok_def)
  then have "by_idx (?rs @ [?r1, ?r2]) = ?rs @ [?r1, ?r2]"
    using a(4) by (auto simp: by_idx_def sorted_append event_to_row_def k intro!: sort_key_id_if_sorted less_imp_le)
  moreover have "prepare_error [''audit_events''] [''previous_hash'', ''event_hash''] (db_now (sl_db ?l4)) = None"
    using tables by (simp add: log_with_row_simps)
  ultimately have "trace_events J ?l4 t = es @ [e1\<lparr>ae_previous_hash := ?p, ae_event_hash := h1\<rparr>,
      e2\<lparr>ae_previous_hash := ?p, ae_event_hash := h2\<rparr>]"
    using rows es event_row_back [OF ev(1) h(3) a(5) no_nul_event_hash [OF h(1)]]
      event_row_back [OF ev(2) h(4) a(5) no_nul_event_hash [OF h(2)]]
    by (simp add: trace_events_def sqlite_log_query_def result_map_append)
  with run h(1) show ?thesis by blast
qed

end

lemma verify_loop_append:
  "chain_ok J p es \<Longrightarrow> verify_loop J p i (es @ fs) = verify_loop J (chain_end p es) (i + length es) fs"
  by (induction J p es arbitrary: i rule: chain_ok.induct) (auto simp: chain_end_def)

section \<open>Properties\<close>

text \<open>C34. Threads appending to one log over SQLite, under any interleaving in which no two appends to one trace
  overlap: at every moment every trace verifies. The events appended have no NUL character in their texts, nor has
  the identifier of the trace.\<close>
theorem interleaved_appends_verify:
  assumes "json_text J" "sqlite_log_inv J l"
    and "\<forall>w \<in> set ws. \<exists>ev. w = AStart ev \<and> event_storable J ev"
    and "(exclusive_step J)\<^sup>*\<^sup>* (ws, l) (ws', l')" "no_nul trace_id"
  shows "verify_audit_chain J (trace_events J l' trace_id) =
    Inr \<lparr>cv_valid = True, cv_first_invalid_index = length (trace_events J l' trace_id), cv_error = []\<rparr>"
proof -
  have "open_traces ws = []" using assms(3) by (induction ws rule: open_traces.induct) auto
  then have "appenders_ok J ws l" using assms(2,3) by (auto simp: appenders_ok_def)
  from json_text.exclusive_steps_ok [OF assms(1,4) this] have "sqlite_log_inv J l'" by (simp add: appenders_ok_def)
  from json_text.stored_verifies [OF assms(1) this assms(5)] show ?thesis .
qed

text \<open>C31. Two threads that append to one trace at the same time, each of which reads the previous hash before the
  other stores its row: both appends succeed, and the trace is rejected from then on at the second of the two
  rows (unless the hash of the first event is the hash it follows).\<close>
theorem overlapping_appends_rejected:
  assumes "json_text J" "sqlite_log_inv J l" "event_storable J e1" "event_storable J e2"
    and "ae_trace_id e1 = t" "ae_trace_id e2 = t" "ae_event_id e1 \<noteq> ae_event_id e2"
    and "{ae_event_id e1, ae_event_id e2} \<inter> er_event_id ` set (sc_audit_events (db_now (sl_db l))) = {}"
    and "\<And>p. is_ok (compute_event_hash J e1 p)" "\<And>p. is_ok (compute_event_hash J e2 p)"
    and "is_ok (tags_text J (ae_refs e1))" "is_ok (tags_text J (ae_refs e2))"
    and "compute_event_hash J e1 (chain_end kGenesisHash (trace_events J l t)) \<noteq> Inr (chain_end kGenesisHash (trace_events J l t))"
  shows "\<exists>l'. run_appends J [0, 1, 0, 1] ([AStart e1, AStart e2], l) = ([ADone e1 (Inr ()), ADone e2 (Inr ())], l') \<and>
    verify_audit_chain J (trace_events J l' t) =
      Inr \<lparr>cv_valid = False, cv_first_invalid_index = length (trace_events J l t) + 1,
           cv_error = ''previous_hash mismatch at index '' @ to_string_nat (length (trace_events J l t) + 1)\<rparr>"
proof -
  let ?es = "trace_events J l t"
  let ?p = "chain_end kGenesisHash ?es"
  obtain l' h1 h2 where o: "run_appends J [0, 1, 0, 1] ([AStart e1, AStart e2], l) = ([ADone e1 (Inr ()), ADone e2 (Inr ())], l')"
    "compute_event_hash J e1 ?p = Inr h1"
    "trace_events J l' t = ?es @ [e1\<lparr>ae_previous_hash := ?p, ae_event_hash := h1\<rparr>, e2\<lparr>ae_previous_hash := ?p, ae_event_hash := h2\<rparr>]"
    using json_text.overlapping [OF assms(1-12)] by blast
  have t: "no_nul t" using assms(3,5) by (simp add: event_storable_def)
  from json_text.stored_chain [OF assms(1,2) this] have "chain_ok J kGenesisHash ?es" .
  moreover have "compute_event_hash J (e1\<lparr>ae_previous_hash := ?p, ae_event_hash := h1\<rparr>) ?p = Inr h1"
    using o(2) by (simp add: compute_event_hash_def event_members_def)
  ultimately have "verify_audit_chain J (trace_events J l' t) =
      Inr \<lparr>cv_valid = False, cv_first_invalid_index = length ?es + 1,
           cv_error = ''previous_hash mismatch at index '' @ to_string_nat (length ?es + 1)\<rparr>"
    using o(2) assms(13) by (simp add: verify_audit_chain_def o(3) verify_loop_append)
  with o(1) show ?thesis by blast
qed

text \<open>Two events of two traces, each append read before either is stored; then two of one trace.\<close>

lemma empty_log_ready: "sqlite_log_inv text_json (open_log migrated_database)"
  by (rule inv_empty_log) (simp_all add: prepare_error_None migrated_database_def empty_content_def schema_of_def kSchemaV1_def)

lemma sample_event_ok:
  "no_nul payload \<Longrightarrow> event_storable J (sample_event payload)"
  by (simp add: event_storable_def sample_event_def no_nul_def)

definition other_event :: audit_event where
  "other_event = (sample_event ''b'')\<lparr>ae_event_id := ''evt-2''\<rparr>"

theorem interleaved_appends_verify_witness:
  "\<exists>v ws l'. run_appends text_json [0, 1, 0, 1] ([AStart (sample_event ''a''), AStart (other_event\<lparr>ae_trace_id := ''t2''\<rparr>)],
       open_log migrated_database) = (ws, l') \<and>
     verify_audit_chain text_json (trace_events text_json l' ''t2'') = Inr v \<and> cv_valid v"
proof -
  let ?a = "sample_event ''a''" and ?b = "other_event\<lparr>ae_trace_id := ''t2''\<rparr>" and ?J = "text_json"
  have t: "ae_trace_id ?a = ''t1''" "ae_trace_id ?b = ''t2''" by (simp_all add: sample_event_def other_event_def)
  let ?l = "open_log migrated_database"
  obtain i p l1 where 1: "appender_step ?J (AStart ?a) ?l = (ARead ?a i p, l1)"
    by (rule get_append_state_shape [of "ae_trace_id ?a" ?l]) auto
  obtain k q l2 where 2: "appender_step ?J (AStart ?b) l1 = (ARead ?b k q, l2)"
    by (rule get_append_state_shape [of "ae_trace_id ?b" l1]) auto
  obtain r l3 where 3: "appender_step ?J (ARead ?a i p) l2 = (ADone ?a r, l3)" by (cases "insert_appended ?J ?a i p l2") auto
  obtain s l4 where 4: "appender_step ?J (ARead ?b k q) l3 = (ADone ?b s, l4)" by (cases "insert_appended ?J ?b k q l3") auto
  have "exclusive_step ?J ([AStart ?a, AStart ?b], ?l) ([ARead ?a i p, AStart ?b], l1)"
    using appends_step.intros [of 0 "[AStart ?a, AStart ?b]" ?J ?l] 1 by (simp add: exclusive_step_def)
  moreover have "exclusive_step ?J ([ARead ?a i p, AStart ?b], l1) ([ARead ?a i p, ARead ?b k q], l2)"
    using appends_step.intros [of 1 "[ARead ?a i p, AStart ?b]" ?J l1] 2 t by (simp add: exclusive_step_def)
  moreover have "exclusive_step ?J ([ARead ?a i p, ARead ?b k q], l2) ([ADone ?a r, ARead ?b k q], l3)"
    using appends_step.intros [of 0 "[ARead ?a i p, ARead ?b k q]" ?J l2] 3 by (simp add: exclusive_step_def)
  moreover have "exclusive_step ?J ([ADone ?a r, ARead ?b k q], l3) ([ADone ?a r, ADone ?b s], l4)"
    using appends_step.intros [of 1 "[ADone ?a r, ARead ?b k q]" ?J l3] 4 by (simp add: exclusive_step_def)
  ultimately have "(exclusive_step ?J)\<^sup>*\<^sup>* ([AStart ?a, AStart ?b], ?l) ([ADone ?a r, ADone ?b s], l4)"
    by (meson converse_rtranclp_into_rtranclp rtranclp.rtrancl_refl)
  from interleaved_appends_verify [OF printed.json_text_axioms empty_log_ready _ this, of "''t2''"]
  have "\<exists>v. verify_audit_chain ?J (trace_events ?J l4 ''t2'') = Inr v \<and> cv_valid v"
    by (simp add: event_storable_def sample_event_def other_event_def no_nul_def)
  moreover have "run_appends ?J [0, 1, 0, 1] ([AStart ?a, AStart ?b], ?l) = ([ADone ?a r, ADone ?b s], l4)"
    using 1 2 3 4 by (simp del: appender_step.simps)
  ultimately show ?thesis by blast
qed

theorem overlapping_appends_rejected_witness:
  "\<exists>l' v. run_appends text_json [0, 1, 0, 1] ([AStart (sample_event ''a''), AStart other_event], open_log migrated_database) =
       ([ADone (sample_event ''a'') (Inr ()), ADone other_event (Inr ())], l') \<and>
     verify_audit_chain text_json (trace_events text_json l' ''t1'') = Inr v \<and> \<not> cv_valid v \<or>
   compute_event_hash text_json (sample_event ''a'') kGenesisHash = Inr kGenesisHash"
proof (cases "compute_event_hash text_json (sample_event ''a'') kGenesisHash = Inr kGenesisHash")
  case False
  let ?l = "open_log migrated_database"
  have e: "sc_audit_events (db_now (sl_db ?l)) = []" by (simp add: open_log_def migrated_database_def empty_content_def)
  then have n: "trace_events text_json ?l ''t1'' = []"
    using printed.trace_events_eq [OF empty_log_ready, of "''t1''"] by (simp add: trace_rows_def no_nul_def)
  have h: "is_ok (compute_event_hash text_json (sample_event ''a'') p)" "is_ok (compute_event_hash text_json other_event p)" for p
    by (auto simp: compute_event_hash_def text_json_def tree_json_def is_ok_def event_members_def sample_event_def other_event_def)
  have r: "is_ok (tags_text text_json (ae_refs (sample_event ''a'')))" "is_ok (tags_text text_json (ae_refs other_event))"
    by (simp_all add: tags_text_def text_json_dump_ok text_json_values sample_event_def other_event_def)
  from overlapping_appends_rejected [OF printed.json_text_axioms empty_log_ready, of "sample_event ''a''" other_event "''t1''"]
    h r False show ?thesis
    by (auto simp: n e chain_end_def event_storable_def sample_event_def other_event_def no_nul_def)
qed simp

end
