(* ===== verification/Index_Steps.thy ===== *)
theory Index_Steps
  imports Startup_Checks
begin

text \<open>
  What the steps of an index build (\<open>src/indexing/index_build_pipeline.cpp\<close>) do to the tables of the index:
  the query for the last source hash, the entry of one artifact, the loops over the artifacts, the start and
  the completion of a run. An entry counts for the query when its run is completed.
\<close>

section \<open>What a build reads and writes\<close>

text \<open>The part of a database that a build looks at; it appends audit events besides.\<close>

definition index_view :: "sqlite_content \<Rightarrow> _" where
  "index_view c = (sc_tables c, sc_index_runs c, sc_index_entries c, sc_id_counters c, sc_atoms c, sc_opportunities c,
     sc_requirements c, sc_resumes c, sc_resume_meta c)"

definition same_index :: "sqlite_db \<Rightarrow> sqlite_db \<Rightarrow> bool" where
  "same_index db db' \<longleftrightarrow> index_view (db_now db') = index_view (db_now db) \<and> db_saved db' = db_saved db"

lemma same_index_refl [simp]: "same_index db db"
  by (simp add: same_index_def)

lemma same_index_trans [trans]: "same_index a b \<Longrightarrow> same_index b c \<Longrightarrow> same_index a c"
  by (simp add: same_index_def)

lemma append_same_index: "same_index (sl_db l) (sl_db (snd (sqlite_log_append J ev l)))"
proof -
  obtain idx p where st: "get_append_state (ae_trace_id ev) l =
      (Inr (idx, p), l\<lparr>sl_trace_indices := (sl_trace_indices l)(ae_trace_id ev \<mapsto> idx + 1)\<rparr>)"
    by (rule get_append_state_shape)
  let ?l = "l\<lparr>sl_trace_indices := (sl_trace_indices l)(ae_trace_id ev \<mapsto> idx + 1)\<rparr>"
  obtain r l' where run: "insert_appended J ev idx p ?l = (r, l')" by (cases "insert_appended J ev idx p ?l")
  then have "same_index (sl_db ?l) (sl_db l')"
    by (cases rule: insert_appended_cases) (auto simp: same_index_def index_view_def log_with_row_def)
  then show ?thesis by (simp add: sqlite_log_append_state [OF st] run)
qed

text \<open>What the lists of artifacts are read from.\<close>

definition catalog :: "sqlite_content \<Rightarrow> _" where
  "catalog c = (sc_tables c, sc_atoms c, sc_opportunities c, sc_requirements c, sc_resumes c, sc_resume_meta c)"

lemma view_catalog: "index_view c' = index_view c \<Longrightarrow> catalog c' = catalog c"
  by (simp add: index_view_def catalog_def)

text \<open>A step that leaves the index, the vectors and the past alone.\<close>

definition steady :: "('l, 'c) world \<Rightarrow> ('l, 'c) world \<Rightarrow> bool" where
  "steady w w' \<longleftrightarrow> same_index (wd_db w) (wd_db w') \<and> wd_vectors w' = wd_vectors w \<and> wd_ticks w \<le> wd_ticks w'"

lemma steady_refl [simp]: "steady w w"
  by (simp add: steady_def)

lemma steady_trans [trans]: "steady a b \<Longrightarrow> steady b c \<Longrightarrow> steady a c"
  by (auto simp: steady_def intro: same_index_trans)

lemma persistent_ops:
  "sv_now (persistent_services D E) = world_now E" "sv_next_id (persistent_services D E) = world_next_id E"
  "sv_next_index_run_id (persistent_services D E) = on_world_db sqlite_next_index_run_id"
  "sv_upsert_run (persistent_services D E) run = on_world_db (sqlite_upsert_run run)"
  "sv_upsert_entry (persistent_services D E) entry = on_world_db (sqlite_upsert_entry entry)"
  "sv_last_source_hash (persistent_services D E) aid ty prov mo pv =
     on_world_db (sqlite_last_source_hash (en_first E) aid ty prov mo pv)"
  "sv_audit_append (persistent_services D E) event = on_world_log (sqlite_log_append (en_json E) event)"
  "sv_vector_upsert (persistent_services D E) k v m = act_modify (\<lambda>w. w\<lparr>wd_vectors := store_upsert k v m (wd_vectors w)\<rparr>)"
  "sv_embedding (persistent_services D E) = stub_provider 128"
  "sv_atoms_all (persistent_services D E) = on_world_db (sqlite_atoms_list_all (en_json E))"
  "sv_opps_all (persistent_services D E) = on_world_db (sqlite_opps_list_all (en_json E))"
  "sv_resumes_all (persistent_services D E) = on_world_db sqlite_resumes_list_all"
  by (simp_all add: persistent_services_def)

lemma emit_steady: "emit_at (persistent_services D E) t ty payload stamp refs w = (r, w') \<Longrightarrow> steady w w'"
  using append_same_index [where J = "en_json E" and l = "\<lparr>sl_db = wd_db w, sl_trace_indices = wd_log w\<rparr>"]
  by (auto simp: emit_at_def persistent_ops act_bind_def world_next_id_def on_world_log_def act_on_def steady_def
      split: prod.splits sum.splits) (metis snd_conv sqlite_log.select_convs(1))+

lemma now_steady: "world_now E w = (r, w') \<Longrightarrow> steady w w' \<and> r = Inr (en_clock E (wd_ticks w))"
  by (auto simp: world_now_def steady_def)

section \<open>The hash of the last completed run\<close>

definition last_hash :: "('j, 'c) environment \<Rightarrow> index_build_config \<Rightarrow> string \<Rightarrow> string \<Rightarrow> sqlite_content \<Rightarrow> string option" where
  "last_hash E config ty aid c =
     (case completed_rows aid ty (ic_provider_id config) (ic_model_id config) (ic_prompt_version config) c of
        [] \<Rightarrow> None | r # rs \<Rightarrow> Some (en_first E (latest (r # rs))))"

text \<open>The hash that a run holds for an artifact.\<close>

definition run_hash :: "string \<Rightarrow> string \<Rightarrow> string \<Rightarrow> sqlite_content \<Rightarrow> string option" where
  "run_hash run_id ty aid c = map_option ny_source_hash (map_of (sc_index_entries c) (c_str run_id, c_str ty, c_str aid))"

lemma view_hashes:
  assumes "index_view c' = index_view c"
  shows "last_hash E config ty aid c' = last_hash E config ty aid c" "run_hash R ty aid c' = run_hash R ty aid c"
  using assms by (simp_all add: index_view_def last_hash_def completed_rows_def run_hash_def)

lemma last_source_hash_eq:
  assumes "has_tables [''index_entries'', ''index_runs''] (wd_db w)"
  shows "sv_last_source_hash (persistent_services D E) aid ty (ic_provider_id config) (ic_model_id config)
      (ic_prompt_version config) w = (Inr (last_hash E config ty aid (db_now (wd_db w))), w)"
  using assms
  by (auto simp: persistent_ops on_world_db_def act_on_def sqlite_last_source_hash_def sql_query_def last_hash_def
      split: list.split)

text \<open>Rows of a run that is not completed do not count.\<close>

definition uncounted :: "string \<Rightarrow> sqlite_content \<Rightarrow> bool" where
  "uncounted R c \<longleftrightarrow> (case map_of (sc_index_runs c) R of None \<Rightarrow> True | Some row \<Rightarrow> rr_status row \<noteq> ''completed'')"

lemma concat_omap_insert:
  "f (k, v) = [] \<Longrightarrow> (\<And>v'. (k, v') \<in> set m \<Longrightarrow> f (k, v') = []) \<Longrightarrow>
     concat (map f (omap_insert k v m)) = concat (map f m)"
proof (induction k v m rule: omap_insert.induct)
  case (2 k v k' v' m)
  have "k' = k" if "\<not> k < k'" "\<not> k' < k" using that by auto
  with 2 show ?case by auto
qed simp

lemma entry_uncounted:
  assumes "uncounted R c"
  shows "completed_rows aid ty prov mo pv (c\<lparr>sc_index_entries := omap_insert (R, ty', aid') e (sc_index_entries c)\<rparr>) =
    completed_rows aid ty prov mo pv c"
  unfolding completed_rows_def using assms
  by (simp, intro concat_omap_insert) (auto simp: uncounted_def split: option.splits)

lemma run_uncounted:
  assumes "omap_inv (sc_index_runs c)" "uncounted R c" "rr_status row \<noteq> ''completed''"
  shows "completed_rows aid ty prov mo pv (c\<lparr>sc_index_runs := omap_insert R row (sc_index_runs c)\<rparr>) =
    completed_rows aid ty prov mo pv c"
  unfolding completed_rows_def
  by (rule arg_cong [where f = concat], rule map_cong)
    (use assms in \<open>auto simp: uncounted_def split: option.splits\<close>)

section \<open>The first build\<close>

definition with_entry :: "string \<times> string \<times> string \<Rightarrow> entry_row \<Rightarrow> sqlite_db \<Rightarrow> sqlite_db" where
  "with_entry key e db = db\<lparr>db_now := (db_now db)\<lparr>sc_index_entries := omap_insert key e (sc_index_entries (db_now db))\<rparr>\<rparr>"

lemma no_nul_stable_hash [simp]: "no_nul (stable_hash64_hex s)"
  using stable_hash64_hex_lower [of s] by (auto simp: no_nul_def is_hex_lower_def is_digit_iff less_eq_char_def)

lemma stub_embed_nonempty: "ep_embed_text (stub_provider 128) body \<noteq> []"
  using length_stub_embed [of 128 body] by (auto simp: stub_provider_def)

lemma upsert_entry_stores:
  assumes "has_tables [''index_entries''] db" "c_str (xe_run_id entry) \<in> fst ` set (sc_index_runs (db_now db))"
  shows "sqlite_upsert_entry entry db =
    (Inr (), with_entry (c_str (xe_run_id entry), c_str (xe_artifact_type entry), c_str (xe_artifact_id entry)) (entry_to_row entry) db)"
  using assms by (simp add: sqlite_upsert_entry_def act_bind_def sql_step_def insert_entry_def act_return_def with_entry_def)

lemma same_index_with_entry: "same_index db db' \<Longrightarrow> same_index (with_entry k e db) (with_entry k e db')"
  by (simp add: same_index_def with_entry_def index_view_def)

text \<open>One artifact: it is skipped, or its hash is stored with the run.\<close>

lemma artifact_step:
  assumes run: "index_artifact (persistent_services D E) J fb R config ty pre (aid, body) n w = (Inr n', w')"
    and tables: "has_tables [''index_entries'', ''index_runs''] (wd_db w)"
    and R: "c_str R \<in> fst ` set (sc_index_runs (db_now (wd_db w)))"
  obtains
    (skipped) "last_hash E config ty aid (db_now (wd_db w)) = Some (stable_hash64_hex body)"
      "n' = n\<lparr>n_skipped := n_skipped n + 1\<rparr>" "w' = w"
  | (indexed) e where "n_indexed n' = n_indexed n + 1" "n_skipped n' = n_skipped n" "wd_ticks w \<le> wd_ticks w'"
      "ny_source_hash e = stable_hash64_hex body"
      "same_index (with_entry (c_str R, c_str ty, c_str aid) e (wd_db w)) (wd_db w')"
proof -
  let ?S = "persistent_services D E" and ?h = "stable_hash64_hex body" and ?l = "last_hash E config ty aid (db_now (wd_db w))"
  have q: "sv_last_source_hash ?S aid ty (ic_provider_id config) (ic_model_id config) (ic_prompt_version config) w = (Inr ?l, w)"
    using last_source_hash_eq [OF tables] .
  show thesis
  proof (cases "?l = Some ?h")
    case True
    have "n\<lparr>n_skipped := n_skipped n + 1\<rparr> = n' \<and> w = w'"
      using run unfolding index_artifact_def prod.case Let_def act_bind_eq(1) [where m = "sv_last_source_hash ?S aid ty _ _ _", OF q] True
      by (simp only: if_True act_return_def simp_thms prod.inject sum.inject)
    then show ?thesis using skipped [OF True] by simp
  next
    case False
    let ?v = "ep_embed_text (stub_provider 128) body"
    define entry where "entry = (\<lambda>at_time. \<lparr>xe_run_id = R, xe_artifact_type = ty, xe_artifact_id = aid, xe_source_hash = ?h,
      xe_vector_hash = vector_hash fb ?v, xe_indexed_at = Some at_time\<rparr>)"
    define final where "final = n\<lparr>n_indexed := n_indexed n + 1, n_stale := (if ?l \<noteq> None then n_stale n + 1 else n_stale n)\<rparr>"
    define tail where "tail = (\<lambda>at_time. act_bind (on_world_db (sqlite_upsert_entry (entry at_time)))
        (\<lambda>_. act_bind (act_lift (j_dump J (j_object J (artifact_json J aid ty ?h @ [(''stale'', j_bool J (?l \<noteq> None))])))) (\<lambda>payload.
         act_bind (emit_at ?S R ''IndexedArtifact'' payload at_time []) (\<lambda>_. act_return final))))"
    have "act_bind (act_lift (j_dump J (j_object J (artifact_json J aid ty ?h)))) (\<lambda>metadata.
        act_bind (act_modify (\<lambda>w. w\<lparr>wd_vectors := store_upsert (pre @ aid) ?v metadata (wd_vectors w)\<rparr>)) (\<lambda>_.
        act_bind (world_now E) tail)) w = (Inr n', w')"
      using run False stub_embed_nonempty [of body] unfolding index_artifact_def prod.case Let_def act_bind_eq(1) [where m = "sv_last_source_hash ?S aid ty _ _ _", OF q]
      unfolding persistent_ops tail_def entry_def final_def by (simp only: if_False not_False_eq_True)
    then obtain u w2 at_time where v: "world_now E (w\<lparr>wd_vectors := u\<rparr>) = (Inr at_time, w2)" and
      rest: "tail at_time w2 = (Inr n', w')"
      unfolding act_bind_Inr_iff by (auto simp: act_lift_def act_modify_def)
    have w1: "wd_db w2 = wd_db w" "wd_ticks w \<le> wd_ticks w2"
      using v by (auto simp: world_now_def)
    let ?db = "with_entry (c_str R, c_str ty, c_str aid) (entry_to_row (entry at_time)) (wd_db w)"
    have "on_world_db (sqlite_upsert_entry (entry at_time)) w2 = (Inr (), w2\<lparr>wd_db := ?db\<rparr>)"
      using upsert_entry_stores [of "wd_db w" "entry at_time"] tables R w1(1)
      by (simp add: on_world_db_def act_on_def has_tables_def entry_def)
    with rest obtain payload where "emit_at ?S R ''IndexedArtifact'' payload at_time [] (w2\<lparr>wd_db := ?db\<rparr>) = (Inr (), w')"
      and n': "n' = final"
      unfolding tail_def act_bind_Inr_iff by (auto simp: act_lift_def act_return_def)
    from emit_steady [OF this(1)] have "same_index ?db (wd_db w')" "wd_ticks w2 \<le> wd_ticks w'" by (simp_all add: steady_def)
    then show ?thesis using w1(2) n' by (intro indexed [of "entry_to_row (entry at_time)"]) (simp_all add: entry_to_row_def entry_def final_def)
  qed
qed

text \<open>Every entry has its run, as the foreign key requires.\<close>

definition owned :: "sqlite_content \<Rightarrow> bool" where
  "owned c \<longleftrightarrow> fst ` fst ` set (sc_index_entries c) \<subseteq> fst ` set (sc_index_runs c)"

lemma owned_entry:
  "owned c \<Longrightarrow> R \<in> fst ` set (sc_index_runs c) \<Longrightarrow> owned (c\<lparr>sc_index_entries := omap_insert (R, k) e (sc_index_entries c)\<rparr>)"
  by (simp add: owned_def fst_omap_insert)

lemma owned_run: "owned c \<Longrightarrow> owned (c\<lparr>sc_index_runs := omap_insert R row (sc_index_runs c)\<rparr>)"
  by (auto simp: owned_def fst_omap_insert)

lemma owned_view: "index_view c' = index_view c \<Longrightarrow> owned c' = owned c"
  by (simp add: owned_def index_view_def)

text \<open>While the run \<open>R\<close> is not completed, the hashes that count are those of the start \<open>c\<close>.\<close>

definition building :: "('j, 'c) environment \<Rightarrow> index_build_config \<Rightarrow> string \<Rightarrow> sqlite_content \<Rightarrow> sqlite_db \<Rightarrow> bool" where
  "building E config R c db \<longleftrightarrow> (let c' = db_now db in
     db_saved db = None \<and> {''index_runs'', ''index_entries'', ''id_counters''} \<subseteq> set (sc_tables c') \<and>
     sc_index_runs c' = sc_index_runs c \<and> omap_inv (sc_index_entries c') \<and>
     c_str R \<in> fst ` set (sc_index_runs c') \<and> uncounted (c_str R) c' \<and>
     (\<forall>ty aid. last_hash E config ty aid c' = last_hash E config ty aid c) \<and>
     owned c')"

lemma building_same_index: "building E config R c db \<Longrightarrow> same_index db db' \<Longrightarrow> building E config R c db'"
  using view_hashes(1) [of "db_now db'" "db_now db" E config]
  using owned_view [of "db_now db'" "db_now db"]
  by (auto simp: building_def same_index_def Let_def index_view_def uncounted_def)

lemma building_entry:
  assumes "building E config R c db"
  shows "building E config R c (with_entry (c_str R, ty, aid) e db)"
    "run_hash R ty' aid' (db_now (with_entry (c_str R, ty, aid) e db)) =
      (if c_str ty' = ty \<and> c_str aid' = aid then Some (ny_source_hash e) else run_hash R ty' aid' (db_now db))"
proof -
  let ?c = "db_now db"
  have b: "uncounted (c_str R) ?c" "omap_inv (sc_index_entries ?c)" using assms by (simp_all add: building_def Let_def)
  have own: "c_str R \<in> fst ` set (sc_index_runs ?c)" "owned ?c" using assms unfolding building_def Let_def by blast+
  have "last_hash E config t a (?c\<lparr>sc_index_entries := omap_insert (c_str R, ty, aid) e (sc_index_entries ?c)\<rparr>) =
      last_hash E config t a ?c" for t a
    by (simp add: last_hash_def entry_uncounted [OF b(1)])
  then show "building E config R c (with_entry (c_str R, ty, aid) e db)"
    using assms owned_entry [OF own(2,1), of "(ty, aid)" e] b(1) own(1)
    unfolding building_def Let_def with_entry_def by (simp add: uncounted_def)
  show "run_hash R ty' aid' (db_now (with_entry (c_str R, ty, aid) e db)) =
      (if c_str ty' = ty \<and> c_str aid' = aid then Some (ny_source_hash e) else run_hash R ty' aid' ?c)"
    using b(2) by (auto simp: run_hash_def with_entry_def)
qed

text \<open>The hash that an artifact has once the run counts.\<close>

definition settled_hash :: "('j, 'c) environment \<Rightarrow> index_build_config \<Rightarrow> string \<Rightarrow> string \<Rightarrow> string \<Rightarrow> sqlite_content \<Rightarrow> string option" where
  "settled_hash E config R ty aid c =
     (case run_hash R ty aid c of Some h \<Rightarrow> Some h | None \<Rightarrow> last_hash E config ty aid c)"

lemma fold_settles:
  assumes "act_fold (index_artifact (persistent_services D E) J fb R config ty pre) items n w = (Inr n', w')"
    and "building E config R c (wd_db w)" "distinct (map (c_str \<circ> fst) items)"
    and "\<forall>(aid, body) \<in> set items. run_hash R ty aid (db_now (wd_db w)) = None"
  shows "building E config R c (wd_db w') \<and> wd_ticks w \<le> wd_ticks w' \<and>
    n_indexed n' + n_skipped n' = n_indexed n + n_skipped n + length items \<and>
    (\<forall>(aid, body) \<in> set items. settled_hash E config R ty aid (db_now (wd_db w')) = Some (stable_hash64_hex body)) \<and>
    (\<forall>ty' aid. (c_str ty' \<noteq> c_str ty \<or> c_str aid \<notin> c_str ` fst ` set items) \<longrightarrow>
       run_hash R ty' aid (db_now (wd_db w')) = run_hash R ty' aid (db_now (wd_db w))) \<and>
    catalog (db_now (wd_db w')) = catalog (db_now (wd_db w)) \<and>
    sc_id_counters (db_now (wd_db w')) = sc_id_counters (db_now (wd_db w))"
  using assms
proof (induction items arbitrary: n w)
  case Nil
  then show ?case by (simp add: act_return_def)
next
  case (Cons item items)
  obtain aid body where i: "item = (aid, body)" by (cases item)
  obtain n1 w1 where 1: "index_artifact (persistent_services D E) J fb R config ty pre (aid, body) n w = (Inr n1, w1)"
    and 2: "act_fold (index_artifact (persistent_services D E) J fb R config ty pre) items n1 w1 = (Inr n', w')"
    using Cons.prems(1) by (auto simp: i act_bind_Inr_iff)
  let ?c0 = "db_now (wd_db w)" and ?c1 = "db_now (wd_db w1)" and ?c2 = "db_now (wd_db w')" and ?h = "stable_hash64_hex body"
  have tables: "has_tables [''index_entries'', ''index_runs''] (wd_db w)" "c_str R \<in> fst ` set (sc_index_runs ?c0)"
    using Cons.prems(2) by (auto simp: building_def Let_def has_tables_def)
  have none: "run_hash R ty aid ?c0 = None" using Cons.prems(4) by (simp add: i)
  have step: "building E config R c (wd_db w1) \<and> wd_ticks w \<le> wd_ticks w1 \<and>
      n_indexed n1 + n_skipped n1 = n_indexed n + n_skipped n + 1 \<and>
      settled_hash E config R ty aid ?c1 = Some ?h \<and>
      (\<forall>ty' aid'. (c_str ty' \<noteq> c_str ty \<or> c_str aid' \<noteq> c_str aid) \<longrightarrow> run_hash R ty' aid' ?c1 = run_hash R ty' aid' ?c0) \<and>
      catalog ?c1 = catalog ?c0 \<and> sc_id_counters ?c1 = sc_id_counters ?c0"
    using 1 tables
  proof (cases rule: artifact_step)
    case skipped
    then show ?thesis using Cons.prems(2) none by (simp add: settled_hash_def)
  next
    case (indexed e)
    let ?db = "with_entry (c_str R, c_str ty, c_str aid) e (wd_db w)"
    have v: "index_view ?c1 = index_view (db_now ?db)" using indexed(5) by (simp add: same_index_def)
    note b = building_entry [OF Cons.prems(2), where ty = "c_str ty" and aid = "c_str aid" and e = e]
    have "run_hash R ty' aid' ?c1 = (if c_str ty' = c_str ty \<and> c_str aid' = c_str aid then Some ?h else run_hash R ty' aid' ?c0)" for ty' aid'
      unfolding view_hashes(2) [OF v] b(2) indexed(4) by (rule refl)
    moreover have "catalog ?c1 = catalog ?c0 \<and> sc_id_counters ?c1 = sc_id_counters ?c0"
      using v by (simp add: index_view_def catalog_def with_entry_def)
    ultimately show ?thesis using building_same_index [OF b(1) indexed(5)] indexed(1-3) by (simp add: settled_hash_def)
  qed
  have d: "distinct (map (c_str \<circ> fst) items)" "c_str aid \<notin> c_str ` fst ` set items"
    using Cons.prems(3) by (simp_all add: i image_comp comp_def)
  have other: "c_str a \<noteq> c_str aid" if "(a, x) \<in> set items" for a x using d(2) that by (metis fst_conv image_eqI)
  have "\<forall>(a, x) \<in> set items. run_hash R ty a ?c1 = None"
    using Cons.prems(4) step other by fastforce
  note IH = Cons.IH [OF 2 _ d(1) this] 
  have b1: "building E config R c (wd_db w1)" using step by blast
  have same: "last_hash E config ty aid ?c2 = last_hash E config ty aid ?c1"
    using IH [OF b1] b1 by (simp add: building_def Let_def)
  have "run_hash R ty aid ?c2 = run_hash R ty aid ?c1" using IH [OF b1] d(2) by blast
  then have "settled_hash E config R ty aid ?c2 = settled_hash E config R ty aid ?c1" unfolding settled_hash_def same by simp
  then have "settled_hash E config R ty aid ?c2 = Some ?h" using step by simp
  then show ?case using IH [OF b1] step by (auto simp: i)
qed

section \<open>The loops\<close>

text \<open>A list that is read from the catalog.\<close>

definition reads_catalog :: "(('l, 'c) world, 'a) action \<Rightarrow> bool" where
  "reads_catalog m \<longleftrightarrow> (\<forall>w w'. snd (m w) = w \<and>
     (catalog (db_now (wd_db w')) = catalog (db_now (wd_db w)) \<longrightarrow> fst (m w') = fst (m w)))"

text \<open>The identifiers of the three tables are pairwise different as the index stores them.\<close>

definition distinct_ids :: "sqlite_content \<Rightarrow> bool" where
  "distinct_ids c \<longleftrightarrow> distinct (map (c_str \<circ> fst) (sc_atoms c)) \<and> distinct (map (c_str \<circ> fst) (sc_resumes c)) \<and>
     distinct (map (c_str \<circ> fst) (sc_opportunities c))"

lemma on_db_query: "on_world_db (sql_query ts none f) w =
  (if has_tables ts (wd_db w) then f (db_now (wd_db w)) else Inr none, w)"
  by (simp add: on_world_db_def act_on_def sql_query_def)

lemma query_then_map:
  "act_bind (on_world_db (sql_query ts none f)) (\<lambda>xs. act_return (g xs)) w =
     ((if has_tables ts (wd_db w) then result_bind (f (db_now (wd_db w))) (\<lambda>xs. Inr (g xs)) else Inr (g none)), w)"
  by (cases "f (db_now (wd_db w))") (simp_all add: act_bind_def on_db_query act_return_def)

lemma reads_query:
  assumes "\<And>c c'. catalog c' = catalog c \<Longrightarrow> f c' = f c"
  shows "reads_catalog (act_bind (on_world_db (sql_query ts none f)) (\<lambda>xs. act_return (g xs)))"
proof -
  have "has_tables ts db' = has_tables ts db" if "catalog (db_now db') = catalog (db_now db)" for db db'
    using that by (simp add: has_tables_def catalog_def)
  then have "fst (act_bind (on_world_db (sql_query ts none f)) (\<lambda>xs. act_return (g xs)) w') =
      fst (act_bind (on_world_db (sql_query ts none f)) (\<lambda>xs. act_return (g xs)) w)"
    if "catalog (db_now (wd_db w')) = catalog (db_now (wd_db w))" for w w' :: "('l, 'c) world"
    unfolding query_then_map fst_conv using that assms [OF that] by metis
  moreover have "snd (act_bind (on_world_db (sql_query ts none f)) (\<lambda>xs. act_return (g xs)) w) = w" for w :: "('l, 'c) world"
    by (simp add: query_then_map)
  ultimately show ?thesis unfolding reads_catalog_def by blast
qed

lemma artifacts_read:
  "reads_catalog (atom_artifacts (persistent_services D E))" "reads_catalog (resume_artifacts (persistent_services D E))"
  "reads_catalog (opportunity_artifacts (persistent_services D E))"
proof -
  show "reads_catalog (atom_artifacts (persistent_services D E))"
    unfolding atom_artifacts_def persistent_ops sqlite_atoms_list_all_def by (rule reads_query) (simp add: catalog_def)
  show "reads_catalog (resume_artifacts (persistent_services D E))"
    unfolding resume_artifacts_def persistent_ops sqlite_resumes_list_all_def
    by (rule reads_query) (auto simp: catalog_def row_to_resume_def get_meta_def)
  show "reads_catalog (opportunity_artifacts (persistent_services D E))"
    unfolding opportunity_artifacts_def persistent_ops sqlite_opps_list_all_def
  proof (rule reads_query)
    fix c c' assume c: "catalog c' = catalog c"
    then have "row_to_opportunity (en_json E) c' = row_to_opportunity (en_json E) c"
      by (simp add: fun_eq_iff row_to_opportunity_def load_requirements_def catalog_def)
    with c show "result_map (\<lambda>(key, row). row_to_opportunity (en_json E) c' key row) (sc_opportunities c') =
        result_map (\<lambda>(key, row). row_to_opportunity (en_json E) c key row) (sc_opportunities c)"
      by (simp add: catalog_def)
  qed
qed

lemma result_map_ids:
  "result_map f rows = Inr xs \<Longrightarrow> (\<And>r x. f r = Inr x \<Longrightarrow> g x = fst r) \<Longrightarrow> map g xs = map fst rows"
  by (induction rows arbitrary: xs) (auto simp: result_bind_Inr_iff)

lemma artifacts_distinct:
  assumes "distinct_ids (db_now (wd_db w))"
  shows "fst (atom_artifacts (persistent_services D E) w) = Inr items \<Longrightarrow> distinct (map (c_str \<circ> fst) items)"
    "fst (resume_artifacts (persistent_services D E) w) = Inr items \<Longrightarrow> distinct (map (c_str \<circ> fst) items)"
    "fst (opportunity_artifacts (persistent_services D E) w) = Inr items \<Longrightarrow> distinct (map (c_str \<circ> fst) items)"
proof -
  have d: "distinct (map (c_str \<circ> fst) items)" if "map fst items = map fst rows" "distinct (map (c_str \<circ> fst) rows)"
    for items :: "(string \<times> string) list" and rows :: "(string \<times> 'z) list"
    using that by (metis map_map)
  show "distinct (map (c_str \<circ> fst) items)" if a: "fst (atom_artifacts (persistent_services D E) w) = Inr items"
  proof (cases "has_tables [''atoms''] (wd_db w)")
    case True
    then obtain xs where xs: "result_map (\<lambda>(key, row). row_to_atom (en_json E) key row) (sc_atoms (db_now (wd_db w))) = Inr xs"
      "items = map (\<lambda>a. (atom_id_value (experience_atom.atom_id a), atom_canonical_text a)) xs"
      using a by (auto simp: atom_artifacts_def persistent_ops sqlite_atoms_list_all_def query_then_map result_bind_Inr_iff)
    have "map (\<lambda>a. atom_id_value (experience_atom.atom_id a)) xs = map fst (sc_atoms (db_now (wd_db w)))"
      by (rule result_map_ids [OF xs(1)]) (auto simp: row_to_atom_def result_bind_Inr_iff)
    then show ?thesis using assms by (intro d [where rows = "sc_atoms (db_now (wd_db w))"]) (simp_all add: xs(2) comp_def distinct_ids_def)
  next
    case False
    then show ?thesis using a by (auto simp: atom_artifacts_def persistent_ops sqlite_atoms_list_all_def query_then_map)
  qed
  show "distinct (map (c_str \<circ> fst) items)" if a: "fst (opportunity_artifacts (persistent_services D E) w) = Inr items"
  proof (cases "has_tables [''opportunities''] (wd_db w)")
    case True
    then obtain xs where xs: "result_map (\<lambda>(key, row). row_to_opportunity (en_json E) (db_now (wd_db w)) key row)
        (sc_opportunities (db_now (wd_db w))) = Inr xs"
      "items = map (\<lambda>p. (opportunity_id_value (opportunity.opportunity_id p), opportunity_canonical_text p)) xs"
      using a by (auto simp: opportunity_artifacts_def persistent_ops sqlite_opps_list_all_def query_then_map result_bind_Inr_iff)
    have "map (\<lambda>p. opportunity_id_value (opportunity.opportunity_id p)) xs = map fst (sc_opportunities (db_now (wd_db w)))"
      by (rule result_map_ids [OF xs(1)]) (auto simp: row_to_opportunity_def result_bind_Inr_iff)
    then show ?thesis using assms
      by (intro d [where rows = "sc_opportunities (db_now (wd_db w))"]) (simp_all add: xs(2) comp_def distinct_ids_def)
  next
    case False
    then show ?thesis using a by (auto simp: opportunity_artifacts_def persistent_ops sqlite_opps_list_all_def query_then_map)
  qed
  show "distinct (map (c_str \<circ> fst) items)" if a: "fst (resume_artifacts (persistent_services D E) w) = Inr items"
  proof (cases "has_tables [''resumes''] (wd_db w)")
    case True
    then have xs: "items = map (\<lambda>r. (resume_id_value (ir_resume_id r), ir_resume_md r))
        (map (\<lambda>(key, row). row_to_resume (db_now (wd_db w)) key row) (sc_resumes (db_now (wd_db w))))"
      using a by (auto simp: resume_artifacts_def persistent_ops sqlite_resumes_list_all_def query_then_map result_bind_Inr_iff)
    have "map fst items = map fst (sc_resumes (db_now (wd_db w)))"
      unfolding xs by (auto simp: row_to_resume_def)
    then show ?thesis using assms by (intro d [where rows = "sc_resumes (db_now (wd_db w))"]) (simp_all add: distinct_ids_def)
  next
    case False
    then show ?thesis using a by (auto simp: resume_artifacts_def persistent_ops sqlite_resumes_list_all_def query_then_map)
  qed
qed

text \<open>What a loop over the artifacts \<open>items\<close> of the type \<open>ty\<close> does between \<open>w\<close> and \<open>w'\<close>.\<close>

definition settles ::
  "('j, 'c) environment \<Rightarrow> index_build_config \<Rightarrow> string \<Rightarrow> sqlite_content \<Rightarrow> string \<Rightarrow> (string \<times> string) list \<Rightarrow>
   index_counts \<Rightarrow> ('l, 'c) world \<Rightarrow> index_counts \<Rightarrow> ('l, 'c) world \<Rightarrow> bool" where
  "settles E config R c ty items n w n' w' \<longleftrightarrow>
     building E config R c (wd_db w') \<and> wd_ticks w \<le> wd_ticks w' \<and>
     n_indexed n' + n_skipped n' = n_indexed n + n_skipped n + length items \<and>
     (\<forall>(aid, body) \<in> set items. settled_hash E config R ty aid (db_now (wd_db w')) = Some (stable_hash64_hex body)) \<and>
     (\<forall>ty' aid. c_str ty' \<noteq> c_str ty \<longrightarrow> run_hash R ty' aid (db_now (wd_db w')) = run_hash R ty' aid (db_now (wd_db w))) \<and>
     catalog (db_now (wd_db w')) = catalog (db_now (wd_db w)) \<and>
     sc_id_counters (db_now (wd_db w')) = sc_id_counters (db_now (wd_db w))"

lemma settlesD:
  assumes "settles E config R c ty items n w n' w'"
  shows "building E config R c (wd_db w')" "wd_ticks w \<le> wd_ticks w'"
    "n_indexed n' + n_skipped n' = n_indexed n + n_skipped n + length items"
    "\<forall>(aid, body) \<in> set items. settled_hash E config R ty aid (db_now (wd_db w')) = Some (stable_hash64_hex body)"
    "c_str ty' \<noteq> c_str ty \<Longrightarrow> run_hash R ty' aid (db_now (wd_db w')) = run_hash R ty' aid (db_now (wd_db w))"
    "catalog (db_now (wd_db w')) = catalog (db_now (wd_db w))"
    "sc_id_counters (db_now (wd_db w')) = sc_id_counters (db_now (wd_db w))"
  using assms unfolding settles_def by blast+

definition in_scope :: "index_build_config \<Rightarrow> string \<Rightarrow> bool" where
  "in_scope config scope \<longleftrightarrow> ic_scope config = scope \<or> ic_scope config = ''all''"

definition loop_items :: "index_build_config \<Rightarrow> string \<Rightarrow> ('w, (string \<times> string) list) action \<Rightarrow> 'w \<Rightarrow>
    (string, (string \<times> string) list) result" where
  "loop_items config scope arts w = (if in_scope config scope then fst (arts w) else Inr [])"

lemma loop_items_catalog:
  "reads_catalog arts \<Longrightarrow> catalog (db_now (wd_db w')) = catalog (db_now (wd_db w)) \<Longrightarrow>
     loop_items config scope arts w' = loop_items config scope arts w"
  unfolding loop_items_def reads_catalog_def by metis

lemma loop_settles:
  assumes "index_loop (persistent_services D E) J fb R config (in_scope config scope) ty pre arts n w = (Inr n', w')"
    and "building E config R c (wd_db w)" "reads_catalog arts"
    and "\<And>items. fst (arts w) = Inr items \<Longrightarrow> distinct (map (c_str \<circ> fst) items)"
    and "\<And>aid. run_hash R ty aid (db_now (wd_db w)) = None"
  shows "\<exists>items. loop_items config scope arts w = Inr items \<and> settles E config R c ty items n w n' w'"
proof (cases "in_scope config scope")
  case False
  then show ?thesis using assms(1,2) by (simp add: index_loop_def act_return_def loop_items_def settles_def)
next
  case True
  then obtain items v where i: "arts w = (Inr items, v)"
    and f: "act_fold (index_artifact (persistent_services D E) J fb R config ty pre) items n v = (Inr n', w')"
    using assms(1) by (auto simp: index_loop_def act_bind_Inr_iff)
  then have v: "v = w" using assms(3) unfolding reads_catalog_def by (metis snd_conv)
  have "\<forall>(aid, body) \<in> set items. run_hash R ty aid (db_now (wd_db w)) = None" using assms(5) by auto
  from fold_settles [OF f [unfolded v] assms(2) assms(4) this] i True show ?thesis
    by (intro exI [of _ items]) (simp add: loop_items_def settles_def)
qed

section \<open>The end of a run\<close>

definition with_run :: "string \<Rightarrow> run_row \<Rightarrow> sqlite_content \<Rightarrow> sqlite_content" where
  "with_run R row c = c\<lparr>sc_index_runs := omap_insert R row (sc_index_runs c)\<rparr>"

lemma upsert_run_stores:
  "has_tables [''index_runs''] db \<Longrightarrow>
     sqlite_upsert_run run db = (Inr (), db\<lparr>db_now := with_run (c_str (xr_run_id run)) (run_to_row run) (db_now db)\<rparr>)"
  by (simp add: sqlite_upsert_run_def sql_update_def with_run_def)

text \<open>A run that has no entry for an artifact does not change its hash, completed or not.\<close>

lemma run_without_entry:
  assumes "omap_inv (sc_index_runs c)"
    and "\<And>e. ((R, c_str ty, c_str aid), e) \<notin> set (sc_index_entries c)"
  shows "last_hash E config ty aid (with_run R row c) = last_hash E config ty aid c"
proof -
  have "completed_rows aid ty prov mo pv (with_run R row c) = completed_rows aid ty prov mo pv c" for prov mo pv
    unfolding completed_rows_def
    by (rule arg_cong [where f = concat], rule map_cong)
      (use assms in \<open>auto simp: with_run_def split: option.splits\<close>)
  then show ?thesis by (simp add: last_hash_def)
qed

text \<open>A run that completes later than every run before it makes its entries count.\<close>

definition latest_stamp :: "string \<Rightarrow> sqlite_content \<Rightarrow> bool" where
  "latest_stamp t c \<longleftrightarrow> (\<forall>row \<in> snd ` set (sc_index_runs c). rr_status row = ''completed'' \<longrightarrow> rr_completed_at row < Some t)"

lemma completed_run_counts:
  assumes b: "building E config R c db" "omap_inv (sc_index_runs (db_now db))" "latest_stamp t (db_now db)"
    and first: "\<And>xs. xs \<noteq> [] \<Longrightarrow> en_first E xs \<in> set xs"
    and row: "rr_provider_id row = c_str (ic_provider_id config)" "rr_model_id row = c_str (ic_model_id config)"
      "rr_prompt_version row = c_str (ic_prompt_version config)" "rr_status row = ''completed''" "rr_completed_at row = Some t"
  shows "last_hash E config ty aid (with_run (c_str R) row (db_now db)) = settled_hash E config R ty aid (db_now db)"
proof -
  let ?c = "db_now db"
  have inv: "omap_inv (sc_index_entries ?c)" and R: "uncounted (c_str R) ?c" using b(1) by (simp_all add: building_def Let_def)
  show ?thesis
  proof (cases "run_hash R ty aid ?c")
    case None
    then have "\<And>e. ((c_str R, c_str ty, c_str aid), e) \<notin> set (sc_index_entries ?c)"
      using omap_map_of_iff [OF inv] by (force simp: run_hash_def)
    then have "last_hash E config ty aid (with_run (c_str R) row ?c) = last_hash E config ty aid ?c"
      by (rule run_without_entry [OF b(2)])
    then show ?thesis by (simp add: settled_hash_def None)
  next
    case (Some h)
    then obtain e where e: "((c_str R, c_str ty, c_str aid), e) \<in> set (sc_index_entries ?c)" "h = ny_source_hash e"
      using omap_map_of_iff [OF inv] by (auto simp: run_hash_def)
    let ?rows = "completed_rows aid ty (ic_provider_id config) (ic_model_id config) (ic_prompt_version config) (with_run (c_str R) row ?c)"
    have mem: "(Some t, h) \<in> set ?rows"
      unfolding completed_rows_iff using e row b(2)
      by (intro exI [of _ "c_str R"] exI [of _ row] exI [of _ e]) (simp add: with_run_def)
    have "\<forall>(t', h') \<in> set ?rows. t' < Some t \<or> (t', h') = (Some t, h)"
    proof (clarify, goal_cases)
      case (1 t' h')
      from 1(1) obtain R' row' e' where o: "((R', c_str ty, c_str aid), e') \<in> set (sc_index_entries ?c)"
        "((map_of (sc_index_runs ?c))(c_str R \<mapsto> row)) R' = Some row'" "rr_status row' = ''completed''" "t' = rr_completed_at row'"
        "h' = ny_source_hash e'"
        unfolding completed_rows_iff using b(2) by (auto simp: with_run_def)
      show ?case
      proof (cases "R' = c_str R")
        case True
        then have "e' = e" using o(1) e(1) omap_map_of_iff [OF inv] by (metis option.inject)
        then show ?thesis using True o e(2) row(5) 1(2) by auto
      next
        case False
        then have "row' \<in> snd ` set (sc_index_runs ?c)" using o(2) by (auto dest: map_of_SomeD intro: rev_image_eqI)
        then show ?thesis using b(3) o(3,4) 1(2) by (auto simp: latest_stamp_def)
      qed
    qed
    from latest_unique [OF mem this] have l: "latest ?rows \<noteq> []" "set (latest ?rows) = {h}" by simp_all
    then have "en_first E (latest ?rows) = h" using first by blast
    moreover obtain r rs where "?rows = r # rs" using mem by (cases ?rows) auto
    ultimately show ?thesis by (simp add: last_hash_def settled_hash_def Some)
  qed
qed

lemma complete_run_stores:
  assumes "complete_index_run (persistent_services D E) J R config run n w = (Inr b, w')" "has_tables [''index_runs''] (wd_db w)"
    and "xr_run_id run = R" "xr_provider_id run = ic_provider_id config" "xr_model_id run = ic_model_id config"
      "xr_prompt_version run = ic_prompt_version config"
  obtains row where
    "same_index ((wd_db w)\<lparr>db_now := with_run (c_str R) row (db_now (wd_db w))\<rparr>) (wd_db w')"
    "rr_provider_id row = c_str (ic_provider_id config)" "rr_model_id row = c_str (ic_model_id config)"
    "rr_prompt_version row = c_str (ic_prompt_version config)" "rr_status row = ''completed''"
    "rr_completed_at row = Some (c_str (en_clock E (wd_ticks w)))" "wd_vectors w' = wd_vectors w"
    "b = \<lparr>ib_indexed_count = n_indexed n, ib_skipped_count = n_skipped n, ib_stale_count = n_stale n, ib_run_id = R\<rparr>"
proof -
  let ?w1 = "w\<lparr>wd_ticks := Suc (wd_ticks w)\<rparr>"
  define completed where "completed = (\<lambda>summary. run\<lparr>xr_status := kCompleted, xr_completed_at := Some (en_clock E (wd_ticks w)), xr_summary_json := summary\<rparr>)"
  let ?db = "\<lambda>summary. (wd_db w)\<lparr>db_now := with_run (c_str R) (run_to_row (completed summary)) (db_now (wd_db w))\<rparr>"
  have up: "on_world_db (sqlite_upsert_run (completed summary)) ?w1 = (Inr (), ?w1\<lparr>wd_db := ?db summary\<rparr>)" for summary
    using upsert_run_stores [OF assms(2), of "completed summary"] assms(3) by (simp add: on_world_db_def act_on_def completed_def)
  obtain summary payload v where u: "on_world_db (sqlite_upsert_run (completed summary)) ?w1 = (Inr (), v)"
    and e: "emit_at (persistent_services D E) R ''IndexRunCompleted'' payload (en_clock E (wd_ticks w)) [] v = (Inr (), w')"
    and b: "b = \<lparr>ib_indexed_count = n_indexed n, ib_skipped_count = n_skipped n, ib_stale_count = n_stale n, ib_run_id = R\<rparr>"
    using assms(1) unfolding complete_index_run_def act_bind_Inr_iff persistent_ops
    by (auto simp: world_now_def act_lift_def completed_def act_return_def)
  have v: "v = ?w1\<lparr>wd_db := ?db summary\<rparr>" using u up by simp
  from emit_steady [OF e] have "steady (?w1\<lparr>wd_db := ?db summary\<rparr>) w'" unfolding v .
  then show thesis using assms(4-6) b
    by (intro that [of "run_to_row (completed summary)"]) (simp_all add: steady_def run_to_row_def completed_def)
qed

section \<open>The beginning of a run\<close>

definition counter_value :: "sqlite_content \<Rightarrow> int" where
  "counter_value c = (case map_of (sc_id_counters c) ''index_run'' of Some n \<Rightarrow> n | None \<Rightarrow> 0)"

definition next_run :: "sqlite_content \<Rightarrow> string" where
  "next_run c = ''run-'' @ to_string_int (counter_value c + 1)"

text \<open>What holds of the index tables between builds.\<close>

definition index_sound :: "sqlite_db \<Rightarrow> bool" where
  "index_sound db \<longleftrightarrow> (let c = db_now db in
     db_saved db = None \<and> {''index_runs'', ''index_entries'', ''id_counters''} \<subseteq> set (sc_tables c) \<and>
     omap_inv (sc_index_runs c) \<and> omap_inv (sc_index_entries c) \<and> omap_inv (sc_id_counters c) \<and> owned c \<and>
     (\<forall>i > counter_value c. ''run-'' @ to_string_int i \<notin> fst ` set (sc_index_runs c)))"

lemma index_sound_view: "same_index db db' \<Longrightarrow> index_sound db \<Longrightarrow> index_sound db'"
  using owned_view [of "db_now db'" "db_now db"]
  by (simp add: index_sound_def same_index_def Let_def index_view_def counter_value_def)

lemma to_string_int_inj: "to_string_int i = to_string_int j \<longleftrightarrow> i = j"
proof -
  have "CHR ''-'' \<notin> set (to_string_nat n)" for n
    by (rule to_string_nat_no_char) (simp add: is_digit_iff)
  then have "CHR ''-'' # xs \<noteq> to_string_nat n" "to_string_nat n \<noteq> CHR ''-'' # xs" for xs n
    by (metis list.set_intros(1))+
  then show ?thesis by (cases "i < 0"; cases "j < 0") (auto simp: to_string_int_def to_string_nat_inj)
qed

lemma no_nul_next_run [simp]: "c_str (next_run c) = next_run c"
proof -
  have "CHR 0x00 \<notin> set (to_string_nat n)" for n by (rule to_string_nat_no_char) (simp add: is_digit_iff)
  then show ?thesis by (intro c_str_id) (simp add: next_run_def to_string_int_def no_nul_def)
qed

definition counted :: "sqlite_content \<Rightarrow> sqlite_content" where
  "counted c = c\<lparr>sc_id_counters := omap_insert ''index_run'' (counter_value c + 1) (sc_id_counters c)\<rparr>"

lemma next_run_id_eq:
  assumes "index_sound db"
  shows "sqlite_next_index_run_id db = (Inr (next_run (db_now db)), db\<lparr>db_now := counted (db_now db)\<rparr>)"
proof -
  have "db_saved db = None" "has_tables [''id_counters''] db" using assms by (simp_all add: index_sound_def Let_def has_tables_def)
  from next_index_run_id_eq [OF this] show ?thesis
    by (cases "map_of (sc_id_counters (db_now db)) ''index_run''") (simp_all add: next_run_def counted_def counter_value_def)
qed

text \<open>The database with the next run started.\<close>

definition started :: "run_row \<Rightarrow> sqlite_db \<Rightarrow> sqlite_db" where
  "started row db = db\<lparr>db_now := with_run (next_run (db_now db)) row (counted (db_now db))\<rparr>"

lemma started_facts:
  assumes "index_sound db" "rr_status row = ''running''"
  shows "building E config (next_run (db_now db)) (db_now (started row db)) (started row db)"
    "run_hash (next_run (db_now db)) ty aid (db_now (started row db)) = None"
    "omap_inv (sc_index_runs (db_now (started row db)))"
    "catalog (db_now (started row db)) = catalog (db_now db)"
    "last_hash E config ty aid (db_now (started row db)) = last_hash E config ty aid (db_now db)"
    "index_sound (started row db)"
proof -
  let ?c = "db_now db" and ?R = "next_run (db_now db)"
  have s: "omap_inv (sc_index_runs ?c)" "omap_inv (sc_index_entries ?c)" "owned ?c" "?R \<notin> fst ` set (sc_index_runs ?c)"
    "omap_inv (sc_id_counters ?c)"
    using assms(1) by (simp_all add: index_sound_def Let_def next_run_def)
  have o: "owned (db_now (started row db))"
    using owned_run [of "counted ?c" ?R row] s(3) by (simp add: started_def with_run_def counted_def owned_def)
  show "building E config ?R (db_now (started row db)) (started row db)"
    using assms s o
    by (simp add: building_def Let_def index_sound_def started_def with_run_def counted_def fst_omap_insert uncounted_def)
  have none: "((?R, ty, aid), e) \<notin> set (sc_index_entries ?c)" for ty aid e
    using s(3,4) by (force simp: owned_def)
  then show "run_hash ?R ty aid (db_now (started row db)) = None"
    by (cases "map_of (sc_index_entries ?c) (?R, c_str ty, c_str aid)")
      (auto simp: run_hash_def started_def with_run_def counted_def dest: map_of_SomeD)
  show "omap_inv (sc_index_runs (db_now (started row db)))" using s(1) by (simp add: started_def with_run_def counted_def)
  show "catalog (db_now (started row db)) = catalog ?c" by (simp add: catalog_def started_def with_run_def counted_def)
  have "last_hash E config ty aid (with_run ?R row (counted ?c)) = last_hash E config ty aid (counted ?c)"
    by (rule run_without_entry) (use s(1) none in \<open>simp_all add: counted_def\<close>)
  then show "last_hash E config ty aid (db_now (started row db)) = last_hash E config ty aid ?c"
    by (simp add: started_def last_hash_def completed_rows_def counted_def)
  have cv: "counter_value (db_now (started row db)) = counter_value ?c + 1"
  proof -
    have "map_of (sc_id_counters (db_now (started row db))) ''index_run'' = Some (counter_value ?c + 1)"
      using s(5) by (simp add: started_def with_run_def counted_def)
    then show ?thesis unfolding counter_value_def [of "db_now (started row db)"] by simp
  qed
  show "index_sound (started row db)"
    using assms(1) o unfolding index_sound_def Let_def cv
    by (auto simp: started_def with_run_def counted_def fst_omap_insert next_run_def to_string_int_inj)
qed

end
