(* ===== verification/Index_Rebuild.thy ===== *)
theory Index_Rebuild
  imports Index_Steps
begin

text \<open>
  Two index builds over one database, the second perhaps by another process. A build stores the source hash of
  every artifact it indexes with its run, and the hashes count once the run is completed; the next build
  finds them and skips every artifact whose text is the same. It looks at the database only, never at the
  vector index. \<open>build_returns\<close> states when a build returns.
\<close>

section \<open>Two builds\<close>

text \<open>The run row of a build that begins in \<open>w\<close>, and the three loops after it.\<close>

definition first_row :: "('j, 'c) environment \<Rightarrow> index_build_config \<Rightarrow> (string \<rightharpoonup> int, 'c) world \<Rightarrow> index_run" where
  "first_row E config w =
     \<lparr>xr_run_id = next_run (db_now (wd_db w)), xr_started_at = Some (en_clock E (wd_ticks w)), xr_completed_at = None,
      xr_provider_id = ic_provider_id config, xr_model_id = ic_model_id config,
      xr_prompt_version = ic_prompt_version config, xr_status = kRunning, xr_summary_json = ''{}''\<rparr>"

definition the_loops ::
  "'w services \<Rightarrow> 'j json_api \<Rightarrow> (rat \<Rightarrow> string) \<Rightarrow> string \<Rightarrow> index_build_config \<Rightarrow> ('w, index_counts) action" where
  "the_loops S J fb R config =
     act_bind (index_loop S J fb R config (in_scope config ''atoms'') ''atom'' [] (atom_artifacts S)
         \<lparr>n_indexed = 0, n_skipped = 0, n_stale = 0\<rparr>) (\<lambda>n1.
     act_bind (index_loop S J fb R config (in_scope config ''resumes'') ''resume'' ''resume:'' (resume_artifacts S) n1) (\<lambda>n2.
       index_loop S J fb R config (in_scope config ''opportunities'') ''opportunity'' ''opp:'' (opportunity_artifacts S) n2))"

lemma act_bind_assoc: "act_bind (act_bind m f) g = act_bind m (\<lambda>x. act_bind (f x) g)"
  by (simp add: fun_eq_iff act_bind_def split: prod.split sum.split)

lemma world_now_bind: "act_bind (world_now E) f w = f (en_clock E (wd_ticks w)) (w\<lparr>wd_ticks := wd_ticks w + 1\<rparr>)"
  by (simp add: act_bind_def world_now_def)

lemma build_starts:
  fixes E :: "('j, 'c) environment" and config :: index_build_config
  assumes "index_sound (wd_db w)"
  defines "R \<equiv> next_run (db_now (wd_db w))" and "row \<equiv> run_to_row (first_row E config w)"
  shows "\<exists>r w1. act_bind (act_lift (j_dump J (j_object J [(''provider_id'', j_string J (ic_provider_id config)),
      (''run_id'', j_string J R), (''scope'', j_string J (ic_scope config))])))
      (\<lambda>payload. emit_at (persistent_services D E) R ''IndexRunStarted'' payload (en_clock E (wd_ticks w)) [])
      (w\<lparr>wd_db := started row (wd_db w), wd_ticks := wd_ticks w + 1\<rparr>) = (r, w1) \<and>
    steady (w\<lparr>wd_db := started row (wd_db w), wd_ticks := wd_ticks w + 1\<rparr>) w1 \<and>
    run_index_build (persistent_services D E) J fb config w =
      (case r of Inl e \<Rightarrow> (Inl e, w1)
       | Inr _ \<Rightarrow> act_bind (the_loops (persistent_services D E) J fb R config)
           (complete_index_run (persistent_services D E) J R config (first_row E config w)) w1)"
proof -
  let ?S = "persistent_services D E"
  let ?w0 = "w\<lparr>wd_db := started row (wd_db w), wd_ticks := wd_ticks w + 1\<rparr>"
  define emits where "emits = act_bind (act_lift (j_dump J (j_object J [(''provider_id'', j_string J (ic_provider_id config)),
      (''run_id'', j_string J R), (''scope'', j_string J (ic_scope config))])))
      (\<lambda>payload. emit_at ?S R ''IndexRunStarted'' payload (en_clock E (wd_ticks w)) [])"
  obtain r w1 where e: "emits ?w0 = (r, w1)" by fastforce
  have "steady ?w0 w1"
    using e emit_steady unfolding emits_def act_bind_def act_lift_def by (fastforce split: sum.splits prod.splits)
  have next_id: "on_world_db sqlite_next_index_run_id w = (Inr R, w\<lparr>wd_db := (wd_db w)\<lparr>db_now := counted (db_now (wd_db w))\<rparr>\<rparr>)"
    using next_run_id_eq [OF assms(1)] by (simp add: on_world_db_def act_on_def R_def)
  have tables: "has_tables [''index_runs''] ((wd_db w)\<lparr>db_now := counted (db_now (wd_db w))\<rparr>)"
    using assms(1) by (simp add: index_sound_def Let_def has_tables_def counted_def)
  have up: "on_world_db (sqlite_upsert_run (first_row E config w))
      (w\<lparr>wd_db := (wd_db w)\<lparr>db_now := counted (db_now (wd_db w))\<rparr>, wd_ticks := wd_ticks w + 1\<rparr>) = (Inr (), ?w0)"
    using upsert_run_stores [OF tables, of "first_row E config w"]
    by (simp add: on_world_db_def act_on_def first_row_def started_def row_def)
  have row_eq: "\<lparr>xr_run_id = R, xr_started_at = Some (en_clock E (wd_ticks w)), xr_completed_at = None,
      xr_provider_id = ic_provider_id config, xr_model_id = ic_model_id config,
      xr_prompt_version = ic_prompt_version config, xr_status = kRunning, xr_summary_json = ''{}''\<rparr> = first_row E config w"
    by (simp add: first_row_def R_def)
  have "run_index_build ?S J fb config w = act_bind emits (\<lambda>_. act_bind (the_loops ?S J fb R config)
      (complete_index_run ?S J R config (first_row E config w))) ?w0"
    unfolding run_index_build_def index_opportunities_def persistent_ops act_bind_eq(1) [where m = "on_world_db sqlite_next_index_run_id", OF next_id]
      world_now_bind Let_def
    using act_bind_eq(1) [where m = "on_world_db (sqlite_upsert_run (first_row E config w))", OF up]
    by (simp add: row_eq emits_def act_bind_assoc the_loops_def in_scope_def flip: R_def)
  then show ?thesis using e \<open>steady ?w0 w1\<close> unfolding emits_def
    by (intro exI [of _ r] exI [of _ w1]) (simp add: act_bind_def split: sum.split)
qed

text \<open>Every artifact in the scope of the build, \<open>n\<close> in number, has the hash of its text.\<close>

definition hashed :: "('j, 'c) environment \<Rightarrow> index_build_config \<Rightarrow> string \<Rightarrow> (string \<times> string) list \<Rightarrow> sqlite_content \<Rightarrow> bool" where
  "hashed E config ty items c \<longleftrightarrow> (\<forall>(aid, body) \<in> set items. last_hash E config ty aid c = Some (stable_hash64_hex body))"

definition all_indexed ::
  "('src, 'zip, 'file, 'doc, 'node) docx_api \<Rightarrow> ('j, 'c) environment \<Rightarrow> index_build_config \<Rightarrow> nat \<Rightarrow>
   (string \<rightharpoonup> int, 'c) world \<Rightarrow> bool" where
  "all_indexed D E config n w \<longleftrightarrow> (\<exists>atoms resumes opps.
     loop_items config ''atoms'' (atom_artifacts (persistent_services D E)) w = Inr atoms \<and>
     loop_items config ''resumes'' (resume_artifacts (persistent_services D E)) w = Inr resumes \<and>
     loop_items config ''opportunities'' (opportunity_artifacts (persistent_services D E)) w = Inr opps \<and>
     hashed E config ''atom'' atoms (db_now (wd_db w)) \<and> hashed E config ''resume'' resumes (db_now (wd_db w)) \<and>
     hashed E config ''opportunity'' opps (db_now (wd_db w)) \<and> n = length atoms + length resumes + length opps)"

lemma all_indexed_same:
  assumes cat: "catalog (db_now (wd_db w')) = catalog (db_now (wd_db w))"
    and last: "\<And>ty aid. last_hash E config ty aid (db_now (wd_db w')) = last_hash E config ty aid (db_now (wd_db w))"
    and all: "all_indexed D E config n w"
  shows "all_indexed D E config n w'"
  using all unfolding all_indexed_def hashed_def last loop_items_catalog [OF artifacts_read(1) cat]
    loop_items_catalog [OF artifacts_read(2) cat] loop_items_catalog [OF artifacts_read(3) cat] .

lemma all_indexed_view:
  assumes "same_index (wd_db w) (wd_db w')" "all_indexed D E config n w"
  shows "all_indexed D E config n w'"
proof -
  have v: "index_view (db_now (wd_db w')) = index_view (db_now (wd_db w))" using assms(1) by (simp add: same_index_def)
  show ?thesis by (rule all_indexed_same [OF view_catalog [OF v] view_hashes(1) [OF v] assms(2)])
qed

text \<open>The loops of the first build.\<close>

lemma loops_settle:
  assumes run: "the_loops (persistent_services D E) J fb R config w = (Inr n, w')"
    and b: "building E config R c (wd_db w)" and ids: "distinct_ids (db_now (wd_db w))"
    and none: "\<And>ty aid. run_hash R ty aid (db_now (wd_db w)) = None"
  shows "\<exists>atoms resumes opps.
    loop_items config ''atoms'' (atom_artifacts (persistent_services D E)) w = Inr atoms \<and>
    loop_items config ''resumes'' (resume_artifacts (persistent_services D E)) w = Inr resumes \<and>
    loop_items config ''opportunities'' (opportunity_artifacts (persistent_services D E)) w = Inr opps \<and>
    (\<forall>(aid, body) \<in> set atoms. settled_hash E config R ''atom'' aid (db_now (wd_db w')) = Some (stable_hash64_hex body)) \<and>
    (\<forall>(aid, body) \<in> set resumes. settled_hash E config R ''resume'' aid (db_now (wd_db w')) = Some (stable_hash64_hex body)) \<and>
    (\<forall>(aid, body) \<in> set opps. settled_hash E config R ''opportunity'' aid (db_now (wd_db w')) = Some (stable_hash64_hex body)) \<and>
    n_indexed n + n_skipped n = length atoms + length resumes + length opps \<and>
    building E config R c (wd_db w') \<and> wd_ticks w \<le> wd_ticks w' \<and>
    catalog (db_now (wd_db w')) = catalog (db_now (wd_db w)) \<and> sc_id_counters (db_now (wd_db w')) = sc_id_counters (db_now (wd_db w))"
proof -
  let ?S = "persistent_services D E" and ?n0 = "\<lparr>n_indexed = 0, n_skipped = 0, n_stale = 0\<rparr>"
  obtain n1 w1 n2 w2 where
    1: "index_loop ?S J fb R config (in_scope config ''atoms'') ''atom'' [] (atom_artifacts ?S) ?n0 w = (Inr n1, w1)" and
    2: "index_loop ?S J fb R config (in_scope config ''resumes'') ''resume'' ''resume:'' (resume_artifacts ?S) n1 w1 = (Inr n2, w2)" and
    3: "index_loop ?S J fb R config (in_scope config ''opportunities'') ''opportunity'' ''opp:'' (opportunity_artifacts ?S) n2 w2 = (Inr n, w')"
    using run unfolding the_loops_def act_bind_Inr_iff by blast
  have types: "c_str ''resume'' \<noteq> c_str ''atom''" "c_str ''opportunity'' \<noteq> c_str ''atom''" "c_str ''opportunity'' \<noteq> c_str ''resume''"
    by (simp_all add: c_str_def)
  have ids': "distinct_ids c'" if "catalog c' = catalog (db_now (wd_db w))" for c'
    using that ids by (simp add: distinct_ids_def catalog_def)
  note read = artifacts_read [where D = D and E = E] and distinct = artifacts_distinct [where D = D and E = E]
  obtain as where a: "loop_items config ''atoms'' (atom_artifacts ?S) w = Inr as" "settles E config R c ''atom'' as ?n0 w n1 w1"
    using loop_settles [OF 1 b read(1) distinct(1) [OF ids] none] by blast
  note A = settlesD [OF a(2)]
  have none1: "run_hash R ''resume'' aid (db_now (wd_db w1)) = None" "run_hash R ''opportunity'' aid (db_now (wd_db w1)) = None" for aid
    using A(5) types none by simp_all
  obtain rs where r: "loop_items config ''resumes'' (resume_artifacts ?S) w1 = Inr rs" "settles E config R c ''resume'' rs n1 w1 n2 w2"
    using loop_settles [OF 2 A(1) read(2) distinct(2) [OF ids' [OF A(6)]] none1(1)] by blast
  note B = settlesD [OF r(2)]
  have cat: "catalog (db_now (wd_db w2)) = catalog (db_now (wd_db w))" using A(6) B(6) by simp
  have none2: "run_hash R ''opportunity'' aid (db_now (wd_db w2)) = None" for aid using B(5) types none1 by simp
  obtain os where o: "loop_items config ''opportunities'' (opportunity_artifacts ?S) w2 = Inr os"
    "settles E config R c ''opportunity'' os n2 w2 n w'"
    using loop_settles [OF 3 B(1) read(3) distinct(3) [OF ids' [OF cat]] none2] by blast
  note C = settlesD [OF o(2)]
  have last: "last_hash E config ty aid (db_now (wd_db v)) = last_hash E config ty aid (db_now (wd_db u))"
    if "building E config R c (wd_db v)" "building E config R c (wd_db u)" for ty aid u v
    using that by (simp add: building_def Let_def)
  have "settled_hash E config R ''atom'' aid (db_now (wd_db w')) = settled_hash E config R ''atom'' aid (db_now (wd_db w1))"
    "settled_hash E config R ''resume'' aid (db_now (wd_db w')) = settled_hash E config R ''resume'' aid (db_now (wd_db w2))" for aid
    using B(5) C(5) types last [OF C(1) A(1), of "''atom''"] last [OF C(1) B(1), of "''resume''"]
    by (simp_all add: settled_hash_def cong: option.case_cong)
  then show ?thesis
    using a(1) r(1) o(1) A(2-4,6,7) B(2-4,6,7) C(1-4,6,7) cat
      loop_items_catalog [OF read(2) A(6), of config "''resumes''"] loop_items_catalog [OF read(3) cat, of config "''opportunities''"]
    by (intro exI [of _ as] exI [of _ rs] exI [of _ os]) simp
qed

definition fresh_clock :: "('j, 'c) environment \<Rightarrow> nat \<Rightarrow> sqlite_content \<Rightarrow> bool" where
  "fresh_clock E k c \<longleftrightarrow> (\<forall>i \<ge> k. latest_stamp (c_str (en_clock E i)) c)"

lemma first_build:
  assumes run: "run_index_build (persistent_services D E) J fb config w = (Inr b, w')"
    and sound: "index_sound (wd_db w)" and ids: "distinct_ids (db_now (wd_db w))"
    and first: "\<And>xs. xs \<noteq> [] \<Longrightarrow> en_first E xs \<in> set xs"
    and clock: "fresh_clock E (wd_ticks w) (db_now (wd_db w))"
  shows "index_sound (wd_db w')" "all_indexed D E config (ib_indexed_count b + ib_skipped_count b) w'"
    "catalog (db_now (wd_db w')) = catalog (db_now (wd_db w))"
proof -
  let ?S = "persistent_services D E" and ?R = "next_run (db_now (wd_db w))" and ?row = "run_to_row (first_row E config w)"
  let ?db0 = "started ?row (wd_db w)"
  obtain r :: "(string, unit) result" and w1 where st: "steady (w\<lparr>wd_db := ?db0, wd_ticks := wd_ticks w + 1\<rparr>) w1"
    and r: "run_index_build ?S J fb config w = (case r of Inl e \<Rightarrow> (Inl e, w1)
       | Inr _ \<Rightarrow> act_bind (the_loops ?S J fb ?R config) (complete_index_run ?S J ?R config (first_row E config w)) w1)"
    using build_starts [OF sound, where J = J and config = config and E = E and D = D and fb = fb] by blast
  then have rest: "act_bind (the_loops ?S J fb ?R config) (complete_index_run ?S J ?R config (first_row E config w)) w1 = (Inr b, w')"
    using run by (cases r) simp_all
  obtain n v where loops: "the_loops ?S J fb ?R config w1 = (Inr n, v)"
    and compl: "complete_index_run ?S J ?R config (first_row E config w) n v = (Inr b, w')"
    using rest unfolding act_bind_Inr_iff by blast
  have run_row: "rr_status ?row = ''running''" by (simp add: run_to_row_def first_row_def)
  note f = started_facts [OF sound run_row]
  have i: "same_index ?db0 (wd_db w1)" "wd_ticks w + 1 \<le> wd_ticks w1" using st by (simp_all add: steady_def)
  then have view: "index_view (db_now (wd_db w1)) = index_view (db_now ?db0)" by (simp add: same_index_def)
  have "distinct_ids (db_now (wd_db w1))"
    using ids view_catalog [OF view] f(4) by (simp add: distinct_ids_def catalog_def)
  moreover have "run_hash ?R ty aid (db_now (wd_db w1)) = None" for ty aid
    using f(2) view_hashes(2) [OF view] by simp
  ultimately obtain as rs os where items:
    "loop_items config ''atoms'' (atom_artifacts ?S) w1 = Inr as" "loop_items config ''resumes'' (resume_artifacts ?S) w1 = Inr rs"
    "loop_items config ''opportunities'' (opportunity_artifacts ?S) w1 = Inr os"
    and hashes: "\<forall>(aid, body) \<in> set as. settled_hash E config ?R ''atom'' aid (db_now (wd_db v)) = Some (stable_hash64_hex body)"
      "\<forall>(aid, body) \<in> set rs. settled_hash E config ?R ''resume'' aid (db_now (wd_db v)) = Some (stable_hash64_hex body)"
      "\<forall>(aid, body) \<in> set os. settled_hash E config ?R ''opportunity'' aid (db_now (wd_db v)) = Some (stable_hash64_hex body)"
    and v: "n_indexed n + n_skipped n = length as + length rs + length os" "building E config ?R (db_now ?db0) (wd_db v)"
      "wd_ticks w1 \<le> wd_ticks v" "catalog (db_now (wd_db v)) = catalog (db_now (wd_db w1))"
      "sc_id_counters (db_now (wd_db v)) = sc_id_counters (db_now (wd_db w1))"
    using loops_settle [OF loops building_same_index [OF f(1) i(1)]] by blast
  have runs: "sc_index_runs (db_now (wd_db v)) = sc_index_runs (db_now ?db0)" "has_tables [''index_runs''] (wd_db v)"
    using v(2) by (auto simp: building_def Let_def has_tables_def)
  have fr: "xr_run_id (first_row E config w) = ?R" "xr_provider_id (first_row E config w) = ic_provider_id config"
    "xr_model_id (first_row E config w) = ic_model_id config" "xr_prompt_version (first_row E config w) = ic_prompt_version config"
    by (simp_all add: first_row_def)
  obtain row where
    same: "same_index ((wd_db v)\<lparr>db_now := with_run (c_str ?R) row (db_now (wd_db v))\<rparr>) (wd_db w')" and
    row: "rr_provider_id row = c_str (ic_provider_id config)" "rr_model_id row = c_str (ic_model_id config)"
    "rr_prompt_version row = c_str (ic_prompt_version config)" "rr_status row = ''completed''"
    "rr_completed_at row = Some (c_str (en_clock E (wd_ticks v)))" and "wd_vectors w' = wd_vectors v" and
    b: "b = \<lparr>ib_indexed_count = n_indexed n, ib_skipped_count = n_skipped n, ib_stale_count = n_stale n, ib_run_id = ?R\<rparr>"
    using complete_run_stores [OF compl runs(2) fr] .
  have "wd_ticks w \<le> wd_ticks v" using i(2) v(3) by simp
  then have "latest_stamp (c_str (en_clock E (wd_ticks v))) (db_now (wd_db w))" using clock by (simp add: fresh_clock_def)
  then have stamp: "latest_stamp (c_str (en_clock E (wd_ticks v))) (db_now (wd_db v))"
    unfolding latest_stamp_def runs(1) using run_row set_omap_insert [of ?R ?row "sc_index_runs (db_now (wd_db w))"]
    by (auto simp: started_def with_run_def counted_def)
  have inv: "omap_inv (sc_index_runs (db_now (wd_db v)))" using f(3) runs(1) by simp
  let ?dbv = "(wd_db v)\<lparr>db_now := with_run (c_str ?R) row (db_now (wd_db v))\<rparr>"
  have view': "index_view (db_now (wd_db w')) = index_view (with_run (c_str ?R) row (db_now (wd_db v)))"
    using same by (simp add: same_index_def)
  have last: "last_hash E config ty aid (db_now (wd_db w')) = settled_hash E config ?R ty aid (db_now (wd_db v))" for ty aid
    unfolding view_hashes(1) [OF view'] by (rule completed_run_counts [OF v(2) inv stamp first row])
  have cat: "catalog (db_now (wd_db w')) = catalog (db_now (wd_db w1))"
    using view_catalog [OF view'] v(4) by (simp add: catalog_def with_run_def)
  show "catalog (db_now (wd_db w')) = catalog (db_now (wd_db w))"
    unfolding cat view_catalog [OF view] by (rule f(4))
  show "all_indexed D E config (ib_indexed_count b + ib_skipped_count b) w'"
    unfolding all_indexed_def hashed_def last loop_items_catalog [OF artifacts_read(1) cat]
      loop_items_catalog [OF artifacts_read(2) cat] loop_items_catalog [OF artifacts_read(3) cat]
    using items hashes v(1) b by simp
  have s0: "index_sound (wd_db w1)" by (rule index_sound_view [OF i(1) f(6)])
  have "sc_index_runs (db_now (wd_db w1)) = sc_index_runs (db_now ?db0)" using view by (simp add: index_view_def)
  then have keys: "fst ` set (sc_index_runs (with_run (c_str ?R) row (db_now (wd_db v)))) = fst ` set (sc_index_runs (db_now (wd_db w1)))"
    using v(2) runs(1) by (auto simp: with_run_def fst_omap_insert building_def Let_def)
  have "index_sound ?dbv"
    using s0 v(2) v(5) inv keys owned_run [of "db_now (wd_db v)" "c_str ?R" row]
    by (simp add: index_sound_def Let_def building_def counter_value_def with_run_def)
  then show "index_sound (wd_db w')" by (rule index_sound_view [OF same])
qed

section \<open>The second build\<close>

lemma artifact_skips:
  assumes "last_hash E config ty aid (db_now (wd_db w)) = Some (stable_hash64_hex body)"
    and "has_tables [''index_entries'', ''index_runs''] (wd_db w)"
  shows "index_artifact (persistent_services D E) J fb R config ty pre (aid, body) n w =
    (Inr (n\<lparr>n_skipped := n_skipped n + 1\<rparr>), w)"
  unfolding index_artifact_def prod.case Let_def
    act_bind_eq(1) [where m = "sv_last_source_hash (persistent_services D E) aid ty _ _ _", OF last_source_hash_eq [OF assms(2)]]
  by (simp add: assms(1) act_return_def)

lemma fold_skips:
  assumes "hashed E config ty items (db_now (wd_db w))" "has_tables [''index_entries'', ''index_runs''] (wd_db w)"
  shows "act_fold (index_artifact (persistent_services D E) J fb R config ty pre) items n w =
    (Inr (n\<lparr>n_skipped := n_skipped n + length items\<rparr>), w)"
  using assms(1)
proof (induction items arbitrary: n)
  case Nil
  then show ?case by (simp add: act_return_def)
next
  case (Cons item items)
  obtain aid body where i: "item = (aid, body)" by (cases item)
  have "index_artifact (persistent_services D E) J fb R config ty pre item n w = (Inr (n\<lparr>n_skipped := n_skipped n + 1\<rparr>), w)"
    unfolding i by (rule artifact_skips [OF _ assms(2)]) (use Cons.prems i in \<open>simp add: hashed_def\<close>)
  then show ?case using Cons.IH [of "n\<lparr>n_skipped := n_skipped n + 1\<rparr>"] Cons.prems by (simp add: act_bind_def hashed_def)
qed

lemma loop_skips:
  assumes "loop_items config scope arts w = Inr items" "reads_catalog arts"
    and "hashed E config ty items (db_now (wd_db w))" "has_tables [''index_entries'', ''index_runs''] (wd_db w)"
  shows "index_loop (persistent_services D E) J fb R config (in_scope config scope) ty pre arts n w =
    (Inr (n\<lparr>n_skipped := n_skipped n + length items\<rparr>), w)"
proof (cases "in_scope config scope")
  case True
  then have "arts w = (Inr items, w)"
    using assms(1,2) unfolding loop_items_def reads_catalog_def by (metis prod.collapse)
  then show ?thesis using True fold_skips [OF assms(3,4)] by (simp add: index_loop_def act_bind_def)
next
  case False
  then show ?thesis using assms(1) by (simp add: index_loop_def loop_items_def act_return_def)
qed

lemma loops_skip:
  assumes "all_indexed D E config k w" "has_tables [''index_entries'', ''index_runs''] (wd_db w)"
  shows "the_loops (persistent_services D E) J fb R config w = (Inr \<lparr>n_indexed = 0, n_skipped = k, n_stale = 0\<rparr>, w)"
proof -
  obtain as rs os where i: "loop_items config ''atoms'' (atom_artifacts (persistent_services D E)) w = Inr as"
    "loop_items config ''resumes'' (resume_artifacts (persistent_services D E)) w = Inr rs"
    "loop_items config ''opportunities'' (opportunity_artifacts (persistent_services D E)) w = Inr os" and
    h: "hashed E config ''atom'' as (db_now (wd_db w))" "hashed E config ''resume'' rs (db_now (wd_db w))"
    "hashed E config ''opportunity'' os (db_now (wd_db w))" and k: "k = length as + length rs + length os"
    using assms(1) unfolding all_indexed_def by blast
  show ?thesis
    by (simp add: the_loops_def act_bind_def k loop_skips [OF i(1) artifacts_read(1) h(1) assms(2)]
      loop_skips [OF i(2) artifacts_read(2) h(2) assms(2)] loop_skips [OF i(3) artifacts_read(3) h(3) assms(2)])
qed

text \<open>An action that leaves the vectors and the entries of the index alone, whatever its outcome.\<close>

definition keeps_entries :: "(('l, 'c) world, 'a) action \<Rightarrow> bool" where
  "keeps_entries m \<longleftrightarrow> (\<forall>w. wd_vectors (snd (m w)) = wd_vectors w \<and>
     sc_index_entries (db_now (wd_db (snd (m w)))) = sc_index_entries (db_now (wd_db w)))"

lemma keeps_entries_bind: "keeps_entries m \<Longrightarrow> (\<And>x. keeps_entries (f x)) \<Longrightarrow> keeps_entries (act_bind m f)"
  by (auto simp: keeps_entries_def act_bind_def split: prod.split sum.split) (metis snd_conv)+

lemma keeps_entries_parts:
  "keeps_entries (act_lift r)" "keeps_entries (act_return x)" "keeps_entries (world_now E)"
  "keeps_entries (emit_at (persistent_services D E) t ty payload stamp refs)"
  "keeps_entries (on_world_db (sqlite_upsert_run run))"
proof -
  show "keeps_entries (act_lift r)" "keeps_entries (act_return x)" "keeps_entries (world_now E)"
    by (auto simp: keeps_entries_def act_lift_def act_return_def world_now_def split: sum.split)
  show "keeps_entries (emit_at (persistent_services D E) t ty payload stamp refs)"
    using emit_steady [where D = D and E = E, OF prod.collapse [symmetric]]
    by (auto simp: keeps_entries_def steady_def same_index_def index_view_def)
  show "keeps_entries (on_world_db (sqlite_upsert_run run))"
    by (auto simp: keeps_entries_def on_world_db_def act_on_def sqlite_upsert_run_def sql_update_def)
qed

lemma complete_keeps: "keeps_entries (complete_index_run (persistent_services D E) J R config run n)"
  unfolding complete_index_run_def persistent_ops by (intro keeps_entries_bind keeps_entries_parts)

lemma second_build:
  assumes run: "run_index_build (persistent_services D E) J fb config w = (r, w')"
    and sound: "index_sound (wd_db w)" and all: "all_indexed D E config k w"
  shows "wd_vectors w' = wd_vectors w \<and> sc_index_entries (db_now (wd_db w')) = sc_index_entries (db_now (wd_db w)) \<and>
    (\<forall>b. r = Inr b \<longrightarrow> ib_indexed_count b = 0 \<and> ib_stale_count b = 0 \<and> ib_skipped_count b = k)"
proof -
  let ?S = "persistent_services D E" and ?R = "next_run (db_now (wd_db w))" and ?row = "run_to_row (first_row E config w)"
  let ?w0 = "w\<lparr>wd_db := started ?row (wd_db w), wd_ticks := wd_ticks w + 1\<rparr>"
  obtain s :: "(string, unit) result" and w1 where st: "steady ?w0 w1"
    and r: "run_index_build ?S J fb config w = (case s of Inl e \<Rightarrow> (Inl e, w1)
       | Inr _ \<Rightarrow> act_bind (the_loops ?S J fb ?R config) (complete_index_run ?S J ?R config (first_row E config w)) w1)"
    using build_starts [OF sound, where J = J and config = config and E = E and D = D and fb = fb] by blast
  have run_row: "rr_status ?row = ''running''" by (simp add: run_to_row_def first_row_def)
  note f = started_facts [OF sound run_row]
  have i: "same_index (started ?row (wd_db w)) (wd_db w1)" "wd_vectors w1 = wd_vectors w" using st by (simp_all add: steady_def)
  have e: "sc_index_entries (db_now (wd_db w1)) = sc_index_entries (db_now (wd_db w))"
    using i(1) by (simp add: same_index_def index_view_def started_def with_run_def counted_def)
  have w0: "wd_db ?w0 = started ?row (wd_db w)" by simp
  have last: "last_hash E config ty aid (db_now (wd_db ?w0)) = last_hash E config ty aid (db_now (wd_db w))" for ty aid
    unfolding w0 by (rule f(5))
  have cat: "catalog (db_now (wd_db ?w0)) = catalog (db_now (wd_db w))" unfolding w0 by (rule f(4))
  have "same_index (wd_db ?w0) (wd_db w1)" unfolding w0 by (rule i(1))
  then have "all_indexed D E config k w1" by (rule all_indexed_view [OF _ all_indexed_same [OF cat last all]])
  moreover have "has_tables [''index_entries'', ''index_runs''] (wd_db w1)"
    using index_sound_view [OF i(1) f(6)] by (simp add: index_sound_def Let_def has_tables_def)
  ultimately have "the_loops ?S J fb ?R config w1 = (Inr \<lparr>n_indexed = 0, n_skipped = k, n_stale = 0\<rparr>, w1)"
    by (rule loops_skip)
  then consider (failed) e where "r = Inl e" "w' = w1"
    | (ended) "complete_index_run ?S J ?R config (first_row E config w) \<lparr>n_indexed = 0, n_skipped = k, n_stale = 0\<rparr> w1 = (r, w')"
    using r run by (cases s) (auto simp: act_bind_def)
  then show ?thesis
  proof cases
    case failed
    then show ?thesis using i(2) e by simp
  next
    case ended
    then have "wd_vectors w' = wd_vectors w" "sc_index_entries (db_now (wd_db w')) = sc_index_entries (db_now (wd_db w))"
      using complete_keeps [of D E J ?R config "first_row E config w" "\<lparr>n_indexed = 0, n_skipped = k, n_stale = 0\<rparr>"] i(2) e
      unfolding keeps_entries_def by (metis snd_conv)+
    moreover have "ib_indexed_count b = 0 \<and> ib_stale_count b = 0 \<and> ib_skipped_count b = k" if "r = Inr b" for b
      using ended unfolding that complete_index_run_def act_bind_Inr_iff by (auto simp: act_return_def)
    ultimately show ?thesis by blast
  qed
qed

section \<open>A build returns\<close>

text \<open>The next \<open>k\<close> event identifiers are new.\<close>

fun unused_ids :: "(string \<Rightarrow> id_counter \<Rightarrow> string \<times> id_counter) \<Rightarrow> nat \<Rightarrow> id_counter \<Rightarrow> string set \<Rightarrow> bool" where
  "unused_ids next_id 0 n used = True"
| "unused_ids next_id (Suc k) n used =
     (case next_id ''evt'' n of (x, n') \<Rightarrow> c_str x \<notin> used \<and> unused_ids next_id k n' (insert (c_str x) used))"

lemma unused_ids_less: "unused_ids next_id k n used \<Longrightarrow> j \<le> k \<Longrightarrow> unused_ids next_id j n used"
proof (induction j arbitrary: k n used)
  case (Suc j)
  then show ?case by (cases k) auto
qed simp

definition audit_ready :: "('j, 'c) environment \<Rightarrow> nat \<Rightarrow> (string \<rightharpoonup> int, 'c) world \<Rightarrow> bool" where
  "audit_ready E k w \<longleftrightarrow> (let c = db_now (wd_db w) in
     prepare_error [''audit_events''] [''previous_hash'', ''event_hash''] c = None \<and>
     unused_ids (en_next_id E) k (wd_counter w) (er_event_id ` set (sc_audit_events c)))"

lemma audit_ready_less: "audit_ready E k w \<Longrightarrow> j \<le> k \<Longrightarrow> audit_ready E j w"
  by (auto simp: audit_ready_def Let_def intro: unused_ids_less)

definition prints :: "'j json_api \<Rightarrow> bool" where
  "prints J \<longleftrightarrow> (\<forall>j. is_ok (j_dump J j))"

lemma printsE: assumes "prints J" obtains s where "j_dump J j = Inr s"
  using assms by (auto simp: prints_def is_ok_iff)

lemma emit_ok:
  assumes "prints (en_json E)" "audit_ready E (Suc k) w"
  shows "\<exists>w'. emit_at (persistent_services D E) t ty payload stamp refs w = (Inr (), w') \<and> audit_ready E k w'"
proof -
  obtain x n' where x: "en_next_id E ''evt'' (wd_counter w) = (x, n')" by fastforce
  let ?ev = "new_event x t ty payload stamp refs" and ?l = "\<lparr>sl_db = wd_db w, sl_trace_indices = wd_log w\<rparr>"
  obtain idx p where st: "get_append_state (ae_trace_id ?ev) ?l =
      (Inr (idx, p), ?l\<lparr>sl_trace_indices := (sl_trace_indices ?l)(ae_trace_id ?ev \<mapsto> idx + 1)\<rparr>)"
    by (rule get_append_state_shape)
  obtain h rs where h: "compute_event_hash (en_json E) ?ev p = Inr h" "tags_text (en_json E) (ae_refs ?ev) = Inr rs"
    using printsE [OF assms(1)] by (metis compute_event_hash_def tags_text_def result_bind.simps(2))
  have r: "prepare_error [''audit_events''] [''previous_hash'', ''event_hash''] (db_now (wd_db w)) = None"
    "c_str x \<notin> er_event_id ` set (sc_audit_events (db_now (wd_db w)))"
    "unused_ids (en_next_id E) k n' (insert (c_str x) (er_event_id ` set (sc_audit_events (db_now (wd_db w)))))"
    using assms(2) by (simp_all add: audit_ready_def Let_def x)
  let ?l' = "?l\<lparr>sl_trace_indices := (sl_trace_indices ?l)(ae_trace_id ?ev \<mapsto> idx + 1)\<rparr>"
  have "sqlite_log_append (en_json E) ?ev ?l = (Inr (), log_with_row (event_to_row ?ev rs idx p h) ?l')"
    unfolding sqlite_log_append_state [OF st] insert_appended_eq h using r by (simp add: new_event_def)
  moreover have "er_event_id (event_to_row ?ev rs idx p h) = c_str x" by (simp add: event_to_row_def new_event_def)
  ultimately show ?thesis
    using r by (simp add: emit_at_def persistent_ops act_bind_def world_next_id_def x on_world_log_def act_on_def
        audit_ready_def Let_def log_with_row_def prepare_error_None)
qed

text \<open>A world in which the run \<open>R\<close> is in the tables and \<open>k\<close> events can be appended.\<close>

definition build_ready :: "('j, 'c) environment \<Rightarrow> string \<Rightarrow> nat \<Rightarrow> (string \<rightharpoonup> int, 'c) world \<Rightarrow> bool" where
  "build_ready E R k w \<longleftrightarrow> audit_ready E k w \<and> has_tables [''index_entries'', ''index_runs''] (wd_db w) \<and>
     c_str R \<in> fst ` set (sc_index_runs (db_now (wd_db w)))"

lemma build_ready_less: "build_ready E R k w \<Longrightarrow> j \<le> k \<Longrightarrow> build_ready E R j w"
  by (auto simp: build_ready_def intro: audit_ready_less)

lemma emit_ready:
  assumes "prints (en_json E)" "build_ready E R (Suc k) w"
  shows "\<exists>w'. emit_at (persistent_services D E) t ty payload stamp refs w = (Inr (), w') \<and> build_ready E R k w' \<and> steady w w'"
proof -
  obtain w' where e: "emit_at (persistent_services D E) t ty payload stamp refs w = (Inr (), w')" "audit_ready E k w'"
    using emit_ok [where D = D, OF assms(1), of k w t ty payload stamp refs] assms(2) by (auto simp: build_ready_def)
  from emit_steady [OF e(1)] have "steady w w'" .
  then show ?thesis using e assms(2)
    by (auto simp: build_ready_def steady_def same_index_def index_view_def has_tables_def)
qed

lemma artifact_ready:
  assumes J: "prints J" "prints (en_json E)" and b: "build_ready E R (Suc k) w"
  shows "\<exists>n' w'. index_artifact (persistent_services D E) J fb R config ty pre (aid, body) n w = (Inr n', w') \<and>
    build_ready E R k w' \<and> catalog (db_now (wd_db w')) = catalog (db_now (wd_db w))"
proof -
  let ?S = "persistent_services D E" and ?l = "last_hash E config ty aid (db_now (wd_db w))" and ?h = "stable_hash64_hex body"
  have tables: "has_tables [''index_entries'', ''index_runs''] (wd_db w)" "c_str R \<in> fst ` set (sc_index_runs (db_now (wd_db w)))"
    using b by (simp_all add: build_ready_def)
  show ?thesis
  proof (cases "?l = Some ?h")
    case True
    have "build_ready E R k w" by (rule build_ready_less [OF b]) simp
    then show ?thesis
      by (intro exI [of _ "n\<lparr>n_skipped := n_skipped n + 1\<rparr>"] exI [of _ w] conjI artifact_skips [OF True tables(1)]) simp_all
  next
    case False
    obtain m where m: "j_dump J (j_object J (artifact_json J aid ty ?h)) = Inr m" using printsE [OF J(1)] by blast
    obtain q where q: "j_dump J (j_object J (artifact_json J aid ty ?h @ [(''stale'', j_bool J (?l \<noteq> None))])) = Inr q"
      using printsE [OF J(1)] by blast
    let ?t = "en_clock E (wd_ticks w)" and ?v = "ep_embed_text (stub_provider 128) body"
    let ?entry = "\<lparr>xe_run_id = R, xe_artifact_type = ty, xe_artifact_id = aid, xe_source_hash = ?h,
      xe_vector_hash = vector_hash fb ?v, xe_indexed_at = Some ?t\<rparr>"
    let ?db = "with_entry (c_str R, c_str ty, c_str aid) (entry_to_row ?entry) (wd_db w)"
    let ?w1 = "w\<lparr>wd_vectors := store_upsert (pre @ aid) ?v m (wd_vectors w), wd_ticks := wd_ticks w + 1, wd_db := ?db\<rparr>"
    have up: "sqlite_upsert_entry ?entry (wd_db w) = (Inr (), ?db)"
      using upsert_entry_stores [of "wd_db w" ?entry] tables by (simp add: has_tables_def)
    have "build_ready E R (Suc k) ?w1"
      using b by (simp add: build_ready_def audit_ready_def Let_def with_entry_def has_tables_def prepare_error_None)
    from emit_ready [OF J(2) this] obtain w' where
      e: "emit_at ?S R ''IndexedArtifact'' q ?t [] ?w1 = (Inr (), w')" "build_ready E R k w'" "steady ?w1 w'" by blast
    have "catalog (db_now (wd_db w')) = catalog (db_now (wd_db w))"
      using e(3) by (simp add: steady_def same_index_def index_view_def catalog_def with_entry_def)
    moreover have "\<exists>n'. index_artifact ?S J fb R config ty pre (aid, body) n w = (Inr n', w')"
      unfolding index_artifact_def prod.case Let_def
        act_bind_eq(1) [where m = "sv_last_source_hash ?S aid ty _ _ _", OF last_source_hash_eq [OF tables(1)]]
      using False stub_embed_nonempty [of body] m q up e(1)
      by (simp add: persistent_ops act_bind_def act_lift_def act_modify_def world_now_def on_world_db_def act_on_def act_return_def)
    ultimately show ?thesis using e(2) by blast
  qed
qed

lemma fold_ready:
  assumes J: "prints J" "prints (en_json E)"
  shows "build_ready E R (length items + k) w \<Longrightarrow>
    \<exists>n' w'. act_fold (index_artifact (persistent_services D E) J fb R config ty pre) items n w = (Inr n', w') \<and>
      build_ready E R k w' \<and> catalog (db_now (wd_db w')) = catalog (db_now (wd_db w))"
proof (induction items arbitrary: n w)
  case Nil
  then show ?case by (simp add: act_return_def)
next
  case (Cons item items)
  obtain aid body where i: "item = (aid, body)" by (cases item)
  have "build_ready E R (Suc (length items + k)) w" using Cons.prems by simp
  then obtain n1 w1 where 1: "index_artifact (persistent_services D E) J fb R config ty pre item n w = (Inr n1, w1)"
    "build_ready E R (length items + k) w1" "catalog (db_now (wd_db w1)) = catalog (db_now (wd_db w))"
    using artifact_ready [where D = D, OF J, of R "length items + k" w fb config ty pre aid body n] unfolding i by blast
  from Cons.IH [OF 1(2), of n1] 1(1,3) show ?case by (simp add: act_bind_def)
qed

lemma loop_ready:
  assumes J: "prints J" "prints (en_json E)" and arts: "loop_items config scope arts w = Inr items" "reads_catalog arts"
    and b: "build_ready E R (length items + k) w"
  shows "\<exists>n' w'. index_loop (persistent_services D E) J fb R config (in_scope config scope) ty pre arts n w = (Inr n', w') \<and>
    build_ready E R k w' \<and> catalog (db_now (wd_db w')) = catalog (db_now (wd_db w))"
proof (cases "in_scope config scope")
  case True
  then have "arts w = (Inr items, w)"
    using arts unfolding loop_items_def reads_catalog_def by (metis prod.collapse)
  then show ?thesis using True fold_ready [where D = D, OF J b, of fb config ty pre n] by (simp add: index_loop_def act_bind_def)
next
  case False
  then show ?thesis using arts(1) b by (simp add: index_loop_def loop_items_def act_return_def)
qed

lemma complete_ready:
  assumes J: "prints J" "prints (en_json E)" and b: "build_ready E R (Suc k) w" and run: "xr_run_id run = R"
  shows "\<exists>b w'. complete_index_run (persistent_services D E) J R config run n w = (Inr b, w') \<and> audit_ready E k w'"
proof -
  let ?S = "persistent_services D E" and ?t = "en_clock E (wd_ticks w)"
  obtain s where s: "j_dump J (j_object J
         [(''indexed'', j_int J (int (n_indexed n))), (''scope'', j_string J (ic_scope config)),
          (''skipped'', j_int J (int (n_skipped n))), (''stale'', j_int J (int (n_stale n)))]) = Inr s" using printsE [OF J(1)] by blast
  obtain q where q: "j_dump J (j_object J
         [(''indexed'', j_int J (int (n_indexed n))), (''run_id'', j_string J R),
          (''skipped'', j_int J (int (n_skipped n))), (''stale'', j_int J (int (n_stale n)))]) = Inr q" using printsE [OF J(1)] by blast
  let ?run = "run\<lparr>xr_status := kCompleted, xr_completed_at := Some ?t, xr_summary_json := s\<rparr>"
  let ?db = "(wd_db w)\<lparr>db_now := with_run (c_str (xr_run_id ?run)) (run_to_row ?run) (db_now (wd_db w))\<rparr>"
  let ?w1 = "w\<lparr>wd_ticks := wd_ticks w + 1, wd_db := ?db\<rparr>"
  have "has_tables [''index_runs''] (wd_db w)" using b by (simp add: build_ready_def has_tables_def)
  from upsert_run_stores [OF this, of ?run] have up: "sqlite_upsert_run ?run (wd_db w) = (Inr (), ?db)" .
  have "audit_ready E (Suc k) ?w1"
    using b by (simp add: build_ready_def audit_ready_def Let_def with_run_def prepare_error_None)
  from emit_ok [where D = D, OF J(2) this] obtain w' where
    e: "emit_at ?S R ''IndexRunCompleted'' q ?t [] ?w1 = (Inr (), w')" "audit_ready E k w'" by blast
  have "\<exists>b. complete_index_run ?S J R config run n w = (Inr b, w')"
    unfolding complete_index_run_def persistent_ops world_now_bind using s q up e(1)
    by (simp add: act_bind_def act_lift_def on_world_db_def act_on_def act_return_def)
  then show ?thesis using e(2) by blast
qed

text \<open>When the tables are there, the rows can be read, the JSON library prints everything and no identifier
  clashes, a build returns.\<close>

lemma build_returns:
  assumes J: "prints J" "prints (en_json E)" and sound: "index_sound (wd_db w)"
    and items: "loop_items config ''atoms'' (atom_artifacts (persistent_services D E)) w = Inr atoms"
      "loop_items config ''resumes'' (resume_artifacts (persistent_services D E)) w = Inr resumes"
      "loop_items config ''opportunities'' (opportunity_artifacts (persistent_services D E)) w = Inr opps"
    and audit: "audit_ready E (2 + length atoms + length resumes + length opps + k) w"
  shows "\<exists>b w'. run_index_build (persistent_services D E) J fb config w = (Inr b, w') \<and> audit_ready E k w'"
proof -
  let ?S = "persistent_services D E" and ?R = "next_run (db_now (wd_db w))" and ?row = "run_to_row (first_row E config w)"
  let ?w0 = "w\<lparr>wd_db := started ?row (wd_db w), wd_ticks := wd_ticks w + 1\<rparr>"
  let ?k = "length atoms + (length resumes + (length opps + Suc k))"
  obtain p where p: "j_dump J (j_object J [(''provider_id'', j_string J (ic_provider_id config)),
      (''run_id'', j_string J ?R), (''scope'', j_string J (ic_scope config))]) = Inr p" using printsE [OF J(1)] by blast
  have w0: "wd_db ?w0 = started ?row (wd_db w)" by simp
  have run_row: "rr_status ?row = ''running''" by (simp add: run_to_row_def first_row_def)
  note f = started_facts [OF sound run_row]
  have k: "2 + length atoms + length resumes + length opps + k = Suc ?k" by simp
  have "audit_ready E (Suc ?k) ?w0"
    using audit [unfolded k]
    by (simp add: audit_ready_def Let_def started_def with_run_def counted_def prepare_error_None del: unused_ids.simps)
  moreover have "has_tables [''index_entries'', ''index_runs''] (wd_db ?w0)" "c_str ?R \<in> fst ` set (sc_index_runs (db_now (wd_db ?w0)))"
    unfolding w0 using sound
    by (simp add: index_sound_def Let_def has_tables_def started_def with_run_def counted_def)
      (simp add: started_def with_run_def fst_omap_insert)
  ultimately have "build_ready E ?R (Suc ?k) ?w0" unfolding build_ready_def by blast
  from emit_ready [where D = D, OF J(2) this] obtain w1 where
    1: "emit_at ?S ?R ''IndexRunStarted'' p (en_clock E (wd_ticks w)) [] ?w0 = (Inr (), w1)" "build_ready E ?R ?k w1" "steady ?w0 w1"
    by blast
  have cat1: "catalog (db_now (wd_db w1)) = catalog (db_now (wd_db w))"
  proof -
    have "index_view (db_now (wd_db w1)) = index_view (db_now (started ?row (wd_db w)))"
      using 1(3) unfolding steady_def same_index_def w0 by blast
    from view_catalog [OF this] f(4) show ?thesis by (rule trans)
  qed
  note read = artifacts_read [where D = D and E = E]
  note i1 = loop_items_catalog [OF read(1) cat1]
  obtain n2 w2 where 2: "index_loop ?S J fb ?R config (in_scope config ''atoms'') ''atom'' [] (atom_artifacts ?S)
      \<lparr>n_indexed = 0, n_skipped = 0, n_stale = 0\<rparr> w1 = (Inr n2, w2)"
    "build_ready E ?R (length resumes + (length opps + Suc k)) w2" "catalog (db_now (wd_db w2)) = catalog (db_now (wd_db w))"
    using loop_ready [where D = D, OF J _ read(1) 1(2), of config "''atoms''" fb "''atom''" "[]"
      "\<lparr>n_indexed = 0, n_skipped = 0, n_stale = 0\<rparr>"] items(1) cat1 unfolding i1 by metis
  obtain n3 w3 where 3: "index_loop ?S J fb ?R config (in_scope config ''resumes'') ''resume'' ''resume:'' (resume_artifacts ?S)
      n2 w2 = (Inr n3, w3)"
    "build_ready E ?R (length opps + Suc k) w3" "catalog (db_now (wd_db w3)) = catalog (db_now (wd_db w))"
    using loop_ready [where D = D, OF J _ read(2) 2(2), of config "''resumes''" fb "''resume''" "''resume:''" n2]
      items(2) 2(3) unfolding loop_items_catalog [OF read(2) 2(3)] by metis
  obtain n4 w4 where 4: "index_loop ?S J fb ?R config (in_scope config ''opportunities'') ''opportunity'' ''opp:''
      (opportunity_artifacts ?S) n3 w3 = (Inr n4, w4)" "build_ready E ?R (Suc k) w4"
    using loop_ready [where D = D, OF J _ read(3) 3(2), of config "''opportunities''" fb "''opportunity''" "''opp:''" n3]
      items(3) 3(3) unfolding loop_items_catalog [OF read(3) 3(3)] by metis
  have loops: "the_loops ?S J fb ?R config w1 = (Inr n4, w4)"
    unfolding the_loops_def using 2(1) 3(1) 4(1) by (simp add: act_bind_def)
  have "\<exists>b w'. complete_index_run ?S J ?R config (first_row E config w) n4 w4 = (Inr b, w') \<and> audit_ready E k w'"
    by (rule complete_ready [OF J 4(2)]) (simp add: first_row_def)
  then show ?thesis
    using build_starts [OF sound, where J = J and config = config and E = E and D = D and fb = fb] p 1(1) loops
    by (auto simp: act_bind_def act_lift_def)
qed

section \<open>The claim\<close>

text \<open>C29. Once a build has run to its end, the next build over the same database, in this process or in another,
  indexes nothing and skips every artifact: it changes neither the entries nor the vectors, whatever the vector
  index holds. It compares the texts with the hashes in the database and never asks the vector index, so after
  a restart with the in-memory index it leaves that index empty.
  The assumptions: the index tables are consistent and no run is in them under a number that is still to come,
  no two artifacts of a type are stored under the same identifier, the clock is past the completion of the runs
  in the table, and of rows that tie SQLite returns one of them.\<close>

theorem rebuild_skips:
  assumes "index_sound (wd_db w)" "distinct_ids (db_now (wd_db w))"
    and "fresh_clock E (wd_ticks w) (db_now (wd_db w))" "\<And>xs. xs \<noteq> [] \<Longrightarrow> en_first E xs \<in> set xs"
    and "run_index_build (persistent_services D E) J fb config w = (Inr b, w')"
    and "wd_db v = wd_db w'" "run_index_build (persistent_services D E) J fb config v = (r, v')"
  shows "wd_vectors v' = wd_vectors v \<and> sc_index_entries (db_now (wd_db v')) = sc_index_entries (db_now (wd_db v)) \<and>
    (\<forall>b'. r = Inr b' \<longrightarrow> ib_indexed_count b' = 0 \<and> ib_stale_count b' = 0 \<and>
       ib_skipped_count b' = ib_indexed_count b + ib_skipped_count b)"
proof -
  note f = first_build [OF assms(5,1,2,4,3)]
  have "same_index (wd_db w') (wd_db v)" by (simp add: assms(6))
  from all_indexed_view [OF this f(2)] f(1) show ?thesis
    by (intro second_build [OF assms(7)]) (simp_all add: assms(6))
qed

text \<open>A repository with one atom; the process starts again with an empty vector index.\<close>

definition printing_environment :: "(jtree, unit) environment" where
  "printing_environment = demo_environment\<lparr>en_json := tree_json\<rparr>"

definition one_atom_world :: "(string \<rightharpoonup> int, unit) world" where
  "one_atom_world = persistent_world (migrated_database\<lparr>db_now := (db_now migrated_database)\<lparr>sc_atoms := [(''a1'',
     \<lparr>ar_domain = ''cpp'', ar_title = ''Engine'', ar_claim = ''Built it'', ar_tags_json = enc_tree (TArray []),
      ar_verified = 1, ar_evidence_refs_json = enc_tree (TArray [])\<rparr>)]\<rparr>\<rparr>) (Memory_Vectors []) () 0"

definition whole_scope :: index_build_config where
  "whole_scope = \<lparr>ic_scope = ''all'', ic_provider_id = ''stub'', ic_model_id = [], ic_prompt_version = []\<rparr>"

lemma prints_tree: "prints tree_json"
  by (simp add: prints_def tree_json_def is_ok_def)

lemma one_atom_items:
  "loop_items whole_scope ''atoms'' (atom_artifacts (persistent_services no_docx printing_environment)) one_atom_world =
     Inr [(''a1'', ''Engine Built it'')]"
  "loop_items whole_scope ''resumes'' (resume_artifacts (persistent_services no_docx printing_environment)) one_atom_world = Inr []"
  "loop_items whole_scope ''opportunities'' (opportunity_artifacts (persistent_services no_docx printing_environment)) one_atom_world = Inr []"
proof -
  have p: "j_parse tree_json (enc_tree j) = Inr j" for j using tree.parse_dump [of j "enc_tree j"] by (simp add: tree_json_def)
  then have "tags_of_text tree_json (enc_tree (TArray [])) = Inr []"
    unfolding tags_of_text_def p by (simp add: tree_json_def)
  then show "loop_items whole_scope ''atoms'' (atom_artifacts (persistent_services no_docx printing_environment)) one_atom_world =
     Inr [(''a1'', ''Engine Built it'')]"
    by (simp add: loop_items_def in_scope_def whole_scope_def atom_artifacts_def persistent_ops sqlite_atoms_list_all_def
        query_then_map one_atom_world_def persistent_world_def row_to_atom_def printing_environment_def atom_canonical_text_def
        has_tables_def migrated_database_def schema_of_def kSchemaV1_def)
qed (simp_all add: loop_items_def in_scope_def whole_scope_def resume_artifacts_def opportunity_artifacts_def persistent_ops
      sqlite_resumes_list_all_def sqlite_opps_list_all_def query_then_map one_atom_world_def persistent_world_def
      migrated_database_def empty_content_def)

lemma one_atom_sound: "index_sound (wd_db one_atom_world)"
  by (simp add: index_sound_def Let_def one_atom_world_def persistent_world_def migrated_database_def empty_content_def
      owned_def schema_of_def kSchemaV1_def kSchemaV2_def kSchemaV3_def kSchemaV4_def kSchemaV5_def kSchemaV6_def kSchemaV7_def)

lemma one_atom_audit: "audit_ready printing_environment 6 one_atom_world"
proof -
  have "unused_ids deterministic_next 6 0 {}"
    by code_simp
  then show ?thesis
    by (simp add: audit_ready_def Let_def one_atom_world_def persistent_world_def printing_environment_def demo_environment_def
        prepare_error_None migrated_database_def empty_content_def schema_of_def kSchemaV1_def)
qed

theorem rebuild_skips_witness:
  "\<exists>b w' b' v'. run_index_build (persistent_services no_docx printing_environment) tree_json (\<lambda>_. []) whole_scope one_atom_world =
       (Inr b, w') \<and> ib_indexed_count b + ib_skipped_count b = 1 \<and>
     run_index_build (persistent_services no_docx printing_environment) tree_json (\<lambda>_. []) whole_scope
       (w'\<lparr>wd_vectors := Memory_Vectors []\<rparr>) = (Inr b', v') \<and>
     wd_vectors v' = Memory_Vectors [] \<and> ib_indexed_count b' = 0 \<and> ib_skipped_count b' = 1"
proof -
  let ?E = printing_environment and ?w = one_atom_world
  let ?S = "persistent_services no_docx ?E"
  have J: "prints tree_json" "prints (en_json ?E)" by (simp_all add: prints_tree printing_environment_def)
  have "audit_ready ?E (2 + length [(''a1'', ''Engine Built it'')] + length ([] :: (string \<times> string) list) +
      length ([] :: (string \<times> string) list) + 3) ?w"
    using one_atom_audit by (simp add: numeral_eq_Suc)
  from build_returns [OF J one_atom_sound one_atom_items this, of "\<lambda>_. []"] obtain b w' where
    1: "run_index_build ?S tree_json (\<lambda>_. []) whole_scope ?w = (Inr b, w')" "audit_ready ?E 3 w'" by blast
  let ?v = "w'\<lparr>wd_vectors := Memory_Vectors []\<rparr>"
  have first: "en_first ?E xs \<in> set xs" if "xs \<noteq> []" for xs
    using that by (simp add: printing_environment_def demo_environment_def)
  have ids: "distinct_ids (db_now (wd_db ?w))" "fresh_clock ?E (wd_ticks ?w) (db_now (wd_db ?w))"
    by (simp_all add: distinct_ids_def fresh_clock_def latest_stamp_def one_atom_world_def persistent_world_def
        migrated_database_def empty_content_def)
  have f: "index_sound (wd_db w')" "all_indexed no_docx ?E whole_scope (ib_indexed_count b + ib_skipped_count b) w'"
    "catalog (db_now (wd_db w')) = catalog (db_now (wd_db ?w))"
    by (rule first_build [OF 1(1) one_atom_sound ids(1) _ ids(2)], erule first)+
  have n: "ib_indexed_count b + ib_skipped_count b = 1"
    using f(2) unfolding all_indexed_def loop_items_catalog [OF artifacts_read(1) f(3)] loop_items_catalog [OF artifacts_read(2) f(3)]
      loop_items_catalog [OF artifacts_read(3) f(3)] one_atom_items by simp
  have v: "wd_db ?v = wd_db w'" by simp
  have cat: "catalog (db_now (wd_db ?v)) = catalog (db_now (wd_db ?w))" unfolding v by (rule f(3))
  note items' = trans [OF loop_items_catalog [OF artifacts_read(1) cat] one_atom_items(1)]
    trans [OF loop_items_catalog [OF artifacts_read(2) cat] one_atom_items(2)]
    trans [OF loop_items_catalog [OF artifacts_read(3) cat] one_atom_items(3)]
  have "audit_ready ?E (2 + length [(''a1'', ''Engine Built it'')] + length ([] :: (string \<times> string) list) +
      length ([] :: (string \<times> string) list) + 0) ?v"
    using 1(2) by (simp add: numeral_eq_Suc audit_ready_def Let_def del: unused_ids.simps)
  with build_returns [OF J _ items', of 0 "\<lambda>_. []"] f(1) obtain b' v' where
    2: "run_index_build ?S tree_json (\<lambda>_. []) whole_scope ?v = (Inr b', v')" unfolding v by blast
  from rebuild_skips [OF one_atom_sound ids first 1(1) v 2] n 1(1) 2 show ?thesis by auto
qed

end
