(* ===== verification/Redis_Connection.thy ===== *)
theory Redis_Connection
  imports Redis_Config
begin

text \<open>
  Connecting to Redis: the probe (\<open>src/interaction/redis_health.cpp\<close>) and the constructor of the
  coordinator (\<open>src/interaction/redis_interaction_coordinator.cpp\<close>). Opening a connection, \<open>PING\<close>
  and \<open>SCRIPT LOAD\<close> belong to the client library: they are a record of functions that return or throw.
\<close>

text \<open>What a C++ call throws: an exception with a text, or something that is no \<open>std::exception\<close>.\<close>

datatype thrown = Std_Exception string | Other_Exception

record 'c redis_client =
  rc_open :: "string \<Rightarrow> (thrown, 'c) result"
  rc_ping :: "'c \<Rightarrow> (thrown, unit) result"
  rc_script_load :: "'c \<Rightarrow> string \<Rightarrow> (thrown, string) result"

section \<open>The probe\<close>

record redis_health_result =
  rh_reachable :: bool
  rh_error :: string

definition redis_ping :: "'c redis_client \<Rightarrow> string \<Rightarrow> redis_health_result" where
  "redis_ping R uri =
     (case result_bind (rc_open R uri) (rc_ping R) of
        Inr _ \<Rightarrow> \<lparr>rh_reachable = True, rh_error = []\<rparr>
      | Inl (Std_Exception e) \<Rightarrow> \<lparr>rh_reachable = False, rh_error = e\<rparr>
      | Inl Other_Exception \<Rightarrow> \<lparr>rh_reachable = False, rh_error = ''unknown error''\<rparr>)"

section \<open>The coordinator's constructor\<close>

text \<open>The text of the script is an argument; what it does is \<open>apply_transition_script\<close>.\<close>

record 'c redis_coordinator =
  ro_redis :: 'c
  ro_script_sha :: string

definition load_scripts :: "'c redis_client \<Rightarrow> string \<Rightarrow> 'c \<Rightarrow> (thrown, 'c redis_coordinator) result" where
  "load_scripts R script c =
     result_bind (rc_script_load R c script) (\<lambda>sha. Inr \<lparr>ro_redis = c, ro_script_sha = sha\<rparr>)"

definition make_redis_coordinator :: "'c redis_client \<Rightarrow> string \<Rightarrow> string \<Rightarrow> (thrown, 'c redis_coordinator) result" where
  "make_redis_coordinator R script uri =
     (case result_bind (rc_open R uri) (\<lambda>c. result_bind (rc_ping R c) (\<lambda>_. load_scripts R script c)) of
        Inl (Std_Exception e) \<Rightarrow> Inl (Std_Exception (''Failed to connect to Redis: '' @ e))
      | r \<Rightarrow> r)"

section \<open>Lemmas\<close>

text \<open>A coordinator exists only where the probe succeeds; where it fails, both give the same text.\<close>

lemma coordinator_reachable:
  "make_redis_coordinator R script uri = Inr c \<Longrightarrow> redis_ping R uri = \<lparr>rh_reachable = True, rh_error = []\<rparr>"
  by (auto simp: make_redis_coordinator_def redis_ping_def result_bind_Inr_iff split: sum.splits thrown.splits)

lemma unreachable_coordinator:
  assumes "\<not> rh_reachable (redis_ping R uri)"
  shows "make_redis_coordinator R script uri = Inl (Std_Exception (''Failed to connect to Redis: '' @ rh_error (redis_ping R uri))) \<or>
    make_redis_coordinator R script uri = Inl Other_Exception \<and> rh_error (redis_ping R uri) = ''unknown error''"
proof (cases "rc_open R uri")
  case (Inl t)
  then show ?thesis by (cases t) (simp_all add: make_redis_coordinator_def redis_ping_def)
next
  case c: (Inr c)
  show ?thesis
  proof (cases "rc_ping R c")
    case (Inl t)
    then show ?thesis using c by (cases t) (simp_all add: make_redis_coordinator_def redis_ping_def)
  next
    case (Inr u)
    then show ?thesis using c assms by (simp add: redis_ping_def)
  qed
qed

end
