(* ===== verification/Cli.thy ===== *)
theory Cli
  imports Startup Tokenization Redis_Connection
begin

text \<open>
  The command line tool (\<open>apps/ccmcp_cli/\<close>): its seven commands over the stores and pipelines of the
  other theories. A command runs over a console, the world with the lines printed so far; it returns an exit
  code, or ends by an exception that nothing catches. Parameters: the files, the clock, the JSON library and
  its printer with indentation, and the Redis client.
\<close>

section \<open>The console\<close>

record 'w console =
  co_out :: "string list"
  co_err :: "string list"
  co_world :: 'w

type_synonym ('w, 'a) cli_action = "('w console, 'a) action"

definition print_out :: "string list \<Rightarrow> ('w, unit) cli_action" where
  "print_out lines = act_modify (\<lambda>c. c\<lparr>co_out := co_out c @ lines\<rparr>)"

definition print_err :: "string list \<Rightarrow> ('w, unit) cli_action" where
  "print_err lines = act_modify (\<lambda>c. c\<lparr>co_err := co_err c @ lines\<rparr>)"

definition in_world :: "('w, 'a) action \<Rightarrow> ('w, 'a) cli_action" where
  "in_world = act_on co_world (\<lambda>w c. c\<lparr>co_world := w\<rparr>)"

text \<open>An error value that the caller looks at, rather than an exception.\<close>

definition act_try :: "('w, 'a) action \<Rightarrow> ('w, (string, 'a) result) action" where
  "act_try m w = (case m w of (r, w') \<Rightarrow> (Inr r, w'))"

text \<open>\<open>std::cerr << message; return 1;\<close>.\<close>

definition fail_with :: "string \<Rightarrow> ('w, int) cli_action" where
  "fail_with message = act_bind (print_err [message]) (\<lambda>_. act_return 1)"

record cli_result =
  cr_out :: "string list"
  cr_err :: "string list"
  cr_status :: exit_status
  cr_db :: sqlite_db

definition run_cli :: "(('l, 'c) world, int) cli_action \<Rightarrow> ('l, 'c) world \<Rightarrow> cli_result" where
  "run_cli m w =
     (case m \<lparr>co_out = [], co_err = [], co_world = w\<rparr> of
        (r, c) \<Rightarrow>
          \<lparr>cr_out = co_out c, cr_err = co_err c,
           cr_status = (case r of Inr code \<Rightarrow> Exited code | Inl e \<Rightarrow> Terminated e), cr_db = wd_db (co_world c)\<rparr>)"

section \<open>Options, databases and vector files\<close>

definition cli_options :: "(string \<times> ('c \<Rightarrow> string \<Rightarrow> 'c handled)) list \<Rightarrow> 'c cli_option list" where
  "cli_options = map (\<lambda>(name, h). \<lparr>op_name = name, op_requires_value = True, op_handler = h\<rparr>)"

definition set_option :: "('a option \<Rightarrow> 'c \<Rightarrow> 'c) \<Rightarrow> 'c \<Rightarrow> 'a \<Rightarrow> 'c handled" where
  "set_option upd config v = ([], Inr (upd (Some v) config))"

text \<open>The rest of a command after its options: no handler of the tool ends the process.\<close>

definition with_options ::
  "'c cli_option list \<Rightarrow> string list \<Rightarrow> 'c \<Rightarrow> ('c \<Rightarrow> ('w, int) cli_action) \<Rightarrow> ('w, int) cli_action" where
  "with_options options args config rest =
     (case parse_options (option_map options) args config of
        (messages, Inl code) \<Rightarrow> act_bind (print_err messages) (\<lambda>_. act_return code)
      | (messages, Inr config') \<Rightarrow> act_bind (print_err messages) (\<lambda>_. rest config'))"

definition with_database ::
  "('j, 'c) outside \<Rightarrow> string \<Rightarrow> bool sql_action \<Rightarrow> (('l, 'c) world, int) cli_action \<Rightarrow> (('l, 'c) world, int) cli_action" where
  "with_database U path ensure rest =
     (case ou_open_db U path of
        Inl e \<Rightarrow> fail_with (''Failed to open database: '' @ e)
      | Inr db \<Rightarrow>
          act_bind (in_world (act_modify (\<lambda>w. w\<lparr>wd_db := db\<rparr>))) (\<lambda>_.
          act_bind (in_world (act_try (on_world_db ensure))) (\<lambda>applied.
            case applied of
              Inl e \<Rightarrow> fail_with (''Failed to initialize schema: '' @ e)
            | Inr _ \<Rightarrow> rest)))"

definition with_vector_file ::
  "('j, 'c) outside \<Rightarrow> string \<Rightarrow> (('l, 'c) world, int) cli_action \<Rightarrow> (('l, 'c) world, int) cli_action" where
  "with_vector_file U dir rest =
     act_bind (act_lift (ou_create_directories U dir)) (\<lambda>_.
       let db_file = dir @ ''/vectors.db''
       in case make_sqlite_index db_file (ou_open_vectors U db_file) of
            Inl e \<Rightarrow> fail_with (''Error: failed to open vector index: '' @ e)
          | Inr table \<Rightarrow>
              act_bind (in_world (act_modify (\<lambda>w. w\<lparr>wd_vectors := Table_Vectors table\<rparr>))) (\<lambda>_.
              act_bind (print_out [''Using SQLite-backed vector index: '' @ db_file]) (\<lambda>_. rest)))"

text \<open>The tool's generator counts from 0 in every process.\<close>

definition cli_environment :: "('j, 'c) outside \<Rightarrow> ('j, 'c) environment" where
  "cli_environment U = (ou_environment U)\<lparr>en_next_id := deterministic_next\<rparr>"

definition cli_world :: "vector_store \<Rightarrow> 'l \<Rightarrow> 'c \<Rightarrow> ('l, 'c) world" where
  "cli_world vectors lg coord =
     \<lparr>wd_counter = 0, wd_ticks = 0, wd_atoms = [], wd_opps = [], wd_log = lg, wd_vectors = vectors,
      wd_coord = coord, wd_db = sqlite_open\<rparr>"

section \<open>match\<close>

record match_cli_config =
  ml_db_path :: "string option"
  ml_matching_strategy :: matching_strategy
  ml_vector_backend :: string
  ml_vector_db_path :: "string option"
  ml_override_rule_id :: "string option"
  ml_override_operator_id :: "string option"
  ml_override_reason :: "string option"

definition default_match_config :: match_cli_config where
  "default_match_config =
     \<lparr>ml_db_path = None, ml_matching_strategy = kDeterministicLexicalV01, ml_vector_backend = ''inmemory'',
      ml_vector_db_path = None, ml_override_rule_id = None, ml_override_operator_id = None,
      ml_override_reason = None\<rparr>"

definition match_options :: "match_cli_config cli_option list" where
  "match_options = cli_options
     [(''--db'', set_option (\<lambda>v. ml_db_path_update (\<lambda>_. v))),
      (''--matching-strategy'', \<lambda>c v.
         if v = ''hybrid'' then ([], Inr (c\<lparr>ml_matching_strategy := kHybridLexicalEmbeddingV02\<rparr>))
         else if v = ''lexical'' then ([], Inr (c\<lparr>ml_matching_strategy := kDeterministicLexicalV01\<rparr>))
         else ([''Invalid --matching-strategy: '' @ v @ '' (valid: lexical, hybrid)''], Inr c)),
      (''--vector-backend'', \<lambda>c v.
         if v = ''inmemory'' \<or> v = ''sqlite'' then ([], Inr (c\<lparr>ml_vector_backend := v\<rparr>))
         else ([''Invalid --vector-backend: '' @ v @ '' (valid: inmemory, sqlite)''], Inr c)),
      (''--vector-db-path'', set_option (\<lambda>v. ml_vector_db_path_update (\<lambda>_. v))),
      (''--override-rule'', set_option (\<lambda>v. ml_override_rule_id_update (\<lambda>_. v))),
      (''--operator'', set_option (\<lambda>v. ml_override_operator_id_update (\<lambda>_. v))),
      (''--reason'', set_option (\<lambda>v. ml_override_reason_update (\<lambda>_. v)))]"

text \<open>The three override flags come together or not at all.\<close>

definition cli_override :: "match_cli_config \<Rightarrow> (string, override_request option) result" where
  "cli_override config =
     (case (ml_override_rule_id config, ml_override_operator_id config, ml_override_reason config) of
        (None, None, None) \<Rightarrow> Inr None
      | (Some rule, Some op, Some reason) \<Rightarrow>
          Inr (Some \<lparr>or_binding_hash_alg = ''sha256'', or_operator_id = op, or_payload_hash = [],
                     or_reason = reason, or_rule_id = rule\<rparr>)
      | _ \<Rightarrow> Inl ''Error: --override-rule requires both --operator and --reason'')"

fun cli_status_text :: "validation_status \<Rightarrow> string" where
  "cli_status_text kNeedsReview = ''needs_review''"
| "cli_status_text s = status_text s"

definition demo_opportunity :: "string \<Rightarrow> opportunity" where
  "demo_opportunity i =
     \<lparr>opportunity_id = OpportunityId i, opp_company = ''ExampleCo'', opp_role_title = ''Principal Architect'',
      opp_requirements =
        [\<lparr>req_text = ''C++20'', req_tags = [''cpp'', ''cpp20''], req_required = True\<rparr>,
         \<lparr>req_text = ''Architecture experience'', req_tags = [''architecture''], req_required = True\<rparr>],
      opp_source = ''manual''\<rparr>"

definition architecture_atom :: "string \<Rightarrow> experience_atom" where
  "architecture_atom i =
     \<lparr>atom_id = AtomId i, atom_domain = ''architecture'', atom_title = ''Architecture Leadership'',
      atom_claim = ''Led architecture decisions'', atom_tags = [''architecture'', ''governance''],
      atom_verified = True, atom_evidence_refs = []\<rparr>"

definition cpp_atom :: "string \<Rightarrow> experience_atom" where
  "cpp_atom i =
     \<lparr>atom_id = AtomId i, atom_domain = ''cpp'', atom_title = ''Modern C++'', atom_claim = ''Built C++20 systems'',
      atom_tags = [''cpp20'', ''systems''], atom_verified = False, atom_evidence_refs = []\<rparr>"

definition match_out_json :: "'j json_api \<Rightarrow> match_report \<Rightarrow> validation_report \<Rightarrow> 'j" where
  "match_out_json J report vreport = j_object J
     [(''matched_atoms'', j_array J (map (\<lambda>a. j_string J (atom_id_value a)) (mr_matched_atoms report))),
      (''opportunity_id'', j_string J (opportunity_id_value (mr_opportunity_id report))),
      (''scores'', j_object J
         [(''bonus'', j_double J (sb_bonus (mr_breakdown report))),
          (''final'', j_double J (sb_final_score (mr_breakdown report))),
          (''lexical'', j_double J (sb_lexical (mr_breakdown report))),
          (''semantic'', j_double J (sb_semantic (mr_breakdown report)))]),
      (''strategy'', j_string J (mr_strategy report)),
      (''validation_status'', j_string J (cli_status_text (vr_status vreport)))]"

definition run_match_demo ::
  "'w services \<Rightarrow> (opportunity \<Rightarrow> ('w, unit) action) \<Rightarrow> (experience_atom \<Rightarrow> ('w, unit) action) \<Rightarrow> 'j json_api \<Rightarrow>
   ('j \<Rightarrow> (string, string) result) \<Rightarrow> matching_strategy \<Rightarrow> override_request option \<Rightarrow> ('w, unit) cli_action" where
  "run_match_demo S opp_upsert atom_upsert J dump2 strategy override_req =
     act_bind (in_world (sv_next_id S ''trace'')) (\<lambda>trace_id.
     act_bind (in_world (emit S trace_id ''RunStarted''
         ''{\"cli_version\":\"v0.1\",\"deterministic\":true}'' [])) (\<lambda>_.
     act_bind (in_world (sv_next_id S ''opp'')) (\<lambda>oid.
     act_bind (in_world (opp_upsert (demo_opportunity oid))) (\<lambda>_.
     act_bind (in_world (sv_next_id S ''atom'')) (\<lambda>aid.
     act_bind (in_world (atom_upsert (architecture_atom aid))) (\<lambda>_.
     act_bind (in_world (sv_next_id S ''atom'')) (\<lambda>aid.
     act_bind (in_world (atom_upsert (cpp_atom aid))) (\<lambda>_.
     act_bind (in_world (sv_atoms_verified S)) (\<lambda>verified_atoms.
     act_bind (in_world (sv_vector_query S)) (\<lambda>query.
     let report = evaluate (pipeline_matcher strategy) (demo_opportunity oid) verified_atoms (Some (sv_embedding S)) (Some query)
     in act_bind (in_world (emit S trace_id ''MatchCompleted''
           (''{\"opportunity_id\":\"'' @ opportunity_id_value (mr_opportunity_id report) @
            ''\",\"overall_score\":'' @ std_to_string_double (mr_overall_score report) @ ''}'')
           [opportunity_id_value (mr_opportunity_id report)])) (\<lambda>_.
        act_bind (in_world (run_validation_pipeline S report trace_id override_req)) (\<lambda>vreport.
        act_bind (act_lift (dump2 (match_out_json J report vreport))) (\<lambda>out.
        act_bind (print_out [out]) (\<lambda>_.
        act_bind (in_world (emit S trace_id ''RunCompleted'' ''{\"status\":\"success\"}'' [])) (\<lambda>_.
        act_bind (print_out [[], ''--- Audit Trail (trace_id='' @ trace_id @ '') ---'']) (\<lambda>_.
        act_bind (in_world (sv_audit_query S trace_id)) (\<lambda>events.
          print_out (map (\<lambda>e. ae_created_at e @ '' ['' @ ae_event_type e @ ''] '' @ ae_payload e) events))))))))))))))))))"

definition match_banner :: "match_cli_config \<Rightarrow> override_request option \<Rightarrow> string list" where
  "match_banner config override_req =
     [''career-coordination-mcp v0.1''] @
     (case ml_db_path config of None \<Rightarrow> [] | Some p \<Rightarrow> [''Using SQLite database: '' @ p]) @
     (if ml_matching_strategy config = kHybridLexicalEmbeddingV02
      then [''Matching strategy: hybrid (lexical + embedding)'', ''Vector backend: '' @ ml_vector_backend config]
      else []) @
     (case override_req of None \<Rightarrow> []
      | Some req \<Rightarrow> [''Constitutional override: rule='' @ or_rule_id req @ '' operator='' @ or_operator_id req])"

text \<open>The part of the command before the storage is chosen.\<close>

definition match_command ::
  "('j, 'c) outside \<Rightarrow> string list \<Rightarrow> match_cli_config \<Rightarrow>
   (override_request option \<Rightarrow> (('l, 'c) world, int) cli_action) \<Rightarrow> (('l, 'c) world, int) cli_action" where
  "match_command U messages config run =
     act_bind (print_err messages) (\<lambda>_.
     case cli_override config of
       Inl e \<Rightarrow> fail_with e
     | Inr override_req \<Rightarrow>
         act_bind (print_out (match_banner config override_req)) (\<lambda>_.
           if ml_vector_backend config = ''sqlite''
           then (case ml_vector_db_path config of
                   None \<Rightarrow> fail_with ''Error: --vector-db-path <dir> is required when --vector-backend sqlite''
                 | Some dir \<Rightarrow> with_vector_file U dir (run override_req))
           else run override_req))"

definition match_environment :: "('j, 'c) outside \<Rightarrow> ('j, 'c) environment" where
  "match_environment U = (cli_environment U)\<lparr>en_clock := fixed_clock ''2026-01-01T00:00:00Z''\<rparr>"

definition match_over_database ::
  "('src, 'zip, 'file, 'doc, 'node) docx_api \<Rightarrow> ('j, 'c) outside \<Rightarrow> ('j \<Rightarrow> (string, string) result) \<Rightarrow>
   match_cli_config \<Rightarrow> string \<Rightarrow> override_request option \<Rightarrow> ((string \<rightharpoonup> int, 'c) world, int) cli_action" where
  "match_over_database D U dump2 config path override_req =
     (let E = match_environment U; J = en_json E
      in with_database U path ensure_schema_v1
           (act_bind (run_match_demo ((persistent_services D E)\<lparr>sv_embedding := null_provider\<rparr>)
               (\<lambda>p. on_world_db (sqlite_opps_upsert J p)) (\<lambda>a. on_world_db (sqlite_atoms_upsert J a)) J dump2
               (ml_matching_strategy config) override_req) (\<lambda>_. act_return 0)))"

definition match_in_memory ::
  "('src, 'zip, 'file, 'doc, 'node) docx_api \<Rightarrow> ('j, 'c) outside \<Rightarrow> ('j \<Rightarrow> (string, string) result) \<Rightarrow>
   match_cli_config \<Rightarrow> override_request option \<Rightarrow> ((audit_log, 'c) world, int) cli_action" where
  "match_in_memory D U dump2 config override_req =
     (let E = match_environment U
      in act_bind (run_match_demo ((ephemeral_services D E)\<lparr>sv_embedding := null_provider\<rparr>)
           (\<lambda>p. act_modify (\<lambda>w. w\<lparr>wd_opps := opps_upsert p (wd_opps w)\<rparr>))
           (\<lambda>a. act_modify (\<lambda>w. w\<lparr>wd_atoms := atoms_upsert a (wd_atoms w)\<rparr>)) (en_json E) dump2
           (ml_matching_strategy config) override_req) (\<lambda>_. act_return 0))"

definition cmd_match ::
  "('src, 'zip, 'file, 'doc, 'node) docx_api \<Rightarrow> ('j, unit) outside \<Rightarrow> ('j \<Rightarrow> (string, string) result) \<Rightarrow>
   string list \<Rightarrow> cli_result" where
  "cmd_match D U dump2 args =
     (case parse_options (option_map match_options) args default_match_config of
        (messages, Inl code) \<Rightarrow> \<lparr>cr_out = [], cr_err = messages, cr_status = Exited code, cr_db = sqlite_open\<rparr>
      | (messages, Inr config) \<Rightarrow>
          (case ml_db_path config of
             Some path \<Rightarrow> run_cli (match_command U messages config (match_over_database D U dump2 config path))
               (cli_world No_Vectors Map.empty ())
           | None \<Rightarrow> run_cli (match_command U messages config (match_in_memory D U dump2 config))
               (cli_world No_Vectors empty_log ())))"

section \<open>index-build\<close>

record index_build_cli_config =
  il_db_path :: string
  il_vector_backend :: vector_backend
  il_vector_db_path :: "string option"
  il_scope :: string
  il_args_valid :: bool

definition default_index_config :: index_build_cli_config where
  "default_index_config =
     \<lparr>il_db_path = ''data/ccmcp.db'', il_vector_backend = kInMemory, il_vector_db_path = None, il_scope = ''all'',
      il_args_valid = True\<rparr>"

definition index_options :: "index_build_cli_config cli_option list" where
  "index_options = cli_options
     [(''--db'', \<lambda>c v. ([], Inr (c\<lparr>il_db_path := v\<rparr>))),
      (''--vector-backend'', \<lambda>c v.
         (case parse_vector_backend v of
            None \<Rightarrow> ([''Invalid --vector-backend: '' @ v @
                '' (valid: inmemory, sqlite; lancedb is reserved and not yet implemented)''],
                Inr (c\<lparr>il_args_valid := False\<rparr>))
          | Some kLanceDb \<Rightarrow>
              ([''Error: --vector-backend lancedb is reserved and not yet implemented.'',
                ''       Use --vector-backend sqlite for persistent vector storage.''],
               Inr (c\<lparr>il_args_valid := False\<rparr>))
          | Some backend \<Rightarrow> ([], Inr (c\<lparr>il_vector_backend := backend\<rparr>)))),
      (''--vector-db-path'', set_option (\<lambda>v. il_vector_db_path_update (\<lambda>_. v))),
      (''--scope'', \<lambda>c v.
         if v = ''atoms'' \<or> v = ''resumes'' \<or> v = ''opportunities'' \<or> v = ''all''
         then ([], Inr (c\<lparr>il_scope := v\<rparr>))
         else ([''Invalid --scope: '' @ v @ '' (valid: atoms, resumes, opportunities, all)''],
               Inr (c\<lparr>il_args_valid := False\<rparr>)))]"

definition execute_index_build ::
  "'w services \<Rightarrow> 'j json_api \<Rightarrow> (rat \<Rightarrow> string) \<Rightarrow> index_build_config \<Rightarrow> ('w, int) cli_action" where
  "execute_index_build S J fb config =
     act_bind (in_world (run_index_build S J fb config)) (\<lambda>result.
     act_bind (print_out
         [''Index build complete:'', ''  run_id:  '' @ ib_run_id result,
          ''  indexed: '' @ to_string_nat (ib_indexed_count result),
          ''  skipped: '' @ to_string_nat (ib_skipped_count result),
          ''  stale:   '' @ to_string_nat (ib_stale_count result)]) (\<lambda>_.
       act_return 0))"

definition index_build_command ::
  "('src, 'zip, 'file, 'doc, 'node) docx_api \<Rightarrow> ('j, 'c) outside \<Rightarrow> index_build_cli_config \<Rightarrow>
   ((string \<rightharpoonup> int, 'c) world, int) cli_action" where
  "index_build_command D U config =
     (let E = cli_environment U;
          build = act_bind (print_out [''Starting index-build: db='' @ il_db_path config @ '' scope='' @ il_scope config @
                '' backend='' @ vector_backend_to_string (il_vector_backend config)]) (\<lambda>_.
              execute_index_build (persistent_services D E) (en_json E) (ou_float_bytes U)
                \<lparr>ic_scope = il_scope config, ic_provider_id = ''deterministic-stub'', ic_model_id = [],
                 ic_prompt_version = []\<rparr>)
      in if \<not> il_args_valid config then act_return 1
         else if il_vector_backend config = kSqlite \<and> il_vector_db_path config = None
         then fail_with ''Error: --vector-db-path <dir> is required when --vector-backend sqlite''
         else with_database U (il_db_path config) ensure_schema_v6
                (if il_vector_backend config = kSqlite
                 then with_vector_file U (the (il_vector_db_path config)) build else build))"

definition cmd_index_build ::
  "('src, 'zip, 'file, 'doc, 'node) docx_api \<Rightarrow> ('j, unit) outside \<Rightarrow> string list \<Rightarrow> cli_result" where
  "cmd_index_build D U args =
     run_cli (with_options index_options args default_index_config (index_build_command D U))
       (cli_world (Memory_Vectors []) Map.empty ())"

section \<open>ingest-resume and tokenize-resume\<close>

definition kDefaultDb :: string where
  "kDefaultDb = ''data/ccmcp.db''"

definition announce_db :: "string option \<Rightarrow> ('w, string) cli_action" where
  "announce_db given =
     (case given of
        Some p \<Rightarrow> act_return p
      | None \<Rightarrow> act_bind (print_out [''No --db specified, using default: '' @ kDefaultDb]) (\<lambda>_. act_return kDefaultDb))"

definition execute_ingest_resume :: "string \<Rightarrow> 'w services \<Rightarrow> ('w, int) cli_action" where
  "execute_ingest_resume file_path S =
     act_bind (print_out [''Ingesting resume from: '' @ file_path]) (\<lambda>_.
     act_bind (in_world (sv_ingest_file S file_path
         \<lparr>io_source_path = None, io_extracted_at = None, io_enable_hygiene = True\<rparr>)) (\<lambda>result.
     case result of
       Inl e \<Rightarrow> fail_with (''Ingestion failed: '' @ e)
     | Inr resume \<Rightarrow>
         act_bind (in_world (sv_resume_upsert S resume)) (\<lambda>_.
         act_bind (print_out
             ([''Success!'', ''  Resume ID: '' @ resume_id_value (ir_resume_id resume),
               ''  Resume hash: '' @ ir_resume_hash resume,
               ''  Extraction method: '' @ meta_extraction_method (ir_meta resume),
               ''  Ingestion version: '' @ meta_ingestion_version (ir_meta resume)] @
              (case meta_source_path (ir_meta resume) of None \<Rightarrow> [] | Some p \<Rightarrow> [''  Source path: '' @ p]) @
              [''  Resume content length: '' @ to_string_nat (length (ir_resume_md resume)) @ '' bytes''])) (\<lambda>_.
           act_return 0))))"

definition cmd_ingest_resume ::
  "('src, 'zip, 'file, 'doc, 'node) docx_api \<Rightarrow> ('j, unit) outside \<Rightarrow> string list \<Rightarrow> cli_result" where
  "cmd_ingest_resume D U args =
     run_cli
       (case args of
          [] \<Rightarrow> fail_with ''Usage: ccmcp_cli ingest-resume <file-path> [--db <db-path>]''
        | file_path # rest \<Rightarrow>
            with_options (cli_options [(''--db'', set_option (\<lambda>v _. v))]) rest None (\<lambda>given.
              act_bind (announce_db given) (\<lambda>db_path.
                with_database U db_path ensure_schema_v2
                  (execute_ingest_resume file_path (persistent_services D (cli_environment U))))))
       (cli_world No_Vectors Map.empty ())"

record tokenize_cli_config =
  tl_db_path :: "string option"
  tl_mode :: string
  tl_args_valid :: bool

definition tokenize_options :: "tokenize_cli_config cli_option list" where
  "tokenize_options = cli_options
     [(''--db'', set_option (\<lambda>v. tl_db_path_update (\<lambda>_. v))),
      (''--mode'', \<lambda>c v.
         if v = ''deterministic'' \<or> v = ''stub-inference'' then ([], Inr (c\<lparr>tl_mode := v\<rparr>))
         else ([''Invalid --mode: '' @ v @ '' (valid: deterministic, stub-inference)''],
               Inr (c\<lparr>tl_args_valid := False\<rparr>)))]"

definition execute_tokenize_resume ::
  "string \<Rightarrow> string \<Rightarrow> 'j json_api \<Rightarrow> (('l, 'c) world, int) cli_action" where
  "execute_tokenize_resume resume_id_str mode J =
     act_bind (in_world (on_world_db (sqlite_resumes_get (ResumeId resume_id_str)))) (\<lambda>found.
     case found of
       None \<Rightarrow> fail_with (''Resume not found: '' @ resume_id_str)
     | Some resume \<Rightarrow>
         act_bind (print_out
             [(if mode = ''deterministic'' then ''Using deterministic lexical tokenizer''
               else ''Using stub inference tokenizer''),
              ''Tokenizing resume: '' @ resume_id_str]) (\<lambda>_.
         let ir = (if mode = ''deterministic'' then lexical_tokenize True (ir_resume_md resume) (ir_resume_hash resume)
                   else stub_tokenize (ir_resume_md resume) (ir_resume_hash resume));
             type_text = tokenizer_type_to_string (tm_type (ir_tokenizer ir));
             token_ir_id = resume_id_str @ ''-'' @ type_text
         in act_bind (in_world (on_world_db (sqlite_token_ir_upsert J token_ir_id (ResumeId resume_id_str) ir))) (\<lambda>_.
            act_bind (print_out
                ([''Success!'', ''  Token IR ID: '' @ token_ir_id, ''  Source hash: '' @ ir_source_hash ir,
                  ''  Tokenizer type: '' @ type_text] @
                 (case tm_model_id (ir_tokenizer ir) of None \<Rightarrow> [] | Some m \<Rightarrow> [''  Model ID: '' @ m]) @
                 [''  Token counts by category:''] @
                 map (\<lambda>(category, tokens). ''    '' @ category @ '': '' @ to_string_nat (length tokens)) (ir_tokens ir) @
                 [''  Total tokens: '' @ to_string_nat (sum_list (map (\<lambda>(_, tokens). length tokens) (ir_tokens ir))),
                  ''  Spans: '' @ to_string_nat (length (ir_spans ir))])) (\<lambda>_.
              act_return 0))))"

definition cmd_tokenize_resume :: "('j, unit) outside \<Rightarrow> string list \<Rightarrow> cli_result" where
  "cmd_tokenize_resume U args =
     run_cli
       (case args of
          [] \<Rightarrow> fail_with ''Usage: ccmcp_cli tokenize-resume <resume-id> [--db <db-path>] [--mode <deterministic|stub-inference>]''
        | resume_id_str # rest \<Rightarrow>
            with_options tokenize_options rest \<lparr>tl_db_path = None, tl_mode = ''deterministic'', tl_args_valid = True\<rparr> (\<lambda>config.
              if \<not> tl_args_valid config then act_return 1
              else act_bind (announce_db (tl_db_path config)) (\<lambda>db_path.
                with_database U db_path ensure_schema_v3
                  (execute_tokenize_resume resume_id_str (tl_mode config) (en_json (ou_environment U))))))
       (cli_world No_Vectors (Map.empty :: string \<rightharpoonup> int) ())"

section \<open>Decisions, the probe of Redis, and main\<close>

record decision_cli_config =
  dl_db_path :: string
  dl_decision_id :: "string option"
  dl_trace_id :: "string option"

definition default_decision_config :: decision_cli_config where
  "default_decision_config = \<lparr>dl_db_path = kDefaultDb, dl_decision_id = None, dl_trace_id = None\<rparr>"

definition execute_get_decision ::
  "string \<Rightarrow> 'j json_api \<Rightarrow> ('j \<Rightarrow> (string, string) result) \<Rightarrow> (('l, 'c) world, int) cli_action" where
  "execute_get_decision decision_id J dump2 =
     act_bind (in_world (on_world_db (sqlite_decisions_get J decision_id))) (\<lambda>found.
     case found of
       None \<Rightarrow> fail_with (''Decision not found: '' @ decision_id)
     | Some rec \<Rightarrow>
         act_bind (act_lift (dump2 (decision_record_to_json J rec))) (\<lambda>s.
         act_bind (print_out [s]) (\<lambda>_. act_return 0)))"

definition execute_list_decisions ::
  "string \<Rightarrow> 'j json_api \<Rightarrow> ('j \<Rightarrow> (string, string) result) \<Rightarrow> (('l, 'c) world, int) cli_action" where
  "execute_list_decisions trace_id J dump2 =
     act_bind (in_world (on_world_db (sqlite_decisions_list_by_trace J trace_id))) (\<lambda>recs.
     act_bind (act_lift (dump2 (j_object J
         [(''decisions'', j_array J (map (decision_record_to_json J) recs)), (''trace_id'', j_string J trace_id)]))) (\<lambda>s.
     act_bind (print_out [s]) (\<lambda>_. act_return 0)))"

definition cmd_get_decision ::
  "('j, unit) outside \<Rightarrow> ('j \<Rightarrow> (string, string) result) \<Rightarrow> string list \<Rightarrow> cli_result" where
  "cmd_get_decision U dump2 args =
     run_cli
       (with_options (cli_options
            [(''--db'', \<lambda>c v. ([], Inr (c\<lparr>dl_db_path := v\<rparr>))),
             (''--decision-id'', set_option (\<lambda>v. dl_decision_id_update (\<lambda>_. v)))]) args default_decision_config (\<lambda>config.
          case dl_decision_id config of
            None \<Rightarrow> fail_with ''Error: --decision-id <id> is required''
          | Some decision_id \<Rightarrow>
              with_database U (dl_db_path config) ensure_schema_v5
                (execute_get_decision decision_id (en_json (ou_environment U)) dump2)))
       (cli_world No_Vectors (Map.empty :: string \<rightharpoonup> int) ())"

definition cmd_list_decisions ::
  "('j, unit) outside \<Rightarrow> ('j \<Rightarrow> (string, string) result) \<Rightarrow> string list \<Rightarrow> cli_result" where
  "cmd_list_decisions U dump2 args =
     run_cli
       (with_options (cli_options
            [(''--db'', \<lambda>c v. ([], Inr (c\<lparr>dl_db_path := v\<rparr>))),
             (''--trace-id'', set_option (\<lambda>v. dl_trace_id_update (\<lambda>_. v)))]) args default_decision_config (\<lambda>config.
          case dl_trace_id config of
            None \<Rightarrow> fail_with ''Error: --trace-id <id> is required''
          | Some trace_id \<Rightarrow>
              with_database U (dl_db_path config) ensure_schema_v5
                (execute_list_decisions trace_id (en_json (ou_environment U)) dump2)))
       (cli_world No_Vectors (Map.empty :: string \<rightharpoonup> int) ())"

definition cmd_redis_health :: "'r redis_client \<Rightarrow> string list \<Rightarrow> cli_result" where
  "cmd_redis_health R args =
     run_cli
       (with_options (cli_options [(''--redis'', set_option (\<lambda>v _. v))]) args None (\<lambda>given.
          case given of
            None \<Rightarrow> fail_with ''Error: --redis <uri> is required''
          | Some uri \<Rightarrow>
              (case parse_redis_uri uri of
                 None \<Rightarrow>
                   act_bind (print_err [''Error: invalid Redis URI '' @ [CHR 0x27] @ uri @ [CHR 0x27],
                     ''Accepted formats: tcp://host:port, redis://host:port, tcp://host'']) (\<lambda>_. act_return 1)
               | Some parsed \<Rightarrow>
                   (let health = redis_ping R uri
                    in if rh_reachable health
                       then act_bind (print_out [''OK: Redis reachable at '' @ redis_config_to_log_string parsed])
                         (\<lambda>_. act_return 0)
                       else fail_with (''ERROR: '' @ rh_error health)))))
       (cli_world No_Vectors (Map.empty :: string \<rightharpoonup> int) ())"

definition kCommands :: "(string \<times> string) list" where
  "kCommands =
     [(''ingest-resume'', ''Ingest a resume file into the database''),
      (''tokenize-resume'', ''Tokenize an ingested resume into a token IR''),
      (''index-build'', ''Build or rebuild the embedding vector index''),
      (''match'', ''Run a demo match against a hardcoded ExampleCo opportunity''),
      (''get-decision'', ''Fetch a match decision record by decision ID''),
      (''list-decisions'', ''List match decision records for a trace ID''),
      (''redis-health'', ''Check Redis connectivity (requires --redis <uri>)'')]"

definition usage_lines :: "string \<Rightarrow> string list" where
  "usage_lines prog =
     [''Usage: '' @ prog @ '' <command> [options]'', [], ''Commands:''] @
     concat (map (\<lambda>(name, description). [''  '' @ name, ''    '' @ description]) kCommands)"

definition cli_main ::
  "('src, 'zip, 'file, 'doc, 'node) docx_api \<Rightarrow> ('j, unit) outside \<Rightarrow> ('j \<Rightarrow> (string, string) result) \<Rightarrow>
   'r redis_client \<Rightarrow> string \<Rightarrow> string list \<Rightarrow> cli_result" where
  "cli_main D U dump2 R prog argv =
     (case argv of
        [] \<Rightarrow> \<lparr>cr_out = [], cr_err = usage_lines prog, cr_status = Exited 1, cr_db = sqlite_open\<rparr>
      | name # args \<Rightarrow>
          if name = ''ingest-resume'' then cmd_ingest_resume D U args
          else if name = ''tokenize-resume'' then cmd_tokenize_resume U args
          else if name = ''index-build'' then cmd_index_build D U args
          else if name = ''match'' then cmd_match D U dump2 args
          else if name = ''get-decision'' then cmd_get_decision U dump2 args
          else if name = ''list-decisions'' then cmd_list_decisions U dump2 args
          else if name = ''redis-health'' then cmd_redis_health R args
          else \<lparr>cr_out = [], cr_err = [''Unknown command: '' @ name, []] @ usage_lines prog, cr_status = Exited 1,
                cr_db = sqlite_open\<rparr>)"

end
