(* ===== verification/Cli_Checks.thy ===== *)
theory Cli_Checks
  imports Cli Sqlite_Joins Startup_Checks
begin

text \<open>
  What the commands of the tool do to a database. The tool numbers its identifiers from 0 in every process
  and migrates a database only as far as its own stores need; the lemmas draw the consequences.
\<close>

section \<open>Migrations and appends\<close>

text \<open>A migration up to version 7 changes the tables and the versions only.\<close>

definition same_rows :: "sqlite_db \<Rightarrow> sqlite_db \<Rightarrow> bool" where
  "same_rows db db' \<longleftrightarrow> db_saved db' = db_saved db \<and>
     (db_now db')\<lparr>sc_tables := [], sc_schema_version := []\<rparr> = (db_now db)\<lparr>sc_tables := [], sc_schema_version := []\<rparr>"

lemma same_rowsD:
  assumes "same_rows db db'"
  shows "db_saved db' = db_saved db" "sc_audit_columns (db_now db') = sc_audit_columns (db_now db)"
    "sc_audit_events (db_now db') = sc_audit_events (db_now db)" "sc_resumes (db_now db') = sc_resumes (db_now db)"
    "sc_atoms (db_now db') = sc_atoms (db_now db)" "sc_opportunities (db_now db') = sc_opportunities (db_now db)"
proof -
  have e: "(db_now db')\<lparr>sc_tables := [], sc_schema_version := []\<rparr> = (db_now db)\<lparr>sc_tables := [], sc_schema_version := []\<rparr>"
    using assms by (simp add: same_rows_def)
  show "db_saved db' = db_saved db" using assms by (simp add: same_rows_def)
  show "sc_audit_columns (db_now db') = sc_audit_columns (db_now db)"
    "sc_audit_events (db_now db') = sc_audit_events (db_now db)" "sc_resumes (db_now db') = sc_resumes (db_now db)"
    "sc_atoms (db_now db') = sc_atoms (db_now db)" "sc_opportunities (db_now db') = sc_opportunities (db_now db)"
    using arg_cong [OF e, of sc_audit_columns] arg_cong [OF e, of sc_audit_events] arg_cong [OF e, of sc_resumes]
      arg_cong [OF e, of sc_atoms] arg_cong [OF e, of sc_opportunities] by simp_all
qed

lemma same_rows_refl: "same_rows db db"
  by (simp add: same_rows_def)

lemma same_rows_trans: "same_rows a b \<Longrightarrow> same_rows b c \<Longrightarrow> same_rows a c"
  by (simp add: same_rows_def)

lemma create_tables_rows: "(fold create_table tables c)\<lparr>sc_tables := ts\<rparr> = c\<lparr>sc_tables := ts\<rparr>"
  by (induction tables arbitrary: c) (auto simp: create_table_def)

lemma apply_schema_rows: "same_rows db (snd (apply_schema v tables db))"
  using create_tables_rows [of "[]" tables "db_now db"]
  by (auto simp: apply_schema_def Let_def same_rows_def insert_version_def)

lemma bind_rows:
  assumes "\<And>d. same_rows d (snd (m d))" "\<And>a d. same_rows d (snd (f a d))"
  shows "same_rows d (snd (act_bind m f d))"
  using assms(1) [of d] assms(2) same_rows_trans
  by (cases "m d") (fastforce simp: act_bind_def split: sum.split)

lemma ensure_rows:
  "same_rows d (snd (ensure_schema_v1 d))" "same_rows d (snd (ensure_schema_v2 d))"
  "same_rows d (snd (ensure_schema_v6 d))"
  unfolding ensure_schema_v1_def ensure_schema_v2_def ensure_schema_v6_def ensure_schema_v5_def
    ensure_schema_v4_def ensure_schema_v3_def
  by (intro bind_rows apply_schema_rows)+

text \<open>An append that cannot succeed: the columns of version 8 are missing, or the identifier is taken.\<close>

definition append_refused :: "sqlite_db \<Rightarrow> string \<Rightarrow> bool" where
  "append_refused db event_id \<longleftrightarrow>
     sc_audit_columns (db_now db) = [] \<or> c_str event_id \<in> er_event_id ` set (sc_audit_events (db_now db))"

lemma append_throws:
  assumes "append_refused (sl_db l) (ae_event_id ev)"
  shows "\<exists>e l'. sqlite_log_append J ev l = (Inl e, l') \<and> sl_db l' = sl_db l"
proof -
  obtain idx p where st: "get_append_state (ae_trace_id ev) l =
      (Inr (idx, p), l\<lparr>sl_trace_indices := (sl_trace_indices l)(ae_trace_id ev \<mapsto> idx + 1)\<rparr>)"
    by (rule get_append_state_shape)
  have "prepare_error [''audit_events''] [''previous_hash'', ''event_hash''] (db_now (sl_db l)) \<noteq> None \<or>
      c_str (ae_event_id ev) \<in> er_event_id ` set (sc_audit_events (db_now (sl_db l)))"
    using assms by (auto simp: append_refused_def prepare_error_None)
  then show ?thesis
    by (auto simp: sqlite_log_append_state [OF st] insert_appended_eq split: sum.split option.split)
qed

lemma persistent_append_throws:
  assumes "append_refused (wd_db w) (ae_event_id ev)"
  shows "\<exists>e w'. sv_audit_append (persistent_services D E) ev w = (Inl e, w') \<and> wd_db w' = wd_db w"
proof -
  obtain e l' where "sqlite_log_append (en_json E) ev \<lparr>sl_db = wd_db w, sl_trace_indices = wd_log w\<rparr> = (Inl e, l')"
    "sl_db l' = wd_db w"
    using append_throws [of "\<lparr>sl_db = wd_db w, sl_trace_indices = wd_log w\<rparr>" ev "en_json E"] assms by auto
  then show ?thesis by (simp add: persistent_services_def on_world_log_def act_on_def)
qed

lemma refused_same_rows: "same_rows db db' \<Longrightarrow> append_refused db i \<Longrightarrow> append_refused db' i"
  by (simp add: same_rowsD append_refused_def)

section \<open>match\<close>

lemma in_world_simp: "in_world m c = (case m (co_world c) of (r, w) \<Rightarrow> (r, c\<lparr>co_world := w\<rparr>))"
  by (simp add: in_world_def act_on_def)

lemma to_string_small: "to_string_nat 0 = ''0''" "to_string_nat (Suc 0) = ''1''"
  by code_simp+

text \<open>The first event of the demo has the identifier \<open>evt-1\<close>.\<close>

lemma demo_throws:
  assumes "append_refused (wd_db (co_world c)) ''evt-1''" "wd_counter (co_world c) = 0" "en_next_id E = deterministic_next"
  shows "\<exists>e c'. run_match_demo ((persistent_services D E)\<lparr>sv_embedding := p\<rparr>) opp_up atom_up J pretty strategy ov c = (Inl e, c') \<and>
    wd_db (co_world c') = wd_db (co_world c)"
proof -
  let ?S = "(persistent_services D E)\<lparr>sv_embedding := p\<rparr>" and ?w = "co_world c"
  have sv: "sv_next_id ?S = world_next_id E" "sv_now ?S = world_now E"
    "sv_audit_append ?S = sv_audit_append (persistent_services D E)"
    by (simp_all add: persistent_services_def)
  have t: "world_next_id E ''trace'' ?w = (Inr ''trace-0'', ?w\<lparr>wd_counter := 1\<rparr>)"
    using assms(2,3) by (simp add: world_next_id_def deterministic_next_def to_string_small)
  let ?w1 = "?w\<lparr>wd_counter := 2, wd_ticks := wd_ticks ?w + 1\<rparr>"
  let ?ev = "new_event ''evt-1'' ''trace-0'' ''RunStarted'' ''{\"cli_version\":\"v0.1\",\"deterministic\":true}''
    (en_clock E (wd_ticks ?w)) []"
  obtain e w' where a: "sv_audit_append (persistent_services D E) ?ev ?w1 = (Inl e, w')" "wd_db w' = wd_db ?w"
    using persistent_append_throws [of ?w1 ?ev D E] assms(1) by (auto simp: new_event_def)
  have "emit ?S ''trace-0'' ''RunStarted'' ''{\"cli_version\":\"v0.1\",\"deterministic\":true}'' [] (?w\<lparr>wd_counter := 1\<rparr>) = (Inl e, w')"
    using a(1) assms(3)
    by (simp add: emit_def sv act_bind_def world_next_id_def world_now_def deterministic_next_def to_string_small)
  then have "run_match_demo ?S opp_up atom_up J pretty strategy ov c = (Inl e, c\<lparr>co_world := w'\<rparr>)"
    unfolding run_match_demo_def sv using t by (simp add: act_bind_def in_world_simp)
  then show ?thesis using a(2) by simp
qed

lemma print_simps [simp]:
  "act_bind (print_out ls) f c = f () (c\<lparr>co_out := co_out c @ ls\<rparr>)"
  "act_bind (print_err ls) f c = f () (c\<lparr>co_err := co_err c @ ls\<rparr>)"
  by (simp_all add: print_out_def print_err_def act_bind_def act_modify_def)

text \<open>A database opened for a command.\<close>

lemma with_database_effect:
  assumes "ou_open_db U path = Inr db"
  shows "with_database U path ensure rest c =
    (case ensure db of
       (Inl e, db') \<Rightarrow> fail_with (''Failed to initialize schema: '' @ e) (c\<lparr>co_world := (co_world c)\<lparr>wd_db := db'\<rparr>\<rparr>)
     | (Inr _, db') \<Rightarrow> rest (c\<lparr>co_world := (co_world c)\<lparr>wd_db := db'\<rparr>\<rparr>))"
  by (simp add: with_database_def assms act_bind_def in_world_simp act_modify_def act_try_def on_world_db_def
      act_on_def split: prod.split sum.split)

lemma apply_schema_succeeds: "''schema_version'' \<in> set tables \<Longrightarrow> \<exists>db'. apply_schema v tables db = (Inr True, db')"
proof -
  have keep: "t \<in> set (sc_tables c) \<Longrightarrow> t \<in> set (sc_tables (fold create_table ts c))" for t ts c
    by (induction ts arbitrary: c) (auto simp: create_table_def)
  have "t \<in> set ts \<Longrightarrow> t \<in> set (sc_tables (fold create_table ts c))" for t ts c
    by (induction ts arbitrary: c) (auto simp: create_table_def intro: keep)
  moreover assume "''schema_version'' \<in> set tables"
  ultimately show ?thesis by (simp add: apply_schema_def Let_def)
qed

lemma ensure_schema_v1_succeeds: "\<exists>db'. ensure_schema_v1 db = (Inr True, db') \<and> same_rows db db'"
  using apply_schema_succeeds [of kSchemaV1 1 db] apply_schema_rows [of db 1 kSchemaV1]
  by (fastforce simp: ensure_schema_v1_def kSchemaV1_def)

section \<open>index-build\<close>

text \<open>What a failed build leaves as it was.\<close>

definition untouched :: "sqlite_db \<Rightarrow> sqlite_db \<Rightarrow> bool" where
  "untouched db db' \<longleftrightarrow> sc_audit_columns (db_now db') = sc_audit_columns (db_now db) \<and>
     sc_audit_events (db_now db') = sc_audit_events (db_now db) \<and>
     sc_index_entries (db_now db') = sc_index_entries (db_now db)"

lemma untouched_trans: "untouched a b \<Longrightarrow> untouched b c \<Longrightarrow> untouched a c"
  by (simp add: untouched_def)

lemma untouched_rows: "same_rows db db' \<Longrightarrow> untouched db db'"
  unfolding untouched_def same_rows_def
  by (metis (no_types, lifting) sqlite_content.select_convs(2,8,13) sqlite_content.surjective sqlite_content.update_convs(1,3))

lemma untouched_refused: "untouched db db' \<Longrightarrow> append_refused db i \<Longrightarrow> append_refused db' i"
  by (simp add: untouched_def append_refused_def)

lemma next_run_untouched: "untouched db (snd (sqlite_next_index_run_id db))"
  by (cases "db_saved db")
    (simp_all add: sqlite_next_index_run_id_def sql_begin_def sql_commit_def sql_exec_def sql_rollback_def untouched_def Let_def)

lemma upsert_run_untouched: "\<exists>db'. sqlite_upsert_run run db = (Inr (), db') \<and> untouched db db'"
  by (simp add: sqlite_upsert_run_def sql_update_def untouched_def)

lemma build_throws:
  assumes "append_refused (wd_db w) ''evt-0''" "wd_counter w = 0" "en_next_id E = deterministic_next"
  shows "\<exists>e w'. run_index_build (persistent_services D E) J fb config w = (Inl e, w') \<and> untouched (wd_db w) (wd_db w')"
proof -
  let ?S = "persistent_services D E"
  have sv: "sv_next_index_run_id ?S = on_world_db sqlite_next_index_run_id" "sv_now ?S = world_now E"
    "sv_upsert_run ?S = (\<lambda>run. on_world_db (sqlite_upsert_run run))" "sv_next_id ?S = world_next_id E"
    by (simp_all add: persistent_services_def)
  obtain r db1 where n: "sqlite_next_index_run_id (wd_db w) = (r, db1)" by fastforce
  have u1: "untouched (wd_db w) db1" using next_run_untouched [of "wd_db w"] n by simp
  have n': "on_world_db sqlite_next_index_run_id w = (r, w\<lparr>wd_db := db1\<rparr>)" by (simp add: on_world_db_def act_on_def n)
  show ?thesis
  proof (cases r)
    case (Inl e)
    then show ?thesis using u1 by (simp add: run_index_build_def sv act_bind_def n')
  next
    case (Inr run_id)
    let ?run = "\<lparr>xr_run_id = run_id, xr_started_at = Some (en_clock E (wd_ticks w)), xr_completed_at = None,
                xr_provider_id = ic_provider_id config, xr_model_id = ic_model_id config,
                xr_prompt_version = ic_prompt_version config, xr_status = kRunning, xr_summary_json = ''{}''\<rparr>"
    obtain db2 where db2: "sqlite_upsert_run ?run db1 = (Inr (), db2)" "untouched db1 db2"
      using upsert_run_untouched by blast
    note u2 = untouched_trans [OF u1 db2(2)]
    let ?payload = "j_dump J (j_object J [(''provider_id'', j_string J (ic_provider_id config)),
      (''run_id'', j_string J run_id), (''scope'', j_string J (ic_scope config))])"
    let ?w2 = "w\<lparr>wd_ticks := wd_ticks w + 1, wd_db := db2\<rparr>"
    show ?thesis
    proof (cases ?payload)
      case (Inl e)
      then show ?thesis using u2 Inr n' db2(1)
        by (simp add: run_index_build_def sv act_bind_def world_now_def Let_def on_world_db_def act_on_def act_lift_def)
    next
      case (Inr payload)
      let ?w3 = "?w2\<lparr>wd_counter := 1\<rparr>"
      let ?ev = "new_event ''evt-0'' run_id ''IndexRunStarted'' payload (en_clock E (wd_ticks w)) []"
      obtain e w' where a: "sv_audit_append ?S ?ev ?w3 = (Inl e, w')" "wd_db w' = db2"
        using persistent_append_throws [of ?w3 ?ev D E] untouched_refused [OF u2 assms(1)] by (auto simp: new_event_def)
      have "emit_at ?S run_id ''IndexRunStarted'' payload (en_clock E (wd_ticks w)) [] ?w2 = (Inl e, w')"
        using a(1) assms(2,3)
        by (simp add: emit_at_def sv act_bind_def world_next_id_def deterministic_next_def to_string_small)
      then show ?thesis using u2 a(2) Inr \<open>r = Inr run_id\<close> n' db2(1)
        by (simp add: run_index_build_def sv act_bind_def world_now_def Let_def on_world_db_def act_on_def act_lift_def)
    qed
  qed
qed

lemma apply_schema_ok:
  assumes "''schema_version'' \<in> set tables \<union> set (sc_tables (db_now db))"
  shows "\<exists>db'. apply_schema v tables db = (Inr True, db') \<and> (0 < v \<longrightarrow> ''schema_version'' \<in> set (sc_tables (db_now db')))"
proof -
  have keep: "t \<in> set (sc_tables c) \<Longrightarrow> t \<in> set (sc_tables (fold create_table ts c))" for t ts c
    by (induction ts arbitrary: c) (auto simp: create_table_def)
  have "t \<in> set ts \<Longrightarrow> t \<in> set (sc_tables (fold create_table ts c))" for t ts c
    by (induction ts arbitrary: c) (auto simp: create_table_def intro: keep)
  then have "''schema_version'' \<in> set (sc_tables (fold create_table tables (db_now db)))" using assms keep by auto
  moreover have "0 < v \<Longrightarrow> v \<le> get_schema_version db \<Longrightarrow> ''schema_version'' \<in> set (sc_tables (db_now db))"
    by (auto simp: get_schema_version_def split: if_splits)
  ultimately show ?thesis by (auto simp: apply_schema_def Let_def insert_version_def)
qed

lemma bind_ok:
  assumes "\<exists>d'. m d = (Inr True, d') \<and> P d'" "\<And>d'. P d' \<Longrightarrow> \<exists>d''. f d' = (Inr True, d'') \<and> P d''"
  shows "\<exists>d'. act_bind m (\<lambda>_. f) d = (Inr True, d') \<and> P d'"
proof -
  obtain d' where "m d = (Inr True, d')" "P d'" using assms(1) by blast
  then show ?thesis using assms(2) [of d'] by (auto simp: act_bind_def)
qed

lemma ensure_schema_v6_ok: "\<exists>d'. ensure_schema_v6 d = (Inr True, d')"
proof -
  let ?P = "\<lambda>d'. ''schema_version'' \<in> set (sc_tables (db_now d'))"
  have step: "\<exists>d''. apply_schema v ts d' = (Inr True, d'') \<and> ?P d''" if "?P d'" "0 < v" for v ts d'
    using apply_schema_ok [of ts d' v] that by auto
  have base: "\<exists>d'. apply_schema 1 kSchemaV1 d = (Inr True, d') \<and> ?P d'"
    using apply_schema_ok [of kSchemaV1 d 1] by (auto simp: kSchemaV1_def)
  have "\<exists>d'. ensure_schema_v6 d = (Inr True, d') \<and> ?P d'"
    unfolding ensure_schema_v6_def ensure_schema_v5_def ensure_schema_v4_def ensure_schema_v3_def
      ensure_schema_v2_def ensure_schema_v1_def
    by ((rule bind_ok)+, rule base) (erule step, simp)+
  then show ?thesis by blast
qed

section \<open>ingest-resume\<close>

text \<open>The table of resumes holds no other row than that of \<open>resume--0\<close>.\<close>

definition one_resume :: "sqlite_db \<Rightarrow> bool" where
  "one_resume db \<longleftrightarrow> db_saved db = None \<and> map fst (sc_resumes (db_now db)) \<in> {[], [''resume--0'']}"

lemma one_resume_upsert:
  assumes "one_resume db" "ir_resume_id resume = ResumeId ''resume--0''"
  shows "\<exists>db'. sqlite_resumes_upsert resume db = (Inr (), db') \<and> one_resume db'"
proof -
  have k: "resume_key resume = ''resume--0''" using assms(2) by (simp add: resume_key_def c_str_def)
  have "map fst (omap_insert ''resume--0'' v xs) = [''resume--0'']" if "map fst xs \<in> {[], [''resume--0'']}" for v :: resume_row and xs
    using that by (cases xs) auto
  then show ?thesis using resumes_upsert_rows [of db resume] assms(1) k by (auto simp: one_resume_def)
qed

text \<open>The databases after one run of the command after another on one file of a database.\<close>

fun ingest_runs ::
  "('src, 'zip, 'file, 'doc, 'node) docx_api \<Rightarrow> ('j, unit) outside \<Rightarrow> string \<Rightarrow> string list \<Rightarrow> sqlite_db \<Rightarrow> sqlite_db" where
  "ingest_runs D U path [] db = db"
| "ingest_runs D U path (file # files) db =
     ingest_runs D U path files (cr_db (cmd_ingest_resume D (U\<lparr>ou_open_db := \<lambda>_. Inr db\<rparr>) [file, ''--db'', path]))"

lemma execute_ingest_one:
  assumes "one_resume (wd_db w)" "wd_counter w = 0" "en_next_id E = deterministic_next"
  shows "one_resume (wd_db (co_world (snd (execute_ingest_resume file (persistent_services D E) \<lparr>co_out = ls, co_err = es, co_world = w\<rparr>))))"
proof -
  let ?S = "persistent_services D E"
  let ?opts = "\<lparr>io_source_path = None, io_extracted_at = None, io_enable_hygiene = True\<rparr>"
  have sv: "sv_ingest_file ?S = world_ingest_file D E" "sv_resume_upsert ?S = (\<lambda>r. on_world_db (sqlite_resumes_upsert r))"
    by (simp_all add: persistent_services_def)
  obtain r n where i: "ingest_file D (en_next_id E) (en_clock E (wd_ticks w)) (en_files E) file ?opts (wd_counter w) = (r, n)"
    by fastforce
  show ?thesis
  proof (cases r)
    case (Inl e)
    then show ?thesis using assms(1) i
      by (simp add: execute_ingest_resume_def sv act_bind_def [of "in_world _"] in_world_simp world_ingest_file_def
          fail_with_def act_return_def)
  next
    case (Inr resume)
    have "ir_resume_id resume = ResumeId ''resume--0''"
      using i Inr assms(2,3)
      by (auto simp: ingest_file_def ingest_bytes_Inr_iff deterministic_next_def to_string_small split: sum.splits)
    then obtain db' where "sqlite_resumes_upsert resume (wd_db w) = (Inr (), db')" "one_resume db'"
      using one_resume_upsert [OF assms(1)] by blast
    then show ?thesis using i Inr
      by (simp add: execute_ingest_resume_def sv act_bind_def [of "in_world _"] in_world_simp world_ingest_file_def
          on_world_db_def act_on_def act_return_def)
  qed
qed

lemma ingest_run_one:
  assumes "one_resume db"
  shows "one_resume (cr_db (cmd_ingest_resume D (U\<lparr>ou_open_db := \<lambda>_. Inr db\<rparr>) [file, ''--db'', path]))"
proof -
  let ?U = "U\<lparr>ou_open_db := \<lambda>_. Inr db\<rparr>"
  obtain r db' where e: "ensure_schema_v2 db = (r, db')" by fastforce
  have o: "one_resume db'" using ensure_rows(2) [of db] assms e by (simp add: one_resume_def same_rowsD)
  have p: "parse_options (option_map (cli_options [(''--db'', set_option (\<lambda>v _. v))])) [''--db'', path] None = ([], Inr (Some path))"
    by (simp add: option_map_def cli_options_def set_option_def)
  have ret: "act_bind (act_return a) f = f a" for a and f :: "string \<Rightarrow> ((string \<rightharpoonup> int, unit) world, int) cli_action"
    by (rule ext) (simp add: act_bind_def act_return_def)
  let ?c = "\<lparr>co_out = [], co_err = [], co_world = (cli_world No_Vectors Map.empty ())\<lparr>wd_db := db'\<rparr>\<rparr>"
  have r: "cmd_ingest_resume D ?U [file, ''--db'', path] =
      (let (r, c) = (case r of Inl e \<Rightarrow> fail_with (''Failed to initialize schema: '' @ e) ?c
         | Inr _ \<Rightarrow> execute_ingest_resume file (persistent_services D (cli_environment ?U)) ?c)
       in \<lparr>cr_out = co_out c, cr_err = co_err c,
           cr_status = (case r of Inr code \<Rightarrow> Exited code | Inl e \<Rightarrow> Terminated e), cr_db = wd_db (co_world c)\<rparr>)"
    using e by (cases r)
      (simp_all add: cmd_ingest_resume_def run_cli_def with_options_def p announce_db_def ret with_database_effect
        del: parse_options.simps)
  show ?thesis
  proof (cases r)
    case (Inl e)
    then show ?thesis using r o by (simp add: fail_with_def act_return_def)
  next
    case (Inr b)
    have "one_resume (wd_db (co_world (snd (execute_ingest_resume file (persistent_services D (cli_environment ?U)) ?c))))"
      by (rule execute_ingest_one) (use o in \<open>simp_all add: cli_world_def cli_environment_def\<close>)
    then show ?thesis using r Inr by (simp add: Let_def split: prod.splits)
  qed
qed

section \<open>Properties\<close>

text \<open>C30. The tool's demo match over a database: before version 8 it always, and at version 8 after any earlier
  run that appended an event, dies of an exception that nothing catches, since the command migrates to
  version 1 only and its identifiers start again at 0. The rows of the database stay as they were.\<close>
theorem cli_match_over_database_dies:
  assumes "parse_options (option_map match_options) args default_match_config = (messages, Inr config)"
    and "ml_db_path config = Some path" "cli_override config = Inr ov" "ml_vector_backend config = ''inmemory''"
    and "ou_open_db U path = Inr db" "append_refused db ''evt-1''"
  shows "\<exists>e. cr_status (cmd_match D U dump2 args) = Terminated e \<and>
    same_rows db (cr_db (cmd_match D U dump2 args))"
proof -
  obtain db' where e: "ensure_schema_v1 db = (Inr True, db')" "same_rows db db'"
    using ensure_schema_v1_succeeds by blast
  let ?E = "match_environment U"
  let ?c = "\<lparr>co_out = match_banner config ov, co_err = messages,
    co_world = (cli_world No_Vectors Map.empty ())\<lparr>wd_db := db'\<rparr>\<rparr>"
  obtain ex c' where d: "run_match_demo ((persistent_services D ?E)\<lparr>sv_embedding := null_provider\<rparr>)
      (\<lambda>p. on_world_db (sqlite_opps_upsert (en_json ?E) p)) (\<lambda>a. on_world_db (sqlite_atoms_upsert (en_json ?E) a))
      (en_json ?E) dump2 (ml_matching_strategy config) ov ?c = (Inl ex, c')" "wd_db (co_world c') = db'"
    using demo_throws [where c = ?c and E = ?E and D = D and p = null_provider and J = "en_json ?E" and pretty = dump2
        and opp_up = "\<lambda>p. on_world_db (sqlite_opps_upsert (en_json ?E) p)"
        and atom_up = "\<lambda>a. on_world_db (sqlite_atoms_upsert (en_json ?E) a)"
        and strategy = "ml_matching_strategy config" and ov = ov] refused_same_rows [OF e(2) assms(6)]
    by (auto simp: cli_world_def match_environment_def cli_environment_def)
  have "cmd_match D U dump2 args =
      \<lparr>cr_out = co_out c', cr_err = co_err c', cr_status = Terminated ex, cr_db = db'\<rparr>"
    using d assms(1-5) e(1)
    by (simp add: cmd_match_def run_cli_def match_command_def match_over_database_def Let_def
        with_database_effect act_bind_def [of "run_match_demo _ _ _ _ _ _ _"])
  then show ?thesis using e(2) by simp
qed

theorem cli_match_over_database_dies_witness:
  "\<exists>e. cr_status (cmd_match no_docx (demo_outside tree_json sqlite_open) (\<lambda>_. Inr []) [''--db'', ''x.db'']) = Terminated e \<and>
    same_rows sqlite_open (cr_db (cmd_match no_docx (demo_outside tree_json sqlite_open) (\<lambda>_. Inr []) [''--db'', ''x.db'']))"
proof -
  have p: "parse_options (option_map match_options) [''--db'', ''x.db''] default_match_config =
      ([], Inr (default_match_config\<lparr>ml_db_path := Some ''x.db''\<rparr>))"
    by (simp add: option_map_def match_options_def cli_options_def set_option_def)
  show ?thesis
    by (rule cli_match_over_database_dies [OF p, where path = "''x.db''" and ov = None])
      (simp_all add: default_match_config_def cli_override_def demo_outside_def append_refused_def sqlite_open_def
        empty_content_def)
qed

text \<open>So does \<open>index-build\<close>, which migrates to version 6: before version 8 always, and at version 8 after any
  earlier run of it. Nothing is indexed.\<close>
theorem cli_index_build_dies:
  assumes "parse_options (option_map index_options) args default_index_config = (messages, Inr config)"
    and "il_args_valid config" "il_vector_backend config = kInMemory"
    and "ou_open_db U (il_db_path config) = Inr db" "append_refused db ''evt-0''"
  shows "\<exists>e. cr_status (cmd_index_build D U args) = Terminated e \<and> untouched db (cr_db (cmd_index_build D U args))"
proof -
  obtain db' where e: "ensure_schema_v6 db = (Inr True, db')" using ensure_schema_v6_ok by blast
  have u: "untouched db db'" using untouched_rows [OF ensure_rows(3) [of db]] e by simp
  let ?E = "cli_environment U"
  let ?w = "(cli_world (Memory_Vectors []) Map.empty ())\<lparr>wd_db := db'\<rparr>"
  let ?i = "\<lparr>ic_scope = il_scope config, ic_provider_id = ''deterministic-stub'', ic_model_id = [], ic_prompt_version = []\<rparr>"
  obtain ex w' where b: "run_index_build (persistent_services D ?E) (en_json ?E) (ou_float_bytes U) ?i ?w = (Inl ex, w')"
    "untouched db' (wd_db w')"
    using build_throws [where w = ?w and E = ?E and D = D and J = "en_json ?E" and fb = "ou_float_bytes U" and config = ?i]
      untouched_refused [OF u assms(5)] by (auto simp: cli_world_def cli_environment_def)
  have "cr_status (cmd_index_build D U args) = Terminated ex \<and> cr_db (cmd_index_build D U args) = wd_db w'"
    using b(1) assms(1-4) e
    by (simp add: cmd_index_build_def run_cli_def with_options_def index_build_command_def Let_def with_database_effect
        execute_index_build_def act_bind_def [of "in_world _"] in_world_simp)
  then show ?thesis using untouched_trans [OF u b(2)] by simp
qed

theorem cli_index_build_dies_witness:
  "\<exists>e. cr_status (cmd_index_build no_docx (demo_outside tree_json sqlite_open) []) = Terminated e \<and>
    untouched sqlite_open (cr_db (cmd_index_build no_docx (demo_outside tree_json sqlite_open) []))"
  by (rule cli_index_build_dies [where messages = "[]" and config = default_index_config])
    (simp_all add: default_index_config_def demo_outside_def append_refused_def sqlite_open_def empty_content_def)

text \<open>C40. However many files are ingested, one run after another into one database, it never holds more than one
  resume: the identifiers of each run start again at 0, so that every resume is \<open>resume--0\<close> and replaces the
  one before, unless the content is the same.\<close>
theorem cli_ingest_one_resume:
  assumes "db_saved db = None" "sc_resumes (db_now db) = []"
  shows "map fst (sc_resumes (db_now (ingest_runs D U path files db))) \<in> {[], [''resume--0'']}"
proof -
  have "one_resume db \<Longrightarrow> one_resume (ingest_runs D U path files db)"
    by (induction files arbitrary: db) (simp_all add: ingest_run_one)
  then show ?thesis using assms by (simp add: one_resume_def)
qed

definition two_files :: "('j, unit) outside \<Rightarrow> ('j, unit) outside" where
  "two_files U = U\<lparr>ou_environment := (ou_environment U)\<lparr>en_files := \<lambda>p. FileBytes (''# '' @ p)\<rparr>\<rparr>"

theorem cli_ingest_one_resume_witness:
  "map fst (sc_resumes (db_now (ingest_runs no_docx (two_files (demo_outside tree_json sqlite_open)) ''x.db''
     [''a.md'', ''b.md''] migrated_database))) \<in> {[], [''resume--0'']}"
  by (rule cli_ingest_one_resume) (simp_all add: migrated_database_def empty_content_def)

section \<open>A Redis server that cannot be reached\<close>

text \<open>The server's connection is made by the constructor of the coordinator.\<close>

definition connects_with :: "('j, 'c) outside \<Rightarrow> 'c redis_client \<Rightarrow> string \<Rightarrow> bool" where
  "connects_with U R script \<longleftrightarrow> (\<forall>uri.
     case make_redis_coordinator R script uri of
       Inr c \<Rightarrow> ou_connect U uri = Inr (ro_redis c)
     | Inl (Std_Exception e) \<Rightarrow> ou_connect U uri = Inl e
     | Inl Other_Exception \<Rightarrow> \<exists>e. ou_connect U uri = Inl e)"

text \<open>Where \<open>redis-health\<close> fails at the probe, the server gives up before it reads a request; where the
  server comes to serve, \<open>redis-health\<close> succeeds.\<close>

lemma unreachable_redis_ends_server:
  assumes "connects_with U R script" "parse_args args = (messages, Inr config)"
    and "\<not> rh_reachable (redis_ping R (the (cf_redis_uri config)))"
  shows "ss_output (server_main D U args lines) = [] \<and> ss_exit (server_main D U args lines) = refused_exit U config"
proof -
  have "\<exists>e. ou_connect U (the (cf_redis_uri config)) = Inl e"
    using spec [OF assms(1) [unfolded connects_with_def], of "the (cf_redis_uri config)"]
      unreachable_coordinator [OF assms(3), of script] by auto
  then show ?thesis
    by (intro main_gives_up [OF assms(2)])
      (auto simp: start_persistent_def start_ephemeral_def give_up_def split: sum.split prod.split)
qed

lemma redis_health_reachable:
  assumes "parse_redis_uri uri = Some parsed" "make_redis_coordinator R script uri = Inr c"
  shows "cmd_redis_health R [''--redis'', uri] =
    \<lparr>cr_out = [''OK: Redis reachable at '' @ redis_config_to_log_string parsed], cr_err = [], cr_status = Exited 0,
     cr_db = sqlite_open\<rparr>"
  using assms(1) coordinator_reachable [OF assms(2)]
  by (simp add: cmd_redis_health_def run_cli_def with_options_def option_map_def cli_options_def set_option_def print_out_def
      print_err_def act_modify_def act_bind_def act_return_def cli_world_def Let_def)

end
