(* ===== verification/Spec2Isabelle.thy ===== *)
theory Spec2Isabelle
  imports Sha256_Standard Hashing Domain_Model Redis_Coordinator Validation_Engine Matcher Audit_Log
    Repositories Json_Codecs Resume_Ingestor Tokenization Vector_Index Sqlite_Joins Sqlite_Audit_Log
    Index_Pipeline Verdicts In_Memory_World Server_Loop Restarts Concurrent_Appends Index_Rebuild
    Cli_Checks
begin

text \<open>
  A verification development for career-coordination-mcp, a program that matches a candidate's experience
  against job opportunities, validates what it finds against a constitution of rules, and coordinates the
  interactions that follow. It is a library with two front ends, a server that speaks JSON-RPC over its standard
  streams (\<open>apps/mcp_server\<close>) and a command line tool (\<open>apps/ccmcp_cli\<close>).

  \<^bold>\<open>How the parts interact.\<close> Resumes are read (\<open>src/ingest\<close>), cleaned, hashed
  and tokenized (\<open>src/tokenization\<close>); atoms, opportunities and resumes are embedded and indexed
  (\<open>src/embedding\<close>, \<open>src/vector\<close>, \<open>src/indexing\<close>). The application
  service (\<open>src/app\<close>) runs the pipelines: the matcher (\<open>src/matching\<close>) scores an
  opportunity against atoms, the validation engine (\<open>src/constitution\<close>) gives the verdict, a
  decision record is stored, a coordinator (\<open>src/interaction\<close>) applies events to the interaction
  state machine. Each pipeline appends events to the audit log (\<open>src/storage\<close>), a chain of SHA-256
  hashes per trace. The stores exist in memory and over SQLite, the coordinator in memory and over Redis. The
  server picks an implementation of each at its start, checks the audit chains, and serves one request per line;
  the tool opens the stores for one command.

  \<^bold>\<open>How the code is modelled.\<close> A struct or class is a record, an enumeration a datatype, an
  operation a function with the source's name. Code that cannot throw is a function of the state; code that
  throws or mutates shared objects is an action (\<open>Actions\<close>): it maps the state to a value or the
  text of an exception, and to the state after it, so that what happened before a throw stays. Strings are lists
  of bytes, \<open>std::map\<close> and \<open>std::set\<close> sorted lists (\<open>Ordered_Map\<close>,
  \<open>Ccmcp_Prelude\<close>), hashes 32- and 64-bit words. A \<open>double\<close> or \<open>float\<close> is
  the rational it denotes, rounded after each operation (\<open>Binary64\<close>, \<open>Vector_Index\<close>).
  Two workers on one Redis server, and threads that append to one audit log, are sequences of steps, one step for
  each round trip or each section that holds the lock.

  \<^bold>\<open>The theories,\<close> in the order of the code.

  \<^item> \<open>Ccmcp_Prelude\<close>, \<open>Actions\<close>, \<open>Ordered_Map\<close>,
    \<open>Std_Parse\<close>, \<open>Std_Sort\<close>, \<open>Binary64\<close>, \<open>Float_Bytes\<close>: what
    the program uses of C++ and its library; rounding is monotone, printing and parsing are inverse, sorting by
    a strict order is unique.
  \<^item> \<open>Normalization\<close>, \<open>Hashing\<close>, \<open>Sha256\<close>
    (\<open>src/core\<close>): text normalisation and its idempotence; FNV-1a and identifiers; SHA-256 with its
    table of constants as in \<open>sha256.cpp\<close>. \<open>Fips_180_4\<close> states the standard without using the
    model: on strings of bits, with the constants from the roots of primes; \<open>Sha256_Standard\<close> proves
    that the code computes it.
    \<open>Clock\<close>: the calendar date of a reading of the clock and its text, which orders as the
    readings do.
  \<^item> \<open>Domain_Model\<close>, \<open>Artifacts\<close>, \<open>Interaction\<close>,
    \<open>Decision_Record\<close>, \<open>Json_Codecs\<close> (\<open>src/domain\<close>): entities and their
    validation, the interaction state machine, and JSON forms that are read back as written.
    \<open>Json_Api\<close> is the interface of the JSON library: what it reads back, and what it prints.
  \<^item> \<open>Constitution\<close>, \<open>Validation_Engine\<close> (\<open>src/constitution\<close>): when
    each rule is silent, which reports are accepted, what an override can do.
  \<^item> \<open>Matcher\<close> (\<open>src/matching\<close>): the chosen atom and its evidence, bounds of the
    scores, independence of the order of the atoms, and what the hybrid mode lets in.
  \<^item> \<open>Hygiene\<close>, \<open>Format_Adapters\<close>, \<open>Resume_Ingestor\<close>
    (\<open>src/ingest\<close>), \<open>Tokenization\<close> (\<open>src/tokenization\<close>): the shape of a
    cleaned resume, which exactly the texts left alone have, ingestion as a fixed point, tokens that pass the token rules.
  \<^item> \<open>Vector_Index\<close>, \<open>Sqlite_Vectors\<close> (\<open>src/vector\<close>,
    \<open>src/embedding\<close>): the indexes in memory and over SQLite, when they agree and how they can
    differ.
  \<^item> \<open>Coordinator\<close>, \<open>Redis_Coordinator\<close> (\<open>src/interaction\<close>): the
    interface as a locale; the in-memory class and, one call at a time, the Redis class satisfy it. Under
    interleaving the Redis class still applies a key once, and a race that the interface forbids is exhibited.
    \<open>Redis_Config\<close>: the grammar of addresses. \<open>Redis_Connection\<close>: the probe of a
    server and the loading of the scripts.
  \<^item> \<open>Audit_Log\<close>, \<open>Repositories\<close> (\<open>src/storage\<close>): the in-memory
    stores; every trace of the log verifies, and a verified chain is bound to its last hash unless SHA-256
    collides.
  \<^item> \<open>Sqlite_Db\<close>, \<open>Sqlite_Stores\<close>, \<open>Sqlite_Refinement\<close>,
    \<open>Sqlite_Joins\<close>, \<open>Sqlite_Audit_Log\<close>, \<open>Index_Runs\<close>
    (\<open>src/storage/sqlite\<close>, \<open>src/indexing\<close>): migrations, the tables, and refinement of
    the in-memory stores. \<open>Concurrent_Appends\<close>: which interleavings of appending threads leave
    chains that verify, and one that does not.
  \<^item> \<open>Services\<close>, \<open>App_Service\<close>, \<open>Index_Pipeline\<close>,
    \<open>Verdicts\<close> (\<open>src/app\<close>, \<open>src/indexing\<close>): the pipelines over any
    services, the audit trail each leaves on success and on failure, and the verdicts of a match.
    \<open>Index_Steps\<close>, \<open>Index_Rebuild\<close>: what a build leaves in the tables of the
    index, and that the next one skips every artifact.
  \<^item> \<open>Mcp_Protocol\<close>, \<open>Tool_Handlers\<close>, \<open>Server_Config\<close>,
    \<open>Server_Loop\<close>, \<open>In_Memory_World\<close>, \<open>Startup\<close>,
    \<open>Startup_Checks\<close>, \<open>Append_Only\<close>, \<open>Restarts\<close> (\<open>apps/mcp_server\<close>):
    the server; the answer JSON-RPC asks for to each line, what stops the server, which databases it serves, that the
    audit log of a database is only appended to, and when the next session on it is served.
  \<^item> \<open>Cli\<close>, \<open>Cli_Checks\<close> (\<open>apps/ccmcp_cli\<close>): the commands of the
    tool and what they do to a database.

  \<^bold>\<open>Interfaces.\<close> \<open>normalizer\<close>, \<open>comparison\<close>,
  \<open>json_library\<close>, \<open>json_text\<close>, \<open>json_printing\<close>, \<open>redis_server\<close>,
  \<open>coordinator\<close>, \<open>idempotent_coordinator\<close>, \<open>repository\<close>,
  \<open>audit_store\<close>, \<open>audit_file\<close>, \<open>stored_table\<close>, \<open>tokenization_provider\<close>,
  \<open>service_keeps\<close> and \<open>service_world\<close> are locales; each is interpreted on the model of
  the classes that implement it, and the four that describe foreign code on concrete instances (JSON
  printers, of which one refuses some text, and a map of maps for Redis).

  \<^bold>\<open>Bounds.\<close> No loop of the program has fuel: each is a structural recursion or a function
  with a measure (the only fuel is in the concrete JSON reader of \<open>Json_Api\<close>, where the length of
  the text is proved to be enough), and the server's loop is a recursion on the lines of its input. Index
  arithmetic that can wrap (the PDF scanner, \<open>size_t\<close> read from JSON) wraps in the model. Counters
  of identifiers are 64-bit words; those of transitions, audit events and index runs are unbounded numbers, which
  differ from the code's only after more than \<open>2 ^ 31\<close> steps.

  \<^bold>\<open>Parameters.\<close> The JSON library, libzip and pugixml, the calls of the Redis client and its
  server, the files, the readings of the clock, the opening of databases, the making of the directory of a vector
  file, and the engine's choice among rows without a total order.

  \<^bold>\<open>Not modelled.\<close> Overflow, infinities, NaN and the negative zero of floating point
  numbers; failures of the SQLite engine and of the file system other than opening a file and making a directory; the order in which
  \<open>std::sort\<close> leaves equivalent elements, and its behaviour under the comparison of the vector
  indexes where that is no strict order (the model sorts stably); threads of one process beyond the atomicity of
  a locked section; readings of the clock before 1970;
  \<open>contact.h\<close> and \<open>resume.h\<close>, which no operation uses. The tool's commands print lines
  in two streams, and their interleaving is not kept.
\<close>

end
